(* ===== verification/Prelude.thy ===== *)
theory Prelude
  imports Main "HOL-Library.List_Lexorder" "HOL-Library.Char_ord" "HOL-Library.Option_ord"
    "HOL-Library.Product_Lexorder"
begin

text \<open>
  Shared vocabulary of the development: byte strings, the ASCII predicates of the Rust standard
  library, windows of slices, joining and splitting of strings, and the lemma collections the
  component theories add to. A Rust \<open>str\<close> is the list of its UTF-8 bytes, so \<open>string\<close> (a list of
  8-bit characters) is the type of both \<open>str\<close> and \<open>[u8]\<close>; the lexicographic order of
  \<^theory_text>\<open>List_Lexorder\<close> over \<^theory_text>\<open>Char_ord\<close> is then the \<open>Ord\<close> of \<open>str\<close>, and
  \<^theory_text>\<open>Option_ord\<close> and \<^theory_text>\<open>Product_Lexorder\<close> are the derived orders of
  \<open>Option\<close> and of structs compared field by field.
\<close>

named_theorems decreasing "parsing steps consume input"
named_theorems btree_wf "operations preserve the order invariant of BTreeSet and BTreeMap values"

subsection \<open>Bytes\<close>

type_synonym bytes = string

abbreviation byte :: "char \<Rightarrow> nat" where
  "byte c \<equiv> (of_char c :: nat)"

definition u32_max :: nat where
  "u32_max = 4294967295"

definition u64_max :: nat where
  "u64_max = 18446744073709551615"

text \<open>\<open>u8::is_ascii_whitespace\<close> (space, tab, line feed, form feed, carriage return) and its
  siblings of the standard library.\<close>

definition is_ascii_whitespace :: "char \<Rightarrow> bool" where
  "is_ascii_whitespace c \<longleftrightarrow> (let n = byte c in n = 32 \<or> n = 9 \<or> n = 10 \<or> n = 12 \<or> n = 13)"

definition is_ascii_digit :: "char \<Rightarrow> bool" where
  "is_ascii_digit c \<longleftrightarrow> (let n = byte c in 48 \<le> n \<and> n \<le> 57)"

definition is_ascii_lowercase :: "char \<Rightarrow> bool" where
  "is_ascii_lowercase c \<longleftrightarrow> (let n = byte c in 97 \<le> n \<and> n \<le> 122)"

definition is_ascii_uppercase :: "char \<Rightarrow> bool" where
  "is_ascii_uppercase c \<longleftrightarrow> (let n = byte c in 65 \<le> n \<and> n \<le> 90)"

definition is_ascii_alphabetic :: "char \<Rightarrow> bool" where
  "is_ascii_alphabetic c \<longleftrightarrow> is_ascii_lowercase c \<or> is_ascii_uppercase c"

definition is_ascii_alphanumeric :: "char \<Rightarrow> bool" where
  "is_ascii_alphanumeric c \<longleftrightarrow> is_ascii_alphabetic c \<or> is_ascii_digit c"

definition is_ascii :: "char \<Rightarrow> bool" where
  "is_ascii c \<longleftrightarrow> byte c < 128"

definition ascii_lower :: "char \<Rightarrow> char" where
  "ascii_lower c = (if is_ascii_uppercase c then char_of (byte c + 32) else c)"

definition to_ascii_lowercase :: "string \<Rightarrow> string" where
  "to_ascii_lowercase s = map ascii_lower s"

text \<open>UTF-8: a continuation byte is \<open>0x80..0xBF\<close>; \<open>str\<close> may be sliced only where the byte that
  follows is not one (\<open>is_char_boundary\<close>), and slicing elsewhere panics. The lead byte of a
  character gives its length.\<close>

definition is_continuation :: "char \<Rightarrow> bool" where
  "is_continuation c \<longleftrightarrow> (let n = byte c in 128 \<le> n \<and> n < 192)"

definition is_char_boundary :: "string \<Rightarrow> bool" where
  "is_char_boundary rest \<longleftrightarrow> (case rest of [] \<Rightarrow> True | c # _ \<Rightarrow> \<not> is_continuation c)"

definition len_utf8 :: "char \<Rightarrow> nat" where
  "len_utf8 c = (let n = byte c in if n < 128 then 1 else if n < 224 then 2 else if n < 240 then 3 else 4)"

lemma len_utf8_pos [simp]: "0 < len_utf8 c"
  by (simp add: len_utf8_def Let_def)

lemma ascii_boundary: "\<forall>c \<in> set s. is_ascii c \<Longrightarrow> is_char_boundary s"
  by (auto simp: is_char_boundary_def is_continuation_def is_ascii_def Let_def split: list.splits)

lemma len_utf8_ascii: "is_ascii c \<Longrightarrow> len_utf8 c = 1"
  by (simp add: len_utf8_def is_ascii_def Let_def)

subsection \<open>Slices\<close>

definition starts_with :: "'a list \<Rightarrow> 'a list \<Rightarrow> bool" where
  "starts_with p s \<longleftrightarrow> take (length p) s = p"

text \<open>\<open>haystack.windows(needle.len()).position(|window| window == needle)\<close>.\<close>

fun position_window :: "'a list \<Rightarrow> 'a list \<Rightarrow> nat option" where
  "position_window [] needle = (if needle = [] then Some 0 else None)"
| "position_window (x # xs) needle =
     (if starts_with needle (x # xs) then Some 0 else map_option Suc (position_window xs needle))"

lemma position_window_le:
  "position_window xs needle = Some i \<Longrightarrow> i + length needle \<le> length xs"
proof (induction xs needle arbitrary: i rule: position_window.induct)
  case (2 x xs needle)
  then show ?case
    by (cases "starts_with needle (x # xs)")
      (auto simp: starts_with_def dest: arg_cong [of _ _ length])
qed (auto split: if_splits)

lemma position_window_found:
  "position_window xs needle = Some i \<Longrightarrow> take (length needle) (drop i xs) = needle"
  by (induction xs needle arbitrary: i rule: position_window.induct)
    (auto simp: starts_with_def split: if_splits)

lemma position_window_first:
  "position_window xs needle = Some i \<Longrightarrow> j < i \<Longrightarrow> take (length needle) (drop j xs) \<noteq> needle"
proof (induction xs needle arbitrary: i j rule: position_window.induct)
  case (2 x xs needle)
  then show ?case
    by (cases j) (auto simp: starts_with_def split: if_splits)
qed (auto split: if_splits)

lemma position_window_None:
  "position_window xs needle = None \<longleftrightarrow> (\<forall>pre post. xs \<noteq> pre @ needle @ post)"
proof (induction xs needle rule: position_window.induct)
  case (2 x xs needle)
  show ?case
  proof (cases "starts_with needle (x # xs)")
    case True
    then have "x # xs = [] @ needle @ drop (length needle) (x # xs)"
      unfolding starts_with_def by (metis append_Nil append_take_drop_id)
    with True show ?thesis by (metis option.distinct(1) position_window.simps(2))
  next
    case False
    then have no: "x # xs \<noteq> needle @ post" for post
      by (metis append_eq_conv_conj starts_with_def)
    have "(\<forall>pre post. x # xs \<noteq> pre @ needle @ post) \<longleftrightarrow> (\<forall>pre post. xs \<noteq> pre @ needle @ post)"
      using no by (metis append_Cons append_Nil list.exhaust list.inject)
    with False 2 show ?thesis by simp
  qed
qed auto

subsection \<open>Joining and splitting\<close>

fun join :: "'a list \<Rightarrow> 'a list list \<Rightarrow> 'a list" where
  "join sep [] = []"
| "join sep [x] = x"
| "join sep (x # y # zs) = x @ sep @ join sep (y # zs)"

text \<open>\<open>str::split\<close> with a character predicate: always at least one part.\<close>

fun split_on :: "('a \<Rightarrow> bool) \<Rightarrow> 'a list \<Rightarrow> 'a list list" where
  "split_on p [] = [[]]"
| "split_on p (c # cs) =
     (if p c then [] # split_on p cs
      else (case split_on p cs of [] \<Rightarrow> [[c]] | w # ws \<Rightarrow> (c # w) # ws))"

lemma split_on_nonempty [simp]: "split_on p s \<noteq> []"
  by (induction s) (auto split: list.splits)

lemma join_Cons: "ws \<noteq> [] \<Longrightarrow> join sep (w # ws) = w @ sep @ join sep ws"
  by (cases ws) auto

lemma join_split_on: "join [c] (split_on (\<lambda>x. x = c) s) = s"
proof (induction s)
  case (Cons a s)
  then show ?case
    by (cases "split_on (\<lambda>x. x = c) s"; cases "tl (split_on (\<lambda>x. x = c) s)")
      (auto simp: join_Cons)
qed simp

subsection \<open>Options and results\<close>

text \<open>The \<open>?\<close> operator on \<open>Result\<close>, and \<open>bail!\<close> unless a condition holds.\<close>

definition and_then :: "'e + 'a \<Rightarrow> ('a \<Rightarrow> 'e + 'b) \<Rightarrow> 'e + 'b" where
  "and_then m f = (case m of Inl e \<Rightarrow> Inl e | Inr x \<Rightarrow> f x)"

definition ensure :: "bool \<Rightarrow> 'e \<Rightarrow> 'e + unit" where
  "ensure b e = (if b then Inr () else Inl e)"

lemma and_then_simps [simp]: "and_then (Inl e) f = Inl e" "and_then (Inr x) f = f x"
  by (simp_all add: and_then_def)

lemma and_then_Inr: "and_then m f = Inr y \<longleftrightarrow> (\<exists>x. m = Inr x \<and> f x = Inr y)"
  by (cases m) auto

lemma and_then_Inr_unit: "and_then m f = Inr y \<longleftrightarrow> m = Inr () \<and> f () = Inr y"
  by (cases m) auto

lemma ensure_Inr [simp]: "ensure b e = Inr u \<longleftrightarrow> b"
  by (simp add: ensure_def)

lemma ensure_cases: "ensure b e = (if b then Inr () else Inl e)"
  by (simp add: ensure_def)

text \<open>A \<open>for\<close> loop whose body only checks.\<close>

fun check_all :: "('a \<Rightarrow> 'e + unit) \<Rightarrow> 'a list \<Rightarrow> 'e + unit" where
  "check_all f [] = Inr ()"
| "check_all f (x # xs) = and_then (f x) (\<lambda>_. check_all f xs)"

lemma check_all_Inr: "check_all f xs = Inr u \<longleftrightarrow> (\<forall>x \<in> set xs. f x = Inr ())"
  by (induction xs) (auto simp: and_then_Inr)

text \<open>Sequencing of a fallible step over a list, stopping at the first error (\<open>?\<close> in a loop).\<close>

fun fold_result :: "('a \<Rightarrow> 's \<Rightarrow> 'e + 's) \<Rightarrow> 'a list \<Rightarrow> 's \<Rightarrow> 'e + 's" where
  "fold_result f [] s = Inr s"
| "fold_result f (x # xs) s = (case f x s of Inl e \<Rightarrow> Inl e | Inr s' \<Rightarrow> fold_result f xs s')"

lemma fold_result_inv:
  assumes "\<And>x s s'. x \<in> set xs \<Longrightarrow> P s \<Longrightarrow> f x s = Inr s' \<Longrightarrow> P s'"
    and "P s" and "fold_result f xs s = Inr s'"
  shows "P s'"
  using assms
proof (induction xs arbitrary: s)
  case (Cons x xs)
  then obtain t where "f x s = Inr t" and "fold_result f xs t = Inr s'"
    by (auto split: sum.splits)
  then show ?case using Cons by (metis list.set_intros(1) list.set_intros(2))
qed simp

text \<open>Collecting the results of a fallible function over a list (\<open>collect::<Result<Vec<_>>>\<close>).\<close>

fun map_result :: "('a \<Rightarrow> 'e + 'b) \<Rightarrow> 'a list \<Rightarrow> 'e + 'b list" where
  "map_result f [] = Inr []"
| "map_result f (x # xs) = and_then (f x) (\<lambda>y. and_then (map_result f xs) (\<lambda>ys. Inr (y # ys)))"

lemma map_result_Inr:
  "map_result f xs = Inr ys \<Longrightarrow> length ys = length xs \<and> (\<forall>y \<in> set ys. \<exists>x \<in> set xs. f x = Inr y)"
proof (induction xs arbitrary: ys)
  case (Cons x xs)
  then obtain y zs where y: "f x = Inr y" "map_result f xs = Inr zs" "ys = y # zs"
    by (auto simp: and_then_Inr)
  with Cons.IH [OF y(2)] show ?case by auto
qed simp

lemma map_result_all:
  "map_result f xs = Inr ys \<Longrightarrow> x \<in> set xs \<Longrightarrow> \<exists>y \<in> set ys. f x = Inr y"
  by (induction xs arbitrary: ys) (auto simp: and_then_Inr)

end
