(* ===== verification/Json.thy ===== *)
theory Json
  imports Prelude "HOL-Library.Word"
begin

text \<open>
  JSON documents as \<open>serde_json::Value\<close>: numbers are an unsigned or a negative 64-bit integer or an
  IEEE-754 double (its bits). The fields of an object are the list its map iterates.
\<close>

datatype json_number = PosInt nat | NegInt int | Float64 "64 word"

datatype json =
  JNull | JBool bool | JNumber json_number | JString string | JArray "json list"
| JObject "(string \<times> json) list"

definition i64_max :: int where
  "i64_max = 9223372036854775807"

definition as_u64 :: "json_number \<Rightarrow> nat option" where
  "as_u64 n = (case n of PosInt v \<Rightarrow> Some v | _ \<Rightarrow> None)"

definition as_i64 :: "json_number \<Rightarrow> int option" where
  "as_i64 n =
     (case n of PosInt v \<Rightarrow> if int v \<le> i64_max then Some (int v) else None
      | NegInt v \<Rightarrow> Some v | Float64 _ \<Rightarrow> None)"

text \<open>A double is finite unless its exponent bits are all ones; integers convert to finite doubles.\<close>

definition is_finite_bits :: "64 word \<Rightarrow> bool" where
  "is_finite_bits w \<longleftrightarrow> drop_bit 52 (take_bit 63 w) \<noteq> (2047 :: 64 word)"

definition has_finite_f64 :: "json_number \<Rightarrow> bool" where
  "has_finite_f64 n = (case n of Float64 w \<Rightarrow> is_finite_bits w | _ \<Rightarrow> True)"

end
