(* ===== verification/Redaction.thy ===== *)
theory Redaction
  imports Json "HOL-Library.Multiset"
begin

text \<open>
  Secret redaction of captured output (\<open>src/execution/redaction.rs\<close>): the constructor orders the
  secrets longest first, \<open>redact_bounded\<close> replaces them one after the other and then proves, by a
  second scan, that none survives. \<open>windows(0)\<close> panics, so the functions that slide a window
  return \<open>None\<close> for an empty needle; the constructor's check is what excludes it.
\<close>

datatype redact_error =
  EmptySecret | InputExceedsCeiling | OutputExceedsCeiling | RedactionUnproven | WindowPanic

record redactor =
  secrets :: "bytes list"

definition redactor_new :: "bytes list \<Rightarrow> redact_error + redactor" where
  "redactor_new values =
     (if \<exists>s \<in> set values. s = [] then Inl EmptySecret
      else Inr \<lparr>secrets = remdups_adj (sort_key (\<lambda>s. (- int (length s), s)) values)\<rparr>)"

definition find_bytes :: "bytes \<Rightarrow> bytes \<Rightarrow> nat option" where
  "find_bytes haystack needle = position_window haystack needle"

function replace_bytes :: "bytes \<Rightarrow> bytes \<Rightarrow> bytes \<Rightarrow> bytes option" where
  "replace_bytes input needle replacement =
     (if needle = [] then None
      else (case find_bytes input needle of
              None \<Rightarrow> Some input
            | Some i \<Rightarrow>
                map_option (\<lambda>tail. take i input @ replacement @ tail)
                  (replace_bytes (drop (i + length needle) input) needle replacement)))"
  by pat_completeness auto
termination
proof (relation "measure (\<lambda>(input, _, _). length input)", simp)
  fix input needle replacement :: bytes and i
  assume "needle \<noteq> []" and "find_bytes input needle = Some i"
  then have "0 < length needle" and "i + length needle \<le> length input"
    by (auto simp: find_bytes_def dest: position_window_le)
  then have "length input - (i + length needle) < length input" by linarith
  then show "((drop (i + length needle) input, needle, replacement), input, needle, replacement)
      \<in> measure (\<lambda>(input, _, _). length input)"
    by simp
qed

declare replace_bytes.simps [simp del]

fun redact_all :: "bytes list \<Rightarrow> bytes \<Rightarrow> bytes option" where
  "redact_all [] output = Some output"
| "redact_all (s # ss) output =
     (case replace_bytes output s ''[REDACTED]'' of None \<Rightarrow> None | Some out \<Rightarrow> redact_all ss out)"

definition verify_bytes :: "redactor \<Rightarrow> bytes \<Rightarrow> redact_error + unit" where
  "verify_bytes r v =
     (if \<exists>s \<in> set (secrets r). s = [] then Inl WindowPanic
      else if \<exists>s \<in> set (secrets r). find_bytes v s \<noteq> None then Inl RedactionUnproven
      else Inr ())"

definition redact_bounded :: "redactor \<Rightarrow> bytes \<Rightarrow> nat \<Rightarrow> redact_error + bytes" where
  "redact_bounded r input max_bytes =
     (if max_bytes < min (length input) u64_max then Inl InputExceedsCeiling
      else (case redact_all (secrets r) input of
              None \<Rightarrow> Inl WindowPanic
            | Some output \<Rightarrow>
                if max_bytes < min (length output) u64_max then Inl OutputExceedsCeiling
                else (case verify_bytes r output of
                        Inl e \<Rightarrow> Inl e
                      | Inr _ \<Rightarrow> Inr output)))"

fun verify_json :: "redactor \<Rightarrow> json \<Rightarrow> redact_error + unit"
and verify_array :: "redactor \<Rightarrow> json list \<Rightarrow> redact_error + unit"
and verify_object :: "redactor \<Rightarrow> (string \<times> json) list \<Rightarrow> redact_error + unit" where
  "verify_json r (JString v) = verify_bytes r v"
| "verify_json r (JArray vs) = verify_array r vs"
| "verify_json r (JObject fs) = verify_object r fs"
| "verify_json r JNull = Inr ()"
| "verify_json r (JBool b) = Inr ()"
| "verify_json r (JNumber n) = Inr ()"
| "verify_array r [] = Inr ()"
| "verify_array r (v # vs) =
     (case verify_json r v of Inl e \<Rightarrow> Inl e | Inr _ \<Rightarrow> verify_array r vs)"
| "verify_object r [] = Inr ()"
| "verify_object r ((k, v) # fs) =
     (case verify_json r v of Inl e \<Rightarrow> Inl e | Inr _ \<Rightarrow> verify_object r fs)"

subsection \<open>What a secret-free text is\<close>

definition occurs_in :: "bytes \<Rightarrow> bytes \<Rightarrow> bool" where
  "occurs_in needle hay \<longleftrightarrow> (\<exists>pre post. hay = pre @ needle @ post)"

lemma find_bytes_occurs: "find_bytes hay needle = None \<longleftrightarrow> \<not> occurs_in needle hay"
  by (auto simp: find_bytes_def occurs_in_def position_window_None)

lemma set_secrets: "redactor_new vs = Inr r \<Longrightarrow> set (secrets r) = set vs"
  by (auto simp: redactor_new_def split: if_splits)

lemma secrets_nonempty: "redactor_new vs = Inr r \<Longrightarrow> s \<in> set (secrets r) \<Longrightarrow> s \<noteq> []"
  by (auto simp: redactor_new_def split: if_splits)

lemma verify_bytes_Inr:
  "verify_bytes r v = Inr u \<longleftrightarrow> (\<forall>s \<in> set (secrets r). s \<noteq> [] \<and> \<not> occurs_in s v)"
  by (auto simp: verify_bytes_def find_bytes_occurs [symmetric])

lemma replace_bytes_defined: "needle \<noteq> [] \<Longrightarrow> \<exists>out. replace_bytes input needle rep = Some out"
proof (induction input needle rep rule: replace_bytes.induct)
  case (1 input needle rep)
  show ?case
    using 1 by (subst replace_bytes.simps) (auto split: option.splits)
qed

lemma replace_bytes_absent:
  "needle \<noteq> [] \<Longrightarrow> \<not> occurs_in needle input \<Longrightarrow> replace_bytes input needle rep = Some input"
  by (subst replace_bytes.simps) (simp add: find_bytes_occurs [THEN iffD2])

lemma redact_all_defined: "\<forall>s \<in> set ss. s \<noteq> [] \<Longrightarrow> \<exists>out. redact_all ss input = Some out"
proof (induction ss arbitrary: input)
  case (Cons s ss)
  then obtain mid where "replace_bytes input s ''[REDACTED]'' = Some mid"
    using replace_bytes_defined by (metis list.set_intros(1))
  with Cons show ?case by simp
qed simp

lemma redact_all_absent:
  "\<forall>s \<in> set ss. s \<noteq> [] \<and> \<not> occurs_in s input \<Longrightarrow> redact_all ss input = Some input"
  by (induction ss) (auto simp: replace_bytes_absent)

lemma sorted_lengths:
  "sorted (map (\<lambda>s. (- int (length s), s)) xs) \<Longrightarrow> sorted_wrt (\<lambda>a b. length b \<le> length a) xs"
  unfolding sorted_map by (rule sorted_wrt_mono_rel) (auto simp: less_eq_prod_def)

lemma sorted_wrt_remdups_adj: "sorted_wrt P xs \<Longrightarrow> sorted_wrt P (remdups_adj xs)"
  by (induction xs rule: remdups_adj.induct) auto

lemma sorted_distinct_adj:
  assumes "inj_on f (set xs)" and "sorted (map f xs)"
  shows "distinct (remdups_adj xs)"
  using assms
proof (induction xs rule: remdups_adj.induct)
  case (3 x y xs)
  show ?case
  proof (cases "x = y")
    case True
    with 3 show ?thesis by (auto simp: inj_on_def)
  next
    case False
    have "x \<notin> set (y # xs)"
    proof
      assume "x \<in> set (y # xs)"
      with 3 have "f x \<le> f y" and "f y \<le> f x" by auto
      then have "f x = f y" by simp
      with 3 False show False by (auto simp: inj_on_def)
    qed
    with 3 False show ?thesis by (auto simp: inj_on_def)
  qed
qed auto

text \<open>The string values of a JSON document, at any depth; the keys of its objects are not among
  them.\<close>

fun json_strings :: "json \<Rightarrow> string list"
and array_strings :: "json list \<Rightarrow> string list"
and object_strings :: "(string \<times> json) list \<Rightarrow> string list" where
  "json_strings (JString v) = [v]"
| "json_strings (JArray vs) = array_strings vs"
| "json_strings (JObject fs) = object_strings fs"
| "json_strings JNull = []"
| "json_strings (JBool b) = []"
| "json_strings (JNumber n) = []"
| "array_strings [] = []"
| "array_strings (v # vs) = json_strings v @ array_strings vs"
| "object_strings [] = []"
| "object_strings ((k, v) # fs) = json_strings v @ object_strings fs"

lemma verify_json_strings:
  "verify_json r j = Inr () \<longleftrightarrow> (\<forall>v \<in> set (json_strings j). verify_bytes r v = Inr ())"
  "verify_array r vs = Inr () \<longleftrightarrow> (\<forall>v \<in> set (array_strings vs). verify_bytes r v = Inr ())"
  "verify_object r fs = Inr () \<longleftrightarrow> (\<forall>v \<in> set (object_strings fs). verify_bytes r v = Inr ())"
  by (induction r j and r vs and r fs rule: verify_json_verify_array_verify_object.induct)
    (auto split: sum.splits)

subsection \<open>Properties\<close>

text \<open>C7: whatever \<open>redact_bounded\<close> returns contains no secret the redactor was built from and
  respects the byte ceiling (the ceiling being below \<open>u64::MAX\<close>, where the code's saturating
  conversion of lengths is exact).\<close>

theorem redacted_output_has_no_secret:
  assumes "redactor_new vs = Inr r" and "redact_bounded r input max_bytes = Inr out"
    and "max_bytes < u64_max" and "s \<in> set vs"
  shows "\<not> occurs_in s out \<and> length out \<le> max_bytes"
proof -
  from assms(2) have "verify_bytes r out = Inr ()" and "min (length out) u64_max \<le> max_bytes"
    by (auto simp: redact_bounded_def split: if_splits option.splits sum.splits)
  moreover have "s \<in> set (secrets r)"
    using assms(1,4) by (simp add: set_secrets)
  ultimately show ?thesis
    using assms(3) by (auto simp: verify_bytes_Inr)
qed

lemma redacted_output_has_no_secret_witness:
  "\<not> occurs_in ''token-value'' ''Bearer [REDACTED]'' \<and> length ''Bearer [REDACTED]'' \<le> 64"
proof (rule redacted_output_has_no_secret)
  show "redactor_new [''token-value''] = Inr \<lparr>secrets = [''token-value'']\<rparr>"
    by (simp add: redactor_new_def)
  show "redact_bounded \<lparr>secrets = [''token-value'']\<rparr> ''Bearer token-value'' 64 =
      Inr ''Bearer [REDACTED]''"
    by (simp add: redact_bounded_def replace_bytes.simps find_bytes_def starts_with_def
        verify_bytes_def u64_max_def)
qed (simp_all add: u64_max_def)


text \<open>C34: a redactor that could be built never panics on a zero-width window, whatever it is given,
  and output without a secret within the ceiling is passed through byte for byte.\<close>

theorem redaction_total_and_transparent:
  assumes "redactor_new vs = Inr r"
  shows "redact_bounded r input max_bytes \<noteq> Inl WindowPanic
    \<and> ((\<forall>s \<in> set vs. \<not> occurs_in s input) \<and> length input \<le> max_bytes
        \<longrightarrow> redact_bounded r input max_bytes = Inr input)"
proof (intro conjI impI)
  have ne: "\<forall>s \<in> set (secrets r). s \<noteq> []"
    using assms secrets_nonempty by blast
  then obtain out where "redact_all (secrets r) input = Some out"
    using redact_all_defined by blast
  moreover have "verify_bytes r v \<noteq> Inl WindowPanic" for v
    using ne by (auto simp: verify_bytes_def)
  ultimately show "redact_bounded r input max_bytes \<noteq> Inl WindowPanic"
    by (auto simp: redact_bounded_def split: sum.splits)
next
  have ne: "\<forall>s \<in> set (secrets r). s \<noteq> []"
    using assms secrets_nonempty by blast
  assume clean: "(\<forall>s \<in> set vs. \<not> occurs_in s input) \<and> length input \<le> max_bytes"
  with ne assms have all: "\<forall>s \<in> set (secrets r). s \<noteq> [] \<and> \<not> occurs_in s input"
    by (simp add: set_secrets)
  then have "verify_bytes r input = Inr ()"
    by (simp add: verify_bytes_Inr)
  with clean show "redact_bounded r input max_bytes = Inr input"
    by (simp add: redact_bounded_def redact_all_absent [OF all])
qed

lemma redaction_total_and_transparent_witness:
  "redact_bounded \<lparr>secrets = [''key'']\<rparr> ''plain'' 8 = Inr ''plain''"
proof -
  have new: "redactor_new [''key''] = Inr \<lparr>secrets = [''key'']\<rparr>"
    by (simp add: redactor_new_def)
  have "position_window ''plain'' ''key'' = None"
    by (simp add: starts_with_def)
  then have "(\<forall>s \<in> set [''key'']. \<not> occurs_in s ''plain'') \<and> length ''plain'' \<le> 8"
    by (simp add: find_bytes_occurs [symmetric] find_bytes_def)
  then show ?thesis
    using redaction_total_and_transparent [OF new, of "''plain''" 8] by blast
qed

text \<open>\<open>verify_json\<close> accepts a document exactly when none of its string values, at any depth,
  contains a secret. (Object keys are no string values: they are not scanned.)\<close>

theorem verify_json_covers_values:
  assumes "redactor_new vs = Inr r"
  shows "verify_json r j = Inr () \<longleftrightarrow> (\<forall>v \<in> set (json_strings j). \<forall>s \<in> set vs. \<not> occurs_in s v)"
  using assms secrets_nonempty [OF assms]
  by (auto simp: verify_json_strings(1) verify_bytes_Inr set_secrets)

lemma verify_json_covers_values_witness:
  "verify_json \<lparr>secrets = [''k'']\<rparr> (JObject [(''k'', JString ''v'')]) = Inr ()"
proof -
  have new: "redactor_new [''k''] = Inr \<lparr>secrets = [''k'']\<rparr>"
    by (simp add: redactor_new_def)
  have "find_bytes ''v'' ''k'' = None"
    by (simp add: find_bytes_def starts_with_def)
  then show ?thesis
    by (subst verify_json_covers_values [OF new]) (simp add: find_bytes_occurs)
qed

text \<open>The secrets are kept without repetition and longest first, so that a secret that contains
  another is replaced before its part is.\<close>

theorem secrets_longest_first:
  assumes "redactor_new vs = Inr r"
  shows "sorted_wrt (\<lambda>a b. length b \<le> length a) (secrets r) \<and> distinct (secrets r)
    \<and> set (secrets r) = set vs"
proof -
  let ?key = "\<lambda>s::bytes. (- int (length s), s)"
  have r: "secrets r = remdups_adj (sort_key ?key vs)"
    using assms by (auto simp: redactor_new_def split: if_splits)
  have sorted: "sorted (map ?key (sort_key ?key vs))"
    by simp
  have inj: "inj_on ?key (set (sort_key ?key vs))"
    by (auto simp: inj_on_def)
  show ?thesis
    using sorted_wrt_remdups_adj [OF sorted_lengths [OF sorted]] sorted_distinct_adj [OF inj sorted]
      set_secrets [OF assms] unfolding r by blast
qed

lemma secrets_longest_first_witness:
  "distinct [''token-value'', ''key'']"
proof -
  have "redactor_new [''key'', ''token-value'', ''key''] =
      Inr \<lparr>secrets = [''token-value'', ''key'']\<rparr>"
    by (simp add: redactor_new_def sort_key_def)
  from secrets_longest_first [OF this] show ?thesis by simp
qed

end
