(* ===== verification/BTree.thy ===== *)
theory BTree
  imports Prelude
begin

text \<open>
  \<open>BTreeSet\<close> and \<open>BTreeMap\<close> values as the lists their iterators yield: strictly increasing, with
  insertion at the place of the key. Every iteration order of the program is therefore the one of
  the source. The two interfaces the components rely on are stated as locales and interpreted on
  these definitions.
\<close>

type_synonym 'a bset = "'a list"
type_synonym ('k, 'v) bmap = "('k \<times> 'v) list"

definition bset_wf :: "'a::linorder bset \<Rightarrow> bool" where
  "bset_wf xs \<longleftrightarrow> sorted_wrt (<) xs"

fun bset_insert :: "'a::linorder \<Rightarrow> 'a bset \<Rightarrow> 'a bset" where
  "bset_insert x [] = [x]"
| "bset_insert x (y # ys) =
     (if x < y then x # y # ys else if x = y then y # ys else y # bset_insert x ys)"

definition bset_extend :: "'a::linorder list \<Rightarrow> 'a bset \<Rightarrow> 'a bset" where
  "bset_extend xs s = fold bset_insert xs s"

definition bset_of :: "'a::linorder list \<Rightarrow> 'a bset" where
  "bset_of xs = bset_extend xs []"

definition bmap_wf :: "('k::linorder, 'v) bmap \<Rightarrow> bool" where
  "bmap_wf m \<longleftrightarrow> sorted_wrt (<) (map fst m)"

fun bmap_insert :: "'k::linorder \<Rightarrow> 'v \<Rightarrow> ('k, 'v) bmap \<Rightarrow> ('k, 'v) bmap" where
  "bmap_insert k v [] = [(k, v)]"
| "bmap_insert k v ((j, w) # m) =
     (if k < j then (k, v) # (j, w) # m else if k = j then (k, v) # m
      else (j, w) # bmap_insert k v m)"

definition bmap_get :: "('k, 'v) bmap \<Rightarrow> 'k \<Rightarrow> 'v option" where
  "bmap_get m k = map_of m k"

text \<open>\<open>*map.entry(k).or_default()\<close> followed by an update of the entry.\<close>

definition bmap_entry :: "'k::linorder \<Rightarrow> 'v \<Rightarrow> ('v \<Rightarrow> 'v) \<Rightarrow> ('k, 'v) bmap \<Rightarrow> ('k, 'v) bmap" where
  "bmap_entry k d f m = bmap_insert k (f (case bmap_get m k of None \<Rightarrow> d | Some v \<Rightarrow> v)) m"

lemma set_bset_insert [simp]: "set (bset_insert x s) = insert x (set s)"
  by (induction s) auto

lemma set_bset_extend [simp]: "set (bset_extend xs s) = set xs \<union> set s"
  by (induction xs arbitrary: s) (auto simp: bset_extend_def)

lemma set_bset_of [simp]: "set (bset_of xs) = set xs"
  by (simp add: bset_of_def)

lemma bset_wf_Nil [simp, btree_wf]: "bset_wf []"
  by (simp add: bset_wf_def)

lemma bset_wf_insert [btree_wf]: "bset_wf s \<Longrightarrow> bset_wf (bset_insert x s)"
  unfolding bset_wf_def
proof (induction s)
  case (Cons y ys)
  then show ?case by (auto simp: not_less_iff_gr_or_eq)
qed simp

lemma bset_wf_extend [btree_wf]: "bset_wf s \<Longrightarrow> bset_wf (bset_extend xs s)"
  by (induction xs arbitrary: s) (auto simp: bset_extend_def bset_wf_insert)

lemma bset_wf_of [simp, btree_wf]: "bset_wf (bset_of xs)"
  by (simp add: bset_of_def bset_wf_extend)

lemma bset_wf_distinct: "bset_wf s \<Longrightarrow> distinct s"
  by (simp add: bset_wf_def strict_sorted_iff)

lemma bset_wf_sorted: "bset_wf s \<Longrightarrow> sorted s"
  by (simp add: bset_wf_def strict_sorted_iff)

lemma bset_wf_eqI: "bset_wf s \<Longrightarrow> bset_wf t \<Longrightarrow> set s = set t \<Longrightarrow> s = t"
  by (simp add: bset_wf_def strict_sorted_equal)

lemma bset_wf_filter [btree_wf]: "bset_wf s \<Longrightarrow> bset_wf (filter P s)"
  by (simp add: bset_wf_def sorted_wrt_filter)

lemma bset_insert_present: "bset_wf s \<Longrightarrow> x \<in> set s \<Longrightarrow> bset_insert x s = s"
  by (rule bset_wf_eqI) (auto simp: bset_wf_insert)

lemma bmap_get_Nil [simp]: "bmap_get [] k = None"
  by (simp add: bmap_get_def)

lemma bmap_get_insert [simp]:
  "bmap_get (bmap_insert k v m) j = (if j = k then Some v else bmap_get m j)"
  by (induction m) (auto simp: bmap_get_def)

lemma bmap_get_entry [simp]:
  "bmap_get (bmap_entry k d f m) j =
     (if j = k then Some (f (case bmap_get m k of None \<Rightarrow> d | Some v \<Rightarrow> v)) else bmap_get m j)"
  by (simp add: bmap_entry_def)

lemma fst_set_bmap_insert [simp]: "fst ` set (bmap_insert k v m) = insert k (fst ` set m)"
proof (induction m)
  case (Cons a m)
  then show ?case by (cases a) auto
qed simp

lemma bmap_wf_Nil [simp, btree_wf]: "bmap_wf []"
  by (simp add: bmap_wf_def)

lemma bmap_wf_insert [btree_wf]: "bmap_wf m \<Longrightarrow> bmap_wf (bmap_insert k v m)"
  unfolding bmap_wf_def
proof (induction m)
  case (Cons a m)
  obtain j w where a: "a = (j, w)" by (cases a)
  have "fst ` set (bmap_insert k v m) = insert k (fst ` set m)" by simp
  then have keys: "set (map fst (bmap_insert k v m)) = insert k (set (map fst m))" by simp
  from Cons a show ?case by (auto simp: keys simp del: set_map)
qed simp

lemma bmap_wf_entry [btree_wf]: "bmap_wf m \<Longrightarrow> bmap_wf (bmap_entry k d f m)"
  by (simp add: bmap_entry_def bmap_wf_insert)

lemma bmap_wf_distinct: "bmap_wf m \<Longrightarrow> distinct (map fst m)"
  by (simp add: bmap_wf_def strict_sorted_iff)

lemma bmap_get_iff: "bmap_wf m \<Longrightarrow> bmap_get m k = Some v \<longleftrightarrow> (k, v) \<in> set m"
  by (simp add: bmap_get_def bmap_wf_distinct)

lemma bmap_get_SomeD: "bmap_get m k = Some v \<Longrightarrow> (k, v) \<in> set m"
  by (simp add: bmap_get_def map_of_SomeD)

lemma bmap_get_None: "bmap_get m k = None \<longleftrightarrow> k \<notin> fst ` set m"
  by (simp add: bmap_get_def map_of_eq_None_iff)

lemma bmap_wf_rebuild: "bmap_wf m \<Longrightarrow> m = map (\<lambda>k. (k, the (bmap_get m k))) (map fst m)"
  by (auto simp: bmap_get_iff [THEN iffD2] intro!: map_idI [symmetric])

lemma bmap_wf_eqI:
  assumes "bmap_wf m" and "bmap_wf n" and "\<And>k. bmap_get m k = bmap_get n k"
  shows "m = n"
proof -
  have "set m = set n"
    using assms by (auto simp: bmap_get_iff [symmetric])
  then have keys: "map fst m = map fst n"
    using assms(1,2) strict_sorted_equal [of "map fst m" "map fst n"] by (auto simp: bmap_wf_def)
  have m: "m = map (\<lambda>k. (k, the (bmap_get m k))) (map fst m)"
    using assms(1) by (rule bmap_wf_rebuild)
  have n: "n = map (\<lambda>k. (k, the (bmap_get n k))) (map fst n)"
    using assms(2) by (rule bmap_wf_rebuild)
  have "bmap_get m = bmap_get n"
    using assms(3) by (rule ext)
  then show ?thesis
    by (subst m, subst n) (simp only: keys)
qed

subsection \<open>The interfaces\<close>

text \<open>What a client of an ordered set relies on: membership after an insertion, the invariant, and
  that two values with the same members are the same value (so equality of collections in the
  source is equality of their contents).\<close>

locale ordered_set =
  fixes wf :: "'s \<Rightarrow> bool"
    and ins :: "'a \<Rightarrow> 's \<Rightarrow> 's"
    and members :: "'s \<Rightarrow> 'a set"
  assumes members_ins: "members (ins x s) = insert x (members s)"
    and wf_ins: "wf s \<Longrightarrow> wf (ins x s)"
    and extensional: "wf s \<Longrightarrow> wf t \<Longrightarrow> members s = members t \<Longrightarrow> s = t"
begin

lemma ins_commute: "wf s \<Longrightarrow> ins x (ins y s) = ins y (ins x s)"
  by (rule extensional) (auto simp: members_ins wf_ins)

lemma ins_absorb: "wf s \<Longrightarrow> x \<in> members s \<Longrightarrow> ins x s = s"
  by (rule extensional) (auto simp: members_ins wf_ins)

lemma members_fold: "members (fold ins xs s) = set xs \<union> members s"
  by (induction xs arbitrary: s) (auto simp: members_ins)

lemma wf_fold: "wf s \<Longrightarrow> wf (fold ins xs s)"
  by (induction xs arbitrary: s) (auto simp: wf_ins)

lemma fold_order_irrelevant:
  "wf s \<Longrightarrow> set xs = set ys \<Longrightarrow> fold ins xs s = fold ins ys s"
  by (rule extensional) (auto simp: members_fold wf_fold)

end

interpretation bset: ordered_set bset_wf bset_insert set
  by unfold_locales (auto simp: bset_wf_insert intro: bset_wf_eqI)

lemma bset_of_cong: "set xs = set ys \<Longrightarrow> bset_of xs = bset_of ys"
  unfolding bset_of_def bset_extend_def by (rule bset.fold_order_irrelevant) auto

lemma bset_of_id: "bset_wf s \<Longrightarrow> bset_of s = s"
  by (rule bset_wf_eqI) auto

end
