(* ===== verification/ExecModel.thy ===== *)
theory ExecModel
  imports BTree
begin

text \<open>
  The data of the execution kernel (\<open>src/execution/model.rs\<close>): call categories with their wire
  names and derived order, effects and capabilities, the eleven execution limits of a plan, and the
  usage evidence a receipt carries. Unsigned 64-bit quantities are natural numbers; where the code
  could exceed 64 bits the component theories bound them.
\<close>

datatype call_category =
  Setup | Readiness | Authentication | GeneratedCase | StatefulStep | Reduction | Retry
| Validation | Cleanup

fun call_category_rank :: "call_category \<Rightarrow> nat" where
  "call_category_rank Setup = 0"
| "call_category_rank Readiness = 1"
| "call_category_rank Authentication = 2"
| "call_category_rank GeneratedCase = 3"
| "call_category_rank StatefulStep = 4"
| "call_category_rank Reduction = 5"
| "call_category_rank Retry = 6"
| "call_category_rank Validation = 7"
| "call_category_rank Cleanup = 8"

lemma call_category_rank_inj: "call_category_rank a = call_category_rank b \<Longrightarrow> a = b"
  by (cases a; cases b) simp_all

instantiation call_category :: linorder
begin

definition less_eq_call_category :: "call_category \<Rightarrow> call_category \<Rightarrow> bool" where
  "less_eq_call_category a b \<longleftrightarrow> call_category_rank a \<le> call_category_rank b"

definition less_call_category :: "call_category \<Rightarrow> call_category \<Rightarrow> bool" where
  "less_call_category a b \<longleftrightarrow> call_category_rank a < call_category_rank b"

instance
  by standard
    (auto simp: less_eq_call_category_def less_call_category_def dest: call_category_rank_inj)

end

definition call_category_from_str :: "string \<Rightarrow> call_category option" where
  "call_category_from_str v =
     (if v = ''setup'' then Some Setup
      else if v = ''readiness'' then Some Readiness
      else if v = ''authentication'' then Some Authentication
      else if v = ''generated_case'' then Some GeneratedCase
      else if v = ''stateful_step'' then Some StatefulStep
      else if v = ''reduction'' then Some Reduction
      else if v = ''retry'' then Some Retry
      else if v = ''validation'' then Some Validation
      else if v = ''cleanup'' then Some Cleanup
      else None)"

datatype execution_effect =
  FilesystemScratch | ManagedProcess | NetworkTargetCall | TargetMutation | UnknownEffect

fun execution_effect_rank :: "execution_effect \<Rightarrow> nat" where
  "execution_effect_rank FilesystemScratch = 0"
| "execution_effect_rank ManagedProcess = 1"
| "execution_effect_rank NetworkTargetCall = 2"
| "execution_effect_rank TargetMutation = 3"
| "execution_effect_rank UnknownEffect = 4"

lemma execution_effect_rank_inj: "execution_effect_rank a = execution_effect_rank b \<Longrightarrow> a = b"
  by (cases a; cases b) simp_all

instantiation execution_effect :: linorder
begin

definition less_eq_execution_effect :: "execution_effect \<Rightarrow> execution_effect \<Rightarrow> bool" where
  "less_eq_execution_effect a b \<longleftrightarrow> execution_effect_rank a \<le> execution_effect_rank b"

definition less_execution_effect :: "execution_effect \<Rightarrow> execution_effect \<Rightarrow> bool" where
  "less_execution_effect a b \<longleftrightarrow> execution_effect_rank a < execution_effect_rank b"

instance
  by standard
    (auto simp: less_eq_execution_effect_def less_execution_effect_def
      dest: execution_effect_rank_inj)

end

record execution_limits =
  max_calls :: nat
  calls_per_second :: nat
  max_concurrency :: nat
  run_timeout_ms :: nat
  max_cpu_time_ms :: nat
  max_rss_bytes :: nat
  max_processes :: nat
  max_open_files :: nat
  max_call_result_bytes :: nat
  max_output_bytes :: nat
  max_artifact_bytes :: nat

record call_count =
  cc_category :: call_category
  cc_count :: nat

record call_usage =
  reserved :: nat
  consumed :: nat
  by_category :: "call_count list"

record cleanup_evidence =
  ce_owner :: string
  ce_resource :: string
  ce_released :: bool
  ce_verified :: bool
  ce_message :: "string option"

definition sample_execution_limits :: execution_limits where
  "sample_execution_limits =
     \<lparr>max_calls = 3, calls_per_second = 2, max_concurrency = 1, run_timeout_ms = 10000,
      max_cpu_time_ms = 9000, max_rss_bytes = 1024, max_processes = 1, max_open_files = 8,
      max_call_result_bytes = 1024, max_output_bytes = 1024, max_artifact_bytes = 1024\<rparr>"

end
