(* ===== verification/Lease.thy ===== *)
theory Lease
  imports ExecModel "HOL-Library.Multiset"
begin

text \<open>
  Cleanup leases (\<open>src/execution/lease.rs\<close>). A cleanup action is a one-shot closure whose run is
  observable: here an identifier together with the outcome it would have. Running it appends the
  identifier to a log, so "which actions ran, in which order, how often" is part of the state.
\<close>

datatype cleanup_outcome =
    CleanupOk bool
  | CleanupFailed string
  | CleanupPanicked

record cleanup_action =
  action_id :: nat
  action_outcome :: cleanup_outcome

record execution_lease =
  lease_owner :: string
  lease_resource :: string
  lease_cleanup :: "cleanup_action option"

definition lease_new :: "string \<Rightarrow> string \<Rightarrow> cleanup_action \<Rightarrow> execution_lease" where
  "lease_new owner resource cleanup =
     \<lparr>lease_owner = owner, lease_resource = resource, lease_cleanup = Some cleanup\<rparr>"

text \<open>\<open>catch_unwind\<close> turns a panic into an error with a fixed message.\<close>

fun action_result :: "cleanup_outcome \<Rightarrow> string + bool" where
  "action_result (CleanupOk verified) = Inr verified"
| "action_result (CleanupFailed message) = Inl message"
| "action_result CleanupPanicked = Inl ''cleanup action panicked''"

definition lease_complete :: "execution_lease \<Rightarrow> string + bool \<Rightarrow> cleanup_evidence" where
  "lease_complete l result =
     (case result of
        Inr verified \<Rightarrow>
          \<lparr>ce_owner = lease_owner l, ce_resource = lease_resource l, ce_released = True,
           ce_verified = verified,
           ce_message = (if verified then None else Some ''cleanup verification failed'')\<rparr>
      | Inl message \<Rightarrow>
          \<lparr>ce_owner = lease_owner l, ce_resource = lease_resource l, ce_released = False,
           ce_verified = False, ce_message = Some message\<rparr>)"

definition lease_release :: "execution_lease \<Rightarrow> nat list \<Rightarrow> cleanup_evidence \<times> nat list" where
  "lease_release l log =
     (case lease_cleanup l of
        Some a \<Rightarrow> (lease_complete l (action_result (action_outcome a)), log @ [action_id a])
      | None \<Rightarrow>
          (\<lparr>ce_owner = lease_owner l, ce_resource = lease_resource l, ce_released = False,
            ce_verified = False, ce_message = Some ''cleanup action was already consumed''\<rparr>, log))"

text \<open>The registry, with the log of the actions that ran and of those completed elsewhere.
  \<open>Vec::push\<close> appends, \<open>Vec::pop\<close> takes the last.\<close>

record lease_registry =
  leases :: "execution_lease list"
  completed :: "cleanup_evidence list"
  ran :: "nat list"
  external :: "nat list"

definition registry_default :: lease_registry where
  "registry_default = \<lparr>leases = [], completed = [], ran = [], external = []\<rparr>"

definition register_lease :: "execution_lease \<Rightarrow> lease_registry \<Rightarrow> lease_registry" where
  "register_lease l r = r\<lparr>leases := leases r @ [l]\<rparr>"

definition lease_action_ids :: "execution_lease \<Rightarrow> nat list" where
  "lease_action_ids l = (case lease_cleanup l of Some a \<Rightarrow> [action_id a] | None \<Rightarrow> [])"

definition complete_latest_verified ::
    "lease_registry \<Rightarrow> (string + cleanup_evidence) \<times> lease_registry" where
  "complete_latest_verified r =
     (if leases r = [] then (Inl ''No execution lease is available to complete'', r)
      else
        let l = last (leases r); e = lease_complete l (Inr True)
        in (Inr e, r\<lparr>leases := butlast (leases r), completed := completed r @ [e],
              external := external r @ lease_action_ids l\<rparr>))"

definition release_latest :: "lease_registry \<Rightarrow> (string + cleanup_evidence) \<times> lease_registry" where
  "release_latest r =
     (if leases r = [] then (Inl ''No execution lease is available to release'', r)
      else
        let l = last (leases r); (e, log) = lease_release l (ran r)
        in (Inr e, r\<lparr>leases := butlast (leases r), completed := completed r @ [e], ran := log\<rparr>))"

fun release_each :: "execution_lease list \<Rightarrow> nat list \<Rightarrow> cleanup_evidence list \<times> nat list" where
  "release_each [] log = ([], log)"
| "release_each (l # ls) log =
     (let (e, log1) = lease_release l log; (es, log2) = release_each ls log1 in (e # es, log2))"

definition release_all :: "lease_registry \<Rightarrow> cleanup_evidence list \<times> lease_registry" where
  "release_all r =
     (let (es, log) = release_each (rev (leases r)) (ran r)
      in (completed r @ es, r\<lparr>leases := [], completed := [], ran := log\<rparr>))"

text \<open>\<open>Drop\<close> discards what \<open>release_all\<close> returns.\<close>

definition registry_drop :: "lease_registry \<Rightarrow> lease_registry" where
  "registry_drop r = snd (release_all r)"

datatype lease_op = Register execution_lease | CompleteLatest | ReleaseLatest | ReleaseAll

fun lease_step :: "lease_op \<Rightarrow> lease_registry \<Rightarrow> lease_registry" where
  "lease_step (Register l) r = register_lease l r"
| "lease_step CompleteLatest r = snd (complete_latest_verified r)"
| "lease_step ReleaseLatest r = snd (release_latest r)"
| "lease_step ReleaseAll r = snd (release_all r)"

definition lease_run :: "lease_op list \<Rightarrow> lease_registry \<Rightarrow> lease_registry" where
  "lease_run ops r = fold lease_step ops r"

subsection \<open>Accounting of actions\<close>

definition pending_ids :: "lease_registry \<Rightarrow> nat list" where
  "pending_ids r = concat (map lease_action_ids (leases r))"

fun registered_ids :: "lease_op list \<Rightarrow> nat list" where
  "registered_ids [] = []"
| "registered_ids (Register l # ops) = lease_action_ids l @ registered_ids ops"
| "registered_ids (_ # ops) = registered_ids ops"

definition accounted :: "lease_registry \<Rightarrow> nat multiset" where
  "accounted r = mset (ran r) + mset (external r) + mset (pending_ids r)"

lemma lease_release_log: "snd (lease_release l log) = log @ lease_action_ids l"
  by (simp add: lease_release_def lease_action_ids_def split: option.splits)

lemma release_each_log: "snd (release_each ls log) = log @ concat (map lease_action_ids ls)"
  by (induction ls arbitrary: log) (simp_all add: split_beta Let_def lease_release_log)

lemma length_release_each: "length (fst (release_each ls log)) = length ls"
  by (induction ls arbitrary: log) (simp_all add: split_beta Let_def)

lemma release_each_evidence:
  "i < length ls \<Longrightarrow> fst (release_each ls log) ! i = fst (lease_release (ls ! i) [])"
proof (induction ls arbitrary: i log)
  case (Cons l ls)
  have "fst (lease_release l log) = fst (lease_release l [])"
    by (simp add: lease_release_def split: option.splits)
  with Cons show ?case
    by (cases i) (simp_all add: split_beta Let_def)
qed simp

lemma pending_last:
  "ls \<noteq> [] \<Longrightarrow> mset (concat (map lease_action_ids ls)) =
     mset (concat (map lease_action_ids (butlast ls))) + mset (lease_action_ids (last ls))"
  by (induction ls rule: rev_induct) auto

lemma mset_concat_rev: "mset (concat (map f (rev xs))) = mset (concat (map f xs))"
  by (induction xs) auto

lemma accounted_step: "accounted (lease_step op r) = accounted r + mset (registered_ids [op])"
proof (cases op)
  case (Register l)
  then show ?thesis by (simp add: accounted_def pending_ids_def register_lease_def)
next
  case CompleteLatest
  then show ?thesis
    using pending_last [of "leases r"]
    by (simp add: accounted_def pending_ids_def complete_latest_verified_def Let_def)
next
  case ReleaseLatest
  then show ?thesis
    using pending_last [of "leases r"] lease_release_log [of "last (leases r)" "ran r"]
    by (auto simp: accounted_def pending_ids_def release_latest_def Let_def split: prod.splits)
next
  case ReleaseAll
  then show ?thesis
    using release_each_log [of "rev (leases r)" "ran r"]
    by (auto simp: accounted_def pending_ids_def release_all_def mset_concat_rev split: prod.splits)
qed

lemma registered_ids_Cons: "registered_ids (op # ops) = registered_ids [op] @ registered_ids ops"
  by (cases op) auto

lemma accounted_run: "accounted (lease_run ops r) = accounted r + mset (registered_ids ops)"
proof (induction ops arbitrary: r)
  case (Cons op ops)
  from Cons [of "lease_step op r"] show ?case
    by (simp add: lease_run_def accounted_step registered_ids_Cons [of op ops])
qed (simp add: lease_run_def)

subsection \<open>Properties\<close>

text \<open>C27: after any sequence of registry operations followed by the drop of the registry, every
  cleanup action that was registered has either run or been completed elsewhere, exactly as often
  as it was registered; none is forgotten and none runs twice.\<close>

theorem every_cleanup_exactly_once:
  "mset (ran (registry_drop (lease_run ops registry_default)))
     + mset (external (registry_drop (lease_run ops registry_default)))
   = mset (registered_ids ops)"
proof -
  let ?r = "lease_run ops registry_default"
  have "accounted (registry_drop ?r) = accounted ?r"
    using accounted_step [of ReleaseAll ?r] by (simp add: registry_drop_def)
  moreover have "pending_ids (registry_drop ?r) = []"
    by (simp add: registry_drop_def release_all_def pending_ids_def split: prod.splits)
  moreover have "accounted registry_default = {#}"
    by (simp add: accounted_def registry_default_def pending_ids_def)
  ultimately show ?thesis
    using accounted_run [of ops registry_default] by (simp add: accounted_def)
qed

text \<open>\<open>release_all\<close> runs the pending actions in reverse order of registration, whatever their
  outcomes (a failure or a panic does not stop the others), yields one piece of evidence per lease
  after the evidence already collected, and leaves the registry empty.\<close>

theorem release_all_is_lifo:
  "ran (snd (release_all r)) = ran r @ concat (map lease_action_ids (rev (leases r)))
   \<and> (\<exists>es. fst (release_all r) = completed r @ es \<and> length es = length (leases r)
        \<and> (\<forall>i < length es. es ! i = fst (lease_release (rev (leases r) ! i) [])))
   \<and> leases (snd (release_all r)) = [] \<and> completed (snd (release_all r)) = []"
proof -
  obtain es log where e: "release_each (rev (leases r)) (ran r) = (es, log)" by fastforce
  have "log = ran r @ concat (map lease_action_ids (rev (leases r)))"
    using release_each_log [of "rev (leases r)" "ran r"] e by simp
  moreover have "length es = length (leases r)"
    using length_release_each [of "rev (leases r)" "ran r"] e by simp
  moreover have "\<forall>i < length es. es ! i = fst (lease_release (rev (leases r) ! i) [])"
    using release_each_evidence [of _ "rev (leases r)" "ran r"] e calculation by simp
  ultimately show ?thesis
    by (simp add: release_all_def e)
qed

lemma release_all_is_lifo_witness:
  "ran (snd (release_all (lease_run
      [Register (lease_new ''first'' ''fixture'' \<lparr>action_id = 1, action_outcome = CleanupOk True\<rparr>),
       Register (lease_new ''second'' ''fixture'' \<lparr>action_id = 2, action_outcome = CleanupPanicked\<rparr>)]
      registry_default))) = [2, 1]"
  by (simp add: release_all_is_lifo lease_run_def register_lease_def registry_default_def
      lease_new_def lease_action_ids_def)

end
