(* ===== verification/Limits.thy ===== *)
theory Limits
  imports ExecModel
begin

text \<open>
  Execution limits from the checked-in configuration to a plan: the validation of the configured
  values (\<open>src/config/execution.rs\<close>), the command-line overrides that may only tighten them
  (\<open>src/execution/policy.rs\<close>), and the classification of a target with the authorization it
  receives (\<open>src/execution/target.rs\<close>).
\<close>

definition max_jcs_safe_integer :: nat where
  "max_jcs_safe_integer = 9007199254740991"

datatype limit_error =
    NotPositive string
  | NotSafeInteger string
  | ConcurrencyExceedsCalls
  | RaisesCeiling string nat

text \<open>The array literal both validations loop over.\<close>

definition limit_fields :: "execution_limits \<Rightarrow> (string \<times> nat) list" where
  "limit_fields l =
     [(''max_calls'', max_calls l), (''calls_per_second'', calls_per_second l),
      (''max_concurrency'', max_concurrency l), (''run_timeout_ms'', run_timeout_ms l),
      (''max_cpu_time_ms'', max_cpu_time_ms l), (''max_rss_bytes'', max_rss_bytes l),
      (''max_processes'', max_processes l), (''max_open_files'', max_open_files l),
      (''max_call_result_bytes'', max_call_result_bytes l),
      (''max_output_bytes'', max_output_bytes l), (''max_artifact_bytes'', max_artifact_bytes l)]"

definition limits_config_default :: execution_limits where
  "limits_config_default =
     \<lparr>max_calls = 100, calls_per_second = 5, max_concurrency = 1, run_timeout_ms = 60000,
      max_cpu_time_ms = 45000, max_rss_bytes = 512 * 1024 * 1024, max_processes = 8,
      max_open_files = 128, max_call_result_bytes = 1024 * 1024,
      max_output_bytes = 16 * 1024 * 1024, max_artifact_bytes = 16 * 1024 * 1024\<rparr>"

definition validate_positive_safe_integer :: "string \<Rightarrow> nat \<Rightarrow> limit_error + unit" where
  "validate_positive_safe_integer name v =
     (if v = 0 then Inl (NotPositive name)
      else if v > max_jcs_safe_integer then Inl (NotSafeInteger name)
      else Inr ())"

definition validate_limits_config :: "execution_limits \<Rightarrow> limit_error + unit" where
  "validate_limits_config c =
     and_then
       (check_all (\<lambda>(name, v). validate_positive_safe_integer (''execution.limits.'' @ name) v)
         (limit_fields c))
       (\<lambda>_. ensure (\<not> max_concurrency c > max_calls c) ConcurrencyExceedsCalls)"

record limit_overrides =
  o_max_calls :: "nat option"
  o_calls_per_second :: "nat option"
  o_max_concurrency :: "nat option"
  o_run_timeout_ms :: "nat option"
  o_max_cpu_time_ms :: "nat option"
  o_max_rss_bytes :: "nat option"
  o_max_processes :: "nat option"
  o_max_open_files :: "nat option"
  o_max_call_result_bytes :: "nat option"
  o_max_output_bytes :: "nat option"
  o_max_artifact_bytes :: "nat option"

definition no_overrides :: limit_overrides where
  "no_overrides =
     \<lparr>o_max_calls = None, o_calls_per_second = None, o_max_concurrency = None,
      o_run_timeout_ms = None, o_max_cpu_time_ms = None, o_max_rss_bytes = None,
      o_max_processes = None, o_max_open_files = None, o_max_call_result_bytes = None,
      o_max_output_bytes = None, o_max_artifact_bytes = None\<rparr>"

definition resolve_limit :: "string \<Rightarrow> nat option \<Rightarrow> nat \<Rightarrow> limit_error + nat" where
  "resolve_limit name override_value ceiling =
     (if case override_value of None \<Rightarrow> False | Some v \<Rightarrow> v > ceiling
      then Inl (RaisesCeiling name ceiling)
      else Inr (case override_value of None \<Rightarrow> ceiling | Some v \<Rightarrow> v))"

definition resolve_execution_limits ::
    "execution_limits \<Rightarrow> limit_overrides \<Rightarrow> limit_error + execution_limits" where
  "resolve_execution_limits c ov =
     and_then (resolve_limit ''max_calls'' (o_max_calls ov) (max_calls c)) (\<lambda>calls.
     and_then (resolve_limit ''calls_per_second'' (o_calls_per_second ov) (calls_per_second c)) (\<lambda>cps.
     and_then (resolve_limit ''max_concurrency'' (o_max_concurrency ov) (max_concurrency c)) (\<lambda>conc.
     and_then (resolve_limit ''run_timeout_ms'' (o_run_timeout_ms ov) (run_timeout_ms c)) (\<lambda>run.
     and_then (resolve_limit ''max_cpu_time_ms'' (o_max_cpu_time_ms ov) (max_cpu_time_ms c)) (\<lambda>cpu.
     and_then (resolve_limit ''max_rss_bytes'' (o_max_rss_bytes ov) (max_rss_bytes c)) (\<lambda>rss.
     and_then (resolve_limit ''max_processes'' (o_max_processes ov) (max_processes c)) (\<lambda>procs.
     and_then (resolve_limit ''max_open_files'' (o_max_open_files ov) (max_open_files c)) (\<lambda>files.
     and_then (resolve_limit ''max_call_result_bytes'' (o_max_call_result_bytes ov)
       (max_call_result_bytes c)) (\<lambda>res.
     and_then (resolve_limit ''max_output_bytes'' (o_max_output_bytes ov) (max_output_bytes c)) (\<lambda>out.
     and_then (resolve_limit ''max_artifact_bytes'' (o_max_artifact_bytes ov)
       (max_artifact_bytes c)) (\<lambda>art.
     let limits =
       \<lparr>max_calls = calls, calls_per_second = cps, max_concurrency = conc, run_timeout_ms = run,
        max_cpu_time_ms = cpu, max_rss_bytes = rss, max_processes = procs, max_open_files = files,
        max_call_result_bytes = res, max_output_bytes = out, max_artifact_bytes = art\<rparr>
     in if max_concurrency limits > max_calls limits then Inl ConcurrencyExceedsCalls
        else Inr limits)))))))))))"

subsection \<open>Targets\<close>

datatype target_class = LocalDisposable | RemoteDisposable | Staging | Production | UnknownClass

datatype target_environment = EnvDisposable | EnvStaging | EnvProduction | EnvUnknown

datatype effect_corroboration = NoEffects | Contained | Uncontained | UnknownEffects

datatype target_disposition = ReviewedPlanRequired | PreauthorizedIsolated | Blocked

record target_evidence =
  is_local :: bool
  is_disposable :: bool
  environment :: target_environment
  effects :: effect_corroboration
  is_preauthorized :: bool

record target_decision =
  td_class :: target_class
  disposition :: target_disposition
  td_reasons :: "string list"

definition target_class_of :: "target_evidence \<Rightarrow> target_class" where
  "target_class_of e =
     (case (is_local e, is_disposable e, environment e) of
        (_, _, EnvProduction) \<Rightarrow> Production
      | (_, _, EnvStaging) \<Rightarrow> Staging
      | (True, True, EnvDisposable) \<Rightarrow> LocalDisposable
      | (False, True, EnvDisposable) \<Rightarrow> RemoteDisposable
      | _ \<Rightarrow> UnknownClass)"

definition classify_target :: "target_evidence \<Rightarrow> target_decision" where
  "classify_target e =
     (let c = target_class_of e
      in if c = Production
         then \<lparr>td_class = c, disposition = Blocked, td_reasons = [''production targets are blocked'']\<rparr>
         else
           let reasons =
             (if \<not> is_preauthorized e then [''target is not checked-in as preauthorized''] else [])
             @ (if \<not> is_local e then [''remote targets require reviewed authorization''] else [])
             @ (if \<not> is_disposable e then [''target disposability is not corroborated''] else [])
             @ (if environment e \<noteq> EnvDisposable
                then [''target environment is not classified as disposable''] else [])
             @ (if \<not> (effects e = NoEffects \<or> effects e = Contained)
                then [''target effects are not corroborated as absent or sandbox-contained'']
                else [])
           in \<lparr>td_class = c,
               disposition =
                 (if reasons = [] then PreauthorizedIsolated else ReviewedPlanRequired),
               td_reasons = reasons\<rparr>)"

subsection \<open>Lemmas\<close>

lemma resolve_limit_Inr:
  "resolve_limit n ov c = Inr v \<longleftrightarrow> v = (case ov of None \<Rightarrow> c | Some w \<Rightarrow> w) \<and> v \<le> c"
  by (auto simp: resolve_limit_def split: option.splits)

lemma validate_positive_Inr:
  "validate_positive_safe_integer n v = Inr u \<longleftrightarrow> 1 \<le> v \<and> v \<le> max_jcs_safe_integer"
  by (auto simp: validate_positive_safe_integer_def)

lemma validate_limits_config_Inr:
  "validate_limits_config c = Inr u \<longleftrightarrow>
     (\<forall>(n, v) \<in> set (limit_fields c). 1 \<le> v \<and> v \<le> max_jcs_safe_integer)
     \<and> max_concurrency c \<le> max_calls c"
  by (auto simp: validate_limits_config_def and_then_Inr_unit check_all_Inr validate_positive_Inr)

definition override_values :: "limit_overrides \<Rightarrow> nat option list" where
  "override_values ov =
     [o_max_calls ov, o_calls_per_second ov, o_max_concurrency ov, o_run_timeout_ms ov,
      o_max_cpu_time_ms ov, o_max_rss_bytes ov, o_max_processes ov, o_max_open_files ov,
      o_max_call_result_bytes ov, o_max_output_bytes ov, o_max_artifact_bytes ov]"

definition field_values :: "execution_limits \<Rightarrow> nat list" where
  "field_values l = map snd (limit_fields l)"

lemma resolve_execution_limits_Inr:
  "resolve_execution_limits c ov = Inr l \<longleftrightarrow>
     field_values l =
       map2 (\<lambda>o' ceiling. case o' of None \<Rightarrow> ceiling | Some v \<Rightarrow> v) (override_values ov)
         (field_values c)
     \<and> list_all2 (\<le>) (field_values l) (field_values c)
     \<and> max_concurrency l \<le> max_calls l"
  unfolding resolve_execution_limits_def and_then_Inr resolve_limit_Inr field_values_def
    override_values_def limit_fields_def Let_def
  by (cases l) auto

lemma target_class_Production: "target_class_of e = Production \<longleftrightarrow> environment e = EnvProduction"
  by (cases "environment e") (auto simp: target_class_of_def split: bool.splits)

lemma target_class_LocalDisposable:
  "target_class_of e = LocalDisposable \<longleftrightarrow>
     is_local e \<and> is_disposable e \<and> environment e = EnvDisposable"
  by (cases "environment e") (auto simp: target_class_of_def split: bool.splits)

subsection \<open>Properties\<close>

text \<open>overrides only tighten. Resolution succeeds exactly when every resolved value is the
  override if one is given and the configured ceiling otherwise, none is above its ceiling, and the
  resolved concurrency does not exceed the resolved number of calls.\<close>

theorem overrides_only_tighten:
  "resolve_execution_limits c ov = Inr l \<longleftrightarrow>
     field_values l =
       map2 (\<lambda>o' ceiling. case o' of None \<Rightarrow> ceiling | Some v \<Rightarrow> v) (override_values ov)
         (field_values c)
     \<and> list_all2 (\<le>) (field_values l) (field_values c)
     \<and> max_concurrency l \<le> max_calls l"
  by (rule resolve_execution_limits_Inr)

text \<open>Limits resolved from a validated configuration and from overrides of at least one (what
  the command line accepts) are again valid: every one lies within \<open>1..=2^53-1\<close>, so the division
  by the call rate in the budget never divides by zero.\<close>

theorem resolved_limits_are_valid:
  assumes "validate_limits_config c = Inr ()"
    and "\<forall>v. Some v \<in> set (override_values ov) \<longrightarrow> 1 \<le> v"
    and "resolve_execution_limits c ov = Inr l"
  shows "validate_limits_config l = Inr () \<and> 0 < calls_per_second l"
proof -
  let ?pick = "\<lambda>o' ceiling::nat. case o' of None \<Rightarrow> ceiling | Some v \<Rightarrow> v"
  have conf: "1 \<le> v \<and> v \<le> max_jcs_safe_integer" if "v \<in> set (field_values c)" for v
    using assms(1) that by (auto simp: validate_limits_config_Inr field_values_def)
  have vals: "field_values l = map2 ?pick (override_values ov) (field_values c)"
    and below: "list_all2 (\<le>) (field_values l) (field_values c)"
    and conc: "max_concurrency l \<le> max_calls l"
    using assms(3) unfolding resolve_execution_limits_Inr by blast+
  have "1 \<le> v" if v: "v \<in> set (field_values l)" for v
  proof -
    from v vals obtain o' d where "(o', d) \<in> set (zip (override_values ov) (field_values c))"
      and v': "v = ?pick o' d" by auto
    then have "o' \<in> set (override_values ov)" and "d \<in> set (field_values c)"
      by (auto dest: set_zip_leftD set_zip_rightD)
    with v' assms(2) conf show ?thesis by (cases o') auto
  qed
  moreover have "v \<le> max_jcs_safe_integer" if v: "v \<in> set (field_values l)" for v
  proof -
    from v below obtain d where "d \<in> set (field_values c)" and "v \<le> d"
      by (metis in_set_conv_nth list_all2_conv_all_nth)
    with conf show ?thesis by force
  qed
  ultimately have fields: "\<forall>(n, v) \<in> set (limit_fields l). 1 \<le> v \<and> v \<le> max_jcs_safe_integer"
    by (force simp: field_values_def)
  then have "0 < calls_per_second l"
    by (simp add: limit_fields_def)
  with fields conc show ?thesis by (simp add: validate_limits_config_Inr)
qed

lemma resolved_limits_are_valid_witness:
  "validate_limits_config (limits_config_default\<lparr>max_calls := 7\<rparr>) = Inr ()"
proof -
  have "validate_limits_config limits_config_default = Inr ()"
    by (simp add: validate_limits_config_Inr limit_fields_def limits_config_default_def
        max_jcs_safe_integer_def)
  moreover have "\<forall>v. Some v \<in> set (override_values (no_overrides\<lparr>o_max_calls := Some 7\<rparr>)) \<longrightarrow> 1 \<le> v"
    by (simp add: override_values_def no_overrides_def)
  moreover have "resolve_execution_limits limits_config_default
      (no_overrides\<lparr>o_max_calls := Some 7\<rparr>) = Inr (limits_config_default\<lparr>max_calls := 7\<rparr>)"
    by (simp add: resolve_execution_limits_def resolve_limit_def no_overrides_def
        limits_config_default_def)
  ultimately show ?thesis
    using resolved_limits_are_valid by blast
qed

text \<open>a production target is always blocked; single-shot authorization is given exactly to a
  local, corroborated disposable target of the disposable environment that is preauthorized in the
  checked-in configuration and whose effects are absent or contained; everything else needs a
  reviewed plan and says why.\<close>

theorem target_authorization:
  "(disposition (classify_target e) = Blocked \<longleftrightarrow> environment e = EnvProduction)
   \<and> (disposition (classify_target e) = PreauthorizedIsolated \<longleftrightarrow>
        td_class (classify_target e) = LocalDisposable \<and> is_preauthorized e
        \<and> effects e \<in> {NoEffects, Contained})
   \<and> (td_reasons (classify_target e) = [] \<longleftrightarrow>
        disposition (classify_target e) = PreauthorizedIsolated)"
  by (auto simp: classify_target_def Let_def target_class_Production target_class_LocalDisposable
      split: if_splits)

end
