(* ===== verification/Budget.thy ===== *)
theory Budget
  imports ExecModel
begin

text \<open>
  The call budget (\<open>src/execution/budget.rs\<close>): its construction from the limits of a plan, the
  operations it performs under its lock (allocation of a sequence number, scheduling of an admission
  slot, admission, completion, termination) and the snapshot a receipt is made from. Instants and
  durations are nanoseconds. What belongs to the host (the width of \<open>usize\<close>, the permits a tokio
  semaphore can hold, the largest \<open>Instant\<close>) is a parameter.
\<close>

record host_limits =
  usize_max :: nat
  max_permits :: nat
  instant_max :: nat

datatype call_disposition = Completed | Failed | Rejected | CancelledCall

datatype budget_termination =
  TermCallsExhausted | TermCleanupExhausted | TermDeadlineExhausted | TermCancelled

datatype permit_error =
  CallsExhausted | CleanupExhausted | Cancelled | DeadlineExhausted | SchedulerClosed

record pending_call =
  pc_category :: call_category
  pc_disposition :: "call_disposition option"

record budget_state =
  next_sequence :: nat
  normal_consumed :: nat
  cleanup_consumed :: nat
  in_flight :: nat
  peak_concurrency :: nat
  normal_next_admission :: nat
  cleanup_next_admission :: "nat option"
  last_admitted_at :: "nat option"
  peak_calls_per_second_milli :: "nat option"
  calls :: "(nat, pending_call) bmap"
  bs_termination :: "budget_termination option"
  admission_closed :: bool
  cancelled :: bool

record call_budget =
  cb_max_calls :: nat
  normal_limit :: nat
  cleanup_limit :: nat
  admission_interval :: nat
  cb_started :: nat
  normal_deadline :: nat
  run_deadline :: nat
  cb_concurrency :: nat

datatype budget_error =
    CleanupExceedsMaxCalls nat nat
  | ConcurrencyDoesNotFit
  | ConcurrencyExceedsScheduler
  | CannotReserveCleanup
  | NoTimeForCalls
  | RateReservationOverflow
  | CleanupCannotFit nat nat
  | NormalDeadlineOverflow
  | RunDeadlineOverflow
  | DivisionByZeroPanic

definition cleanup_reserve_fraction :: nat where
  "cleanup_reserve_fraction = 5"

definition max_cleanup_time_ms :: nat where
  "max_cleanup_time_ms = 10000"

definition from_millis :: "nat \<Rightarrow> nat" where
  "from_millis ms = ms * 1000000"

definition div_ceil :: "nat \<Rightarrow> nat \<Rightarrow> nat" where
  "div_ceil a b = (a + b - 1) div b"

definition clamp :: "nat \<Rightarrow> nat \<Rightarrow> nat \<Rightarrow> nat" where
  "clamp lo hi v = (if v < lo then lo else if v > hi then hi else v)"

definition checked_add_instant :: "host_limits \<Rightarrow> nat \<Rightarrow> nat \<Rightarrow> nat option" where
  "checked_add_instant h t d = (if t + d \<le> instant_max h then Some (t + d) else None)"

definition initial_state :: "nat \<Rightarrow> budget_state" where
  "initial_state started =
     \<lparr>next_sequence = 1, normal_consumed = 0, cleanup_consumed = 0, in_flight = 0,
      peak_concurrency = 0, normal_next_admission = started, cleanup_next_admission = None,
      last_admitted_at = None, peak_calls_per_second_milli = None, calls = [],
      bs_termination = None, admission_closed = False, cancelled = False\<rparr>"

definition budget_new ::
    "host_limits \<Rightarrow> nat \<Rightarrow> execution_limits \<Rightarrow> nat \<Rightarrow> budget_error + call_budget \<times> budget_state" where
  "budget_new h started limits cleanup_calls =
     (if cleanup_calls > max_calls limits
      then Inl (CleanupExceedsMaxCalls cleanup_calls (max_calls limits))
      else if max_concurrency limits > usize_max h then Inl ConcurrencyDoesNotFit
      else if max_concurrency limits > max_permits h then Inl ConcurrencyExceedsScheduler
      else
        let run_duration = from_millis (run_timeout_ms limits);
            cleanup_time_ms =
              clamp 1 max_cleanup_time_ms (run_timeout_ms limits div cleanup_reserve_fraction);
            cleanup_duration = from_millis cleanup_time_ms
        in if run_duration < cleanup_duration then Inl CannotReserveCleanup
        else
          let normal_duration = run_duration - cleanup_duration
          in if normal_duration = 0 \<and> cleanup_calls < max_calls limits then Inl NoTimeForCalls
          else if calls_per_second limits = 0 then Inl DivisionByZeroPanic
          else
            let interval = max (div_ceil 1000000000 (calls_per_second limits)) 1;
                spacing = interval * cleanup_calls
            in if spacing \<ge> 2 ^ 128 then Inl RateReservationOverflow
            else if cleanup_calls > 0 \<and> spacing \<ge> cleanup_duration
            then Inl (CleanupCannotFit cleanup_calls (calls_per_second limits))
            else (case checked_add_instant h started normal_duration of
                None \<Rightarrow> Inl NormalDeadlineOverflow
              | Some nd \<Rightarrow>
                  (case checked_add_instant h started run_duration of
                     None \<Rightarrow> Inl RunDeadlineOverflow
                   | Some rd \<Rightarrow>
                       Inr (\<lparr>cb_max_calls = max_calls limits,
                             normal_limit = max_calls limits - cleanup_calls,
                             cleanup_limit = cleanup_calls,
                             admission_interval = interval,
                             cb_started = started,
                             normal_deadline = nd, run_deadline = rd,
                             cb_concurrency = max_concurrency limits\<rparr>,
                            initial_state started))))"

text \<open>\<open>from_plan\<close>: the plan's expected cleanup calls are the allowance.\<close>

definition budget_from_plan ::
    "host_limits \<Rightarrow> nat \<Rightarrow> execution_limits \<Rightarrow> call_count list
     \<Rightarrow> budget_error + call_budget \<times> budget_state" where
  "budget_from_plan h started limits expected =
     budget_new h started limits
       (case find (\<lambda>c. cc_category c = Cleanup) expected of None \<Rightarrow> 0 | Some c \<Rightarrow> cc_count c)"

subsection \<open>Operations on the shared state\<close>

definition get_or_insert :: "'a \<Rightarrow> 'a option \<Rightarrow> 'a option" where
  "get_or_insert x cur = (case cur of None \<Rightarrow> Some x | Some y \<Rightarrow> Some y)"

definition stop_normal_admission :: "budget_state \<Rightarrow> budget_state" where
  "stop_normal_admission s = s\<lparr>admission_closed := True\<rparr>"

definition terminate :: "budget_termination \<Rightarrow> budget_state \<Rightarrow> budget_state" where
  "terminate t s =
     (let s1 = s\<lparr>bs_termination := get_or_insert t (bs_termination s)\<rparr>;
          s2 = (if t = TermCancelled then s1\<lparr>cancelled := True\<rparr> else s1)
      in stop_normal_admission s2)"

definition cancel :: "budget_state \<Rightarrow> budget_state" where
  "cancel s = terminate TermCancelled s"

definition deadline_of :: "call_budget \<Rightarrow> call_category \<Rightarrow> nat" where
  "deadline_of cb c = (if c = Cleanup then run_deadline cb else normal_deadline cb)"

definition allocate_call ::
    "call_budget \<Rightarrow> call_category \<Rightarrow> nat \<Rightarrow> budget_state \<Rightarrow> (permit_error + nat) \<times> budget_state" where
  "allocate_call cb c now s =
     (let is_cleanup = (c = Cleanup);
          s = (if is_cleanup then stop_normal_admission s else s);
          deadline = deadline_of cb c
      in if now \<ge> deadline then (Inl DeadlineExhausted, terminate TermDeadlineExhausted s)
      else if is_cleanup \<and> cleanup_consumed s \<ge> cleanup_limit cb
      then (Inl CleanupExhausted, terminate TermCleanupExhausted s)
      else if \<not> is_cleanup \<and> admission_closed s then (Inl Cancelled, s)
      else if \<not> is_cleanup \<and> normal_consumed s \<ge> normal_limit cb
      then (Inl CallsExhausted, terminate TermCallsExhausted s)
      else
        let s = (if is_cleanup then s\<lparr>cleanup_consumed := cleanup_consumed s + 1\<rparr>
                 else s\<lparr>normal_consumed := normal_consumed s + 1\<rparr>);
            sequence = next_sequence s
        in (Inr sequence,
            s\<lparr>next_sequence := sequence + 1,
              calls := bmap_insert sequence \<lparr>pc_category = c, pc_disposition = None\<rparr> (calls s)\<rparr>))"

definition schedule_admission ::
    "call_budget \<Rightarrow> bool \<Rightarrow> nat \<Rightarrow> budget_state \<Rightarrow> nat \<times> budget_state" where
  "schedule_admission cb is_cleanup now s =
     (let admission_at =
        (if is_cleanup then
           let minimum =
             max (case last_admitted_at s of None \<Rightarrow> now | Some l \<Rightarrow> l + admission_interval cb) now
           in max (case cleanup_next_admission s of None \<Rightarrow> minimum | Some n \<Rightarrow> n) minimum
         else max (normal_next_admission s) now)
      in (admission_at,
          if is_cleanup
          then s\<lparr>cleanup_next_admission := Some (admission_at + admission_interval cb)\<rparr>
          else s\<lparr>normal_next_admission := admission_at + admission_interval cb\<rparr>))"

definition observed_rate_milli :: "nat \<Rightarrow> nat \<Rightarrow> nat option" where
  "observed_rate_milli previous current =
     (if current < previous then None
      else if current - previous = 0 then None
      else
        let nanos = min (current - previous) u64_max
        in Some (div_ceil 1000000000000 (max nanos 1)))"

definition record_admission :: "nat \<Rightarrow> budget_state \<Rightarrow> budget_state" where
  "record_admission admitted_at s =
     (let s1 = s\<lparr>in_flight := in_flight s + 1\<rparr>;
          s2 = s1\<lparr>peak_concurrency := max (peak_concurrency s1) (in_flight s1)\<rparr>;
          s3 = (case Option.bind (last_admitted_at s2) (\<lambda>l. observed_rate_milli l admitted_at) of
                  None \<Rightarrow> s2
                | Some rate \<Rightarrow>
                    s2\<lparr>peak_calls_per_second_milli :=
                         Some (case peak_calls_per_second_milli s2 of None \<Rightarrow> rate
                               | Some peak \<Rightarrow> max peak rate)\<rparr>)
      in s3\<lparr>last_admitted_at := Some admitted_at\<rparr>)"

definition finish_call :: "nat \<Rightarrow> call_disposition \<Rightarrow> bool \<Rightarrow> budget_state \<Rightarrow> budget_state" where
  "finish_call sequence d was_in_flight s =
     (let s1 = (case bmap_get (calls s) sequence of
                  None \<Rightarrow> s
                | Some call \<Rightarrow>
                    s\<lparr>calls := bmap_insert sequence
                         (call\<lparr>pc_disposition := get_or_insert d (pc_disposition call)\<rparr>)
                         (calls s)\<rparr>)
      in if was_in_flight then s1\<lparr>in_flight := in_flight s1 - 1\<rparr> else s1)"

definition record_permit_error :: "permit_error \<Rightarrow> budget_state \<Rightarrow> budget_state" where
  "record_permit_error e s =
     (case e of
        DeadlineExhausted \<Rightarrow> terminate TermDeadlineExhausted s
      | SchedulerClosed \<Rightarrow> terminate TermCancelled s
      | CallsExhausted \<Rightarrow> s
      | CleanupExhausted \<Rightarrow> s
      | Cancelled \<Rightarrow> s)"

text \<open>The error path of \<open>reserve_call\<close> after an allocated call could not be admitted.\<close>

definition abandon_call :: "nat \<Rightarrow> permit_error \<Rightarrow> budget_state \<Rightarrow> budget_state" where
  "abandon_call sequence e s = finish_call sequence CancelledCall False (record_permit_error e s)"

text \<open>\<open>Drop for CallPermit\<close>: a permit that was not finished records how it ended.\<close>

definition drop_disposition :: "budget_state \<Rightarrow> call_disposition" where
  "drop_disposition s = (if cancelled s then CancelledCall else Failed)"

definition normal_time_remaining :: "call_budget \<Rightarrow> nat \<Rightarrow> nat" where
  "normal_time_remaining cb now = normal_deadline cb - now"

definition run_time_remaining :: "call_budget \<Rightarrow> nat \<Rightarrow> nat" where
  "run_time_remaining cb now = run_deadline cb - now"

subsection \<open>Snapshot\<close>

record call_record =
  cr_sequence :: nat
  cr_category :: call_category
  cr_disposition :: call_disposition

record call_snapshot =
  usage :: call_usage
  cs_records :: "call_record list"
  cs_peak_concurrency :: nat
  cs_peak_rate :: "nat option"
  cs_termination :: "budget_termination option"

definition snapshot_record :: "nat \<times> pending_call \<Rightarrow> call_record" where
  "snapshot_record x =
     \<lparr>cr_sequence = fst x, cr_category = pc_category (snd x),
      cr_disposition = (case pc_disposition (snd x) of None \<Rightarrow> CancelledCall | Some d \<Rightarrow> d)\<rparr>"

definition category_counts :: "(nat, pending_call) bmap \<Rightarrow> (call_category, nat) bmap" where
  "category_counts cs =
     fold (\<lambda>(_, call) counts. bmap_entry (pc_category call) 0 (\<lambda>n. n + 1) counts) cs []"

definition snapshot :: "call_budget \<Rightarrow> budget_state \<Rightarrow> call_snapshot" where
  "snapshot cb s =
     (let counts = category_counts (calls s);
          records = map snapshot_record (calls s)
      in \<lparr>usage = \<lparr>reserved = cb_max_calls cb, consumed = min (length records) u64_max,
            by_category = map (\<lambda>(c, n). \<lparr>cc_category = c, cc_count = n\<rparr>) counts\<rparr>,
          cs_records = records, cs_peak_concurrency = peak_concurrency s,
          cs_peak_rate = peak_calls_per_second_milli s, cs_termination = bs_termination s\<rparr>)"

end
