(* ===== verification/Machine.thy ===== *)
theory Machine
  imports "HOL-Library.Multiset"
begin

text \<open>The interface between a step relation and an invariant: whoever shows that the initial state
  satisfies it and every step keeps it has it in every reachable state. A relation that only grows
  (\<open>monotone_system\<close>) relates any state to any later one.\<close>

locale invariant_system =
  fixes init :: 's
    and step :: "'s \<Rightarrow> 's \<Rightarrow> bool"
    and inv :: "'s \<Rightarrow> bool"
  assumes inv_init: "inv init"
    and inv_step: "inv s \<Longrightarrow> step s t \<Longrightarrow> inv t"
begin

lemma inv_run: "step\<^sup>*\<^sup>* s t \<Longrightarrow> inv s \<Longrightarrow> inv t"
  by (induction rule: rtranclp_induct) (auto intro: inv_step)

lemma reachable_inv: "step\<^sup>*\<^sup>* init s \<Longrightarrow> inv s"
  using inv_run inv_init by blast

end

locale monotone_system =
  fixes step :: "'s \<Rightarrow> 's \<Rightarrow> bool"
    and later :: "'s \<Rightarrow> 's \<Rightarrow> bool"
  assumes later_refl: "later s s"
    and later_trans: "later s t \<Longrightarrow> later t u \<Longrightarrow> later s u"
    and step_later: "step s t \<Longrightarrow> later s t"
begin

lemma run_later: "step\<^sup>*\<^sup>* s t \<Longrightarrow> later s t"
  by (induction rule: rtranclp_induct) (blast intro: later_refl later_trans step_later)+

end

text \<open>A functional refinement: every step of the machine, from a state with the invariant, is a run
  of the abstract machine between the abstractions. Every reachable state of the machine then
  abstracts to a reachable state of the specification.\<close>

locale simulation = invariant_system init step inv
  for init :: 's
    and step :: "'s \<Rightarrow> 's \<Rightarrow> bool"
    and inv :: "'s \<Rightarrow> bool" +
  fixes abs :: "'s \<Rightarrow> 'a"
    and abs_step :: "'a \<Rightarrow> 'a \<Rightarrow> bool"
  assumes simulates: "inv s \<Longrightarrow> step s t \<Longrightarrow> abs_step\<^sup>*\<^sup>* (abs s) (abs t)"
begin

lemma run_refines: "step\<^sup>*\<^sup>* s t \<Longrightarrow> inv s \<Longrightarrow> abs_step\<^sup>*\<^sup>* (abs s) (abs t)"
proof (induction rule: rtranclp_induct)
  case (step t u)
  then show ?case using simulates [of t u] inv_run [of s t] by (meson rtranclp_trans)
qed simp

lemma reachable_refines: "step\<^sup>*\<^sup>* init s \<Longrightarrow> abs_step\<^sup>*\<^sup>* (abs init) (abs s)"
  using run_refines inv_init by blast

end

text \<open>Counting the tasks of a list that satisfy a predicate when one of them moves.\<close>

definition count_if :: "('a \<Rightarrow> bool) \<Rightarrow> 'a list \<Rightarrow> nat" where
  "count_if P xs = length (filter P xs)"

lemma count_if_append [simp]: "count_if P (xs @ ys) = count_if P xs + count_if P ys"
  by (simp add: count_if_def)

lemma count_if_simps [simp]:
  "count_if P [] = 0" "count_if P (x # xs) = (if P x then 1 else 0) + count_if P xs"
  by (simp_all add: count_if_def)

lemma count_if_update:
  "i < length xs \<Longrightarrow>
   count_if P (xs[i := y]) + (if P (xs ! i) then 1 else 0) = count_if P xs + (if P y then 1 else 0)"
proof (induction xs arbitrary: i)
  case (Cons x xs)
  then show ?case by (cases i) (force simp: algebra_simps)+
qed simp

lemma count_if_pos: "i < length xs \<Longrightarrow> P (xs ! i) \<Longrightarrow> 0 < count_if P xs"
  unfolding count_if_def by (metis filter_empty_conv length_greater_0_conv nth_mem)

text \<open>What the tasks of a list contribute when one of them moves.\<close>

lemma mset_concat_update:
  "i < length xs \<Longrightarrow>
   mset (concat (map f (xs[i := y]))) + mset (f (xs ! i)) = mset (concat (map f xs)) + mset (f y)"
proof (induction xs arbitrary: i)
  case (Cons x xs)
  show ?case
  proof (cases i)
    case 0
    then show ?thesis by (simp add: ac_simps)
  next
    case (Suc n)
    with Cons.prems have "mset (concat (map f (xs[n := y]))) + mset (f (xs ! n)) =
        mset (concat (map f xs)) + mset (f y)"
      by (intro Cons.IH) simp
    with Suc show ?thesis by (simp add: add.assoc)
  qed
qed simp

text \<open>Points at least \<open>d\<close> apart between \<open>lo\<close> and \<open>hi\<close> are few.\<close>

lemma spaced_bound:
  fixes lo hi d :: nat
  assumes "sorted_wrt (\<lambda>a b. a + d \<le> b) xs" and "\<forall>x \<in> set xs. lo \<le> x \<and> x \<le> hi" and "0 < d"
  shows "length xs \<le> (hi - lo) div d + 1"
proof -
  have last_bound: "xs \<noteq> [] \<Longrightarrow> lo + (length xs - 1) * d \<le> last xs"
    using assms(1,2)
  proof (induction xs rule: rev_induct)
    case (snoc x xs)
    show ?case
    proof (cases "xs = []")
      case False
      with snoc have "lo + (length xs - 1) * d \<le> last xs" and "last xs + d \<le> x"
        by (auto simp: sorted_wrt_append)
      with False show ?thesis by (cases xs rule: rev_cases) (auto simp: algebra_simps)
    qed (use snoc in simp)
  qed simp
  show ?thesis
  proof (cases "xs = []")
    case False
    then have "lo + (length xs - 1) * d \<le> last xs" by (rule last_bound)
    also have "last xs \<le> hi" using False assms(2) by simp
    finally have "(length xs - 1) * d \<le> hi - lo" by simp
    then have "length xs - 1 \<le> (hi - lo) div d"
      using assms(3) by (simp add: less_eq_div_iff_mult_less_eq)
    then show ?thesis by simp
  qed simp
qed

end
