(* ===== verification/BudgetMachine.thy ===== *)
theory BudgetMachine
  imports Budget Machine
begin

text \<open>
  The concurrent use of a call budget: every \<open>reserve_call\<close> in flight is a task with a program
  counter, and a step is what one task does between two awaits. The semaphore is the number of its
  free permits; a \<open>tokio::select!\<close> may take any of its branches that is ready, so an expired
  deadline, a closed admission channel and a free permit compete. A future may be dropped at any of
  its awaits. The lists of slots are history: the code keeps only the next free slot.
\<close>

datatype task =
    Waiting call_category nat
  | Holding call_category nat
  | Scheduled call_category nat nat
  | Admitted call_category nat
  | Releasing
  | Ended

record machine =
  shared :: budget_state
  clock :: nat
  available :: nat
  tasks :: "task list"
  normal_slots :: "nat list"
  normal_admissions :: "nat list"

definition machine_init :: "call_budget \<Rightarrow> machine" where
  "machine_init cb =
     \<lparr>shared = initial_state (cb_started cb), clock = cb_started cb,
      available = cb_concurrency cb, tasks = [], normal_slots = [], normal_admissions = []\<rparr>"

text \<open>The branches of \<open>wait_for_concurrency\<close> and \<open>wait_for_admission\<close> that fail. The channels and
  the semaphore live as long as the budget, so their closed branches do not occur.\<close>

definition wait_fails :: "call_budget \<Rightarrow> machine \<Rightarrow> call_category \<Rightarrow> permit_error \<Rightarrow> bool" where
  "wait_fails cb m c e \<longleftrightarrow>
     e = DeadlineExhausted \<and> deadline_of cb c \<le> clock m
     \<or> e = Cancelled \<and> c \<noteq> Cleanup \<and> admission_closed (shared m)"

inductive budget_step :: "call_budget \<Rightarrow> machine \<Rightarrow> machine \<Rightarrow> bool" for cb where
  tick: "clock m \<le> t \<Longrightarrow> budget_step cb m (m\<lparr>clock := t\<rparr>)"
| reserve: "allocate_call cb c (clock m) (shared m) = (Inr q, s) \<Longrightarrow>
     budget_step cb m (m\<lparr>shared := s, tasks := tasks m @ [Waiting c q]\<rparr>)"
| refuse: "allocate_call cb c (clock m) (shared m) = (Inl e, s) \<Longrightarrow>
     budget_step cb m (m\<lparr>shared := s\<rparr>)"
| acquire: "i < length (tasks m) \<Longrightarrow> tasks m ! i = Waiting c q \<Longrightarrow> 0 < available m \<Longrightarrow>
     budget_step cb m (m\<lparr>available := available m - 1, tasks := (tasks m)[i := Holding c q]\<rparr>)"
| wait_error: "i < length (tasks m) \<Longrightarrow> tasks m ! i = Waiting c q \<Longrightarrow> wait_fails cb m c e \<Longrightarrow>
     budget_step cb m (m\<lparr>shared := abandon_call q e (shared m), tasks := (tasks m)[i := Ended]\<rparr>)"
| schedule: "i < length (tasks m) \<Longrightarrow> tasks m ! i = Holding c q \<Longrightarrow>
     schedule_admission cb (c = Cleanup) (clock m) (shared m) = (slot, s) \<Longrightarrow>
     budget_step cb m
       (m\<lparr>shared := s, tasks := (tasks m)[i := Scheduled c q slot],
          normal_slots := normal_slots m @ (if c = Cleanup then [] else [slot])\<rparr>)"
| admit: "i < length (tasks m) \<Longrightarrow> tasks m ! i = Scheduled c q slot \<Longrightarrow> slot \<le> clock m \<Longrightarrow>
     budget_step cb m
       (m\<lparr>shared := record_admission (clock m) (shared m), tasks := (tasks m)[i := Admitted c q],
          normal_admissions := normal_admissions m @ (if c = Cleanup then [] else [slot])\<rparr>)"
| admission_error: "i < length (tasks m) \<Longrightarrow> tasks m ! i = Scheduled c q slot \<Longrightarrow>
     wait_fails cb m c e \<Longrightarrow>
     budget_step cb m
       (m\<lparr>shared := abandon_call q e (shared m), tasks := (tasks m)[i := Releasing]\<rparr>)"
| finish: "i < length (tasks m) \<Longrightarrow> tasks m ! i = Admitted c q \<Longrightarrow>
     budget_step cb m
       (m\<lparr>shared := finish_call q d True (shared m), tasks := (tasks m)[i := Releasing]\<rparr>)"
| drop_permit: "i < length (tasks m) \<Longrightarrow> tasks m ! i = Admitted c q \<Longrightarrow>
     budget_step cb m
       (m\<lparr>shared := finish_call q (drop_disposition (shared m)) True (shared m),
          tasks := (tasks m)[i := Releasing]\<rparr>)"
| release: "i < length (tasks m) \<Longrightarrow> tasks m ! i = Releasing \<Longrightarrow>
     budget_step cb m (m\<lparr>available := available m + 1, tasks := (tasks m)[i := Ended]\<rparr>)"
| abort_waiting: "i < length (tasks m) \<Longrightarrow> tasks m ! i = Waiting c q \<Longrightarrow>
     budget_step cb m (m\<lparr>tasks := (tasks m)[i := Ended]\<rparr>)"
| abort_holding: "i < length (tasks m) \<Longrightarrow>
     tasks m ! i = Holding c q \<or> tasks m ! i = Scheduled c q slot \<Longrightarrow>
     budget_step cb m (m\<lparr>tasks := (tasks m)[i := Releasing]\<rparr>)"
| cancel_all: "budget_step cb m (m\<lparr>shared := cancel (shared m)\<rparr>)"

definition reachable :: "call_budget \<Rightarrow> machine \<Rightarrow> bool" where
  "reachable cb m \<longleftrightarrow> (budget_step cb)\<^sup>*\<^sup>* (machine_init cb) m"

subsection \<open>What the operations change\<close>

definition call_keys :: "budget_state \<Rightarrow> (nat \<times> call_category) list" where
  "call_keys s = map (\<lambda>(q, c). (q, pc_category c)) (calls s)"

lemma bmap_insert_last:
  "\<forall>k \<in> fst ` set m. k < q \<Longrightarrow> bmap_insert q v m = m @ [(q, v)]"
  by (induction m) auto

lemma bmap_insert_same:
  "bmap_get m q = Some v \<Longrightarrow> bmap_wf m \<Longrightarrow> f w = f v \<Longrightarrow>
   map (\<lambda>(k, x). (k, f x)) (bmap_insert q w m) = map (\<lambda>(k, x). (k, f x)) m"
proof (induction m)
  case (Cons a m)
  obtain k x where a: "a = (k, x)" by (cases a)
  show ?case
  proof (cases "q = k")
    case True
    with Cons.prems a show ?thesis by (simp add: bmap_get_def)
  next
    case False
    with Cons.prems a have get: "bmap_get m q = Some v" and wf: "bmap_wf m"
      by (simp_all add: bmap_get_def bmap_wf_def)
    then have "q \<in> set (map fst m)"
      by (metis bmap_get_None option.distinct(1) set_map)
    with Cons.prems(2) a have "k < q"
      by (auto simp: bmap_wf_def)
    with False a Cons.IH [OF get wf Cons.prems(3)] show ?thesis by simp
  qed
qed simp

lemma terminate_frame [simp]:
  "next_sequence (terminate t s) = next_sequence s"
  "normal_consumed (terminate t s) = normal_consumed s"
  "cleanup_consumed (terminate t s) = cleanup_consumed s"
  "in_flight (terminate t s) = in_flight s"
  "peak_concurrency (terminate t s) = peak_concurrency s"
  "normal_next_admission (terminate t s) = normal_next_admission s"
  "calls (terminate t s) = calls s"
  "admission_closed (terminate t s)"
  by (simp_all add: terminate_def stop_normal_admission_def Let_def)

lemma record_permit_error_frame [simp]:
  "next_sequence (record_permit_error e s) = next_sequence s"
  "normal_consumed (record_permit_error e s) = normal_consumed s"
  "cleanup_consumed (record_permit_error e s) = cleanup_consumed s"
  "in_flight (record_permit_error e s) = in_flight s"
  "peak_concurrency (record_permit_error e s) = peak_concurrency s"
  "normal_next_admission (record_permit_error e s) = normal_next_admission s"
  "calls (record_permit_error e s) = calls s"
  by (simp_all add: record_permit_error_def split: permit_error.split)

lemma finish_call_frame [simp]:
  "next_sequence (finish_call q d b s) = next_sequence s"
  "normal_consumed (finish_call q d b s) = normal_consumed s"
  "cleanup_consumed (finish_call q d b s) = cleanup_consumed s"
  "in_flight (finish_call q d b s) = (if b then in_flight s - 1 else in_flight s)"
  "peak_concurrency (finish_call q d b s) = peak_concurrency s"
  "normal_next_admission (finish_call q d b s) = normal_next_admission s"
  "bs_termination (finish_call q d b s) = bs_termination s"
  "admission_closed (finish_call q d b s) = admission_closed s"
  by (simp_all add: finish_call_def Let_def split: option.split)

lemma record_admission_frame [simp]:
  "next_sequence (record_admission t s) = next_sequence s"
  "normal_consumed (record_admission t s) = normal_consumed s"
  "cleanup_consumed (record_admission t s) = cleanup_consumed s"
  "in_flight (record_admission t s) = in_flight s + 1"
  "peak_concurrency (record_admission t s) = max (peak_concurrency s) (in_flight s + 1)"
  "normal_next_admission (record_admission t s) = normal_next_admission s"
  "calls (record_admission t s) = calls s"
  "bs_termination (record_admission t s) = bs_termination s"
  "admission_closed (record_admission t s) = admission_closed s"
  by (simp_all add: record_admission_def Let_def split: option.split)

lemma schedule_admission_frame:
  assumes "schedule_admission cb b now s = (slot, s')"
  shows "next_sequence s' = next_sequence s" "normal_consumed s' = normal_consumed s"
    "cleanup_consumed s' = cleanup_consumed s" "in_flight s' = in_flight s"
    "peak_concurrency s' = peak_concurrency s" "calls s' = calls s"
    "bs_termination s' = bs_termination s" "admission_closed s' = admission_closed s"
  using assms by (cases b; auto simp: schedule_admission_def Let_def)+

lemma call_keys_finish:
  assumes "bmap_wf (calls s)"
  shows "call_keys (finish_call q d b s) = call_keys s"
  using assms by (auto simp: call_keys_def finish_call_def Let_def bmap_insert_same split: option.split)

lemma allocate_call_cases:
  assumes "allocate_call cb c now s = (r, s')"
  obtains (refused) e where "r = Inl e" "calls s' = calls s" "next_sequence s' = next_sequence s"
      "normal_consumed s' = normal_consumed s" "cleanup_consumed s' = cleanup_consumed s"
      "in_flight s' = in_flight s" "peak_concurrency s' = peak_concurrency s"
      "normal_next_admission s' = normal_next_admission s"
  | (cleanup) "c = Cleanup" "r = Inr (next_sequence s)" "now < run_deadline cb"
      "cleanup_consumed s < cleanup_limit cb"
      "s' = s\<lparr>admission_closed := True, cleanup_consumed := cleanup_consumed s + 1,
             next_sequence := next_sequence s + 1,
             calls := bmap_insert (next_sequence s) \<lparr>pc_category = c, pc_disposition = None\<rparr> (calls s)\<rparr>"
  | (normal) "c \<noteq> Cleanup" "r = Inr (next_sequence s)" "now < normal_deadline cb"
      "\<not> admission_closed s" "normal_consumed s < normal_limit cb"
      "s' = s\<lparr>normal_consumed := normal_consumed s + 1, next_sequence := next_sequence s + 1,
             calls := bmap_insert (next_sequence s) \<lparr>pc_category = c, pc_disposition = None\<rparr> (calls s)\<rparr>"
  using assms
  by (cases "c = Cleanup")
    (auto simp: allocate_call_def Let_def stop_normal_admission_def deadline_of_def not_le
      split: if_splits)


subsection \<open>Invariant: the allowance\<close>

text \<open>The sequence numbers handed out are \<open>1, 2, ...\<close> in order, the counters count them by kind, and
  neither counter passes its limit.\<close>

definition allowance_inv :: "call_budget \<Rightarrow> budget_state \<Rightarrow> bool" where
  "allowance_inv cb s \<longleftrightarrow>
     normal_consumed s \<le> normal_limit cb \<and> cleanup_consumed s \<le> cleanup_limit cb
     \<and> next_sequence s = normal_consumed s + cleanup_consumed s + 1
     \<and> map fst (call_keys s) = [1..<next_sequence s]
     \<and> count_if (\<lambda>(q, c). c = Cleanup) (call_keys s) = cleanup_consumed s
     \<and> bmap_wf (calls s)"

lemma allowance_inv_cong:
  assumes "allowance_inv cb s" and "calls t = calls s" and "next_sequence t = next_sequence s"
    and "normal_consumed t = normal_consumed s" and "cleanup_consumed t = cleanup_consumed s"
  shows "allowance_inv cb t"
  using assms by (simp add: allowance_inv_def call_keys_def)

lemma allowance_inv_finish: "allowance_inv cb s \<Longrightarrow> allowance_inv cb (finish_call q d b s)"
proof -
  assume inv: "allowance_inv cb s"
  then have wf: "bmap_wf (calls s)" by (simp add: allowance_inv_def)
  then have "bmap_wf (calls (finish_call q d b s))"
    by (simp add: finish_call_def Let_def bmap_wf_insert split: option.split)
  with inv wf show ?thesis
    by (simp add: allowance_inv_def call_keys_finish)
qed

lemma allowance_inv_abandon: "allowance_inv cb s \<Longrightarrow> allowance_inv cb (abandon_call q e s)"
  unfolding abandon_call_def
  by (intro allowance_inv_finish) (auto intro: allowance_inv_cong)

lemma call_keys_wf: "map fst (call_keys s) = map fst (calls s)"
  by (auto simp: call_keys_def)

lemma allowance_inv_insert:
  assumes inv: "allowance_inv cb s"
    and calls: "calls t = bmap_insert (next_sequence s) \<lparr>pc_category = c, pc_disposition = None\<rparr> (calls s)"
    and seq: "next_sequence t = next_sequence s + 1"
    and counts: "normal_consumed t = normal_consumed s + (if c = Cleanup then 0 else 1)"
      "cleanup_consumed t = cleanup_consumed s + (if c = Cleanup then 1 else 0)"
    and limits: "normal_consumed t \<le> normal_limit cb" "cleanup_consumed t \<le> cleanup_limit cb"
  shows "allowance_inv cb t"
proof -
  have fst: "map fst (calls s) = [1..<next_sequence s]"
    using inv by (simp add: allowance_inv_def call_keys_wf)
  have "k < next_sequence s" if "k \<in> set (map fst (calls s))" for k
    using that unfolding fst by simp
  then have last: "calls t = calls s @ [(next_sequence s, \<lparr>pc_category = c, pc_disposition = None\<rparr>)]"
    using calls by (simp add: bmap_insert_last)
  then have keys: "call_keys t = call_keys s @ [(next_sequence s, c)]"
    by (simp add: call_keys_def)
  have "bmap_wf (calls t)"
    using inv calls by (simp add: allowance_inv_def bmap_wf_insert)
  with inv keys seq counts limits show ?thesis
    by (auto simp: allowance_inv_def)
qed

lemma allowance_inv_allocate:
  assumes "allocate_call cb c now s = (r, s')" and inv: "allowance_inv cb s"
  shows "allowance_inv cb s'"
  using assms(1)
proof (cases rule: allocate_call_cases)
  case (refused e)
  then show ?thesis using inv by (auto intro: allowance_inv_cong)
next
  case cleanup
  then show ?thesis
    using inv by (intro allowance_inv_insert [OF inv, where c = c]) (auto simp: allowance_inv_def)
next
  case normal
  then show ?thesis
    using inv by (intro allowance_inv_insert [OF inv, where c = c]) (auto simp: allowance_inv_def)
qed

lemma allowance_inv_step:
  "budget_step cb m m' \<Longrightarrow> allowance_inv cb (shared m) \<Longrightarrow> allowance_inv cb (shared m')"
proof (induction rule: budget_step.induct)
  case (schedule i m c q slot s)
  then show ?case
    using schedule_admission_frame [OF schedule(3)] by (auto intro: allowance_inv_cong)
next
  case (admit i m c q slot)
  then show ?case by (auto intro: allowance_inv_cong)
next
  case (cancel_all m)
  then show ?case by (auto simp: cancel_def intro: allowance_inv_cong)
qed (auto intro: allowance_inv_allocate allowance_inv_abandon allowance_inv_finish)

lemma allowance_inv_init: "allowance_inv cb (initial_state t)"
  by (simp add: allowance_inv_def initial_state_def call_keys_def)

interpretation allowance: invariant_system "machine_init cb" "budget_step cb"
    "\<lambda>m. allowance_inv cb (shared m)" for cb
  by unfold_locales (auto simp: machine_init_def allowance_inv_init intro: allowance_inv_step)

subsection \<open>Invariant: the permits\<close>

fun holds_permit :: "task \<Rightarrow> bool" where
  "holds_permit (Holding c q) = True"
| "holds_permit (Scheduled c q slot) = True"
| "holds_permit (Admitted c q) = True"
| "holds_permit Releasing = True"
| "holds_permit _ = False"

fun is_admitted :: "task \<Rightarrow> bool" where
  "is_admitted (Admitted c q) = True"
| "is_admitted _ = False"

definition permits_inv :: "call_budget \<Rightarrow> machine \<Rightarrow> bool" where
  "permits_inv cb m \<longleftrightarrow>
     available m + count_if holds_permit (tasks m) = cb_concurrency cb
     \<and> in_flight (shared m) = count_if is_admitted (tasks m)
     \<and> peak_concurrency (shared m) \<le> cb_concurrency cb"

lemma admitted_le_holds: "count_if is_admitted ts \<le> count_if holds_permit ts"
proof (induction ts)
  case (Cons t ts)
  then show ?case by (cases t) auto
qed simp

lemma permits_inv_update:
  assumes "permits_inv cb m" and i: "i < length (tasks m)"
    and "available m' + (if holds_permit t then 1 else 0)
       = available m + (if holds_permit (tasks m ! i) then 1 else 0)"
    and "in_flight (shared m') + (if is_admitted (tasks m ! i) then 1 else 0)
       = in_flight (shared m) + (if is_admitted t then 1 else 0)"
    and "peak_concurrency (shared m') \<le> cb_concurrency cb"
    and "tasks m' = (tasks m)[i := t]"
  shows "permits_inv cb m'"
  using assms count_if_update [OF i, of holds_permit t] count_if_update [OF i, of is_admitted t]
  unfolding permits_inv_def by (auto split: if_splits)

lemma abandon_call_frame [simp]:
  "in_flight (abandon_call q e s) = in_flight s"
  "peak_concurrency (abandon_call q e s) = peak_concurrency s"
  "normal_next_admission (abandon_call q e s) = normal_next_admission s"
  by (simp_all add: abandon_call_def)

lemma admitted_in_flight:
  "permits_inv cb m \<Longrightarrow> i < length (tasks m) \<Longrightarrow> tasks m ! i = Admitted c q \<Longrightarrow> 0 < in_flight (shared m)"
  using count_if_pos [of i "tasks m" is_admitted] by (simp add: permits_inv_def)

lemma scheduled_below_limit:
  assumes "permits_inv cb m" and i: "i < length (tasks m)" and "tasks m ! i = Scheduled c q slot"
  shows "in_flight (shared m) < cb_concurrency cb"
proof -
  have "count_if is_admitted ((tasks m)[i := Ended]) \<le> count_if holds_permit ((tasks m)[i := Ended])"
    by (rule admitted_le_holds)
  with assms count_if_update [OF i, of holds_permit Ended] count_if_update [OF i, of is_admitted Ended]
  show ?thesis by (simp add: permits_inv_def)
qed

lemma permits_inv_allocate:
  assumes "allocate_call cb c now s = (r, s')"
  shows "in_flight s' = in_flight s" "peak_concurrency s' = peak_concurrency s"
  using assms by (cases rule: allocate_call_cases; simp)+

lemma permits_inv_step: "budget_step cb m m' \<Longrightarrow> permits_inv cb m \<Longrightarrow> permits_inv cb m'"
proof (induction rule: budget_step.induct)
  case (reserve c m q s)
  then show ?case using permits_inv_allocate [OF reserve(1)] by (simp add: permits_inv_def)
next
  case (refuse c m e s)
  then show ?case using permits_inv_allocate [OF refuse(1)] by (simp add: permits_inv_def)
next
  case (schedule i m c q slot s)
  show ?case
    by (rule permits_inv_update [of cb m i _ "Scheduled c q slot"])
      (use schedule schedule_admission_frame [OF schedule(3)] in \<open>simp_all add: permits_inv_def\<close>)
next
  case (admit i m c q slot)
  show ?case
    by (rule permits_inv_update [of cb m i _ "Admitted c q"])
      (use admit scheduled_below_limit [OF admit(4,1,2)] in \<open>simp_all add: permits_inv_def\<close>)
next
  case (finish i m c q d)
  show ?case
    by (rule permits_inv_update [of cb m i _ Releasing])
      (use finish admitted_in_flight [OF finish(3,1,2)] in \<open>simp_all add: permits_inv_def\<close>)
next
  case (drop_permit i m c q)
  show ?case
    by (rule permits_inv_update [of cb m i _ Releasing])
      (use drop_permit admitted_in_flight [OF drop_permit(3,1,2)] in \<open>simp_all add: permits_inv_def\<close>)
next
  case (acquire i m c q)
  show ?case
    by (rule permits_inv_update [of cb m i _ "Holding c q"])
      (use acquire in \<open>simp_all add: permits_inv_def\<close>)
next
  case (wait_error i m c q e)
  show ?case
    by (rule permits_inv_update [of cb m i _ Ended])
      (use wait_error in \<open>simp_all add: permits_inv_def\<close>)
next
  case (admission_error i m c q slot e)
  show ?case
    by (rule permits_inv_update [of cb m i _ Releasing])
      (use admission_error in \<open>simp_all add: permits_inv_def\<close>)
next
  case (release i m)
  show ?case
    by (rule permits_inv_update [of cb m i _ Ended])
      (use release in \<open>simp_all add: permits_inv_def\<close>)
next
  case (abort_waiting i m c q)
  show ?case
    by (rule permits_inv_update [of cb m i _ Ended])
      (use abort_waiting in \<open>simp_all add: permits_inv_def\<close>)
next
  case (abort_holding i m c q slot)
  show ?case
    by (rule permits_inv_update [of cb m i _ Releasing])
      (use abort_holding in \<open>auto simp: permits_inv_def\<close>)
qed (simp_all add: cancel_def permits_inv_def)

lemma permits_inv_init: "permits_inv cb (machine_init cb)"
  by (simp add: permits_inv_def machine_init_def initial_state_def)

interpretation permits: invariant_system "machine_init cb" "budget_step cb" "permits_inv cb" for cb
  by unfold_locales (auto simp: permits_inv_init intro: permits_inv_step)

end
