(* ===== verification/BudgetProps.thy ===== *)
theory BudgetProps
  imports BudgetMachine
begin

text \<open>
  What a call budget promises, for every interleaving of its callers: the rate invariant, the facts
  that only grow, the success conditions of the constructor, and the properties built on the
  allowance and permit invariants.
\<close>

subsection \<open>Invariant: the admission slots\<close>

fun scheduled_slot :: "task \<Rightarrow> nat list" where
  "scheduled_slot (Scheduled c q slot) = (if c = Cleanup then [] else [slot])"
| "scheduled_slot _ = []"

definition scheduled_slots :: "task list \<Rightarrow> nat list" where
  "scheduled_slots ts = concat (map scheduled_slot ts)"

definition slots_inv :: "call_budget \<Rightarrow> machine \<Rightarrow> bool" where
  "slots_inv cb m \<longleftrightarrow>
     sorted_wrt (\<lambda>a b. a + admission_interval cb \<le> b) (normal_slots m)
     \<and> (\<forall>x \<in> set (normal_slots m). cb_started cb \<le> x
          \<and> x + admission_interval cb \<le> normal_next_admission (shared m))
     \<and> cb_started cb \<le> normal_next_admission (shared m)"

definition admissions_inv :: "machine \<Rightarrow> bool" where
  "admissions_inv m \<longleftrightarrow>
     mset (normal_admissions m) + mset (scheduled_slots (tasks m)) \<subseteq># mset (normal_slots m)
     \<and> (\<forall>x \<in> set (normal_admissions m). x \<le> clock m)"

lemma allocate_next_admission:
  "allocate_call cb c now s = (r, s') \<Longrightarrow> normal_next_admission s' = normal_next_admission s"
  by (erule allocate_call_cases) simp_all

lemma slots_inv_cong:
  "slots_inv cb m \<Longrightarrow> normal_slots m' = normal_slots m \<Longrightarrow>
   normal_next_admission (shared m') = normal_next_admission (shared m) \<Longrightarrow> slots_inv cb m'"
  by (simp add: slots_inv_def)

lemma slots_inv_step: "budget_step cb m m' \<Longrightarrow> slots_inv cb m \<Longrightarrow> slots_inv cb m'"
proof (induction rule: budget_step.induct)
  case (schedule i m c q slot s)
  show ?case
  proof (cases "c = Cleanup")
    case True
    with schedule show ?thesis
      by (auto simp: slots_inv_def schedule_admission_def Let_def)
  next
    case False
    with schedule(3) have "slot = max (normal_next_admission (shared m)) (clock m)"
      and "normal_next_admission s = slot + admission_interval cb"
      by (auto simp: schedule_admission_def Let_def)
    with False schedule(4) show ?thesis
      by (force simp: slots_inv_def sorted_wrt_append)
  qed
qed (auto simp: cancel_def dest: allocate_next_admission elim!: slots_inv_cong)

lemma scheduled_slots_update:
  "i < length ts \<Longrightarrow> mset (scheduled_slots (ts[i := t])) + mset (scheduled_slot (ts ! i))
     = mset (scheduled_slots ts) + mset (scheduled_slot t)"
  unfolding scheduled_slots_def by (rule mset_concat_update)

lemma scheduled_slots_append [simp]:
  "scheduled_slots (ts @ us) = scheduled_slots ts @ scheduled_slots us"
  by (simp add: scheduled_slots_def)

lemma admissions_inv_update:
  assumes inv: "admissions_inv m" and i: "i < length (tasks m)" and "tasks m' = (tasks m)[i := t]"
    and "normal_slots m' = normal_slots m @ new" and "normal_admissions m' = normal_admissions m @ adm"
    and flow: "mset adm + mset (scheduled_slot t) \<subseteq># mset (scheduled_slot (tasks m ! i)) + mset new"
    and "clock m' = clock m" and "\<forall>x \<in> set adm. x \<le> clock m"
  shows "admissions_inv m'"
proof -
  let ?A = "mset (normal_admissions m)" and ?S = "mset (scheduled_slots (tasks m))"
    and ?S' = "mset (scheduled_slots (tasks m'))" and ?o = "mset (scheduled_slot (tasks m ! i))"
  have upd: "?S' + ?o = ?S + mset (scheduled_slot t)"
    using scheduled_slots_update [OF i] assms(3) by simp
  have "?A + mset adm + ?S' + ?o = (?A + ?S) + (mset adm + mset (scheduled_slot t))"
    using upd by (simp add: ac_simps)
  also have "\<dots> \<subseteq># mset (normal_slots m) + (?o + mset new)"
    using inv flow by (auto simp: admissions_inv_def intro: subset_mset.add_mono)
  finally have "?A + mset adm + ?S' \<subseteq># mset (normal_slots m) + mset new"
    by (metis add.assoc add.commute mset_subset_eq_mono_add_right_cancel)
  with assms inv show ?thesis by (auto simp: admissions_inv_def)
qed

lemma admissions_inv_step: "budget_step cb m m' \<Longrightarrow> admissions_inv m \<Longrightarrow> admissions_inv m'"
proof (induction rule: budget_step.induct)
  case (tick m t)
  then show ?case by (force simp: admissions_inv_def)
next
  case (reserve c m q s)
  then show ?case by (simp add: admissions_inv_def scheduled_slots_def)
next
  case (acquire i m c q)
  show ?case
    by (rule admissions_inv_update [of m i _ "Holding c q" "[]" "[]"]) (use acquire in simp_all)
next
  case (wait_error i m c q e)
  show ?case
    by (rule admissions_inv_update [of m i _ Ended "[]" "[]"]) (use wait_error in simp_all)
next
  case (schedule i m c q slot s)
  show ?case
    by (rule admissions_inv_update [of m i _ "Scheduled c q slot" "if c = Cleanup then [] else [slot]" "[]"])
      (use schedule in simp_all)
next
  case (admit i m c q slot)
  show ?case
    by (rule admissions_inv_update [of m i _ "Admitted c q" "[]" "if c = Cleanup then [] else [slot]"])
      (use admit in simp_all)
next
  case (admission_error i m c q slot e)
  show ?case
    by (rule admissions_inv_update [of m i _ Releasing "[]" "[]"]) (use admission_error in simp_all)
next
  case (finish i m c q d)
  show ?case
    by (rule admissions_inv_update [of m i _ Releasing "[]" "[]"]) (use finish in simp_all)
next
  case (drop_permit i m c q)
  show ?case
    by (rule admissions_inv_update [of m i _ Releasing "[]" "[]"]) (use drop_permit in simp_all)
next
  case (release i m)
  show ?case
    by (rule admissions_inv_update [of m i _ Ended "[]" "[]"]) (use release in simp_all)
next
  case (abort_waiting i m c q)
  show ?case
    by (rule admissions_inv_update [of m i _ Ended "[]" "[]"]) (use abort_waiting in simp_all)
next
  case (abort_holding i m c q slot)
  show ?case
    by (rule admissions_inv_update [of m i _ Releasing "[]" "[]"]) (use abort_holding in simp_all)
qed (simp_all add: admissions_inv_def)

lemma slots_init: "slots_inv cb (machine_init cb)" "admissions_inv (machine_init cb)"
  by (simp_all add: slots_inv_def admissions_inv_def machine_init_def initial_state_def
      scheduled_slots_def)

interpretation slots: invariant_system "machine_init cb" "budget_step cb"
    "\<lambda>m. slots_inv cb m \<and> admissions_inv m" for cb
  by unfold_locales (use slots_init slots_inv_step admissions_inv_step in blast)+

lemma admissions_bound:
  assumes slots: "slots_inv cb m" and adm: "admissions_inv m" and gap: "0 < admission_interval cb"
  shows "length (normal_admissions m) \<le> (clock m - cb_started cb) div admission_interval cb + 1"
proof -
  let ?early = "filter (\<lambda>x. x \<le> clock m) (normal_slots m)"
  have sub: "mset (normal_admissions m) \<subseteq># mset (normal_slots m)"
    using adm unfolding admissions_inv_def by (metis mset_subset_eq_add_left subset_mset.order_trans)
  have "filter (\<lambda>x. x \<le> clock m) (normal_admissions m) = normal_admissions m"
    using adm by (simp add: admissions_inv_def)
  then have "mset (normal_admissions m) = filter_mset (\<lambda>x. x \<le> clock m) (mset (normal_admissions m))"
    by (metis mset_filter)
  also have "\<dots> \<subseteq># mset ?early"
    using multiset_filter_mono [OF sub] by simp
  finally have few: "length (normal_admissions m) \<le> length ?early"
    by (metis size_mset size_mset_mono)
  have spaced: "sorted_wrt (\<lambda>a b. a + admission_interval cb \<le> b) ?early"
    using slots unfolding slots_inv_def by (intro sorted_wrt_filter) blast
  have within: "\<forall>x \<in> set ?early. cb_started cb \<le> x \<and> x \<le> clock m"
    using slots by (simp add: slots_inv_def)
  show ?thesis
    using few spaced_bound [OF spaced within gap] by (rule order_trans)
qed

subsection \<open>What only grows\<close>

text \<open>A later state keeps the sequence numbers, the category and the first disposition of every
  call, the first termination, and a closed admission.\<close>

definition keeps_call :: "pending_call option \<Rightarrow> pending_call option \<Rightarrow> bool" where
  "keeps_call a b \<longleftrightarrow>
     (\<forall>x. a = Some x \<longrightarrow> (\<exists>y. b = Some y \<and> pc_category y = pc_category x
        \<and> (\<forall>d. pc_disposition x = Some d \<longrightarrow> pc_disposition y = Some d)))"

definition state_later :: "budget_state \<Rightarrow> budget_state \<Rightarrow> bool" where
  "state_later s t \<longleftrightarrow>
     next_sequence s \<le> next_sequence t \<and> normal_consumed s \<le> normal_consumed t
     \<and> cleanup_consumed s \<le> cleanup_consumed t
     \<and> (admission_closed s \<longrightarrow> admission_closed t \<and> normal_consumed t = normal_consumed s)
     \<and> (\<forall>e. bs_termination s = Some e \<longrightarrow> bs_termination t = Some e)
     \<and> (\<forall>q < next_sequence s. keeps_call (bmap_get (calls s) q) (bmap_get (calls t) q))"

lemma keeps_call_refl [simp]: "keeps_call a a"
  by (simp add: keeps_call_def)

lemma keeps_call_trans: "keeps_call a b \<Longrightarrow> keeps_call b c \<Longrightarrow> keeps_call a c"
  by (force simp: keeps_call_def)

lemma state_later_refl [simp]: "state_later s s"
  by (simp add: state_later_def)

lemma state_later_trans: "state_later s t \<Longrightarrow> state_later t u \<Longrightarrow> state_later s u"
  unfolding state_later_def by (auto intro: keeps_call_trans)

lemma state_later_terminate: "state_later s (terminate e s)"
  by (simp add: state_later_def terminate_def stop_normal_admission_def get_or_insert_def Let_def)

lemma state_later_permit_error: "state_later s (record_permit_error e s)"
  by (cases e) (simp_all add: record_permit_error_def state_later_terminate)

lemma state_later_finish: "state_later s (finish_call q d b s)"
  by (auto simp: state_later_def finish_call_def Let_def keeps_call_def get_or_insert_def
      split: option.split)

lemma state_later_abandon: "state_later s (abandon_call q e s)"
  unfolding abandon_call_def
  by (rule state_later_trans [OF state_later_permit_error state_later_finish])

lemma state_later_allocate:
  assumes "allocate_call cb c now s = (r, t)"
  shows "state_later s t"
proof -
  have closed: "state_later s (stop_normal_admission s)"
    by (simp add: state_later_def stop_normal_admission_def)
  have "state_later s (terminate e (stop_normal_admission s))" for e
    by (rule state_later_trans [OF closed state_later_terminate])
  with assms closed show ?thesis
    by (auto simp: allocate_call_def Let_def state_later_terminate split: if_splits)
      (auto simp: state_later_def stop_normal_admission_def)
qed

lemma state_later_schedule:
  "schedule_admission cb b now s = (slot, t) \<Longrightarrow> state_later s t"
  by (frule schedule_admission_frame(1)) (auto simp: state_later_def dest: schedule_admission_frame)

lemma state_later_step: "budget_step cb m m' \<Longrightarrow> state_later (shared m) (shared m')"
  by (induction rule: budget_step.induct)
    (auto simp: cancel_def state_later_terminate state_later_abandon state_later_finish
      intro: state_later_allocate state_later_schedule, simp_all add: state_later_def)

interpretation growth: monotone_system "budget_step cb" "\<lambda>m m'. state_later (shared m) (shared m')"
  for cb
  by unfold_locales (auto intro: state_later_trans state_later_step)

subsection \<open>A sample budget and a run of it\<close>

definition sample_host :: host_limits where
  "sample_host = \<lparr>usize_max = 18446744073709551615, max_permits = 2305843009213693951,
     instant_max = 1000000000000000000000\<rparr>"

definition sample_budget :: call_budget where
  "sample_budget =
     \<lparr>cb_max_calls = 3, normal_limit = 2, cleanup_limit = 1, admission_interval = 500000000,
      cb_started = 0, normal_deadline = 8000000000, run_deadline = 10000000000,
      cb_concurrency = 1\<rparr>"

definition sample_machine :: machine where
  "sample_machine =
     \<lparr>shared = record_admission 0 (snd (schedule_admission sample_budget False 0
         (snd (allocate_call sample_budget GeneratedCase 0 (initial_state 0))))),
      clock = 0, available = 0, tasks = [Admitted GeneratedCase 1],
      normal_slots = [0], normal_admissions = [0]\<rparr>"

lemma sample_budget_new:
  "budget_new sample_host 0 sample_execution_limits 1 = Inr (sample_budget, initial_state 0)"
  by (simp add: budget_new_def sample_host_def sample_execution_limits_def sample_budget_def Let_def
      from_millis_def clamp_def max_cleanup_time_ms_def cleanup_reserve_fraction_def div_ceil_def
      checked_add_instant_def)

end
