(* ===== verification/BudgetContract.thy ===== *)
theory BudgetContract
  imports BudgetProps
begin

text \<open>
  The promises of a call budget, over every run of its concurrent callers: the allowance, the
  concurrency limit, the call rate, the cleanup reserve, and the finality of what was recorded.
\<close>

subsection \<open>What the constructor establishes\<close>

lemma budget_new_fields:
  assumes "budget_new h started limits k = Inr (cb, s)"
  shows "s = initial_state started" "cb_started cb = started" "cb_max_calls cb = max_calls limits"
    "normal_limit cb = max_calls limits - k" "cleanup_limit cb = k" "k \<le> max_calls limits"
    "cb_concurrency cb = max_concurrency limits"
    "admission_interval cb = max (div_ceil 1000000000 (calls_per_second limits)) 1"
    "0 < calls_per_second limits" "normal_deadline cb \<le> run_deadline cb"
    "k > 0 \<longrightarrow> admission_interval cb * k < run_deadline cb - normal_deadline cb"
    "started \<le> normal_deadline cb"
    "run_deadline cb = started + from_millis (run_timeout_ms limits)"
  using assms
  by (simp_all add: budget_new_def Let_def checked_add_instant_def
      split: if_splits option.splits) auto

lemma budget_new_interval_pos:
  "budget_new h started limits k = Inr (cb, s) \<Longrightarrow> 0 < admission_interval cb"
  by (simp add: budget_new_fields(8))

lemma budget_new_rate:
  assumes "budget_new h started limits k = Inr (cb, s)"
  shows "1000000000 \<le> admission_interval cb * calls_per_second limits"
proof -
  let ?r = "calls_per_second limits"
  have "0 < ?r" by (rule budget_new_fields(9) [OF assms])
  then have "1000000000 \<le> div_ceil 1000000000 ?r * ?r"
    unfolding div_ceil_def
    by (smt (verit) Suc_pred' add.commute add_diff_cancel_left' add_Suc_right dividend_less_div_times
        less_Suc_eq_le diff_Suc_1 diff_add_inverse2 less_diff_conv not_less)
  also have "\<dots> \<le> admission_interval cb * ?r"
    by (simp add: budget_new_fields(8) [OF assms])
  finally show ?thesis .
qed

lemma reachable_allowance: "reachable cb m \<Longrightarrow> allowance_inv cb (shared m)"
  unfolding reachable_def by (rule allowance.reachable_inv)

lemma reachable_permits: "reachable cb m \<Longrightarrow> permits_inv cb m"
  unfolding reachable_def by (rule permits.reachable_inv)

lemma reachable_slots: "reachable cb m \<Longrightarrow> slots_inv cb m \<and> admissions_inv m"
  unfolding reachable_def by (rule slots.reachable_inv)

lemma reachable_init: "reachable cb (machine_init cb)"
  by (simp add: reachable_def)

lemma reachable_step: "reachable cb m \<Longrightarrow> budget_step cb m m' \<Longrightarrow> reachable cb m'"
  by (simp add: reachable_def)

lemma sample_machine_reachable: "reachable sample_budget sample_machine"
proof -
  let ?cb = sample_budget
  let ?s1 = "snd (allocate_call ?cb GeneratedCase 0 (initial_state 0))"
  let ?s2 = "snd (schedule_admission ?cb False 0 ?s1)"
  have m0: "machine_init ?cb = \<lparr>shared = initial_state 0, clock = 0, available = 1, tasks = [],
      normal_slots = [], normal_admissions = []\<rparr>"
    by (simp add: machine_init_def sample_budget_def)
  have alloc: "allocate_call ?cb GeneratedCase 0 (initial_state 0) = (Inr 1, ?s1)"
    by (simp add: allocate_call_def initial_state_def sample_budget_def deadline_of_def Let_def)
  have slot: "schedule_admission ?cb False 0 ?s1 = (0, ?s2)"
    by (simp add: schedule_admission_def allocate_call_def initial_state_def sample_budget_def
        deadline_of_def Let_def)
  let ?m1 = "\<lparr>shared = ?s1, clock = 0, available = 1, tasks = [Waiting GeneratedCase 1],
      normal_slots = [], normal_admissions = []\<rparr> :: machine"
  have r1: "reachable ?cb ?m1"
    using reachable_step [OF reachable_init budget_step.reserve [of ?cb GeneratedCase "machine_init ?cb"]]
      alloc m0 by simp
  let ?m2 = "\<lparr>shared = ?s1, clock = 0, available = 0, tasks = [Holding GeneratedCase 1],
      normal_slots = [], normal_admissions = []\<rparr> :: machine"
  have r2: "reachable ?cb ?m2"
    using reachable_step [OF r1 budget_step.acquire [of 0 ?m1]] by simp
  let ?m3 = "\<lparr>shared = ?s2, clock = 0, available = 0, tasks = [Scheduled GeneratedCase 1 0],
      normal_slots = [0], normal_admissions = []\<rparr> :: machine"
  have r3: "reachable ?cb ?m3"
    using reachable_step [OF r2 budget_step.schedule [of 0 ?m2]] slot by simp
  show ?thesis
    using reachable_step [OF r3 budget_step.admit [of 0 ?m3]] by (simp add: sample_machine_def)
qed

subsection \<open>Properties\<close>

definition cleanup_calls_of :: "budget_state \<Rightarrow> nat" where
  "cleanup_calls_of s = length (filter (\<lambda>x. pc_category (snd x) = Cleanup) (calls s))"

lemma cleanup_calls_count:
  "cleanup_calls_of s = count_if (\<lambda>(q, c). c = Cleanup) (call_keys s)"
  by (simp add: cleanup_calls_of_def count_if_def call_keys_def filter_map comp_def case_prod_beta)

text \<open>C1: However the callers of a budget interleave, the calls it ever allocates are numbered
  1, 2, ... without gaps, are at most \<open>max_calls\<close>, of which at most the cleanup allowance are cleanup
  calls and at most the rest are not.\<close>

theorem allowance_never_exceeded:
  assumes "budget_new h started limits k = Inr (cb, s0)" and "reachable cb m"
  shows "map fst (calls (shared m)) = [1..<Suc (length (calls (shared m)))]
    \<and> length (calls (shared m)) \<le> max_calls limits
    \<and> cleanup_calls_of (shared m) \<le> k
    \<and> length (calls (shared m)) - cleanup_calls_of (shared m) \<le> max_calls limits - k"
proof -
  let ?s = "shared m"
  have inv: "allowance_inv cb ?s" by (rule reachable_allowance [OF assms(2)])
  then have keys: "map fst (calls ?s) = [1..<next_sequence ?s]"
    by (simp add: allowance_inv_def call_keys_wf)
  then have "length (calls ?s) = next_sequence ?s - 1"
    by (metis length_map length_upt)
  with inv keys budget_new_fields [OF assms(1)] show ?thesis
    by (auto simp: allowance_inv_def cleanup_calls_count)
qed

theorem allowance_never_exceeded_witness:
  "length (calls (shared sample_machine)) \<le> 3 \<and> cleanup_calls_of (shared sample_machine) \<le> 1"
  using allowance_never_exceeded [OF sample_budget_new sample_machine_reachable]
  by (simp add: sample_execution_limits_def)

text \<open>C2: In every state any interleaving can reach, the calls in flight are the admitted tasks, and
  neither they nor the recorded peak exceed \<open>max_concurrency\<close>; dropped futures and failed waits give
  their permits back exactly once.\<close>

theorem concurrency_bounded:
  assumes "budget_new h started limits k = Inr (cb, s0)" and "reachable cb m"
  shows "in_flight (shared m) = count_if is_admitted (tasks m)
    \<and> in_flight (shared m) \<le> max_concurrency limits
    \<and> peak_concurrency (shared m) \<le> max_concurrency limits
    \<and> available m + count_if holds_permit (tasks m) = max_concurrency limits"
proof -
  have "permits_inv cb m" by (rule reachable_permits [OF assms(2)])
  then show ?thesis
    using admitted_le_holds [of "tasks m"] budget_new_fields(7) [OF assms(1)]
    by (auto simp: permits_inv_def)
qed

theorem concurrency_bounded_witness:
  "in_flight (shared sample_machine) \<le> 1 \<and> tasks sample_machine = [Admitted GeneratedCase 1]"
  using concurrency_bounded [OF sample_budget_new sample_machine_reachable]
  by (simp add: sample_execution_limits_def sample_machine_def)

text \<open>C6: The call rate: by any instant of any run the non-cleanup calls admitted so far are at most
  \<open>elapsed * calls_per_second + 1\<close>.\<close>

theorem call_rate_bounded:
  assumes new: "budget_new h started limits k = Inr (cb, s0)" and run: "reachable cb m"
  shows "length (normal_admissions m)
    \<le> (clock m - started) * calls_per_second limits div 1000000000 + 1"
proof -
  let ?i = "admission_interval cb" and ?r = "calls_per_second limits"
  let ?n = "(clock m - started) div ?i"
  have "?n * 1000000000 \<le> ?n * (?i * ?r)"
    using budget_new_rate [OF new] by simp
  also have "\<dots> \<le> (clock m - started) * ?r"
    by (metis mult.assoc mult_le_mono1 div_times_less_eq_dividend)
  finally have "?n \<le> (clock m - started) * ?r div 1000000000"
    by (simp add: less_eq_div_iff_mult_less_eq)
  moreover have "length (normal_admissions m) \<le> ?n + 1"
    using admissions_bound [OF _ _ budget_new_interval_pos [OF new]] reachable_slots [OF run]
      budget_new_fields(2) [OF new] by metis
  ultimately show ?thesis by linarith
qed

theorem call_rate_bounded_witness:
  "length (normal_admissions sample_machine) \<le> 0 * 2 div 1000000000 + 1"
  using call_rate_bounded [OF sample_budget_new sample_machine_reachable]
  by (simp add: sample_execution_limits_def sample_machine_def)

text \<open>C26: Once a cleanup call has been requested, whatever runs afterwards, no other call is ever
  allocated: the count of normal calls stays what it was, and every further request is refused as
  cancelled or past its deadline.\<close>

theorem cleanup_ends_normal_calls:
  assumes "allocate_call cb Cleanup now (shared m) = (r, s)"
    and "(budget_step cb)\<^sup>*\<^sup>* (m\<lparr>shared := s\<rparr>) m'" and "c \<noteq> Cleanup"
  shows "normal_consumed (shared m') = normal_consumed (shared m)
    \<and> fst (allocate_call cb c t (shared m'))
        = Inl (if normal_deadline cb \<le> t then DeadlineExhausted else Cancelled)"
proof -
  have closed: "admission_closed s \<and> normal_consumed s = normal_consumed (shared m)"
    using assms(1)
    by (auto simp: allocate_call_def Let_def stop_normal_admission_def split: if_splits)
  have "state_later s (shared m')"
    using growth.run_later [OF assms(2)] by simp
  with closed have "admission_closed (shared m')"
    and "normal_consumed (shared m') = normal_consumed (shared m)"
    by (simp_all add: state_later_def)
  then show ?thesis
    using assms(3) by (simp add: allocate_call_def Let_def deadline_of_def)
qed

definition sample_after_cleanup :: budget_state where
  "sample_after_cleanup = snd (allocate_call sample_budget Cleanup 5 (shared sample_machine))"

theorem cleanup_ends_normal_calls_witness:
  "fst (allocate_call sample_budget GeneratedCase 6 sample_after_cleanup) = Inl Cancelled
   \<and> fst (allocate_call sample_budget GeneratedCase 8000000000 sample_after_cleanup)
       = Inl DeadlineExhausted"
  using
    cleanup_ends_normal_calls [of sample_budget 5 sample_machine _ sample_after_cleanup
      "sample_machine\<lparr>shared := sample_after_cleanup\<rparr>" GeneratedCase 6,
      OF surjective_pairing [of "allocate_call sample_budget Cleanup 5 (shared sample_machine)",
        folded sample_after_cleanup_def] rtranclp.rtrancl_refl]
    cleanup_ends_normal_calls [of sample_budget 5 sample_machine _ sample_after_cleanup
      "sample_machine\<lparr>shared := sample_after_cleanup\<rparr>" GeneratedCase 8000000000,
      OF surjective_pairing [of "allocate_call sample_budget Cleanup 5 (shared sample_machine)",
        folded sample_after_cleanup_def] rtranclp.rtrancl_refl]
  by (simp add: sample_budget_def)

text \<open>C28: What a budget has recorded is final. Along every run from a reachable state the first
  termination stays, the category of a call never changes, and a disposition once recorded is never
  replaced.\<close>

theorem records_are_final:
  assumes "reachable cb m" and "(budget_step cb)\<^sup>*\<^sup>* m m'"
  shows "(bs_termination (shared m) \<noteq> None \<longrightarrow>
      bs_termination (shared m') = bs_termination (shared m))
    \<and> (\<forall>q. keeps_call (bmap_get (calls (shared m)) q) (bmap_get (calls (shared m')) q))"
proof -
  let ?s = "shared m" and ?t = "shared m'"
  have later: "state_later ?s ?t" by (rule growth.run_later [OF assms(2)])
  have seq: "map fst (calls ?s) = [1..<next_sequence ?s]"
    using reachable_allowance [OF assms(1)] by (simp add: allowance_inv_def call_keys_wf)
  have "keeps_call (bmap_get (calls ?s) q) (bmap_get (calls ?t) q)" for q
  proof (cases "bmap_get (calls ?s) q")
    case None
    then show ?thesis by (simp add: keeps_call_def)
  next
    case (Some call)
    then have "q \<in> set (map fst (calls ?s))"
      unfolding bmap_get_def by (metis map_of_SomeD fst_conv image_eqI set_map)
    then have "q < next_sequence ?s"
      unfolding seq by simp
    with later show ?thesis by (simp add: state_later_def)
  qed
  with later show ?thesis by (auto simp: state_later_def)
qed

definition sample_finished :: machine where
  "sample_finished =
     sample_machine\<lparr>shared := finish_call 1 Completed True (shared sample_machine),
       tasks := (tasks sample_machine)[0 := Releasing]\<rparr>"

lemma sample_finished_step: "budget_step sample_budget sample_machine sample_finished"
  using budget_step.finish [of 0 sample_machine GeneratedCase 1 sample_budget Completed]
  by (simp add: sample_machine_def sample_finished_def)

lemma sample_finished_get:
  "bmap_get (calls (shared sample_finished)) 1
     = Some \<lparr>pc_category = GeneratedCase, pc_disposition = Some Completed\<rparr>"
  by (simp add: sample_finished_def sample_machine_def finish_call_def Let_def get_or_insert_def
      allocate_call_def schedule_admission_def initial_state_def sample_budget_def deadline_of_def
      record_admission_def bmap_get_def)

theorem records_are_final_witness:
  "keeps_call (Some \<lparr>pc_category = GeneratedCase, pc_disposition = Some Completed\<rparr>)
     (bmap_get (calls (cancel (shared sample_finished))) 1)"
proof -
  have "reachable sample_budget sample_finished"
    by (rule reachable_step [OF sample_machine_reachable sample_finished_step])
  moreover have "(budget_step sample_budget)\<^sup>*\<^sup>* sample_finished
      (sample_finished\<lparr>shared := cancel (shared sample_finished)\<rparr>)"
    by (rule r_into_rtranclp [of "budget_step sample_budget", OF budget_step.cancel_all])
  ultimately show ?thesis
    using records_are_final sample_finished_get by (metis machine.select_convs(1) machine.surjective
        machine.update_convs(1))
qed

subsection \<open>The cleanup reserve\<close>

fun is_cleanup_task :: "task \<Rightarrow> bool" where
  "is_cleanup_task (Waiting c q) \<longleftrightarrow> c = Cleanup"
| "is_cleanup_task (Holding c q) \<longleftrightarrow> c = Cleanup"
| "is_cleanup_task _ \<longleftrightarrow> False"

text \<open>
  The next cleanup slot lies within one interval for every cleanup call that is past its scheduling,
  and one more, after the clock: \<open>unscheduled m\<close> cleanup calls are still before it.
\<close>

abbreviation unscheduled :: "machine \<Rightarrow> nat" where
  "unscheduled m \<equiv> count_if is_cleanup_task (tasks m)"

definition reserve_inv :: "call_budget \<Rightarrow> machine \<Rightarrow> bool" where
  "reserve_inv cb m \<longleftrightarrow>
     (\<forall>l. last_admitted_at (shared m) = Some l \<longrightarrow> l \<le> clock m)
     \<and> unscheduled m \<le> cleanup_consumed (shared m)
     \<and> (\<forall>n. cleanup_next_admission (shared m) = Some n \<longrightarrow>
          n \<le> clock m + (cleanup_consumed (shared m) - unscheduled m + 1) * admission_interval cb)"

lemma cleanup_frame [simp]:
  "cleanup_next_admission (terminate t s) = cleanup_next_admission s"
  "last_admitted_at (terminate t s) = last_admitted_at s"
  "cleanup_next_admission (finish_call q d b s) = cleanup_next_admission s"
  "last_admitted_at (finish_call q d b s) = last_admitted_at s"
  "cleanup_next_admission (record_permit_error e s) = cleanup_next_admission s"
  "last_admitted_at (record_permit_error e s) = last_admitted_at s"
  "cleanup_next_admission (abandon_call q e s) = cleanup_next_admission s"
  "last_admitted_at (abandon_call q e s) = last_admitted_at s"
  "cleanup_consumed (abandon_call q e s) = cleanup_consumed s"
  "cleanup_next_admission (record_admission now s) = cleanup_next_admission s"
  "last_admitted_at (record_admission now s) = Some now"
  by (simp_all add: terminate_def stop_normal_admission_def finish_call_def abandon_call_def
      record_permit_error_def record_admission_def Let_def split: option.split permit_error.split)

lemma reserve_inv_allocate:
  assumes "allocate_call cb c now s = (r, t)"
  shows "last_admitted_at t = last_admitted_at s"
    "cleanup_next_admission t = cleanup_next_admission s"
    "cleanup_consumed t = cleanup_consumed s + (if c = Cleanup \<and> (\<exists>q. r = Inr q) then 1 else 0)"
  using assms
  by (auto simp: allocate_call_def Let_def stop_normal_admission_def split: if_splits)

lemma reserve_inv_update:
  assumes "reserve_inv cb m" and "clock m' = clock m" and "tasks m' = (tasks m)[i := t]"
    and i: "i < length (tasks m)"
    and "last_admitted_at (shared m') = last_admitted_at (shared m)
      \<or> last_admitted_at (shared m') = Some (clock m)"
    and "cleanup_consumed (shared m') = cleanup_consumed (shared m)"
    and "cleanup_next_admission (shared m') = cleanup_next_admission (shared m)"
    and "is_cleanup_task t \<Longrightarrow> is_cleanup_task (tasks m ! i)"
  shows "reserve_inv cb m'"
proof -
  have less: "unscheduled m' \<le> unscheduled m"
    using count_if_update [OF i, of is_cleanup_task t] assms(3,8) by (auto split: if_splits)
  let ?c = "cleanup_consumed (shared m)" and ?i = "admission_interval cb"
  have "(?c - unscheduled m + 1) * ?i \<le> (?c - unscheduled m' + 1) * ?i"
    using less by (intro mult_le_mono1) simp
  then show ?thesis
    using assms less by (fastforce simp: reserve_inv_def intro: le_trans)
qed

text \<open>The slot of a cleanup call that holds its permit.\<close>

lemma cleanup_slot:
  assumes inv: "reserve_inv cb m" and i: "i < length (tasks m)" and holding: "tasks m ! i = Holding Cleanup q"
    and sched: "schedule_admission cb True (clock m) (shared m) = (slot, s)"
  shows "clock m \<le> slot"
    and "slot \<le> clock m + (cleanup_consumed (shared m) - unscheduled m + 1) * admission_interval cb"
    and "0 < unscheduled m"
    and "\<And>l. last_admitted_at (shared m) = Some l \<Longrightarrow> l + admission_interval cb \<le> slot"
proof -
  let ?i = "admission_interval cb" and ?k = "cleanup_consumed (shared m) - unscheduled m + 1"
  have slot: "slot = max (case cleanup_next_admission (shared m) of
        None \<Rightarrow> max (case last_admitted_at (shared m) of None \<Rightarrow> clock m | Some l \<Rightarrow> l + ?i) (clock m) | Some n \<Rightarrow> n)
      (max (case last_admitted_at (shared m) of None \<Rightarrow> clock m | Some l \<Rightarrow> l + ?i) (clock m))"
    using sched by (simp add: schedule_admission_def Let_def)
  show "clock m \<le> slot" by (simp add: slot)
  show "l + ?i \<le> slot" if "last_admitted_at (shared m) = Some l" for l
    by (simp add: slot that)
  have "?i \<le> ?k * ?i" by simp
  moreover have "l + ?i \<le> clock m + ?i" if "last_admitted_at (shared m) = Some l" for l
    using inv that by (simp add: reserve_inv_def)
  ultimately have "(case last_admitted_at (shared m) of None \<Rightarrow> clock m | Some l \<Rightarrow> l + ?i) \<le> clock m + ?k * ?i"
    by (cases "last_admitted_at (shared m)") (auto intro: le_trans)
  moreover have "n \<le> clock m + ?k * ?i" if "cleanup_next_admission (shared m) = Some n" for n
    using inv that by (simp add: reserve_inv_def)
  ultimately show "slot \<le> clock m + ?k * ?i"
    unfolding slot by (cases "cleanup_next_admission (shared m)") simp_all
  show "0 < unscheduled m" using count_if_pos [of i "tasks m" is_cleanup_task] i holding by simp
qed

lemma reserve_inv_schedule:
  assumes inv: "reserve_inv cb m" and i: "i < length (tasks m)" and holding: "tasks m ! i = Holding c q"
    and sched: "schedule_admission cb (c = Cleanup) (clock m) (shared m) = (slot, s)"
    and m': "shared m' = s" "clock m' = clock m" "tasks m' = (tasks m)[i := Scheduled c q slot]"
  shows "reserve_inv cb m'"
proof (cases "c = Cleanup")
  case False
  with sched have "last_admitted_at s = last_admitted_at (shared m)" "cleanup_next_admission s = cleanup_next_admission (shared m)"
    by (auto simp: schedule_admission_def Let_def)
  with schedule_admission_frame(3) [OF sched] show ?thesis
    by (intro reserve_inv_update [OF inv, of _ i "Scheduled c q slot"]) (simp_all add: m' i)
next
  case True
  let ?i = "admission_interval cb" and ?u = "unscheduled m" and ?c = "cleanup_consumed (shared m)"
  note slot = cleanup_slot [OF inv i _ sched [unfolded True simp_thms]] holding True
  have "unscheduled m' + 1 = ?u"
    using count_if_update [OF i, of is_cleanup_task "Scheduled c q slot"] holding True by (simp add: m')
  moreover have "?u \<le> ?c" using inv by (simp add: reserve_inv_def)
  ultimately have count: "?c - unscheduled m' + 1 = (?c - ?u + 1) + 1" "unscheduled m' \<le> ?c" by auto
  have s: "last_admitted_at s = last_admitted_at (shared m)" "cleanup_next_admission s = Some (slot + ?i)"
    using sched True by (auto simp: schedule_admission_def Let_def)
  have "slot + ?i \<le> clock m + (?c - unscheduled m' + 1) * ?i"
    using slot(2) [of q] holding True unfolding count(1) by simp
  then show ?thesis
    using inv count(2) s schedule_admission_frame(3) [OF sched] by (simp add: reserve_inv_def m')
qed

lemma reserve_inv_step: "budget_step cb m m' \<Longrightarrow> reserve_inv cb m \<Longrightarrow> reserve_inv cb m'"
proof (induction rule: budget_step.induct)
  case (tick m t)
  then show ?case by (force simp: reserve_inv_def)
next
  case (reserve c m q s)
  then show ?case
    using reserve_inv_allocate [OF reserve(1)] by (auto simp: reserve_inv_def)
next
  case (refuse c m e s)
  then show ?case
    using reserve_inv_allocate [OF refuse(1)] by (auto simp: reserve_inv_def)
next
  case (schedule i m c q slot s)
  show ?case by (rule reserve_inv_schedule [OF schedule(4,1,2,3)]) simp_all
next
  case (cancel_all m)
  then show ?case by (simp add: reserve_inv_def cancel_def)
next
  case (acquire i m c q)
  show ?case by (rule reserve_inv_update [of cb m _ i "Holding c q"]) (use acquire in simp_all)
next
  case (wait_error i m c q e)
  show ?case by (rule reserve_inv_update [of cb m _ i Ended]) (use wait_error in simp_all)
next
  case (admit i m c q slot)
  show ?case by (rule reserve_inv_update [of cb m _ i "Admitted c q"]) (use admit in simp_all)
next
  case (admission_error i m c q slot e)
  show ?case by (rule reserve_inv_update [of cb m _ i Releasing]) (use admission_error in simp_all)
next
  case (finish i m c q d)
  show ?case by (rule reserve_inv_update [of cb m _ i Releasing]) (use finish in simp_all)
next
  case (drop_permit i m c q)
  show ?case by (rule reserve_inv_update [of cb m _ i Releasing]) (use drop_permit in simp_all)
next
  case (release i m)
  show ?case by (rule reserve_inv_update [of cb m _ i Ended]) (use release in simp_all)
next
  case (abort_waiting i m c q)
  show ?case by (rule reserve_inv_update [of cb m _ i Ended]) (use abort_waiting in simp_all)
next
  case (abort_holding i m c q slot)
  show ?case by (rule reserve_inv_update [of cb m _ i Releasing]) (use abort_holding in simp_all)
qed

lemma reserve_inv_init: "reserve_inv cb (machine_init cb)"
  by (simp add: reserve_inv_def machine_init_def initial_state_def)

interpretation reserve: invariant_system "machine_init cb" "budget_step cb" "reserve_inv cb" for cb
  by unfold_locales (use reserve_inv_init reserve_inv_step in blast)+

text \<open>A scheduled call is admitted by the passing of time alone.\<close>

lemma scheduled_is_admitted:
  assumes "i < length (tasks m)" and "tasks m ! i = Holding c q" and "clock m \<le> slot"
    and "schedule_admission cb (c = Cleanup) (clock m) (shared m) = (slot, s)"
  shows "\<exists>m'. (budget_step cb)\<^sup>*\<^sup>* m m' \<and> clock m' = slot \<and> tasks m' = (tasks m)[i := Admitted c q]"
proof -
  let ?m1 = "m\<lparr>shared := s, tasks := (tasks m)[i := Scheduled c q slot],
    normal_slots := normal_slots m @ (if c = Cleanup then [] else [slot])\<rparr>"
  let ?m2 = "?m1\<lparr>clock := slot\<rparr>"
  have "budget_step cb m ?m1" by (rule budget_step.schedule [OF assms(1,2,4)])
  moreover have "budget_step cb ?m1 ?m2" by (rule budget_step.tick) (simp add: assms(3))
  moreover have "budget_step cb ?m2 (?m2\<lparr>shared := record_admission (clock ?m2) (shared ?m2),
      tasks := (tasks ?m2)[i := Admitted c q],
      normal_admissions := normal_admissions ?m2 @ (if c = Cleanup then [] else [slot])\<rparr>)"
    by (rule budget_step.admit) (simp_all add: assms(1))
  ultimately show ?thesis
    by (intro exI conjI) (rule converse_rtranclp_into_rtranclp, assumption,
      rule converse_rtranclp_into_rtranclp, assumption, rule r_into_rtranclp, assumption, simp_all)
qed

text \<open>C25: The cleanup reserve is enough, in every interleaving with any other calls: a cleanup call that
  holds its permit at an instant \<open>t\<close> is given a slot at most one admission interval for each cleanup
  call requested so far after \<open>t\<close>, and one interval after the last admission. So when it holds the permit
  by the normal deadline, or later but with room for the paced allowance \<open>k\<close> before the run deadline, its
  slot lies before the run deadline, no wait of it fails before then, and the passing of time admits it.\<close>

theorem cleanup_reserve_suffices:
  assumes new: "budget_new h started limits k = Inr (cb, s0)" and run: "reachable cb m"
    and call: "i < length (tasks m)" "tasks m ! i = Holding Cleanup q"
    and sched: "schedule_admission cb True (clock m) (shared m) = (slot, s)"
  shows "clock m \<le> slot \<and> slot \<le> clock m + cleanup_consumed (shared m) * admission_interval cb
    \<and> (\<forall>l. last_admitted_at (shared m) = Some l \<longrightarrow> l + admission_interval cb \<le> slot)
    \<and> (clock m \<le> normal_deadline cb \<or> clock m + k * admission_interval cb < run_deadline cb \<longrightarrow>
         slot < run_deadline cb
         \<and> (\<exists>m'. (budget_step cb)\<^sup>*\<^sup>* m m' \<and> clock m' < run_deadline cb
              \<and> tasks m' = (tasks m)[i := Admitted Cleanup q]))
    \<and> (\<forall>m' e. clock m' < run_deadline cb \<longrightarrow> \<not> wait_fails cb m' Cleanup e)"
proof -
  let ?i = "admission_interval cb" and ?c = "cleanup_consumed (shared m)"
  have inv: "reserve_inv cb m" using run unfolding reachable_def by (rule reserve.reachable_inv)
  note slot = cleanup_slot [OF inv call sched]
  have "unscheduled m \<le> ?c" using inv by (simp add: reserve_inv_def)
  with slot(3) have "(?c - unscheduled m + 1) * ?i \<le> ?c * ?i" by (intro mult_le_mono1) simp
  with slot(2) have bound: "slot \<le> clock m + ?c * ?i" by simp
  have "0 < ?c" using slot(3) \<open>unscheduled m \<le> ?c\<close> by simp
  moreover have c: "?c \<le> k"
    using reachable_allowance [OF run] budget_new_fields(5) [OF new] by (simp add: allowance_inv_def)
  ultimately have room: "k * ?i < run_deadline cb - normal_deadline cb"
    using budget_new_fields(11) [OF new] by (simp add: mult.commute)
  have "?c * ?i \<le> k * ?i" using c by simp
  with bound room have early: "slot < run_deadline cb"
    if "clock m \<le> normal_deadline cb \<or> clock m + k * ?i < run_deadline cb"
    using that by linarith
  have admitted: "\<exists>m'. (budget_step cb)\<^sup>*\<^sup>* m m' \<and> clock m' = slot \<and> tasks m' = (tasks m)[i := Admitted Cleanup q]"
    by (rule scheduled_is_admitted [OF call slot(1)]) (simp add: sched)
  have "\<not> wait_fails cb m' Cleanup e" if "clock m' < run_deadline cb" for m' e
    using that by (simp add: wait_fails_def deadline_of_def)
  then show ?thesis using slot(1,4) bound early admitted by blast
qed

text \<open>A cleanup call requested after the normal deadline of the sample, once its first call is released.\<close>

definition sample_cleanup :: machine where
  "sample_cleanup =
     sample_finished\<lparr>clock := 9000000000,
       shared := snd (allocate_call sample_budget Cleanup 9000000000 (shared sample_finished)),
       available := 0, tasks := [Ended, Holding Cleanup 2]\<rparr>"

lemma sample_cleanup_reachable: "reachable sample_budget sample_cleanup"
proof -
  let ?m1 = "sample_finished\<lparr>available := 1, tasks := [Ended]\<rparr>"
  let ?m2 = "?m1\<lparr>clock := 9000000000\<rparr>"
  let ?s = "snd (allocate_call sample_budget Cleanup 9000000000 (shared sample_finished))"
  let ?m3 = "?m2\<lparr>shared := ?s, tasks := [Ended, Waiting Cleanup 2]\<rparr>"
  have "reachable sample_budget sample_finished"
    by (rule reachable_step [OF sample_machine_reachable sample_finished_step])
  then have "reachable sample_budget ?m1"
    by (rule reachable_step) (use budget_step.release [of 0 sample_finished sample_budget] in
      \<open>simp add: sample_finished_def sample_machine_def\<close>)
  then have "reachable sample_budget ?m2"
    by (rule reachable_step) (use budget_step.tick [of ?m1 9000000000 sample_budget] in
      \<open>simp add: sample_finished_def sample_machine_def\<close>)
  moreover have "allocate_call sample_budget Cleanup (clock ?m2) (shared ?m2) = (Inr 2, ?s)"
    by (simp add: sample_finished_def sample_machine_def finish_call_def Let_def allocate_call_def
        schedule_admission_def initial_state_def sample_budget_def deadline_of_def record_admission_def
        stop_normal_admission_def bmap_get_def)
  ultimately have "reachable sample_budget ?m3"
    using reachable_step [OF _ budget_step.reserve] by force
  then show ?thesis
    by (rule reachable_step) (use budget_step.acquire [of 1 ?m3 Cleanup 2 sample_budget] in
      \<open>simp add: sample_cleanup_def\<close>)
qed

theorem cleanup_reserve_suffices_witness:
  "normal_deadline sample_budget < clock sample_cleanup
   \<and> fst (schedule_admission sample_budget True (clock sample_cleanup) (shared sample_cleanup))
       < run_deadline sample_budget"
proof
  show late: "normal_deadline sample_budget < clock sample_cleanup"
    by (simp add: sample_cleanup_def sample_budget_def)
  have "clock sample_cleanup + 1 * admission_interval sample_budget < run_deadline sample_budget"
    by (simp add: sample_cleanup_def sample_budget_def)
  moreover have "1 < length (tasks sample_cleanup)" and "tasks sample_cleanup ! 1 = Holding Cleanup 2"
    by (simp_all add: sample_cleanup_def)
  ultimately show "fst (schedule_admission sample_budget True (clock sample_cleanup) (shared sample_cleanup))
      < run_deadline sample_budget"
    using cleanup_reserve_suffices [OF sample_budget_new sample_cleanup_reachable _ _ prod.collapse [symmetric]]
    by blast
qed

subsection \<open>Snapshots\<close>

lemma category_counts_wf: "bmap_wf m \<Longrightarrow>
    bmap_wf (fold (\<lambda>(_, call) counts. bmap_entry (pc_category call) 0 (\<lambda>n. n + 1) counts) cs m)"
  by (induction cs arbitrary: m) (auto simp: bmap_wf_entry)

lemma sum_bmap_insert:
  "bmap_wf m \<Longrightarrow> sum_list (map snd (bmap_insert k (v :: nat) m)) + (case bmap_get m k of None \<Rightarrow> 0 | Some w \<Rightarrow> w)
     = sum_list (map snd m) + v"
proof (induction m)
  case (Cons a m)
  obtain j w where a: "a = (j, w)" by (cases a)
  have wf: "bmap_wf m" using Cons.prems by (simp add: bmap_wf_def a)
  have "k < j \<Longrightarrow> bmap_get m k = None"
    using Cons.prems a by (force simp: bmap_wf_def bmap_get_def map_of_eq_None_iff)
  with Cons.IH [OF wf] show ?case
    by (auto simp: a bmap_get_def)
qed simp

lemma category_counts_sum:
  "bmap_wf m \<Longrightarrow>
   sum_list (map snd (fold (\<lambda>(_, call) counts. bmap_entry (pc_category call) 0 (\<lambda>n. n + 1) counts) cs m))
     = sum_list (map snd m) + length cs"
proof (induction cs arbitrary: m)
  case (Cons x cs)
  let ?c = "pc_category (snd x)"
  have "sum_list (map snd (bmap_entry ?c 0 (\<lambda>n. n + 1) m)) = sum_list (map snd m) + 1"
  proof (cases "bmap_get m ?c")
    case None
    then show ?thesis
      using sum_bmap_insert [OF Cons.prems, of ?c 1] by (simp add: bmap_entry_def)
  next
    case (Some w)
    then show ?thesis
      using sum_bmap_insert [OF Cons.prems, of ?c "w + 1"] by (simp add: bmap_entry_def)
  qed
  with Cons show ?case by (simp add: case_prod_beta bmap_wf_entry)
qed simp

lemma category_counts_get:
  "bmap_get (fold (\<lambda>(_, call) counts. bmap_entry (pc_category call) 0 (\<lambda>n. n + 1) counts) cs m) c
     = (let n = count_if (\<lambda>x. pc_category (snd x) = c) cs
        in if n = 0 then bmap_get m c
           else Some ((case bmap_get m c of None \<Rightarrow> 0 | Some v \<Rightarrow> v) + n))"
  by (induction cs arbitrary: m) (auto simp: Let_def split: option.splits)

lemma category_counts_find:
  assumes "bmap_wf (calls s)"
  shows "(case find (\<lambda>x. cc_category x = c) (by_category (usage (snapshot cb s))) of
      None \<Rightarrow> 0 | Some x \<Rightarrow> cc_count x) = count_if (\<lambda>r. cr_category r = c) (cs_records (snapshot cb s))"
proof -
  have find_map: "find (\<lambda>x. cc_category x = c) (map (\<lambda>(c, n). \<lparr>cc_category = c, cc_count = n\<rparr>) m)
      = map_option (\<lambda>n. \<lparr>cc_category = c, cc_count = n\<rparr>) (bmap_get m c)" for m
    by (induction m) (auto simp: bmap_get_def)
  have "bmap_get (category_counts (calls s)) c =
      (let n = count_if (\<lambda>x. pc_category (snd x) = c) (calls s) in if n = 0 then None else Some n)"
    using category_counts_get [of "calls s" "[]" c] by (simp add: category_counts_def Let_def)
  moreover have "count_if (\<lambda>r. cr_category r = c) (map snapshot_record xs)
      = count_if (\<lambda>x. pc_category (snd x) = c) xs" for xs
    by (induction xs) (simp_all add: snapshot_record_def)
  ultimately show ?thesis
    by (simp add: snapshot_def find_map Let_def split: option.split)
qed

lemma snapshot_account:
  assumes new: "budget_new h started limits k = Inr (cb, s0)" and run: "reachable cb m"
    and fits: "max_calls limits \<le> u64_max"
  shows "let snap = snapshot cb (shared m); u = usage snap; counts = by_category u in
      consumed u = length (cs_records snap) \<and> consumed u \<le> reserved u
      \<and> reserved u = max_calls limits
      \<and> map cr_sequence (cs_records snap) = [1..<Suc (length (cs_records snap))]
      \<and> sorted_wrt (<) (map cc_category counts) \<and> (\<forall>x \<in> set counts. 0 < cc_count x)
      \<and> sum_list (map cc_count counts) = consumed u
      \<and> (case find (\<lambda>x. cc_category x = c) counts of None \<Rightarrow> 0 | Some x \<Rightarrow> cc_count x)
          = count_if (\<lambda>r. cr_category r = c) (cs_records snap)"
proof -
  let ?s = "shared m" and ?cs = "calls (shared m)"
  have inv: "allowance_inv cb ?s" by (rule reachable_allowance [OF run])
  then have keys: "map fst ?cs = [1..<next_sequence ?s]" and wf: "bmap_wf ?cs"
    by (simp_all add: allowance_inv_def call_keys_wf)
  then have len: "length ?cs = next_sequence ?s - 1" by (metis length_map length_upt)
  have few: "length ?cs \<le> max_calls limits"
    using inv len budget_new_fields(4-6) [OF new] by (auto simp: allowance_inv_def)
  have seqs: "map cr_sequence (map snapshot_record ?cs) = map fst ?cs"
    by (simp add: snapshot_record_def)
  have sorted: "sorted_wrt (<) (map fst (category_counts ?cs))"
    using category_counts_wf [OF bmap_wf_Nil, of ?cs]
    unfolding category_counts_def bmap_wf_def by blast
  have pos: "0 < n" if "(c, n) \<in> set (category_counts ?cs)" for c n
    using that sorted category_counts_get [of ?cs "[]" c]
      bmap_get_iff [of "category_counts ?cs" c n]
    by (simp add: category_counts_def bmap_wf_def Let_def split: if_splits)
  have sum: "sum_list (map snd (category_counts ?cs)) = length ?cs"
    using category_counts_sum [OF bmap_wf_Nil, of ?cs] by (simp add: category_counts_def)
  have 1: "map cc_category (map (\<lambda>(c, n). \<lparr>cc_category = c, cc_count = n\<rparr>) xs) = map fst xs"
    and 2: "map cc_count (map (\<lambda>(c, n). \<lparr>cc_category = c, cc_count = n\<rparr>) xs) = map snd xs" for xs
    by (simp_all add: case_prod_beta)
  have snap: "usage (snapshot cb ?s) = \<lparr>reserved = cb_max_calls cb, consumed = length ?cs,
      by_category = map (\<lambda>(c, n). \<lparr>cc_category = c, cc_count = n\<rparr>) (category_counts ?cs)\<rparr>"
    "cs_records (snapshot cb ?s) = map snapshot_record ?cs"
    using few fits by (simp_all add: snapshot_def Let_def)
  have "[1..<next_sequence ?s] = [1..<Suc (length ?cs)]"
    using len inv by (simp add: allowance_inv_def)
  moreover have "\<forall>x \<in> set (map (\<lambda>(c, n). \<lparr>cc_category = c, cc_count = n\<rparr>) (category_counts ?cs)).
      0 < cc_count x"
    using pos by auto
  ultimately show ?thesis
    using few sorted sum keys category_counts_find [OF wf, of c cb] budget_new_fields(3) [OF new]
    unfolding Let_def snap by (simp add: 1 2 seqs del: map_map)
qed

text \<open>C29: The usage a receipt records is an exact account of the run: consumed calls are the recorded
  calls, numbered from 1, within the reserved ones; the categories are strictly sorted and positive,
  each count is the number of recorded calls of that category, and the counts sum to the total.\<close>

theorem snapshot_accounts_for_every_call:
  assumes new: "budget_new h started limits k = Inr (cb, s0)" and run: "reachable cb m"
    and fits: "max_calls limits \<le> u64_max"
  shows "let snap = snapshot cb (shared m); u = usage snap; counts = by_category u in
      consumed u = length (cs_records snap) \<and> consumed u \<le> reserved u
      \<and> reserved u = max_calls limits
      \<and> map cr_sequence (cs_records snap) = [1..<Suc (length (cs_records snap))]
      \<and> sorted_wrt (<) (map cc_category counts) \<and> (\<forall>x \<in> set counts. 0 < cc_count x)
      \<and> sum_list (map cc_count counts) = consumed u
      \<and> (case find (\<lambda>x. cc_category x = c) counts of None \<Rightarrow> 0 | Some x \<Rightarrow> cc_count x)
          = count_if (\<lambda>r. cr_category r = c) (cs_records snap)"
  by (rule snapshot_account [OF new run fits])

theorem snapshot_accounts_for_every_call_witness:
  "consumed (usage (snapshot sample_budget (shared sample_machine))) = 1"
  using snapshot_accounts_for_every_call [OF sample_budget_new sample_machine_reachable]
  by (simp add: sample_execution_limits_def u64_max_def Let_def sample_machine_def snapshot_def
      record_admission_def schedule_admission_def allocate_call_def initial_state_def
      sample_budget_def deadline_of_def)

end
