(* ===== verification/BudgetLedger.thy ===== *)
theory BudgetLedger
  imports BudgetContract
begin

text \<open>
  What a call budget promises its callers, without locks, clocks, tasks or maps: a ledger to which
  calls are appended while their allowance lasts, whose entries are settled at most once, and which
  lets a bounded number of calls run at a time. The concurrent budget refines it.
\<close>

record ledger =
  entries :: "(call_category \<times> call_disposition option) list"
  admits :: bool
  held :: nat
  running :: nat

definition granted_normal :: "ledger \<Rightarrow> nat" where
  "granted_normal l = count_if (\<lambda>(c, _). c \<noteq> Cleanup) (entries l)"

definition granted_cleanup :: "ledger \<Rightarrow> nat" where
  "granted_cleanup l = count_if (\<lambda>(c, _). c = Cleanup) (entries l)"

definition empty_ledger :: ledger where
  "empty_ledger = \<lparr>entries = [], admits = True, held = 0, running = 0\<rparr>"

inductive ledger_step :: "nat \<Rightarrow> nat \<Rightarrow> nat \<Rightarrow> ledger \<Rightarrow> ledger \<Rightarrow> bool" for normal cleanup slots where
  grant: "c \<noteq> Cleanup \<Longrightarrow> admits l \<Longrightarrow> granted_normal l < normal \<Longrightarrow>
     ledger_step normal cleanup slots l (l\<lparr>entries := entries l @ [(c, None)]\<rparr>)"
| grant_cleanup: "granted_cleanup l < cleanup \<Longrightarrow>
     ledger_step normal cleanup slots l (l\<lparr>entries := entries l @ [(Cleanup, None)], admits := False\<rparr>)"
| close: "ledger_step normal cleanup slots l (l\<lparr>admits := False\<rparr>)"
| hold: "held l < slots \<Longrightarrow> ledger_step normal cleanup slots l (l\<lparr>held := held l + 1\<rparr>)"
| start: "running l < held l \<Longrightarrow>
     ledger_step normal cleanup slots l (l\<lparr>running := running l + 1\<rparr>)"
| settle: "i < length (entries l) \<Longrightarrow> entries l ! i = (c, None) \<Longrightarrow>
     ledger_step normal cleanup slots l (l\<lparr>entries := (entries l)[i := (c, Some d)]\<rparr>)"
| stop: "0 < running l \<Longrightarrow> ledger_step normal cleanup slots l (l\<lparr>running := running l - 1\<rparr>)"
| unhold: "running l < held l \<Longrightarrow>
     ledger_step normal cleanup slots l (l\<lparr>held := held l - 1\<rparr>)"

definition entry_of :: "pending_call \<Rightarrow> call_category \<times> call_disposition option" where
  "entry_of call = (pc_category call, pc_disposition call)"

definition ledger_of :: "machine \<Rightarrow> ledger" where
  "ledger_of m =
     \<lparr>entries = map (\<lambda>x. entry_of (snd x)) (calls (shared m)),
      admits = (\<not> admission_closed (shared m)),
      held = count_if holds_permit (tasks m), running = in_flight (shared m)\<rparr>"

abbreviation budget_ledger_step :: "call_budget \<Rightarrow> ledger \<Rightarrow> ledger \<Rightarrow> bool" where
  "budget_ledger_step cb \<equiv> ledger_step (normal_limit cb) (cleanup_limit cb) (cb_concurrency cb)"

text \<open>What the ledger itself guarantees.\<close>

definition ledger_inv :: "nat \<Rightarrow> nat \<Rightarrow> nat \<Rightarrow> ledger \<Rightarrow> bool" where
  "ledger_inv normal cleanup slots l \<longleftrightarrow>
     granted_normal l \<le> normal \<and> granted_cleanup l \<le> cleanup \<and> running l \<le> held l \<and> held l \<le> slots"

lemma count_settled:
  "i < length es \<Longrightarrow> es ! i = (c, old) \<Longrightarrow> count_if (\<lambda>(c, _). P c) (es[i := (c, new)]) = count_if (\<lambda>(c, _). P c) es"
  using count_if_update [of i es "\<lambda>(c, _). P c" "(c, new)"] by (simp split: if_splits)

lemma ledger_inv_step:
  "ledger_step normal cleanup slots l l' \<Longrightarrow> ledger_inv normal cleanup slots l \<Longrightarrow>
   ledger_inv normal cleanup slots l'"
  by (induction rule: ledger_step.induct)
    (auto simp: ledger_inv_def granted_normal_def granted_cleanup_def count_settled)

lemma ledger_inv_empty: "ledger_inv normal cleanup slots empty_ledger"
  by (simp add: ledger_inv_def empty_ledger_def granted_normal_def granted_cleanup_def)

interpretation ledgers: invariant_system empty_ledger "ledger_step normal cleanup slots"
    "ledger_inv normal cleanup slots" for normal cleanup slots
  by unfold_locales (rule ledger_inv_empty, erule (1) ledger_inv_step [rotated])

subsection \<open>The entries of the map of calls\<close>

lemma bmap_insert_numbered:
  assumes "map fst m = [a..<a + length m]" and "bmap_get m q = Some v"
  shows "q - a < length m \<and> snd (m ! (q - a)) = v
     \<and> map (\<lambda>x. f (snd x)) (bmap_insert q w m) = (map (\<lambda>x. f (snd x)) m)[q - a := f w]"
  using assms
proof (induction m arbitrary: a)
  case (Cons x m)
  obtain k u where x: "x = (k, u)" by (cases x)
  have "k # map fst m = a # [Suc a..<Suc a + length m]"
    using Cons.prems(1) x upt_conv_Cons [of a "a + length (x # m)"] by simp
  then have keys: "map fst m = [Suc a..<Suc a + length m]" and k: "k = a" by simp_all
  show ?case
  proof (cases "q = a")
    case True
    with Cons.prems(2) x k show ?thesis by (simp add: bmap_get_def)
  next
    case False
    with Cons.prems(2) x k have get: "bmap_get m q = Some v" by (simp add: bmap_get_def)
    then have "q \<in> set (map fst m)" by (metis bmap_get_None option.distinct(1) set_map)
    then have "Suc a \<le> q" unfolding keys by auto
    then have "q - a = Suc (q - Suc a)" by simp
    with Cons.IH [OF keys get] x k \<open>Suc a \<le> q\<close> show ?thesis by simp
  qed
qed simp

lemma same_entries: "(budget_ledger_step cb)\<^sup>*\<^sup>* l (l\<lparr>entries := entries l\<rparr>)"
  by simp

lemma finish_settles:
  assumes "allowance_inv cb (shared m)" and "calls t = calls (shared m)"
    and "entries l = map (\<lambda>x. entry_of (snd x)) (calls (shared m))"
  shows "(budget_ledger_step cb)\<^sup>*\<^sup>* l
     (l\<lparr>entries := map (\<lambda>x. entry_of (snd x)) (calls (finish_call q d b t))\<rparr>)"
proof (cases "bmap_get (calls (shared m)) q")
  case None
  with assms(2,3) have "map (\<lambda>x. entry_of (snd x)) (calls (finish_call q d b t)) = entries l"
    by (simp add: finish_call_def Let_def)
  then show ?thesis by (simp only: same_entries)
next
  case (Some call)
  let ?new = "call\<lparr>pc_disposition := get_or_insert d (pc_disposition call)\<rparr>"
  have "map fst (calls (shared m)) = [1..<next_sequence (shared m)]"
    using assms(1) by (simp add: allowance_inv_def call_keys_wf)
  moreover from this have "next_sequence (shared m) = 1 + length (calls (shared m)) \<or> calls (shared m) = []"
    by (metis add.commute diff_add_inverse2 le_add_diff_inverse length_map length_upt list.size(3)
        map_is_Nil_conv nat_le_linear upt_eq_Nil_conv)
  ultimately have keys: "map fst (calls (shared m)) = [1..<1 + length (calls (shared m))]"
    using Some by (auto simp: bmap_get_def)
  from bmap_insert_numbered [OF keys Some, of entry_of ?new]
  have i: "q - 1 < length (entries l)" "entries l ! (q - 1) = entry_of call"
    and upd: "map (\<lambda>x. entry_of (snd x)) (calls (finish_call q d b t)) = (entries l)[q - 1 := entry_of ?new]"
    using assms(2,3) Some by (simp_all add: finish_call_def Let_def)
  show ?thesis
  proof (cases "pc_disposition call")
    case None
    then have entry: "entries l ! (q - 1) = (pc_category call, None)"
      and new: "entry_of ?new = (pc_category call, Some d)"
      using i(2) by (simp_all add: entry_of_def get_or_insert_def)
    show ?thesis
      unfolding upd new by (rule r_into_rtranclp) (rule settle [OF i(1) entry])
  next
    case (Some d')
    then have "entry_of ?new = entries l ! (q - 1)" using i(2) by (simp add: get_or_insert_def entry_of_def)
    then show ?thesis by (simp only: upd list_update_id same_entries)
  qed
qed

subsection \<open>Every step of the budget is a run of the ledger\<close>

lemma holds_update:
  assumes "i < length ts"
  shows "holds_permit t = holds_permit (ts ! i) \<Longrightarrow>
      count_if holds_permit (ts[i := t]) = count_if holds_permit ts"
    and "holds_permit t \<Longrightarrow> \<not> holds_permit (ts ! i) \<Longrightarrow>
      count_if holds_permit (ts[i := t]) = count_if holds_permit ts + 1"
    and "\<not> holds_permit t \<Longrightarrow> holds_permit (ts ! i) \<Longrightarrow>
      count_if holds_permit (ts[i := t]) = count_if holds_permit ts - 1"
  using count_if_update [OF assms, of holds_permit t] by (auto split: if_splits)

lemma idle_holder:
  assumes "permits_inv cb m" and "i < length (tasks m)" and "holds_permit (tasks m ! i)"
    and "\<not> is_admitted (tasks m ! i)"
  shows "in_flight (shared m) < count_if holds_permit (tasks m)"
proof -
  have "count_if is_admitted ((tasks m)[i := Ended]) \<le> count_if holds_permit ((tasks m)[i := Ended])"
    by (rule admitted_le_holds)
  with assms count_if_update [OF assms(2), of holds_permit Ended]
    count_if_update [OF assms(2), of is_admitted Ended]
  show ?thesis by (simp add: permits_inv_def)
qed

lemma ledger_closed:
  assumes "ledger_of m' = ledger_of m \<or> ledger_of m' = ledger_of m\<lparr>admits := False\<rparr>"
  shows "(budget_ledger_step cb)\<^sup>*\<^sup>* (ledger_of m) (ledger_of m')"
  using assms
proof
  assume "ledger_of m' = ledger_of m\<lparr>admits := False\<rparr>"
  then show ?thesis by (simp only:) (rule r_into_rtranclp, rule ledger_step.close)
qed simp

lemma ledger_abandon:
  assumes "allowance_inv cb (shared m)" and "i < length (tasks m)"
    and "holds_permit t = holds_permit (tasks m ! i)"
  shows "(budget_ledger_step cb)\<^sup>*\<^sup>* (ledger_of m)
     (ledger_of (m\<lparr>shared := abandon_call q e (shared m), tasks := (tasks m)[i := t]\<rparr>))"
proof -
  let ?t = "record_permit_error e (shared m)"
  let ?l = "ledger_of (m\<lparr>shared := ?t\<rparr>)"
  have "admission_closed ?t \<or> admission_closed ?t = admission_closed (shared m)"
    by (cases e) (simp_all add: record_permit_error_def)
  then have "?l = ledger_of m \<or> ?l = ledger_of m\<lparr>admits := False\<rparr>"
    by (auto simp: ledger_of_def)
  then have "(budget_ledger_step cb)\<^sup>*\<^sup>* (ledger_of m) ?l"
    by (rule ledger_closed)
  also have "(budget_ledger_step cb)\<^sup>*\<^sup>* ?l
      (?l\<lparr>entries := map (\<lambda>x. entry_of (snd x)) (calls (finish_call q CancelledCall False ?t))\<rparr>)"
    by (rule finish_settles [OF assms(1)]) (simp_all add: ledger_of_def)
  finally show ?thesis
    using holds_update(1) [OF assms(2,3)] by (simp add: ledger_of_def abandon_call_def)
qed

lemma ledger_finish:
  assumes "allowance_inv cb (shared m)" and "permits_inv cb m" and "i < length (tasks m)"
    and "tasks m ! i = Admitted c q"
  shows "(budget_ledger_step cb)\<^sup>*\<^sup>* (ledger_of m)
     (ledger_of (m\<lparr>shared := finish_call q d True (shared m), tasks := (tasks m)[i := Releasing]\<rparr>))"
proof -
  let ?l = "ledger_of m\<lparr>entries :=
      map (\<lambda>x. entry_of (snd x)) (calls (finish_call q d True (shared m)))\<rparr>"
  have "(budget_ledger_step cb)\<^sup>*\<^sup>* (ledger_of m) ?l"
    by (rule finish_settles [OF assms(1)]) (simp_all add: ledger_of_def)
  also have "budget_ledger_step cb ?l (?l\<lparr>running := running ?l - 1\<rparr>)"
    by (rule ledger_step.stop) (use admitted_in_flight [OF assms(2-4)] in \<open>simp add: ledger_of_def\<close>)
  finally show ?thesis
    using holds_update(1) [OF assms(3), of Releasing] assms(4) by (simp add: ledger_of_def)
qed

lemma granted_of_ledger:
  assumes "allowance_inv cb (shared m)"
  shows "granted_normal (ledger_of m) = normal_consumed (shared m)"
    and "granted_cleanup (ledger_of m) = cleanup_consumed (shared m)"
proof -
  let ?keys = "call_keys (shared m)"
  have len: "length ?keys = normal_consumed (shared m) + cleanup_consumed (shared m)"
    using assms by (metis add_diff_cancel_right' allowance_inv_def length_map length_upt)
  have cleanup: "count_if (\<lambda>(q, c). c = Cleanup) ?keys = cleanup_consumed (shared m)"
    using assms by (simp add: allowance_inv_def)
  have split: "count_if (\<lambda>x. P x) xs + count_if (\<lambda>x. \<not> P x) xs = length xs"
    for P and xs :: "'z list" by (induction xs) auto
  have keys: "count_if (\<lambda>(c, _). P c) (map (\<lambda>x. entry_of (snd x)) cs)
      = count_if (\<lambda>(q, c). P c) (map (\<lambda>(q, c). (q, pc_category c)) cs)"
    for P and cs :: "(nat, pending_call) bmap" by (induction cs) (auto simp: entry_of_def)
  show "granted_cleanup (ledger_of m) = cleanup_consumed (shared m)"
    using cleanup keys [of "\<lambda>c. c = Cleanup" "calls (shared m)"]
    by (simp add: granted_cleanup_def ledger_of_def call_keys_def)
  show "granted_normal (ledger_of m) = normal_consumed (shared m)"
    using cleanup len keys [of "\<lambda>c. c \<noteq> Cleanup" "calls (shared m)"]
      split [of "\<lambda>(q, c). c = Cleanup" ?keys]
    by (simp add: granted_normal_def ledger_of_def call_keys_def case_prod_unfold)
qed

lemma ledger_reserve:
  assumes alloc: "allocate_call cb c now (shared m) = (r, s)" and inv: "allowance_inv cb (shared m)"
    and "count_if holds_permit ts = count_if holds_permit (tasks m)"
  shows "(budget_ledger_step cb)\<^sup>*\<^sup>* (ledger_of m) (ledger_of (m\<lparr>shared := s, tasks := ts\<rparr>))"
proof -
  have "\<forall>k \<in> fst ` set (calls (shared m)). k < next_sequence (shared m)"
    using inv by (metis allowance_inv_def atLeastLessThan_iff call_keys_wf set_map set_upt)
  then have last: "bmap_insert (next_sequence (shared m)) v (calls (shared m))
      = calls (shared m) @ [(next_sequence (shared m), v)]" for v
    by (rule bmap_insert_last)
  from alloc show ?thesis
  proof (cases rule: allocate_call_cases)
    case (refused e)
    have "admission_closed (shared m) \<Longrightarrow> admission_closed s"
      using state_later_allocate [OF alloc] by (simp add: state_later_def)
    with refused assms(3) show ?thesis
      by (intro ledger_closed) (auto simp: ledger_of_def)
  next
    case cleanup
    then have "budget_ledger_step cb (ledger_of m)
        (ledger_of m\<lparr>entries := entries (ledger_of m) @ [(Cleanup, None)], admits := False\<rparr>)"
      using granted_of_ledger [OF inv] by (intro ledger_step.grant_cleanup) simp
    with cleanup assms(3) show ?thesis
      by (intro r_into_rtranclp) (simp add: ledger_of_def last entry_of_def)
  next
    case normal
    then have "budget_ledger_step cb (ledger_of m)
        (ledger_of m\<lparr>entries := entries (ledger_of m) @ [(c, None)]\<rparr>)"
      using granted_of_ledger [OF inv] by (intro ledger_step.grant) (simp_all add: ledger_of_def)
    with normal assms(3) show ?thesis
      by (intro r_into_rtranclp) (simp add: ledger_of_def last entry_of_def)
  qed
qed

lemma ledger_simulates:
  "budget_step cb m m' \<Longrightarrow> allowance_inv cb (shared m) \<Longrightarrow> permits_inv cb m \<Longrightarrow>
   (budget_ledger_step cb)\<^sup>*\<^sup>* (ledger_of m) (ledger_of m')"
proof (induction rule: budget_step.induct)
  case (reserve c m q s)
  then show ?case by (intro ledger_reserve) simp_all
next
  case (refuse c m e s)
  then show ?case using ledger_reserve [where ts = "tasks m", OF refuse(1,2)] by simp
next
  case (acquire i m c q)
  have "budget_ledger_step cb (ledger_of m) (ledger_of m\<lparr>held := held (ledger_of m) + 1\<rparr>)"
    by (rule ledger_step.hold) (use acquire in \<open>simp add: ledger_of_def permits_inv_def\<close>)
  then show ?case
    using holds_update(2) [OF acquire(1), of "Holding c q"] acquire(2)
    by (intro r_into_rtranclp) (simp add: ledger_of_def)
next
  case (wait_error i m c q e)
  then show ?case by (intro ledger_abandon) simp_all
next
  case (schedule i m c q slot s)
  then show ?case
    using schedule_admission_frame [OF schedule(3)] holds_update(1) [OF schedule(1), of "Scheduled c q slot"]
    by (intro ledger_closed) (simp add: ledger_of_def)
next
  case (admit i m c q slot)
  have "budget_ledger_step cb (ledger_of m) (ledger_of m\<lparr>running := running (ledger_of m) + 1\<rparr>)"
    by (rule ledger_step.start) (use idle_holder [of cb m i] admit in \<open>simp add: ledger_of_def\<close>)
  then show ?case
    using holds_update(1) [OF admit(1), of "Admitted c q"] admit(2)
    by (intro r_into_rtranclp) (simp add: ledger_of_def)
next
  case (admission_error i m c q slot e)
  then show ?case by (intro ledger_abandon) simp_all
next
  case (finish i m c q d)
  then show ?case by (intro ledger_finish)
next
  case (drop_permit i m c q)
  then show ?case by (intro ledger_finish)
next
  case (release i m)
  have "budget_ledger_step cb (ledger_of m) (ledger_of m\<lparr>held := held (ledger_of m) - 1\<rparr>)"
    by (rule ledger_step.unhold) (use idle_holder [of cb m i] release in \<open>simp add: ledger_of_def\<close>)
  then show ?case
    using holds_update(3) [OF release(1), of Ended] release(2)
    by (intro r_into_rtranclp) (simp add: ledger_of_def)
next
  case (abort_waiting i m c q)
  then show ?case using holds_update(1) [of i "tasks m" Ended] by (simp add: ledger_of_def)
next
  case (abort_holding i m c q slot)
  then show ?case using holds_update(1) [of i "tasks m" Releasing] by (auto simp: ledger_of_def)
next
  case (cancel_all m)
  show ?case by (rule ledger_closed) (simp add: ledger_of_def cancel_def)
qed (simp add: ledger_of_def)

interpretation ledger: simulation "machine_init cb" "budget_step cb"
    "\<lambda>m. allowance_inv cb (shared m) \<and> permits_inv cb m" ledger_of "budget_ledger_step cb" for cb
  by unfold_locales
    (auto simp: permits_inv_init intro: allowance.inv_init permits_inv_step allowance_inv_step
      ledger_simulates)

lemma ledger_of_init: "ledger_of (machine_init cb) = empty_ledger"
  by (simp add: ledger_of_def machine_init_def initial_state_def empty_ledger_def)

text \<open>C3: The budget refines the ledger. Whatever the interleaving of callers, cancellations,
  expired deadlines and dropped futures, the calls it has recorded are a state the ledger reaches,
  and every further run of the budget is a run of the ledger: calls are only appended, in order and
  within their allowance, never while admission is closed (but for cleanup), and settled at most
  once, and no more of them run than there are permits held, nor more permits than slots.\<close>

theorem budget_refines_ledger:
  assumes "reachable cb m" and "(budget_step cb)\<^sup>*\<^sup>* m m'"
  shows "(budget_ledger_step cb)\<^sup>*\<^sup>* empty_ledger (ledger_of m)
     \<and> (budget_ledger_step cb)\<^sup>*\<^sup>* (ledger_of m) (ledger_of m')"
  using ledger.reachable_refines [of cb m] ledger.run_refines [of cb m m'] assms
    ledger.reachable_inv [of cb m]
  by (auto simp: reachable_def ledger_of_init)

theorem budget_refines_ledger_witness:
  "(budget_ledger_step sample_budget)\<^sup>*\<^sup>* empty_ledger (ledger_of sample_machine)
     \<and> (budget_ledger_step sample_budget)\<^sup>*\<^sup>* (ledger_of sample_machine) (ledger_of sample_finished)
     \<and> entries (ledger_of sample_finished) = [(GeneratedCase, Some Completed)]
     \<and> running (ledger_of sample_finished) = 0 \<and> held (ledger_of sample_finished) = 1"
  using budget_refines_ledger [OF sample_machine_reachable r_into_rtranclp [of "budget_step sample_budget", OF sample_finished_step]]
  by simp (simp add: ledger_of_def sample_finished_def sample_machine_def entry_of_def
      finish_call_def record_admission_def schedule_admission_def allocate_call_def initial_state_def
      sample_budget_def deadline_of_def stop_normal_admission_def get_or_insert_def bmap_get_def Let_def)

end
