(* ===== verification/BudgetOwners.thy ===== *)
theory BudgetOwners
  imports BudgetContract
begin

text \<open>
  Who may settle a call: every call that is neither settled nor abandoned is owned by at most one
  task, so a permit that is finished records exactly the disposition it is finished with.
\<close>

fun task_call :: "task \<Rightarrow> (call_category \<times> nat) option" where
  "task_call (Waiting c q) = Some (c, q)"
| "task_call (Holding c q) = Some (c, q)"
| "task_call (Scheduled c q slot) = Some (c, q)"
| "task_call (Admitted c q) = Some (c, q)"
| "task_call Releasing = None"
| "task_call Ended = None"

definition unsettled :: "budget_state \<Rightarrow> call_category \<Rightarrow> nat \<Rightarrow> bool" where
  "unsettled s c q \<longleftrightarrow> bmap_get (calls s) q = Some \<lparr>pc_category = c, pc_disposition = None\<rparr>"

definition owners_inv :: "machine \<Rightarrow> bool" where
  "owners_inv m \<longleftrightarrow>
     (\<forall>i < length (tasks m). \<forall>c q. task_call (tasks m ! i) = Some (c, q) \<longrightarrow> unsettled (shared m) c q)
     \<and> (\<forall>i < length (tasks m). \<forall>j < length (tasks m). \<forall>c d q.
          task_call (tasks m ! i) = Some (c, q) \<longrightarrow> task_call (tasks m ! j) = Some (d, q) \<longrightarrow> i = j)"

lemma ownersI:
  assumes "\<And>i c q. i < length (tasks m) \<Longrightarrow> task_call (tasks m ! i) = Some (c, q) \<Longrightarrow> unsettled (shared m) c q"
    and "\<And>i j c d q. i < length (tasks m) \<Longrightarrow> j < length (tasks m) \<Longrightarrow>
      task_call (tasks m ! i) = Some (c, q) \<Longrightarrow> task_call (tasks m ! j) = Some (d, q) \<Longrightarrow> i = j"
  shows "owners_inv m"
  unfolding owners_inv_def using assms by blast

lemma owners_unsettled:
  "owners_inv m \<Longrightarrow> i < length (tasks m) \<Longrightarrow> task_call (tasks m ! i) = Some (c, q) \<Longrightarrow>
     unsettled (shared m) c q"
  by (simp add: owners_inv_def)

lemma owners_unique:
  "owners_inv m \<Longrightarrow> i < length (tasks m) \<Longrightarrow> j < length (tasks m) \<Longrightarrow>
     task_call (tasks m ! i) = Some (c, q) \<Longrightarrow> task_call (tasks m ! j) = Some (d, q) \<Longrightarrow> i = j"
  unfolding owners_inv_def by blast

text \<open>A task that keeps its call or lets go of it, while the other calls stay as they are.\<close>

lemma owners_update:
  assumes inv: "owners_inv m" and i: "i < length (tasks m)" and tasks: "tasks m' = (tasks m)[i := t]"
    and t: "task_call t = task_call (tasks m ! i) \<and> calls (shared m') = calls (shared m)
      \<or> task_call t = None \<and> (\<forall>q. task_call (tasks m ! i) = None
          \<or> snd (the (task_call (tasks m ! i))) \<noteq> q
          \<longrightarrow> bmap_get (calls (shared m')) q = bmap_get (calls (shared m)) q)"
  shows "owners_inv m'"
proof -
  have kept: "task_call (tasks m ! j) = Some (c, q) \<and> unsettled (shared m') c q"
    if j: "j < length (tasks m')" and call: "task_call (tasks m' ! j) = Some (c, q)" for j c q
  proof (cases "j = i")
    case True
    with call t i tasks owners_unsettled [OF inv i] show ?thesis by (auto simp: unsettled_def)
  next
    case False
    with call tasks i have old: "task_call (tasks m ! j) = Some (c, q)" by simp
    have jm: "j < length (tasks m)" using j tasks by simp
    have "task_call (tasks m ! i) = None \<or> snd (the (task_call (tasks m ! i))) \<noteq> q"
      using owners_unique [OF inv jm i old] False by (cases "task_call (tasks m ! i)") auto
    with t owners_unsettled [OF inv jm old] old show ?thesis by (auto simp: unsettled_def)
  qed
  show ?thesis
    unfolding owners_inv_def
    using kept owners_unique [OF inv] tasks by (metis length_list_update)
qed

lemma owners_cong:
  "owners_inv m \<Longrightarrow> tasks m' = tasks m \<Longrightarrow> calls (shared m') = calls (shared m) \<Longrightarrow> owners_inv m'"
  unfolding owners_inv_def unsettled_def by metis

lemma finish_other:
  "r \<noteq> q \<Longrightarrow> bmap_get (calls (finish_call q d b s)) r = bmap_get (calls s) r"
  by (simp add: finish_call_def Let_def split: option.split)

lemma abandon_other:
  "r \<noteq> q \<Longrightarrow> bmap_get (calls (abandon_call q e s)) r = bmap_get (calls s) r"
  by (simp add: abandon_call_def finish_other)

lemma finish_settles_call:
  "unsettled s c q \<Longrightarrow>
     bmap_get (calls (finish_call q d b s)) q = Some \<lparr>pc_category = c, pc_disposition = Some d\<rparr>"
  by (simp add: finish_call_def Let_def unsettled_def get_or_insert_def)

lemma owners_reserve:
  assumes alloc: "allocate_call cb c now (shared m) = (Inr q, s)"
    and inv: "owners_inv m" and seq: "allowance_inv cb (shared m)"
  shows "owners_inv (m\<lparr>shared := s, tasks := tasks m @ [Waiting c q]\<rparr>)"
proof -
  have calls: "calls s = bmap_insert q \<lparr>pc_category = c, pc_disposition = None\<rparr> (calls (shared m))"
    and q: "q = next_sequence (shared m)"
    using alloc by (cases rule: allocate_call_cases; simp)+
  have fresh: "bmap_get (calls (shared m)) q = None"
    using seq unfolding allowance_inv_def call_keys_wf bmap_get_None q
    by (metis atLeastLessThan_iff less_irrefl set_map set_upt)
  have old: "unsettled s d r \<and> r \<noteq> q"
    if "i < length (tasks m)" and "task_call (tasks m ! i) = Some (d, r)" for i d r
    using owners_unsettled [OF inv that] fresh calls by (auto simp: unsettled_def)
  let ?m = "m\<lparr>shared := s, tasks := tasks m @ [Waiting c q]\<rparr>"
  have cases: "(i < length (tasks m) \<and> task_call (tasks m ! i) = Some (d, r) \<and> unsettled s d r \<and> r \<noteq> q)
      \<or> (i = length (tasks m) \<and> d = c \<and> r = q)"
    if "i < length (tasks ?m)" and "task_call (tasks ?m ! i) = Some (d, r)" for i d r
  proof (cases "i < length (tasks m)")
    case True
    with that(2) have "task_call (tasks m ! i) = Some (d, r)" by (simp add: nth_append)
    with True old show ?thesis by blast
  next
    case False
    with that(1) have "i = length (tasks m)" by simp
    with that(2) show ?thesis by simp
  qed
  show ?thesis
  proof (rule ownersI)
    fix i d r
    assume "i < length (tasks ?m)" and "task_call (tasks ?m ! i) = Some (d, r)"
    from cases [OF this] show "unsettled (shared ?m) d r"
      using calls by (auto simp: unsettled_def)
  next
    fix i j d e r
    assume "i < length (tasks ?m)" "j < length (tasks ?m)"
      and "task_call (tasks ?m ! i) = Some (d, r)" "task_call (tasks ?m ! j) = Some (e, r)"
    with cases [of i d r] cases [of j e r] show "i = j"
      using owners_unique [OF inv, of i j d r e] by blast
  qed
qed

lemma owners_step:
  "budget_step cb m m' \<Longrightarrow> owners_inv m \<Longrightarrow> allowance_inv cb (shared m) \<Longrightarrow> owners_inv m'"
proof (induction rule: budget_step.induct)
  case (tick m t)
  show ?case by (rule owners_cong [OF tick(2)]) simp_all
next
  case (reserve c m q s)
  then show ?case by (intro owners_reserve)
next
  case (refuse c m e s)
  from refuse(1) have "calls s = calls (shared m)" by (cases rule: allocate_call_cases) simp_all
  then show ?case using refuse(2) by - (rule owners_cong, assumption, simp_all)
next
  case (acquire i m c q)
  then show ?case by - (rule owners_update [of m i _ "Holding c q"], simp_all)
next
  case (wait_error i m c q e)
  then show ?case by - (rule owners_update [of m i _ Ended], simp_all add: abandon_other)
next
  case (schedule i m c q slot s)
  then show ?case
    using schedule_admission_frame [OF schedule(3)]
    by - (rule owners_update [of m i _ "Scheduled c q slot"], simp_all)
next
  case (admit i m c q slot)
  then show ?case by - (rule owners_update [of m i _ "Admitted c q"], simp_all)
next
  case (admission_error i m c q slot e)
  then show ?case by - (rule owners_update [of m i _ Releasing], simp_all add: abandon_other)
next
  case (finish i m c q d)
  then show ?case by - (rule owners_update [of m i _ Releasing], simp_all add: finish_other)
next
  case (drop_permit i m c q)
  then show ?case by - (rule owners_update [of m i _ Releasing], simp_all add: finish_other)
next
  case (release i m)
  then show ?case by - (rule owners_update [of m i _ Ended], simp_all)
next
  case (abort_waiting i m c q)
  then show ?case by - (rule owners_update [of m i _ Ended], simp_all)
next
  case (abort_holding i m c q slot)
  then show ?case by - (rule owners_update [of m i _ Releasing], auto)
next
  case (cancel_all m)
  show ?case by (rule owners_cong [OF cancel_all(1)]) (simp_all add: cancel_def)
qed

lemma owners_init: "owners_inv (machine_init cb)"
  by (simp add: owners_inv_def machine_init_def)

interpretation owners: invariant_system "machine_init cb" "budget_step cb"
    "\<lambda>m. allowance_inv cb (shared m) \<and> owners_inv m" for cb
  by unfold_locales (use owners_init allowance.inv_init allowance_inv_step owners_step in blast)+

lemma reachable_owners: "reachable cb m \<Longrightarrow> owners_inv m"
  using owners.reachable_inv by (simp add: reachable_def)

end
