(* ===== verification/PermitBroker.thy ===== *)
theory PermitBroker
  imports BudgetOwners
begin

text \<open>
  The call-permit broker (\<open>src/execution/call_permit.rs\<close>): the framing of its protocol, and the
  connections that reserve a call of the budget for a client, grant it, and record how the client
  says it ended. A broker owns a budget that others use too; a step of the broker is what a
  connection does between two awaits, together with what the budget does for it.
  The JSON decoding of a frame (serde) is a parameter.
\<close>

subsection \<open>Frames\<close>

definition max_frame_bytes :: nat where
  "max_frame_bytes = 512"

definition permit_reserved_file_descriptors :: nat where
  "permit_reserved_file_descriptors = 2"

definition call_permit_protocol_schema_version :: string where
  "call_permit_protocol_schema_version = ''codeatlas.execution-call-permit/v1''"

definition line_feed :: char where
  "line_feed = CHR 0x0A"

definition carriage_return :: char where
  "carriage_return = CHR 0x0D"

datatype permit_disposition = PdCompleted | PdFailed | PdRejected | PdCancelled

fun disposition_of :: "permit_disposition \<Rightarrow> call_disposition" where
  "disposition_of PdCompleted = Completed"
| "disposition_of PdFailed = Failed"
| "disposition_of PdRejected = Rejected"
| "disposition_of PdCancelled = CancelledCall"

record permit_request =
  pq_schema_version :: string
  pq_category :: call_category

record permit_completion =
  pn_schema_version :: string
  pn_disposition :: permit_disposition

record permit_response =
  pr_schema_version :: string
  pr_status :: string
  pr_sequence :: nat
  pr_reason :: "string option"

datatype permit_failure =
    EmptyOrOversized
  | NotOneLine
  | NotStrictJson
  | UnsupportedSchema
  | ResponseTooLarge
  | NoFileReserve
  | NoConnectionCapacity
  | ConnectionLimitDoesNotFit

text \<open>\<open>stream.take(n).read_until(b'\\n')\<close> on what the peer sends until it closes: the bytes read and
  those left in the stream.\<close>

fun read_until :: "nat \<Rightarrow> bytes \<Rightarrow> bytes \<times> bytes" where
  "read_until 0 input = ([], input)"
| "read_until (Suc n) [] = ([], [])"
| "read_until (Suc n) (c # cs) =
     (if c = line_feed then ([c], cs) else (case read_until n cs of (line, rest) \<Rightarrow> (c # line, rest)))"

definition read_frame :: "(bytes \<Rightarrow> 'a option) \<Rightarrow> bytes \<Rightarrow> permit_failure + 'a \<times> bytes" where
  "read_frame parse input =
     (case read_until (max_frame_bytes + 1) input of (line, rest) \<Rightarrow>
        if line = [] \<or> length line > max_frame_bytes then Inl EmptyOrOversized
        else if last line \<noteq> line_feed \<or> line_feed \<in> set (butlast line)
          \<or> carriage_return \<in> set (butlast line) then Inl NotOneLine
        else (case parse (butlast line) of None \<Rightarrow> Inl NotStrictJson | Some v \<Rightarrow> Inr (v, rest)))"

definition write_frame :: "('a \<Rightarrow> bytes) \<Rightarrow> 'a \<Rightarrow> permit_failure + bytes" where
  "write_frame ser value =
     (if length (ser value) \<ge> max_frame_bytes then Inl ResponseTooLarge
      else Inr (ser value @ [line_feed]))"

definition validate_schema :: "string \<Rightarrow> permit_failure + unit" where
  "validate_schema v = ensure (v = call_permit_protocol_schema_version) UnsupportedSchema"

fun permit_error_code :: "permit_error \<Rightarrow> string" where
  "permit_error_code CallsExhausted = ''calls_exhausted''"
| "permit_error_code CleanupExhausted = ''cleanup_exhausted''"
| "permit_error_code Cancelled = ''cancelled''"
| "permit_error_code DeadlineExhausted = ''deadline_exhausted''"
| "permit_error_code SchedulerClosed = ''scheduler_closed''"

definition resolve_connection_limit :: "host_limits \<Rightarrow> execution_limits \<Rightarrow> permit_failure + nat" where
  "resolve_connection_limit h limits =
     (if max_open_files limits < permit_reserved_file_descriptors then Inl NoFileReserve
      else
        let limit = min (max_open_files limits - permit_reserved_file_descriptors) (max_concurrency limits)
        in if limit = 0 then Inl NoConnectionCapacity
        else if limit > usize_max h then Inl ConnectionLimitDoesNotFit
        else Inr limit)"

lemma read_until_line:
  "line_feed \<notin> set line \<Longrightarrow> length line < n \<Longrightarrow>
     read_until n (line @ line_feed # rest) = (line @ [line_feed], rest)"
proof (induction line arbitrary: n)
  case Nil
  then show ?case by (cases n) simp_all
next
  case (Cons c line)
  then show ?case by (cases n) auto
qed

lemma read_until_split: "read_until n input = (line, rest) \<Longrightarrow> input = line @ rest"
  by (induction n input arbitrary: line rest rule: read_until.induct) (auto split: if_splits prod.splits)

lemma read_frame_iff:
  "read_frame parse input = Inr (v, rest) \<longleftrightarrow>
     (\<exists>line. input = line @ line_feed # rest \<and> length line < max_frame_bytes
        \<and> line_feed \<notin> set line \<and> carriage_return \<notin> set line \<and> parse line = Some v)"
  (is "?read \<longleftrightarrow> ?frame")
proof
  assume ?read
  obtain l r where l: "read_until (max_frame_bytes + 1) input = (l, r)" by fastforce
  with \<open>?read\<close> have parts: "r = rest" "l \<noteq> []" "length l \<le> max_frame_bytes" "last l = line_feed"
      "line_feed \<notin> set (butlast l)" "carriage_return \<notin> set (butlast l)" "parse (butlast l) = Some v"
    by (auto simp: read_frame_def Let_def split: if_splits option.splits)
  have "input = butlast l @ line_feed # rest"
    using read_until_split [OF l] parts by (metis append.assoc append_Cons append_Nil append_butlast_last_id)
  moreover have "length (butlast l) < max_frame_bytes" using parts by (cases l) auto
  ultimately show ?frame using parts by blast
next
  assume ?frame
  then obtain line where line: "input = line @ line_feed # rest" "length line < max_frame_bytes"
      "line_feed \<notin> set line" "carriage_return \<notin> set line" "parse line = Some v" by blast
  then have "read_until (max_frame_bytes + 1) input = (line @ [line_feed], rest)"
    by (simp add: read_until_line)
  with line show ?read by (simp add: read_frame_def)
qed

subsection \<open>The broker\<close>

text \<open>A connection is the state of its \<open>handle_connection\<close>: reading the request, inside
  \<open>reserve_call\<close> (with the index of its task and the bytes read ahead), holding a granted permit
  while it reads the completion, or finished with its result. The log holds the responses written.\<close>

datatype connection =
    AwaitRequest
  | Reserving nat bytes
  | AwaitCompletion nat bytes
  | Finished bool

datatype permit_event =
    Granted nat nat
  | Denied nat permit_error
  | Recorded nat nat call_disposition

fun response_of :: "permit_event \<Rightarrow> permit_response" where
  "response_of (Granted j q) =
     \<lparr>pr_schema_version = call_permit_protocol_schema_version, pr_status = ''granted'',
      pr_sequence = q, pr_reason = None\<rparr>"
| "response_of (Denied j e) =
     \<lparr>pr_schema_version = call_permit_protocol_schema_version, pr_status = ''denied'',
      pr_sequence = 0, pr_reason = Some (permit_error_code e)\<rparr>"
| "response_of (Recorded j q d) =
     \<lparr>pr_schema_version = call_permit_protocol_schema_version, pr_status = ''recorded'',
      pr_sequence = q, pr_reason = None\<rparr>"

record broker =
  br_budget :: machine
  br_free :: nat
  br_connections :: "connection list"
  br_stopping :: bool
  br_serving :: bool
  br_log :: "permit_event list"

definition broker_init :: "machine \<Rightarrow> nat \<Rightarrow> broker" where
  "broker_init m limit =
     \<lparr>br_budget = m, br_free = limit, br_connections = [], br_stopping = False, br_serving = True,
      br_log = []\<rparr>"

fun owned_task :: "connection \<Rightarrow> nat option" where
  "owned_task (Reserving i rest) = Some i"
| "owned_task (AwaitCompletion i rest) = Some i"
| "owned_task _ = None"

text \<open>A connection takes its next state; one that finishes gives its slot back, and its response
  reaches the client only when the write succeeds.\<close>

definition connection_to :: "nat \<Rightarrow> connection \<Rightarrow> machine \<Rightarrow> permit_event list \<Rightarrow> broker \<Rightarrow> broker" where
  "connection_to j k m events b =
     b\<lparr>br_budget := m, br_connections := (br_connections b)[j := k], br_log := br_log b @ events,
       br_free := (case k of Finished _ \<Rightarrow> br_free b + 1 | _ \<Rightarrow> br_free b)\<rparr>"

definition sent_event :: "bool \<Rightarrow> permit_event \<Rightarrow> permit_event list" where
  "sent_event sent e = (if sent then [e] else [])"

inductive broker_step ::
    "call_budget \<Rightarrow> (bytes \<Rightarrow> permit_request option) \<Rightarrow> (bytes \<Rightarrow> permit_completion option)
     \<Rightarrow> broker \<Rightarrow> broker \<Rightarrow> bool" for cb parse_request parse_completion where
  environment: "budget_step cb (br_budget b) m \<Longrightarrow>
     \<forall>k \<in> set (br_connections b). \<forall>i. owned_task k = Some i \<longrightarrow> task_call (tasks m ! i) \<noteq> None \<Longrightarrow>
     broker_step cb parse_request parse_completion b (b\<lparr>br_budget := m\<rparr>)"
| shutdown: "broker_step cb parse_request parse_completion b (b\<lparr>br_stopping := True\<rparr>)"
| stop: "br_serving b \<Longrightarrow> br_stopping b \<or> cancelled (shared (br_budget b)) \<Longrightarrow>
     broker_step cb parse_request parse_completion b (b\<lparr>br_serving := False\<rparr>)"
| accept: "br_serving b \<Longrightarrow> 0 < br_free b \<Longrightarrow>
     broker_step cb parse_request parse_completion b
       (b\<lparr>br_free := br_free b - 1, br_connections := br_connections b @ [AwaitRequest]\<rparr>)"
| accept_fails: "br_serving b \<Longrightarrow>
     broker_step cb parse_request parse_completion b (b\<lparr>br_serving := False\<rparr>)"
| join_fails: "br_serving b \<Longrightarrow> Finished False \<in> set (br_connections b) \<Longrightarrow>
     broker_step cb parse_request parse_completion b (b\<lparr>br_serving := False\<rparr>)"
| request_fails: "j < length (br_connections b) \<Longrightarrow> br_connections b ! j = AwaitRequest \<Longrightarrow>
     broker_step cb parse_request parse_completion b
       (connection_to j (Finished False) (br_budget b) [] b)"
| reserve_now: "j < length (br_connections b) \<Longrightarrow> br_connections b ! j = AwaitRequest \<Longrightarrow>
     read_frame parse_request input = Inr (request, rest) \<Longrightarrow>
     validate_schema (pq_schema_version request) = Inr () \<Longrightarrow>
     allocate_call cb (pq_category request) (clock (br_budget b)) (shared (br_budget b)) = (Inr q, s) \<Longrightarrow>
     broker_step cb parse_request parse_completion b
       (connection_to j (Reserving (length (tasks (br_budget b))) rest)
          (br_budget b\<lparr>shared := s, tasks := tasks (br_budget b) @ [Waiting (pq_category request) q]\<rparr>) [] b)"
| deny_now: "j < length (br_connections b) \<Longrightarrow> br_connections b ! j = AwaitRequest \<Longrightarrow>
     read_frame parse_request input = Inr (request, rest) \<Longrightarrow>
     validate_schema (pq_schema_version request) = Inr () \<Longrightarrow>
     allocate_call cb (pq_category request) (clock (br_budget b)) (shared (br_budget b)) = (Inl e, s) \<Longrightarrow>
     broker_step cb parse_request parse_completion b
       (connection_to j (Finished sent) (br_budget b\<lparr>shared := s\<rparr>) (sent_event sent (Denied j e)) b)"
| deny_waiting: "j < length (br_connections b) \<Longrightarrow> br_connections b ! j = Reserving i rest \<Longrightarrow>
     i < length (tasks (br_budget b)) \<Longrightarrow> tasks (br_budget b) ! i = Waiting c q \<Longrightarrow>
     wait_fails cb (br_budget b) c e \<Longrightarrow>
     broker_step cb parse_request parse_completion b
       (connection_to j (Finished sent)
          (br_budget b\<lparr>shared := abandon_call q e (shared (br_budget b)),
             tasks := (tasks (br_budget b))[i := Ended]\<rparr>) (sent_event sent (Denied j e)) b)"
| deny_scheduled: "j < length (br_connections b) \<Longrightarrow> br_connections b ! j = Reserving i rest \<Longrightarrow>
     i < length (tasks (br_budget b)) \<Longrightarrow> tasks (br_budget b) ! i = Scheduled c q slot \<Longrightarrow>
     wait_fails cb (br_budget b) c e \<Longrightarrow>
     broker_step cb parse_request parse_completion b
       (connection_to j (Finished sent)
          (br_budget b\<lparr>shared := abandon_call q e (shared (br_budget b)),
             tasks := (tasks (br_budget b))[i := Releasing]\<rparr>) (sent_event sent (Denied j e)) b)"
| grant: "j < length (br_connections b) \<Longrightarrow> br_connections b ! j = Reserving i rest \<Longrightarrow>
     i < length (tasks (br_budget b)) \<Longrightarrow> tasks (br_budget b) ! i = Admitted c q \<Longrightarrow>
     broker_step cb parse_request parse_completion b
       (connection_to j (AwaitCompletion i rest) (br_budget b) [Granted j q] b)"
| lose_permit: "j < length (br_connections b) \<Longrightarrow> owned_task (br_connections b ! j) = Some i \<Longrightarrow>
     i < length (tasks (br_budget b)) \<Longrightarrow> tasks (br_budget b) ! i = Admitted c q \<Longrightarrow>
     broker_step cb parse_request parse_completion b
       (connection_to j (Finished False)
          (br_budget b\<lparr>shared := finish_call q (drop_disposition (shared (br_budget b))) True (shared (br_budget b)),
             tasks := (tasks (br_budget b))[i := Releasing]\<rparr>) [] b)"
| complete: "j < length (br_connections b) \<Longrightarrow> br_connections b ! j = AwaitCompletion i rest \<Longrightarrow>
     i < length (tasks (br_budget b)) \<Longrightarrow> tasks (br_budget b) ! i = Admitted c q \<Longrightarrow>
     read_frame parse_completion (rest @ received) = Inr (completion, rest') \<Longrightarrow>
     validate_schema (pn_schema_version completion) = Inr () \<Longrightarrow>
     d = disposition_of (pn_disposition completion) \<Longrightarrow>
     broker_step cb parse_request parse_completion b
       (connection_to j (Finished sent)
          (br_budget b\<lparr>shared := finish_call q d True (shared (br_budget b)),
             tasks := (tasks (br_budget b))[i := Releasing]\<rparr>) (sent_event sent (Recorded j q d)) b)"
| abort_waiting: "j < length (br_connections b) \<Longrightarrow> br_connections b ! j = Reserving i rest \<Longrightarrow>
     \<not> br_serving b \<Longrightarrow> i < length (tasks (br_budget b)) \<Longrightarrow> tasks (br_budget b) ! i = Waiting c q \<Longrightarrow>
     broker_step cb parse_request parse_completion b
       (connection_to j (Finished False)
          (br_budget b\<lparr>tasks := (tasks (br_budget b))[i := Ended]\<rparr>) [] b)"
| abort_holding: "j < length (br_connections b) \<Longrightarrow> br_connections b ! j = Reserving i rest \<Longrightarrow>
     \<not> br_serving b \<Longrightarrow> i < length (tasks (br_budget b)) \<Longrightarrow>
     tasks (br_budget b) ! i = Holding c q \<or> tasks (br_budget b) ! i = Scheduled c q slot \<Longrightarrow>
     broker_step cb parse_request parse_completion b
       (connection_to j (Finished False)
          (br_budget b\<lparr>tasks := (tasks (br_budget b))[i := Releasing]\<rparr>) [] b)"

subsection \<open>The budget under a broker is the budget\<close>

lemma connection_to_fields [simp]:
  "br_budget (connection_to j k m ev b) = m"
  "br_connections (connection_to j k m ev b) = (br_connections b)[j := k]"
  "br_log (connection_to j k m ev b) = br_log b @ ev"
  "br_serving (connection_to j k m ev b) = br_serving b"
  by (simp_all add: connection_to_def)

lemma broker_budget_step:
  "broker_step cb pq pn b b' \<Longrightarrow> br_budget b' = br_budget b \<or> budget_step cb (br_budget b) (br_budget b')"
proof (induction rule: broker_step.induct)
  case (reserve_now j b input request rest q s)
  then show ?case using budget_step.reserve [OF reserve_now(5)] by simp
next
  case (deny_now j b input request rest e s sent)
  then show ?case using budget_step.refuse [OF deny_now(5)] by simp
next
  case (deny_waiting j b i rest c q e sent)
  then show ?case using budget_step.wait_error [of i "br_budget b" c q cb e] by simp
next
  case (deny_scheduled j b i rest c q slot e sent)
  then show ?case using budget_step.admission_error [of i "br_budget b" c q slot cb e] by simp
next
  case (lose_permit j b i c q)
  then show ?case using budget_step.drop_permit [of i "br_budget b" c q cb] by simp
next
  case (complete j b i rest c q received completion rest' d sent)
  then show ?case using budget_step.finish [of i "br_budget b" c q cb d] by simp
next
  case (abort_waiting j b i rest c q)
  then show ?case using budget_step.abort_waiting [of i "br_budget b" c q cb] by simp
next
  case (abort_holding j b i rest c q slot)
  then show ?case using budget_step.abort_holding [of i "br_budget b" c q slot cb] by simp
qed simp_all

lemma broker_budget_run:
  "(broker_step cb pq pn)\<^sup>*\<^sup>* b b' \<Longrightarrow> (budget_step cb)\<^sup>*\<^sup>* (br_budget b) (br_budget b')"
proof (induction rule: rtranclp_induct)
  case (step y z)
  with broker_budget_step [OF step(2)] show ?case by (auto intro: rtranclp.rtrancl_into_rtrancl)
qed simp

subsection \<open>What connections and responses say about the budget\<close>

definition settled_as :: "machine \<Rightarrow> nat \<Rightarrow> call_disposition \<Rightarrow> bool" where
  "settled_as m q d \<longleftrightarrow> (\<exists>call. bmap_get (calls (shared m)) q = Some call \<and> pc_disposition call = Some d)"

definition holds_grant :: "broker \<Rightarrow> nat \<Rightarrow> nat \<Rightarrow> bool" where
  "holds_grant b j q \<longleftrightarrow>
     (\<exists>i rest c. br_connections b ! j = AwaitCompletion i rest
        \<and> tasks (br_budget b) ! i = Admitted c q)"

definition links_inv :: "broker \<Rightarrow> bool" where
  "links_inv b \<longleftrightarrow>
     (\<forall>j < length (br_connections b). \<forall>i. owned_task (br_connections b ! j) = Some i \<longrightarrow>
        i < length (tasks (br_budget b)) \<and> task_call (tasks (br_budget b) ! i) \<noteq> None)
     \<and> (\<forall>j < length (br_connections b). \<forall>k < length (br_connections b). \<forall>i.
          owned_task (br_connections b ! j) = Some i \<longrightarrow> owned_task (br_connections b ! k) = Some i \<longrightarrow> j = k)
     \<and> (\<forall>j < length (br_connections b). \<forall>i rest. br_connections b ! j = AwaitCompletion i rest \<longrightarrow>
          (\<exists>c q. tasks (br_budget b) ! i = Admitted c q \<and> Granted j q \<in> set (br_log b)))"

fun grant_of :: "permit_event \<Rightarrow> nat list" where
  "grant_of (Granted j q) = [q]"
| "grant_of _ = []"

definition granted_calls :: "permit_event list \<Rightarrow> nat list" where
  "granted_calls log = concat (map grant_of log)"

definition log_inv :: "broker \<Rightarrow> bool" where
  "log_inv b \<longleftrightarrow>
     (\<forall>j q. Granted j q \<in> set (br_log b) \<longrightarrow> j < length (br_connections b)
        \<and> (holds_grant b j q \<or> (\<exists>d. settled_as (br_budget b) q d)))
     \<and> (\<forall>j q d. Recorded j q d \<in> set (br_log b) \<longrightarrow>
          Granted j q \<in> set (br_log b) \<and> settled_as (br_budget b) q d)
     \<and> distinct (granted_calls (br_log b))"

lemma granted_calls_simps [simp]:
  "granted_calls [] = []" "granted_calls (xs @ ys) = granted_calls xs @ granted_calls ys"
  by (simp_all add: granted_calls_def)

lemma granted_calls_mem: "q \<in> set (granted_calls log) \<longleftrightarrow> (\<exists>j. Granted j q \<in> set log)"
proof (induction log)
  case (Cons e log)
  then show ?case by (cases e) (auto simp: granted_calls_def)
qed simp

lemma links_owned:
  assumes "links_inv b" and "j < length (br_connections b)" and "owned_task (br_connections b ! j) = Some i"
  shows "i < length (tasks (br_budget b))" and "task_call (tasks (br_budget b) ! i) \<noteq> None"
  using assms unfolding links_inv_def by blast+

lemma links_unique:
  "links_inv b \<Longrightarrow> j < length (br_connections b) \<Longrightarrow> k < length (br_connections b) \<Longrightarrow>
   owned_task (br_connections b ! j) = Some i \<Longrightarrow> owned_task (br_connections b ! k) = Some i \<Longrightarrow> j = k"
  unfolding links_inv_def by blast

lemma links_granted:
  "links_inv b \<Longrightarrow> j < length (br_connections b) \<Longrightarrow> br_connections b ! j = AwaitCompletion i rest \<Longrightarrow>
   \<exists>c q. tasks (br_budget b) ! i = Admitted c q \<and> Granted j q \<in> set (br_log b)"
  unfolding links_inv_def by blast

lemma linksI:
  assumes "\<And>j i. j < length (br_connections b) \<Longrightarrow> owned_task (br_connections b ! j) = Some i \<Longrightarrow>
      i < length (tasks (br_budget b)) \<and> task_call (tasks (br_budget b) ! i) \<noteq> None"
    and "\<And>j k i. j < length (br_connections b) \<Longrightarrow> k < length (br_connections b) \<Longrightarrow>
      owned_task (br_connections b ! j) = Some i \<Longrightarrow> owned_task (br_connections b ! k) = Some i \<Longrightarrow> j = k"
    and "\<And>j i rest. j < length (br_connections b) \<Longrightarrow> br_connections b ! j = AwaitCompletion i rest \<Longrightarrow>
      \<exists>c q. tasks (br_budget b) ! i = Admitted c q \<and> Granted j q \<in> set (br_log b)"
  shows "links_inv b"
  unfolding links_inv_def using assms by blast

text \<open>What a step that moves connection \<open>j\<close> leaves alone: the tasks that \<open>j\<close> does not own.\<close>

definition keeps_others :: "connection \<Rightarrow> machine \<Rightarrow> machine \<Rightarrow> bool" where
  "keeps_others k m m' \<longleftrightarrow>
     (\<forall>i < length (tasks m). i < length (tasks m') \<and> (owned_task k \<noteq> Some i \<longrightarrow> tasks m' ! i = tasks m ! i))"

lemma links_update:
  assumes links: "links_inv b" and j: "j < length (br_connections b)"
    and others: "keeps_others (br_connections b ! j) (br_budget b) m"
    and own: "\<And>i. owned_task k = Some i \<Longrightarrow>
      (owned_task (br_connections b ! j) = Some i \<or> i = length (tasks (br_budget b)))
      \<and> i < length (tasks m) \<and> task_call (tasks m ! i) \<noteq> None"
    and waits: "\<And>i rest. k = AwaitCompletion i rest \<Longrightarrow>
      \<exists>c q. tasks m ! i = Admitted c q \<and> Granted j q \<in> set (br_log b @ ev)"
  shows "links_inv (connection_to j k m ev b)"
proof (rule linksI)
  let ?b = "connection_to j k m ev b"
  have other: "l < length (br_connections b) \<and> i < length (tasks m) \<and> i < length (tasks (br_budget b))
      \<and> tasks m ! i = tasks (br_budget b) ! i"
    if "l \<noteq> j" and "l < length (br_connections ?b)" and "owned_task (br_connections b ! l) = Some i" for l i
  proof -
    have l: "l < length (br_connections b)" using that by simp
    have "owned_task (br_connections b ! j) \<noteq> Some i"
      using links_unique [OF links l j that(3)] that(1) by blast
    then show ?thesis using others links_owned(1) [OF links l that(3)] l by (simp add: keeps_others_def)
  qed
  have clash: "owned_task k \<noteq> Some i"
    if "l \<noteq> j" and "l < length (br_connections ?b)" and "owned_task (br_connections b ! l) = Some i" for l i
  proof
    assume "owned_task k = Some i"
    with own have "owned_task (br_connections b ! j) = Some i \<or> i = length (tasks (br_budget b))" by blast
    with other [OF that] links_unique [OF links _ j that(3)] that show False by auto
  qed
  {
    fix l i
    assume l: "l < length (br_connections ?b)" and o: "owned_task (br_connections ?b ! l) = Some i"
    show "i < length (tasks (br_budget ?b)) \<and> task_call (tasks (br_budget ?b) ! i) \<noteq> None"
    proof (cases "l = j")
      case True
      with o j own show ?thesis by simp
    next
      case False
      then have "owned_task (br_connections b ! l) = Some i" using o by simp
      with other [OF False l this] links_owned(2) [OF links, of l i] show ?thesis by simp
    qed
  next
    fix l l' i
    assume l: "l < length (br_connections ?b)" "l' < length (br_connections ?b)"
      and o: "owned_task (br_connections ?b ! l) = Some i" "owned_task (br_connections ?b ! l') = Some i"
    show "l = l'"
    proof (cases "l = j \<or> l' = j")
      case True
      with l o clash [of l i] clash [of l' i] j show ?thesis by (cases "l = j"; cases "l' = j") simp_all
    next
      case False
      with l o show ?thesis using links_unique [OF links, of l l' i] by simp
    qed
  next
    fix l i rest
    assume l: "l < length (br_connections ?b)" and a: "br_connections ?b ! l = AwaitCompletion i rest"
    show "\<exists>c q. tasks (br_budget ?b) ! i = Admitted c q \<and> Granted l q \<in> set (br_log ?b)"
    proof (cases "l = j")
      case True
      with a j waits [of i rest] show ?thesis by simp
    next
      case False
      then have c: "br_connections b ! l = AwaitCompletion i rest" using a by simp
      with other [OF False l, of i] links_granted [OF links, of l i rest] show ?thesis by auto
    qed
  }
qed

lemma log_granted:
  "log_inv b \<Longrightarrow> Granted j q \<in> set (br_log b) \<Longrightarrow>
     j < length (br_connections b) \<and> (holds_grant b j q \<or> (\<exists>d. settled_as (br_budget b) q d))"
  unfolding log_inv_def by blast

lemma log_recorded:
  "log_inv b \<Longrightarrow> Recorded j q d \<in> set (br_log b) \<Longrightarrow>
     Granted j q \<in> set (br_log b) \<and> settled_as (br_budget b) q d"
  unfolding log_inv_def by blast

definition settled_stays :: "machine \<Rightarrow> machine \<Rightarrow> bool" where
  "settled_stays m m' \<longleftrightarrow> (\<forall>q d. settled_as m q d \<longrightarrow> settled_as m' q d)"

lemma log_update:
  assumes links: "links_inv b" and log: "log_inv b" and j: "j < length (br_connections b)"
    and others: "keeps_others (br_connections b ! j) (br_budget b) m"
    and stays: "settled_stays (br_budget b) m"
    and own: "\<And>q. holds_grant b j q \<Longrightarrow>
      holds_grant (connection_to j k m ev b) j q \<or> (\<exists>d. settled_as m q d)"
    and ev: "\<And>e. e \<in> set ev \<Longrightarrow> (\<exists>q. e = Granted j q \<and> q \<notin> set (granted_calls (br_log b))
        \<and> holds_grant (connection_to j k m ev b) j q)
      \<or> (\<exists>err. e = Denied j err) \<or> (\<exists>q d. e = Recorded j q d \<and> Granted j q \<in> set (br_log b) \<and> settled_as m q d)"
    and single: "length ev \<le> 1"
  shows "log_inv (connection_to j k m ev b)"
proof -
  let ?b = "connection_to j k m ev b"
  have granted: "l < length (br_connections b) \<and> (holds_grant ?b l q \<or> (\<exists>d. settled_as m q d))"
    if "Granted l q \<in> set (br_log b)" for l q
  proof -
    from log_granted [OF log that] have l: "l < length (br_connections b)"
      and or: "holds_grant b l q \<or> (\<exists>d. settled_as (br_budget b) q d)" by blast+
    show ?thesis
    proof (cases "holds_grant b l q")
      case False
      with or stays l show ?thesis unfolding settled_stays_def by blast
    next
      case True
      show ?thesis
      proof (cases "l = j")
        case True
        with \<open>holds_grant b l q\<close> own l show ?thesis by blast
      next
        case False
        from \<open>holds_grant b l q\<close> obtain i rest c where c: "br_connections b ! l = AwaitCompletion i rest"
          and t: "tasks (br_budget b) ! i = Admitted c q" unfolding holds_grant_def by blast
        have "owned_task (br_connections b ! j) \<noteq> Some i"
          using links_unique [OF links l j, of i] c False by auto
        then have "tasks m ! i = Admitted c q"
          using others links_owned(1) [OF links l, of i] c t by (simp add: keeps_others_def)
        with c False l show ?thesis unfolding holds_grant_def by simp
      qed
    qed
  qed
  have "distinct (granted_calls ev)" using single by (cases ev; cases "hd ev") (auto simp: granted_calls_def)
  moreover have "set (granted_calls (br_log b)) \<inter> set (granted_calls ev) = {}"
    using ev by (fastforce simp: granted_calls_mem)
  ultimately have "distinct (granted_calls (br_log ?b))" using log by (simp add: log_inv_def)
  moreover have "l < length (br_connections ?b) \<and> (holds_grant ?b l q \<or> (\<exists>d. settled_as (br_budget ?b) q d))"
    if "Granted l q \<in> set (br_log ?b)" for l q
    using that granted [of l q] ev [of "Granted l q"] j by auto
  moreover have "Granted l q \<in> set (br_log ?b) \<and> settled_as (br_budget ?b) q d"
    if "Recorded l q d \<in> set (br_log ?b)" for l q d
    using that log_recorded [OF log, of l q d] ev [of "Recorded l q d"] stays
    unfolding settled_stays_def by auto
  ultimately show ?thesis unfolding log_inv_def by blast
qed

lemma settled_step:
  assumes "reachable cb m" and "budget_step cb m m'"
  shows "settled_stays m m'"
  unfolding settled_stays_def
proof (intro allI impI)
  fix q d
  assume "settled_as m q d"
  then obtain call where call: "bmap_get (calls (shared m)) q = Some call" "pc_disposition call = Some d"
    unfolding settled_as_def by blast
  have keys: "set (map fst (calls (shared m))) = {1..<next_sequence (shared m)}"
    using reachable_allowance [OF assms(1)] by (metis allowance_inv_def call_keys_wf set_upt)
  have "q \<in> set (map fst (calls (shared m)))"
    using call(1) by (metis bmap_get_None option.distinct(1) set_map)
  then have "q < next_sequence (shared m)" unfolding keys by simp
  then have "keeps_call (bmap_get (calls (shared m)) q) (bmap_get (calls (shared m')) q)"
    using state_later_step [OF assms(2)] unfolding state_later_def by blast
  with call show "settled_as m' q d" unfolding keeps_call_def settled_as_def by blast
qed

lemma settled_refl: "settled_stays m m"
  by (simp add: settled_stays_def)

text \<open>A step of the budget grows the list of tasks and keeps an admitted task or releases it.\<close>

lemma budget_step_tasks:
  "budget_step cb m m' \<Longrightarrow> i < length (tasks m) \<Longrightarrow> i < length (tasks m')
     \<and> (tasks m ! i = Admitted c q \<longrightarrow> tasks m' ! i = Admitted c q \<or> tasks m' ! i = Releasing)"
  by (induction rule: budget_step.induct) (auto simp: nth_append nth_list_update)

lemma links_environment:
  assumes links: "links_inv b" and step: "budget_step cb (br_budget b) m"
    and live: "\<forall>k \<in> set (br_connections b). \<forall>i. owned_task k = Some i \<longrightarrow> task_call (tasks m ! i) \<noteq> None"
  shows "links_inv (b\<lparr>br_budget := m\<rparr>)"
    and "j < length (br_connections b) \<Longrightarrow> holds_grant b j q \<Longrightarrow> holds_grant (b\<lparr>br_budget := m\<rparr>) j q"
proof -
  have alive: "task_call (tasks m ! i) \<noteq> None"
    if "j < length (br_connections b)" and "owned_task (br_connections b ! j) = Some i" for j i
    using live that nth_mem by blast
  have admitted: "tasks m ! i = Admitted c q"
    if "j < length (br_connections b)" and "owned_task (br_connections b ! j) = Some i"
      and "tasks (br_budget b) ! i = Admitted c q" for j i c q
    using alive [OF that(1,2)] that(3)
      budget_step_tasks [OF step links_owned(1) [OF links that(1,2)], of c q] by auto
  show "links_inv (b\<lparr>br_budget := m\<rparr>)"
  proof (rule linksI, goal_cases)
    case (1 j i)
    then show ?case
      using budget_step_tasks [OF step links_owned(1) [OF links, of j i]] alive [of j i] by simp
  next
    case (2 j k i)
    then show ?case using links_unique [OF links, of j k i] by simp
  next
    case (3 j i rest)
    then obtain c q where "tasks (br_budget b) ! i = Admitted c q" "Granted j q \<in> set (br_log b)"
      using links_granted [OF links, of j i rest] by auto
    with admitted [of j i c q] 3 show ?case by auto
  qed
  show "j < length (br_connections b) \<Longrightarrow> holds_grant b j q \<Longrightarrow> holds_grant (b\<lparr>br_budget := m\<rparr>) j q"
    using admitted unfolding holds_grant_def by fastforce
qed

lemma log_environment:
  assumes links: "links_inv b" and log: "log_inv b" and step: "budget_step cb (br_budget b) m"
    and live: "\<forall>k \<in> set (br_connections b). \<forall>i. owned_task k = Some i \<longrightarrow> task_call (tasks m ! i) \<noteq> None"
    and stays: "settled_stays (br_budget b) m"
  shows "log_inv (b\<lparr>br_budget := m\<rparr>)"
proof -
  have "j < length (br_connections b)
      \<and> (holds_grant (b\<lparr>br_budget := m\<rparr>) j q \<or> (\<exists>d. settled_as m q d))"
    if "Granted j q \<in> set (br_log b)" for j q
    using log_granted [OF log that] links_environment(2) [OF links step live, of j q] stays
    unfolding settled_stays_def by blast
  moreover have "Granted j q \<in> set (br_log b) \<and> settled_as m q d"
    if "Recorded j q d \<in> set (br_log b)" for j q d
    using log_recorded [OF log that] stays unfolding settled_stays_def by blast
  ultimately show ?thesis using log unfolding log_inv_def by simp
qed

subsection \<open>The invariant\<close>

definition connection_open :: "connection \<Rightarrow> bool" where
  "connection_open k \<longleftrightarrow> (\<forall>ok. k \<noteq> Finished ok)"

definition slots_taken :: "nat \<Rightarrow> broker \<Rightarrow> bool" where
  "slots_taken limit b \<longleftrightarrow> br_free b + count_if connection_open (br_connections b) = limit"

lemma slots_update:
  assumes "slots_taken limit b" and "j < length (br_connections b)"
    and "connection_open (br_connections b ! j)"
  shows "slots_taken limit (connection_to j k m ev b)"
  using assms count_if_update [OF assms(2), of connection_open k]
  by (cases k) (auto simp: slots_taken_def connection_to_def connection_open_def)

definition broker_inv :: "call_budget \<Rightarrow> nat \<Rightarrow> broker \<Rightarrow> bool" where
  "broker_inv cb limit b \<longleftrightarrow>
     reachable cb (br_budget b) \<and> links_inv b \<and> log_inv b \<and> slots_taken limit b"

lemma broker_inv_loop:
  assumes "broker_inv cb limit b"
  shows "broker_inv cb limit (b\<lparr>br_stopping := s\<rparr>)" and "broker_inv cb limit (b\<lparr>br_serving := s\<rparr>)"
  using assms by (auto simp: broker_inv_def links_inv_def log_inv_def slots_taken_def holds_grant_def)

text \<open>A connection that finishes: the call it owned, if any, has been let go or settled.\<close>

lemma broker_inv_update:
  assumes inv: "broker_inv cb limit b" and j: "j < length (br_connections b)"
    and open_: "connection_open (br_connections b ! j)"
    and m: "m = br_budget b \<or> budget_step cb (br_budget b) m"
    and others: "keeps_others (br_connections b ! j) (br_budget b) m"
    and own: "\<And>i. owned_task k = Some i \<Longrightarrow>
      (owned_task (br_connections b ! j) = Some i \<or> i = length (tasks (br_budget b)))
      \<and> i < length (tasks m) \<and> task_call (tasks m ! i) \<noteq> None"
    and waits: "\<And>i rest. k = AwaitCompletion i rest \<Longrightarrow>
      \<exists>c q. tasks m ! i = Admitted c q \<and> Granted j q \<in> set (br_log b @ ev)"
    and held: "\<And>q. holds_grant b j q \<Longrightarrow> (\<exists>d. settled_as m q d)"
    and ev: "\<And>e. e \<in> set ev \<Longrightarrow> (\<exists>q. e = Granted j q \<and> q \<notin> set (granted_calls (br_log b))
        \<and> holds_grant (connection_to j k m ev b) j q)
      \<or> (\<exists>err. e = Denied j err) \<or> (\<exists>q d. e = Recorded j q d \<and> Granted j q \<in> set (br_log b) \<and> settled_as m q d)"
    and single: "length ev \<le> 1"
  shows "broker_inv cb limit (connection_to j k m ev b)"
proof -
  have "reachable cb m" using inv m reachable_step unfolding broker_inv_def by blast
  moreover have "settled_stays (br_budget b) m"
    using m settled_step [of cb "br_budget b" m] inv settled_refl by (auto simp: broker_inv_def)
  ultimately have stays: "settled_stays (br_budget b) m" and reach: "reachable cb m" by blast+
  have links: "links_inv b" and log: "log_inv b" and slots: "slots_taken limit b"
    using inv by (simp_all add: broker_inv_def)
  have "links_inv (connection_to j k m ev b)"
    by (rule links_update [OF links j others]) (use own waits in blast)+
  moreover have "log_inv (connection_to j k m ev b)"
    by (rule log_update [OF links log j others stays _ ev single]) (use held in blast)+
  ultimately show ?thesis
    using reach slots_update [OF slots j open_] by (simp add: broker_inv_def)
qed

lemma keeps_others_simps [simp]:
  "keeps_others k m m"
  "keeps_others k m (m\<lparr>shared := s\<rparr>)"
  "keeps_others k m (m\<lparr>shared := s, tasks := tasks m @ ts\<rparr>)"
  "owned_task k = Some i \<Longrightarrow> keeps_others k m (m\<lparr>shared := s, tasks := (tasks m)[i := t]\<rparr>)"
  "owned_task k = Some i \<Longrightarrow> keeps_others k m (m\<lparr>tasks := (tasks m)[i := t]\<rparr>)"
  by (auto simp: keeps_others_def nth_append)

lemma settled_by_finish:
  assumes "reachable cb m" and "i < length (tasks m)" and "tasks m ! i = Admitted c q"
  shows "settled_as (m\<lparr>shared := finish_call q d True (shared m), tasks := ts\<rparr>) q d"
  using finish_settles_call [OF owners_unsettled [OF reachable_owners [OF assms(1)] assms(2), of c q], of d True]
    assms(3) by (simp add: settled_as_def)

lemma grant_is_fresh:
  assumes inv: "broker_inv cb limit b" and j: "j < length (br_connections b)"
    and k: "br_connections b ! j = Reserving i rest" and t: "tasks (br_budget b) ! i = Admitted c q"
  shows "q \<notin> set (granted_calls (br_log b))"
proof
  assume "q \<in> set (granted_calls (br_log b))"
  then obtain l where l: "Granted l q \<in> set (br_log b)" by (auto simp: granted_calls_mem)
  have links: "links_inv b" and log: "log_inv b" and owners: "owners_inv (br_budget b)"
    using inv reachable_owners by (auto simp: broker_inv_def)
  have i: "i < length (tasks (br_budget b))" using links_owned(1) [OF links j] k by simp
  have "\<not> settled_as (br_budget b) q d" for d
    using owners_unsettled [OF owners i, of c q] t by (auto simp: unsettled_def settled_as_def)
  with log_granted [OF log l] have len: "l < length (br_connections b)" and "holds_grant b l q" by blast+
  then obtain i' rest' c' where l': "br_connections b ! l = AwaitCompletion i' rest'"
    and t': "tasks (br_budget b) ! i' = Admitted c' q" unfolding holds_grant_def by blast
  have "i' < length (tasks (br_budget b))" using links_owned(1) [OF links len] l' by simp
  then have "i' = i" using owners_unique [OF owners _ i, of i' c' q c] t t' by simp
  then have "l = j" using links_unique [OF links len j, of i] l' k by simp
  with l' k show False by simp
qed

lemma broker_inv_finish:
  assumes inv: "broker_inv cb limit b" and j: "j < length (br_connections b)"
    and own: "owned_task (br_connections b ! j) = Some i" and i: "i < length (tasks (br_budget b))"
    and t: "tasks (br_budget b) ! i = Admitted c q"
    and step: "budget_step cb (br_budget b) m"
    and m: "m = br_budget b\<lparr>shared := finish_call q d True (shared (br_budget b)),
             tasks := (tasks (br_budget b))[i := Releasing]\<rparr>"
    and ev: "ev = [] \<or> ev = [Recorded j q d] \<and> (\<exists>rest. br_connections b ! j = AwaitCompletion i rest)"
  shows "broker_inv cb limit (connection_to j (Finished ok) m ev b)"
proof (rule broker_inv_update [OF inv j])
  have reach: "reachable cb (br_budget b)" and links: "links_inv b"
    using inv by (simp_all add: broker_inv_def)
  have settled: "settled_as m q d" unfolding m by (rule settled_by_finish [OF reach i t])
  show "connection_open (br_connections b ! j)" using own by (auto simp: connection_open_def)
  show "m = br_budget b \<or> budget_step cb (br_budget b) m" using step by blast
  show "keeps_others (br_connections b ! j) (br_budget b) m" unfolding m using own by simp
  show "\<exists>d. settled_as m r d" if "holds_grant b j r" for r
    using that own t settled by (auto simp: holds_grant_def)
  show "(\<exists>q. e = Granted j q \<and> q \<notin> set (granted_calls (br_log b))
        \<and> holds_grant (connection_to j (Finished ok) m ev b) j q)
      \<or> (\<exists>err. e = Denied j err) \<or> (\<exists>q d. e = Recorded j q d \<and> Granted j q \<in> set (br_log b) \<and> settled_as m q d)"
    if "e \<in> set ev" for e
    using that ev settled links_granted [OF links j, of i] t by auto
  show "length ev \<le> 1" using ev by auto
qed simp_all

lemma broker_inv_let_go:
  assumes inv: "broker_inv cb limit b" and j: "j < length (br_connections b)"
    and open_: "connection_open (br_connections b ! j)"
    and no_grant: "\<And>i rest. br_connections b ! j \<noteq> AwaitCompletion i rest"
    and m: "m = br_budget b \<or> budget_step cb (br_budget b) m"
    and others: "keeps_others (br_connections b ! j) (br_budget b) m"
    and ev: "ev = [] \<or> (\<exists>e. ev = [Denied j e])"
  shows "broker_inv cb limit (connection_to j (Finished ok) m ev b)"
  by (rule broker_inv_update [OF inv j open_ m others])
    (use no_grant ev in \<open>auto simp: holds_grant_def\<close>)

lemma broker_inv_step:
  "broker_step cb pq pn b b' \<Longrightarrow> broker_inv cb limit b \<Longrightarrow> broker_inv cb limit b'"
proof (induction rule: broker_step.induct)
  case (environment b m)
  then have "links_inv b" "log_inv b" "reachable cb (br_budget b)" "slots_taken limit b"
    by (simp_all add: broker_inv_def)
  moreover from this have "reachable cb m" "settled_stays (br_budget b) m"
    using environment(1) reachable_step settled_step by blast+
  ultimately show ?case
    using links_environment(1) [OF _ environment(1,2)] log_environment [OF _ _ environment(1,2)]
    by (simp add: broker_inv_def slots_taken_def)
next
  case (accept b)
  then show ?case
    by (auto simp: broker_inv_def slots_taken_def connection_open_def links_inv_def log_inv_def
        holds_grant_def nth_append less_Suc_eq)
next
  case (request_fails j b)
  then show ?case by (intro broker_inv_let_go) (auto simp: connection_open_def)
next
  case (reserve_now j b input request rest q s)
  show ?case
    by (rule broker_inv_update [OF reserve_now(6,1)])
      (use reserve_now(2) budget_step.reserve [OF reserve_now(5)]
        in \<open>auto simp: connection_open_def holds_grant_def\<close>)
next
  case (deny_now j b input request rest e s sent)
  show ?case
    by (rule broker_inv_let_go [OF deny_now(6,1)])
      (use deny_now(2) budget_step.refuse [OF deny_now(5)]
        in \<open>auto simp: connection_open_def sent_event_def\<close>)
next
  case (deny_waiting j b i rest c q e sent)
  show ?case
    by (rule broker_inv_let_go [OF deny_waiting(6,1)])
      (use deny_waiting(2) budget_step.wait_error [OF deny_waiting(3-5)]
        in \<open>auto simp: connection_open_def sent_event_def\<close>)
next
  case (deny_scheduled j b i rest c q slot e sent)
  show ?case
    by (rule broker_inv_let_go [OF deny_scheduled(6,1)])
      (use deny_scheduled(2) budget_step.admission_error [OF deny_scheduled(3-5)]
        in \<open>auto simp: connection_open_def sent_event_def\<close>)
next
  case (grant j b i rest c q)
  show ?case
    by (rule broker_inv_update [OF grant(5,1)])
      (use grant(1-4) grant_is_fresh [OF grant(5,1,2,4)]
        in \<open>auto simp: connection_open_def holds_grant_def\<close>)
next
  case (lose_permit j b i c q)
  show ?case
    by (rule broker_inv_finish [OF lose_permit(5,1-4) budget_step.drop_permit [OF lose_permit(3,4)] refl]) simp
next
  case (complete j b i rest c q received completion rest' d sent)
  show ?case
    by (rule broker_inv_finish [OF complete(8,1) _ complete(3,4) budget_step.finish [OF complete(3,4)] refl])
      (use complete(2) in \<open>auto simp: sent_event_def\<close>)
next
  case (abort_waiting j b i rest c q)
  show ?case
    by (rule broker_inv_let_go [OF abort_waiting(6,1)])
      (use abort_waiting(2) budget_step.abort_waiting [OF abort_waiting(4,5)]
        in \<open>auto simp: connection_open_def\<close>)
next
  case (abort_holding j b i rest c q slot)
  show ?case
    by (rule broker_inv_let_go [OF abort_holding(6,1)])
      (use abort_holding(2) budget_step.abort_holding [OF abort_holding(4,5)]
        in \<open>auto simp: connection_open_def\<close>)
qed (simp_all add: broker_inv_loop)

lemma broker_inv_init:
  "reachable cb m \<Longrightarrow> broker_inv cb limit (broker_init m limit)"
  by (simp add: broker_inv_def broker_init_def links_inv_def log_inv_def slots_taken_def)

abbreviation broker_start :: "call_budget \<Rightarrow> nat \<Rightarrow> broker" where
  "broker_start cb limit \<equiv> broker_init (machine_init cb) limit"

interpretation broker: simulation "broker_start cb limit" "broker_step cb pq pn" "broker_inv cb limit"
    br_budget "budget_step cb" for cb limit pq pn
proof
  show "broker_inv cb limit (broker_start cb limit)" by (rule broker_inv_init [OF reachable_init])
  show "broker_inv cb limit t" if "broker_inv cb limit s" and "broker_step cb pq pn s t" for s t
    using that broker_inv_step by blast
  show "(budget_step cb)\<^sup>*\<^sup>* (br_budget s) (br_budget t)" if "broker_step cb pq pn s t" for s t
    using broker_budget_step [OF that] by auto
qed

definition broker_reachable where
  "broker_reachable cb pq pn limit b \<longleftrightarrow> (broker_step cb pq pn)\<^sup>*\<^sup>* (broker_start cb limit) b"

fun awaits_completion :: "connection \<Rightarrow> bool" where
  "awaits_completion (AwaitCompletion i rest) = True"
| "awaits_completion _ = False"

lemma open_grants_admitted:
  assumes "links_inv b"
  shows "count_if awaits_completion (br_connections b) \<le> count_if is_admitted (tasks (br_budget b))"
proof -
  let ?J = "{j. j < length (br_connections b) \<and> awaits_completion (br_connections b ! j)}"
  let ?I = "{i. i < length (tasks (br_budget b)) \<and> is_admitted (tasks (br_budget b) ! i)}"
  let ?f = "\<lambda>j. the (owned_task (br_connections b ! j))"
  have owned: "owned_task (br_connections b ! j) = Some (?f j) \<and> ?f j \<in> ?I" if "j \<in> ?J" for j
  proof -
    from that obtain i rest where k: "br_connections b ! j = AwaitCompletion i rest"
      by (cases "br_connections b ! j") auto
    with that links_granted [OF assms, of j i rest] links_owned(1) [OF assms, of j i]
    show ?thesis by auto
  qed
  have "inj_on ?f ?J"
    by (rule inj_onI) (use owned links_unique [OF assms] in \<open>metis (no_types, lifting) mem_Collect_eq\<close>)
  moreover have "?f ` ?J \<subseteq> ?I" using owned by blast
  ultimately have "card ?J \<le> card ?I" by (intro card_inj_on_le) auto
  then show ?thesis by (simp add: count_if_def length_filter_conv_card)
qed

text \<open>C5: A broker never lends out more than the budget has. Its steps are steps of the budget, so
  everything proved of the budget holds under it, whatever the clients send; at any time no more
  clients hold a granted permit than the plan's concurrency, and no more connections are open than
  the limit the broker was started with.\<close>

theorem broker_stays_within_budget:
  assumes "broker_reachable cb parse_request parse_completion limit b"
  shows "reachable cb (br_budget b)
     \<and> count_if awaits_completion (br_connections b) \<le> cb_concurrency cb
     \<and> count_if connection_open (br_connections b) \<le> limit"
proof -
  have inv: "broker_inv cb limit b"
    using assms unfolding broker_reachable_def by (rule broker.reachable_inv)
  then have "count_if awaits_completion (br_connections b) \<le> count_if is_admitted (tasks (br_budget b))"
    by (intro open_grants_admitted) (simp add: broker_inv_def)
  also have "\<dots> \<le> count_if holds_permit (tasks (br_budget b))" by (rule admitted_le_holds)
  also have "\<dots> \<le> cb_concurrency cb"
    using inv reachable_permits by (fastforce simp: broker_inv_def permits_inv_def)
  finally show ?thesis using inv by (auto simp: broker_inv_def slots_taken_def)
qed

text \<open>C4: Responses of the broker are true. No call is granted twice and every granted call is one
  the budget allocated; a response that a completion was recorded means that the call was granted on
  that connection and that the budget holds the client's disposition for it; and once no connection
  waits for a completion every granted call is settled, whatever made the connections end.\<close>

theorem broker_responses_are_true:
  assumes "broker_reachable cb parse_request parse_completion limit b"
  shows "distinct (granted_calls (br_log b))
     \<and> set (granted_calls (br_log b)) \<subseteq> {1..<next_sequence (shared (br_budget b))}
     \<and> (Recorded j q d \<in> set (br_log b) \<longrightarrow>
          Granted j q \<in> set (br_log b) \<and> settled_as (br_budget b) q d)
     \<and> (Granted j q \<in> set (br_log b) \<and> \<not> awaits_completion (br_connections b ! j) \<longrightarrow>
          (\<exists>d. settled_as (br_budget b) q d))"
proof -
  have inv: "broker_inv cb limit b"
    using assms unfolding broker_reachable_def by (rule broker.reachable_inv)
  then have log: "log_inv b" and links: "links_inv b" and reach: "reachable cb (br_budget b)"
    by (simp_all add: broker_inv_def)
  have keys: "set (map fst (calls (shared (br_budget b)))) = {1..<next_sequence (shared (br_budget b))}"
    using reachable_allowance [OF reach] by (metis allowance_inv_def call_keys_wf set_upt)
  have known: "r \<in> {1..<next_sequence (shared (br_budget b))}" if "Granted l r \<in> set (br_log b)" for l r
  proof -
    from log_granted [OF log that] have l: "l < length (br_connections b)"
      and or: "holds_grant b l r \<or> (\<exists>d. settled_as (br_budget b) r d)" by blast+
    have "bmap_get (calls (shared (br_budget b))) r \<noteq> None"
    proof (cases "holds_grant b l r")
      case True
      then obtain i rest c where k: "br_connections b ! l = AwaitCompletion i rest"
        and t: "tasks (br_budget b) ! i = Admitted c r" unfolding holds_grant_def by blast
      have "i < length (tasks (br_budget b))" using links_owned(1) [OF links l] k by simp
      then show ?thesis
        using owners_unsettled [OF reachable_owners [OF reach], of i c r] t by (simp add: unsettled_def)
    next
      case False
      with or show ?thesis by (auto simp: settled_as_def)
    qed
    then have "r \<in> set (map fst (calls (shared (br_budget b))))" by (metis bmap_get_None set_map)
    then show ?thesis unfolding keys .
  qed
  have "\<exists>d. settled_as (br_budget b) q d"
    if "Granted j q \<in> set (br_log b)" and "\<not> awaits_completion (br_connections b ! j)"
    using log_granted [OF log that(1)] that(2) by (auto simp: holds_grant_def)
  then show ?thesis
    using log known log_recorded [OF log, of j q d]
    by (auto simp: log_inv_def granted_calls_mem)
qed

subsection \<open>A sample conversation\<close>

definition sample_parse_request :: "bytes \<Rightarrow> permit_request option" where
  "sample_parse_request line =
     (if line = ''request''
      then Some \<lparr>pq_schema_version = call_permit_protocol_schema_version, pq_category = GeneratedCase\<rparr>
      else None)"

definition sample_parse_completion :: "bytes \<Rightarrow> permit_completion option" where
  "sample_parse_completion line =
     (if line = ''completed''
      then Some \<lparr>pn_schema_version = call_permit_protocol_schema_version, pn_disposition = PdCompleted\<rparr>
      else None)"

definition sample_granted :: broker where
  "sample_granted =
     \<lparr>br_budget = sample_machine, br_free = 0, br_connections = [AwaitCompletion 0 []],
      br_stopping = False, br_serving = True, br_log = [Granted 0 1]\<rparr>"

definition sample_recorded :: broker where
  "sample_recorded =
     \<lparr>br_budget = sample_finished, br_free = 1, br_connections = [Finished True],
      br_stopping = False, br_serving = True, br_log = [Granted 0 1, Recorded 0 1 Completed]\<rparr>"

lemma sample_frames:
  "read_frame sample_parse_request (''request'' @ [line_feed])
     = Inr (\<lparr>pq_schema_version = call_permit_protocol_schema_version, pq_category = GeneratedCase\<rparr>, [])"
  "read_frame sample_parse_completion (''completed'' @ [line_feed])
     = Inr (\<lparr>pn_schema_version = call_permit_protocol_schema_version, pn_disposition = PdCompleted\<rparr>, [])"
  unfolding read_frame_iff
  by (rule exI [of _ "''request''"], simp add: max_frame_bytes_def line_feed_def carriage_return_def
      sample_parse_request_def)
    (rule exI [of _ "''completed''"], simp add: max_frame_bytes_def line_feed_def carriage_return_def
      sample_parse_completion_def)

lemma broker_reachable_step:
  "broker_reachable cb pq pn limit b \<Longrightarrow> broker_step cb pq pn b b' \<Longrightarrow> broker_reachable cb pq pn limit b'"
  by (simp add: broker_reachable_def)

lemma sample_granted_reachable:
  "broker_reachable sample_budget sample_parse_request sample_parse_completion 1 sample_granted"
proof -
  let ?cb = sample_budget and ?pq = sample_parse_request and ?pn = sample_parse_completion
  let ?s1 = "snd (allocate_call ?cb GeneratedCase 0 (initial_state 0))"
  let ?s2 = "snd (schedule_admission ?cb False 0 ?s1)"
  let ?mk = "\<lambda>m ks log free. \<lparr>br_budget = m, br_free = free, br_connections = ks, br_stopping = False,
      br_serving = True, br_log = log\<rparr> :: broker"
  let ?m0 = "\<lparr>shared = initial_state 0, clock = 0, available = 1, tasks = [], normal_slots = [],
      normal_admissions = []\<rparr> :: machine"
  have m0: "machine_init ?cb = ?m0" by (simp add: machine_init_def sample_budget_def)
  have alloc: "allocate_call ?cb GeneratedCase 0 (initial_state 0) = (Inr 1, ?s1)"
    by (simp add: allocate_call_def initial_state_def sample_budget_def deadline_of_def Let_def)
  have slot: "schedule_admission ?cb False 0 ?s1 = (0, ?s2)"
    by (simp add: schedule_admission_def allocate_call_def initial_state_def sample_budget_def
        deadline_of_def Let_def)
  have r0: "broker_reachable ?cb ?pq ?pn 1 (?mk ?m0 [] [] 1)"
    by (simp add: broker_reachable_def broker_init_def m0)
  have r1: "broker_reachable ?cb ?pq ?pn 1 (?mk ?m0 [AwaitRequest] [] 0)"
    using broker_reachable_step [OF r0 broker_step.accept] by simp
  let ?m1 = "\<lparr>shared = ?s1, clock = 0, available = 1, tasks = [Waiting GeneratedCase 1],
      normal_slots = [], normal_admissions = []\<rparr> :: machine"
  have r2: "broker_reachable ?cb ?pq ?pn 1 (?mk ?m1 [Reserving 0 []] [] 0)"
    using broker_reachable_step [OF r1 broker_step.reserve_now [OF _ _ sample_frames(1)], of 0 1 ?s1] alloc
    by (simp add: validate_schema_def connection_to_def)
  let ?m2 = "\<lparr>shared = ?s1, clock = 0, available = 0, tasks = [Holding GeneratedCase 1],
      normal_slots = [], normal_admissions = []\<rparr> :: machine"
  have "budget_step ?cb ?m1 ?m2" using budget_step.acquire [of 0 ?m1] by simp
  then have r3: "broker_reachable ?cb ?pq ?pn 1 (?mk ?m2 [Reserving 0 []] [] 0)"
    using broker_reachable_step [OF r2 broker_step.environment, of ?m2] by simp
  let ?m3 = "\<lparr>shared = ?s2, clock = 0, available = 0, tasks = [Scheduled GeneratedCase 1 0],
      normal_slots = [0], normal_admissions = []\<rparr> :: machine"
  have "budget_step ?cb ?m2 ?m3" using budget_step.schedule [of 0 ?m2] slot by simp
  then have r4: "broker_reachable ?cb ?pq ?pn 1 (?mk ?m3 [Reserving 0 []] [] 0)"
    using broker_reachable_step [OF r3 broker_step.environment, of ?m3] by simp
  have "budget_step ?cb ?m3 sample_machine"
    using budget_step.admit [of 0 ?m3] by (simp add: sample_machine_def)
  then have r5: "broker_reachable ?cb ?pq ?pn 1 (?mk sample_machine [Reserving 0 []] [] 0)"
    using broker_reachable_step [OF r4 broker_step.environment, of sample_machine]
    by (simp add: sample_machine_def)
  show ?thesis
    using broker_reachable_step [OF r5 broker_step.grant, of 0 0 "[]" GeneratedCase 1]
    by (simp add: connection_to_def sample_granted_def sample_machine_def)
qed

lemma sample_recorded_reachable:
  "broker_reachable sample_budget sample_parse_request sample_parse_completion 1 sample_recorded"
  using broker_reachable_step [OF sample_granted_reachable broker_step.complete [where sent = True,
      OF _ _ _ _ _ _ refl], of 0 0 "[]" GeneratedCase 1 "''completed'' @ [line_feed]"] sample_frames(2)
  by (simp add: connection_to_def sample_granted_def sample_machine_def sample_recorded_def
      validate_schema_def sent_event_def sample_finished_def)

theorem broker_stays_within_budget_witness:
  "reachable sample_budget (br_budget sample_granted)
     \<and> count_if awaits_completion (br_connections sample_granted) = 1 \<and> cb_concurrency sample_budget = 1"
  using broker_stays_within_budget [OF sample_granted_reachable]
  by (simp add: sample_granted_def sample_budget_def)

theorem broker_responses_are_true_witness:
  "settled_as (br_budget sample_recorded) 1 Completed
     \<and> response_of (Recorded 0 1 Completed) = \<lparr>pr_schema_version = call_permit_protocol_schema_version,
         pr_status = ''recorded'', pr_sequence = 1, pr_reason = None\<rparr>"
  using broker_responses_are_true [OF sample_recorded_reachable, of 0 1 Completed]
  by (simp add: sample_recorded_def)

end
