(* ===== verification/ArtifactModel.thy ===== *)
theory ArtifactModel
  imports Limits Json
begin

text \<open>
  Execution plans and receipts (\<open>src/execution/model.rs\<close>): the bodies, what they are made of, and
  the derived orders (structs compare field by field, so a struct's order is the one of the tuple of
  its fields).
\<close>

datatype execution_subject = SubjectCode | SubjectHttp | SubjectPostgres | SubjectPerformance

datatype plan_artifact_kind = PlanKind

datatype receipt_artifact_kind = ReceiptKind

datatype execution_capability =
  CleanupVerification | NetworkAllowlist | ProcessAllowlist | ReadOnlyCheckout | ReadOnlyRuntime
| ResourceLimits | ScratchFilesystem | TlsInterception

fun capability_rank :: "execution_capability \<Rightarrow> nat" where
  "capability_rank CleanupVerification = 0"
| "capability_rank NetworkAllowlist = 1"
| "capability_rank ProcessAllowlist = 2"
| "capability_rank ReadOnlyCheckout = 3"
| "capability_rank ReadOnlyRuntime = 4"
| "capability_rank ResourceLimits = 5"
| "capability_rank ScratchFilesystem = 6"
| "capability_rank TlsInterception = 7"

lemma capability_rank_inj: "capability_rank a = capability_rank b \<Longrightarrow> a = b"
  by (cases a; cases b) simp_all

instantiation execution_capability :: linorder
begin

definition less_eq_execution_capability :: "execution_capability \<Rightarrow> execution_capability \<Rightarrow> bool" where
  "less_eq_execution_capability a b \<longleftrightarrow> capability_rank a \<le> capability_rank b"

definition less_execution_capability :: "execution_capability \<Rightarrow> execution_capability \<Rightarrow> bool" where
  "less_execution_capability a b \<longleftrightarrow> capability_rank a < capability_rank b"

instance
  by standard
    (auto simp: less_eq_execution_capability_def less_execution_capability_def
      dest: capability_rank_inj)

end

datatype authorization_mode = Reviewed | PreauthorizedIsolatedMode

datatype execution_outcome =
  OutcomePassed | OutcomeFailed | OutcomePartial | OutcomeBlocked | OutcomeCancelled

record tool_identity =
  ti_name :: string
  ti_version :: string
  ti_digest :: string

record evidence_digests =
  ed_workspace :: string
  ed_config :: string
  ed_target :: string
  ed_contract :: string
  ed_tool :: string
  ed_engine :: string
  ed_policy :: string

record secret_reference =
  sr_name :: string
  sr_scope :: string

record planned_target =
  pt_id :: string
  pt_class :: target_class
  pt_secret_references :: "secret_reference list"

record artifact_payload =
  ap_schema_version :: string
  ap_content_digest :: string
  ap_body :: json

record isolation_policy =
  ip_backend :: string
  ip_filesystem :: string
  ip_network :: string
  ip_processes :: string

record network_destination =
  nd_scheme :: string
  nd_host :: string
  nd_port :: nat

record managed_command_evidence =
  mc_owner :: string
  mc_digest :: string

record managed_image_evidence =
  mi_owner :: string
  mi_reference :: string
  mi_manifest_digest :: string

record writable_scratch_root =
  wr_logical_name :: string
  wr_owner :: string

record artifact_link =
  al_kind :: string
  al_id :: string
  al_content_digest :: string

record plan_body =
  pb_subject :: execution_subject
  pb_operation :: string
  pb_tool :: tool_identity
  pb_engine :: tool_identity
  pb_evidence :: evidence_digests
  pb_target :: planned_target
  pb_workload :: artifact_payload
  pb_effects :: "execution_effect list"
  pb_required_capabilities :: "execution_capability list"
  pb_destinations :: "network_destination list"
  pb_managed_commands :: "managed_command_evidence list"
  pb_managed_images :: "managed_image_evidence list"
  pb_expected_calls :: "call_count list"
  pb_writable_scratch_roots :: "writable_scratch_root list"
  pb_limits :: execution_limits
  pb_isolation :: isolation_policy
  pb_authorization :: target_decision
  pb_links :: "artifact_link list"

record execution_plan =
  ep_schema_version :: string
  ep_kind :: plan_artifact_kind
  ep_id :: string
  ep_content_digest :: string
  ep_body :: plan_body

record runtime_evidence =
  re_backend :: "tool_identity option"
  re_environment_digest :: "string option"
  re_capabilities :: "execution_capability list"
  re_rootless :: "bool option"
  re_nested :: "bool option"

record resource_evidence =
  rs_elapsed_ms :: nat
  rs_cpu_time_ms :: "nat option"
  rs_peak_rss_bytes :: "nat option"
  rs_peak_processes :: "nat option"
  rs_peak_open_files :: "nat option"
  rs_peak_calls_per_second_milli :: "nat option"
  rs_peak_concurrency :: "nat option"
  rs_result_bytes :: nat
  rs_output_bytes :: nat
  rs_artifact_bytes :: nat

record receipt_body =
  rb_subject :: execution_subject
  rb_operation :: string
  rb_tool :: tool_identity
  rb_plan_id :: string
  rb_plan_content_digest :: string
  rb_authorization_mode :: authorization_mode
  rb_outcome :: execution_outcome
  rb_reasons :: "string list"
  rb_calls :: call_usage
  rb_runtime :: runtime_evidence
  rb_resources :: resource_evidence
  rb_cleanup :: "cleanup_evidence list"
  rb_result :: "artifact_payload option"
  rb_links :: "artifact_link list"

record execution_receipt =
  er_schema_version :: string
  er_kind :: receipt_artifact_kind
  er_id :: string
  er_content_digest :: string
  er_body :: receipt_body

definition execution_plan_schema_version :: string where
  "execution_plan_schema_version = ''codeatlas.execution-plan/v2''"

definition execution_receipt_schema_version :: string where
  "execution_receipt_schema_version = ''codeatlas.execution-receipt/v1''"

definition secret_key :: "secret_reference \<Rightarrow> string \<times> string" where
  "secret_key s = (sr_name s, sr_scope s)"

definition destination_key :: "network_destination \<Rightarrow> string \<times> string \<times> nat" where
  "destination_key d = (nd_scheme d, nd_host d, nd_port d)"

definition command_key :: "managed_command_evidence \<Rightarrow> string \<times> string" where
  "command_key c = (mc_owner c, mc_digest c)"

definition image_key :: "managed_image_evidence \<Rightarrow> string \<times> string \<times> string" where
  "image_key i = (mi_owner i, mi_reference i, mi_manifest_digest i)"

definition root_key :: "writable_scratch_root \<Rightarrow> string \<times> string" where
  "root_key r = (wr_logical_name r, wr_owner r)"

definition link_key :: "artifact_link \<Rightarrow> string \<times> string \<times> string" where
  "link_key l = (al_kind l, al_id l, al_content_digest l)"

definition count_key :: "call_count \<Rightarrow> call_category \<times> nat" where
  "count_key c = (cc_category c, cc_count c)"

end
