(* ===== verification/Utf8.thy ===== *)
theory Utf8
  imports Prelude
begin

text \<open>
  What the program uses of the Unicode tables of the standard library, on the UTF-8 bytes of a
  \<open>str\<close>: \<open>char::is_whitespace\<close> (White_Space) through \<open>str::trim\<close>, and \<open>char::is_control\<close> (Cc).
  UTF-8 being self-synchronising, a suffix of a string that is the encoding of one character is its
  last character.
\<close>

definition is_white_space :: "string \<Rightarrow> bool" where
  "is_white_space s \<longleftrightarrow>
     (case map byte s of
        [a] \<Rightarrow> 9 \<le> a \<and> a \<le> 13 \<or> a = 32
      | [a, b] \<Rightarrow> a = 194 \<and> (b = 133 \<or> b = 160)
      | [a, b, c] \<Rightarrow>
          a = 225 \<and> b = 154 \<and> c = 128
          \<or> a = 226 \<and> b = 128 \<and> (128 \<le> c \<and> c \<le> 138 \<or> c = 168 \<or> c = 169 \<or> c = 175)
          \<or> a = 226 \<and> b = 129 \<and> c = 159
          \<or> a = 227 \<and> b = 128 \<and> c = 128
      | _ \<Rightarrow> False)"

definition leading_white_space :: "string \<Rightarrow> nat" where
  "leading_white_space s =
     (if is_white_space (take 1 s) then 1
      else if is_white_space (take 2 s) then 2
      else if is_white_space (take 3 s) then 3 else 0)"

definition trailing_white_space :: "string \<Rightarrow> nat" where
  "trailing_white_space r =
     (if is_white_space (rev (take 1 r)) then 1
      else if is_white_space (rev (take 2 r)) then 2
      else if is_white_space (rev (take 3 r)) then 3 else 0)"

function drop_white_space :: "(string \<Rightarrow> nat) \<Rightarrow> string \<Rightarrow> string" where
  "drop_white_space f s =
     (if f s = 0 \<or> s = [] then s else drop_white_space f (drop (f s) s))"
  by pat_completeness auto
termination by (relation "measure (\<lambda>(f, s). length s)") auto

declare drop_white_space.simps [simp del]

definition trim_start :: "string \<Rightarrow> string" where
  "trim_start s = drop_white_space leading_white_space s"

definition trim_end :: "string \<Rightarrow> string" where
  "trim_end s = rev (drop_white_space trailing_white_space (rev s))"

definition trim :: "string \<Rightarrow> string" where
  "trim s = trim_end (trim_start s)"

fun has_control :: "string \<Rightarrow> bool" where
  "has_control [] = False"
| "has_control (a # s) =
     (byte a < 32 \<or> byte a = 127
      \<or> byte a = 194 \<and> (case s of [] \<Rightarrow> False | b # _ \<Rightarrow> 128 \<le> byte b \<and> byte b \<le> 159)
      \<or> has_control s)"

lemma drop_white_space_length: "length (drop_white_space f s) \<le> length s"
proof (induction f s rule: drop_white_space.induct)
  case (1 f s)
  show ?case
  proof (cases "f s = 0 \<or> s = []")
    case False
    then have "length (drop_white_space f (drop (f s) s)) \<le> length (drop (f s) s)"
      by (rule 1)
    with False show ?thesis by (simp add: drop_white_space.simps [of f s])
  qed (simp add: drop_white_space.simps [of f s])
qed

lemma drop_white_space_less:
  "f s \<noteq> 0 \<Longrightarrow> s \<noteq> [] \<Longrightarrow> length (drop_white_space f s) < length s"
  using drop_white_space_length [of f "drop (f s) s"]
  by (simp add: drop_white_space.simps [of f s]) (metis diff_less le_less_trans length_greater_0_conv)

lemma drop_white_space_id: "drop_white_space f s = s \<longleftrightarrow> f s = 0 \<or> s = []"
  using drop_white_space_less [of f s] drop_white_space.simps [of f s] by fastforce

lemma trim_id:
  "trim s = s \<longleftrightarrow> s = [] \<or> leading_white_space s = 0 \<and> trailing_white_space (rev s) = 0"
proof
  assume t: "trim s = s"
  have "length (trim_end (trim_start s)) \<le> length (trim_start s)"
    unfolding trim_end_def by (metis drop_white_space_length length_rev)
  moreover have "length (trim_start s) \<le> length s"
    unfolding trim_start_def by (rule drop_white_space_length)
  ultimately have len: "length (trim_start s) = length s"
    using t by (simp add: trim_def)
  have start: "trim_start s = s"
  proof (rule ccontr)
    assume "trim_start s \<noteq> s"
    then have "leading_white_space s \<noteq> 0" and "s \<noteq> []"
      unfolding trim_start_def drop_white_space_id by auto
    then have "length (trim_start s) < length s"
      unfolding trim_start_def by (rule drop_white_space_less)
    with len show False by simp
  qed
  with t have "drop_white_space trailing_white_space (rev s) = rev s"
    unfolding trim_def trim_end_def by (metis rev_rev_ident)
  with start show "s = [] \<or> leading_white_space s = 0 \<and> trailing_white_space (rev s) = 0"
    unfolding trim_start_def drop_white_space_id by auto
next
  assume "s = [] \<or> leading_white_space s = 0 \<and> trailing_white_space (rev s) = 0"
  then have "drop_white_space leading_white_space s = s"
    and "drop_white_space trailing_white_space (rev s) = rev s"
    unfolding drop_white_space_id by auto
  then show "trim s = s" by (simp add: trim_def trim_start_def trim_end_def)
qed

end
