(* ===== verification/Decimal.thy ===== *)
theory Decimal
  imports Prelude
begin

text \<open>
  Decimal numerals and the searching functions of \<open>str\<close> the validators use: \<open>to_string\<close> and
  \<open>parse::<u32>\<close> of the standard library with their round trip, \<open>strip_prefix\<close>, \<open>split_once\<close>,
  \<open>rsplit_once\<close> and \<open>contains\<close>.
\<close>

definition digit_char :: "nat \<Rightarrow> char" where
  "digit_char d = char_of (48 + d)"

fun decimal :: "nat \<Rightarrow> string" where
  "decimal n = (if n < 10 then [digit_char n] else decimal (n div 10) @ [digit_char (n mod 10)])"

declare decimal.simps [simp del]

definition digits_value :: "string \<Rightarrow> nat" where
  "digits_value s = foldl (\<lambda>acc c. acc * 10 + (byte c - 48)) 0 s"

text \<open>\<open>parse::<u32>\<close>: an optional plus sign, then at least one digit, within \<open>u32\<close>.\<close>

definition parse_u32 :: "string \<Rightarrow> nat option" where
  "parse_u32 s =
     (let d = (case s of [] \<Rightarrow> [] | c # r \<Rightarrow> if c = CHR ''+'' then r else s)
      in if d = [] \<or> (\<exists>c \<in> set d. \<not> is_ascii_digit c) then None
         else if digits_value d > u32_max then None else Some (digits_value d))"

definition strip_prefix :: "string \<Rightarrow> string \<Rightarrow> string option" where
  "strip_prefix p s = (if starts_with p s then Some (drop (length p) s) else None)"

definition contains_str :: "string \<Rightarrow> string \<Rightarrow> bool" where
  "contains_str s pat \<longleftrightarrow> position_window s pat \<noteq> None"

definition split_once :: "string \<Rightarrow> string \<Rightarrow> (string \<times> string) option" where
  "split_once s pat =
     map_option (\<lambda>i. (take i s, drop (i + length pat) s)) (position_window s pat)"

definition rsplit_once :: "string \<Rightarrow> string \<Rightarrow> (string \<times> string) option" where
  "rsplit_once s pat =
     map_option (\<lambda>i. (take (length s - i - length pat) s, drop (length s - i) s))
       (position_window (rev s) (rev pat))"

lemma strip_prefix_Some: "strip_prefix p s = Some r \<longleftrightarrow> s = p @ r"
  by (auto simp: strip_prefix_def starts_with_def append_eq_conv_conj intro: append_take_drop_id [symmetric]
      dest: sym) (metis append_take_drop_id)+

lemma byte_digit_char: "d < 10 \<Longrightarrow> byte (digit_char d) = 48 + d"
  by (simp add: digit_char_def)

lemma digit_char_is_digit: "d < 10 \<Longrightarrow> is_ascii_digit (digit_char d)"
  by (simp add: is_ascii_digit_def byte_digit_char Let_def)

lemma decimal_digits: "c \<in> set (decimal n) \<Longrightarrow> is_ascii_digit c"
proof (induction n rule: decimal.induct)
  case (1 n)
  then show ?case
    by (subst (asm) (2) decimal.simps) (auto simp: digit_char_is_digit split: if_splits)
qed

lemma decimal_nonempty [simp]: "decimal n \<noteq> []"
  by (subst decimal.simps) simp

lemma digits_value_decimal: "digits_value (decimal n) = n"
proof (induction n rule: decimal.induct)
  case (1 n)
  then show ?case
    by (subst decimal.simps) (auto simp: digits_value_def byte_digit_char)
qed

lemma parse_u32_decimal: "parse_u32 (decimal n) = (if n \<le> u32_max then Some n else None)"
proof -
  obtain c r where d: "decimal n = c # r" by (cases "decimal n") auto
  then have "is_ascii_digit c" using decimal_digits [of c n] by simp
  then have "c \<noteq> CHR ''+''" by (auto simp: is_ascii_digit_def)
  with d have body: "(case decimal n of [] \<Rightarrow> [] | c # r \<Rightarrow> if c = CHR ''+'' then r else decimal n) = decimal n"
    by simp
  have "\<not> (\<exists>c \<in> set (decimal n). \<not> is_ascii_digit c)"
    using decimal_digits by blast
  then show ?thesis
    unfolding parse_u32_def Let_def body by (simp only: digits_value_decimal decimal_nonempty) simp
qed

text \<open>\<open>rsplit_once\<close> finds the last occurrence.\<close>

lemma rsplit_once_Some:
  assumes "rsplit_once s pat = Some (a, b)"
  shows "s = a @ pat @ b"
proof -
  obtain i where i: "position_window (rev s) (rev pat) = Some i"
    and a: "a = take (length s - i - length pat) s" and b: "b = drop (length s - i) s"
    using assms by (auto simp: rsplit_once_def)
  have le: "i + length pat \<le> length s"
    using position_window_le [OF i] by simp
  have "take (length pat) (drop i (rev s)) = rev pat"
    using position_window_found [OF i] by simp
  then have "rev (take (length pat) (drop i (rev s))) = pat" by simp
  then have "drop (length s - i - length pat) (take (length s - i) s) = pat"
    unfolding drop_rev take_rev rev_rev_ident by simp
  then have "take (length s - i) s = a @ pat"
    unfolding a by (metis append_take_drop_id diff_le_self min.absorb1 take_take)
  then show ?thesis unfolding b by (metis append_assoc append_take_drop_id)
qed

lemma rsplit_once_unique:
  assumes "\<forall>x y. b \<noteq> x @ pat @ y" and "pat = [p, q]" and "p \<noteq> q" and "p \<notin> set b"
  shows "rsplit_once (a @ pat @ b) pat = Some (a, b)"
proof -
  have skip: "position_window (xs @ [q, p] @ rev a) [q, p] = Some (length xs)" if "p \<notin> set xs" for xs
    using that
  proof (induction xs)
    case (Cons x xs)
    have "\<not> starts_with [q, p] (x # xs @ [q, p] @ rev a)"
      using Cons.prems assms(3) by (cases xs) (auto simp: starts_with_def)
    with Cons show ?case by simp
  qed (simp add: starts_with_def)
  have "rev (a @ pat @ b) = rev b @ [q, p] @ rev a" using assms(2) by simp
  with skip [of "rev b"] assms(2,4) have "position_window (rev (a @ pat @ b)) (rev pat) = Some (length b)"
    by simp
  then show ?thesis by (simp add: rsplit_once_def)
qed

subsection \<open>Splitting at a character\<close>

lemma split_on_hd: "hd (split_on (\<lambda>x. x = c) s) = [] \<longleftrightarrow> s = [] \<or> hd s = c"
  by (cases s) (auto split: list.splits)

lemma split_on_tl_nonempty:
  "(\<forall>w \<in> set (tl (split_on (\<lambda>x. x = c) s)). w \<noteq> []) \<longleftrightarrow>
     (s = [] \<or> last s \<noteq> c) \<and> position_window s [c, c] = None"
proof (induction s)
  case (Cons x s)
  obtain w ws where ws: "split_on (\<lambda>x. x = c) s = w # ws"
    by (meson list.exhaust split_on_nonempty)
  have hd: "w = [] \<longleftrightarrow> s = [] \<or> hd s = c"
    using split_on_hd [of c s] ws by simp
  have start: "starts_with [c, c] (x # s) \<longleftrightarrow> x = c \<and> s \<noteq> [] \<and> hd s = c"
    by (cases s) (auto simp: starts_with_def)
  have found: "position_window (x # s) [c, c] = None \<longleftrightarrow>
      \<not> starts_with [c, c] (x # s) \<and> position_window s [c, c] = None"
    by simp
  have tail: "(\<forall>v \<in> set ws. v \<noteq> []) \<longleftrightarrow> (s = [] \<or> last s \<noteq> c) \<and> position_window s [c, c] = None"
    using Cons.IH ws by simp
  show ?case
  proof (cases "x = c")
    case True
    then have "(\<forall>v \<in> set (tl (split_on (\<lambda>x. x = c) (x # s))). v \<noteq> []) \<longleftrightarrow>
        w \<noteq> [] \<and> (\<forall>v \<in> set ws. v \<noteq> [])"
      using ws by simp
    then show ?thesis unfolding found start hd tail using True by auto
  next
    case False
    then have "(\<forall>v \<in> set (tl (split_on (\<lambda>x. x = c) (x # s))). v \<noteq> []) \<longleftrightarrow> (\<forall>v \<in> set ws. v \<noteq> [])"
      using ws by simp
    then show ?thesis unfolding found start tail using False by auto
  qed
qed simp

lemma split_on_nonempty_parts:
  "(\<forall>w \<in> set (split_on (\<lambda>x. x = c) s). w \<noteq> []) \<longleftrightarrow>
     s \<noteq> [] \<and> hd s \<noteq> c \<and> last s \<noteq> c \<and> position_window s [c, c] = None"
proof -
  obtain w ws where ws: "split_on (\<lambda>x. x = c) s = w # ws"
    by (meson list.exhaust split_on_nonempty)
  then show ?thesis
    using split_on_hd [of c s] split_on_tl_nonempty [of c s] by auto
qed

lemma set_split_on: "(\<Union>w \<in> set (split_on (\<lambda>x. x = c) s). set w) = set s - {c}"
proof (induction s)
  case (Cons x s)
  obtain w ws where ws: "split_on (\<lambda>x. x = c) s = w # ws"
    by (meson list.exhaust split_on_nonempty)
  with Cons have "set w \<union> (\<Union>w \<in> set ws. set w) = set s - {c}" by simp
  with ws show ?case by (cases "x = c") auto
qed simp

end
