(* ===== verification/ArtifactIdentity.thy ===== *)
theory ArtifactIdentity
  imports ArtifactModel Utf8 Decimal
begin

text \<open>
  The content identity of plans, receipts and payloads (\<open>src/execution/artifact/identity.rs\<close>,
  \<open>src/execution/artifact.rs\<close>): the validation of their bodies, their digests and their IDs.
  What is not code of the repository is the argument \<open>env\<close>: the derived serialization of the two
  bodies, the RFC 8785 canonicalizer, and SHA-256 with its hexadecimal rendering.
\<close>

datatype artifact_error =
    NotSortedUnique string
  | BlankText string
  | InvalidHex string
  | BadDigestPrefix
  | WrongIdPrefix string
  | DigestMismatch
  | IdMismatch
  | InvalidDomain
  | UnsafeInteger
  | NonFinite
  | CanonicalizeFailed
  | InvalidSchema
  | UnsupportedSchema
  | LimitOutOfRange string
  | LimitConcurrency
  | UnsupportedLinkKind
  | AmbiguousLink
  | EvidenceMismatch
  | ClassMismatch
  | DuplicateOwner string
  | RepeatedCategory
  | ZeroCount
  | CountOverflow
  | TooManyExpectedCalls
  | ZeroPort
  | ImageNotPinned
  | ImageDigestMismatch
  | InconsistentCalls
  | IncompleteCleanup
  | MissingParentPlan

record digest_env =
  plan_value :: "plan_body \<Rightarrow> json"
  receipt_value :: "receipt_body \<Rightarrow> json"
  canonicalize :: "json \<Rightarrow> string option"
  sha256_hex :: "string \<Rightarrow> string"

subsection \<open>Windows of two\<close>

text \<open>\<open>values.windows(2).all(..)\<close> and \<open>.any(..)\<close>.\<close>

fun windows2_all :: "('a \<Rightarrow> 'a \<Rightarrow> bool) \<Rightarrow> 'a list \<Rightarrow> bool" where
  "windows2_all P (x # y # zs) \<longleftrightarrow> P x y \<and> windows2_all P (y # zs)"
| "windows2_all P _ \<longleftrightarrow> True"

definition windows2_any :: "('a \<Rightarrow> 'a \<Rightarrow> bool) \<Rightarrow> 'a list \<Rightarrow> bool" where
  "windows2_any P xs \<longleftrightarrow> \<not> windows2_all (\<lambda>x y. \<not> P x y) xs"

definition validate_sorted_unique ::
    "string \<Rightarrow> ('a \<Rightarrow> 'k::linorder) \<Rightarrow> 'a list \<Rightarrow> artifact_error + unit" where
  "validate_sorted_unique label key vs =
     ensure (windows2_all (\<lambda>x y. key x < key y) vs) (NotSortedUnique label)"

subsection \<open>Texts, digests and IDs\<close>

definition validate_nonblank :: "string \<Rightarrow> string \<Rightarrow> artifact_error + unit" where
  "validate_nonblank label v = ensure (\<not> (v = [] \<or> trim v \<noteq> v \<or> has_control v)) (BlankText label)"

definition is_lower_hex :: "char \<Rightarrow> bool" where
  "is_lower_hex c \<longleftrightarrow> is_ascii_digit c \<or> 97 \<le> byte c \<and> byte c \<le> 102"

definition validate_lower_hex :: "string \<Rightarrow> string \<Rightarrow> artifact_error + unit" where
  "validate_lower_hex v label =
     ensure (length v = 64 \<and> (\<forall>c \<in> set v. is_lower_hex c)) (InvalidHex label)"

definition validate_digest :: "string \<Rightarrow> artifact_error + string" where
  "validate_digest v =
     (case strip_prefix ''sha256:'' v of
        None \<Rightarrow> Inl BadDigestPrefix
      | Some hex \<Rightarrow> and_then (validate_lower_hex hex ''digest'') (\<lambda>_. Inr hex))"

definition validate_artifact_id :: "string \<Rightarrow> string \<Rightarrow> artifact_error + unit" where
  "validate_artifact_id prefix v =
     (case strip_prefix (prefix @ ''_'') v of
        None \<Rightarrow> Inl (WrongIdPrefix prefix)
      | Some hex \<Rightarrow> validate_lower_hex hex ''artifact ID'')"

definition artifact_kinds :: "string list" where
  "artifact_kinds = [''plan'', ''receipt'', ''observation'', ''baseline'', ''reproducer'', ''report'']"

definition is_artifact_id :: "string \<Rightarrow> bool" where
  "is_artifact_id v \<longleftrightarrow> (\<exists>prefix \<in> set artifact_kinds. validate_artifact_id prefix v = Inr ())"

definition artifact_id :: "string \<Rightarrow> string \<Rightarrow> artifact_error + string" where
  "artifact_id prefix digest =
     and_then (validate_digest digest) (\<lambda>hex. Inr (prefix @ ''_'' @ hex))"

definition verify_artifact_identity ::
    "string \<Rightarrow> string \<Rightarrow> string \<Rightarrow> string \<Rightarrow> artifact_error + unit" where
  "verify_artifact_identity prefix aid content_digest expected_digest =
     and_then (validate_artifact_id prefix aid) (\<lambda>_.
     and_then (validate_digest content_digest) (\<lambda>_.
     if content_digest \<noteq> expected_digest then Inl DigestMismatch
     else and_then (artifact_id prefix expected_digest) (\<lambda>expected.
       if aid \<noteq> expected then Inl IdMismatch else Inr ())))"

subsection \<open>Digests of values\<close>

definition validate_domain :: "string \<Rightarrow> artifact_error + unit" where
  "validate_domain domain =
     ensure (\<not> (\<not> starts_with ''atlas.codeatlas.dev/'' domain \<or> trim domain \<noteq> domain
              \<or> has_control domain)) InvalidDomain"

fun validate_jcs_value :: "json \<Rightarrow> artifact_error + unit"
and validate_jcs_array :: "json list \<Rightarrow> artifact_error + unit"
and validate_jcs_object :: "(string \<times> json) list \<Rightarrow> artifact_error + unit" where
  "validate_jcs_value JNull = Inr ()"
| "validate_jcs_value (JBool b) = Inr ()"
| "validate_jcs_value (JString s) = Inr ()"
| "validate_jcs_value (JArray vs) = validate_jcs_array vs"
| "validate_jcs_value (JObject fs) = validate_jcs_object fs"
| "validate_jcs_value (JNumber n) =
     (if (case as_u64 n of None \<Rightarrow> False | Some v \<Rightarrow> v > max_jcs_safe_integer)
         \<or> (case as_i64 n of None \<Rightarrow> False
            | Some v \<Rightarrow> v < - int max_jcs_safe_integer \<or> v > int max_jcs_safe_integer)
      then Inl UnsafeInteger
      else if \<not> has_finite_f64 n then Inl NonFinite else Inr ())"
| "validate_jcs_array [] = Inr ()"
| "validate_jcs_array (v # vs) = and_then (validate_jcs_value v) (\<lambda>_. validate_jcs_array vs)"
| "validate_jcs_object [] = Inr ()"
| "validate_jcs_object ((k, v) # fs) =
     and_then (validate_jcs_value v) (\<lambda>_. validate_jcs_object fs)"

definition digest_domain_bytes :: "digest_env \<Rightarrow> string \<Rightarrow> bytes \<Rightarrow> string" where
  "digest_domain_bytes env domain bs = ''sha256:'' @ sha256_hex env (domain @ [CHR 0x0A] @ bs)"

definition digest_bytes :: "digest_env \<Rightarrow> string \<Rightarrow> bytes \<Rightarrow> artifact_error + string" where
  "digest_bytes env domain bs =
     and_then (validate_domain domain) (\<lambda>_. Inr (digest_domain_bytes env domain bs))"

definition digest_value :: "digest_env \<Rightarrow> string \<Rightarrow> json \<Rightarrow> artifact_error + string" where
  "digest_value env domain v =
     and_then (validate_domain domain) (\<lambda>_.
     and_then (validate_jcs_value v) (\<lambda>_.
     case canonicalize env v of
       None \<Rightarrow> Inl CanonicalizeFailed
     | Some bs \<Rightarrow> Inr (digest_domain_bytes env domain bs)))"

definition is_namespaced_artifact_version :: "string \<Rightarrow> bool" where
  "is_namespaced_artifact_version v =
     (case strip_prefix ''codeatlas.'' v of
        None \<Rightarrow> False
      | Some remainder \<Rightarrow>
          (case rsplit_once remainder ''/v'' of
             None \<Rightarrow> False
           | Some (kind, version) \<Rightarrow>
               if kind = [] \<or> hd kind = CHR ''-'' \<or> last kind = CHR ''-''
                  \<or> contains_str kind ''--''
                  \<or> \<not> (\<forall>c \<in> set kind. is_ascii_lowercase c \<or> is_ascii_digit c \<or> c = CHR ''-'')
               then False
               else (case parse_u32 version of
                       None \<Rightarrow> False
                     | Some parsed \<Rightarrow> parsed > 0 \<and> decimal parsed = version)))"

definition validate_schema_version :: "string \<Rightarrow> artifact_error + unit" where
  "validate_schema_version v = ensure (is_namespaced_artifact_version v) InvalidSchema"

definition payload_domain :: "string \<Rightarrow> string" where
  "payload_domain schema = ''atlas.codeatlas.dev/artifact-payload/v1/'' @ schema"

definition payload_from_serializable ::
    "digest_env \<Rightarrow> string \<Rightarrow> json \<Rightarrow> artifact_error + artifact_payload" where
  "payload_from_serializable env schema body =
     and_then (validate_schema_version schema) (\<lambda>_.
     and_then (digest_value env (payload_domain schema) body) (\<lambda>digest.
     Inr \<lparr>ap_schema_version = schema, ap_content_digest = digest, ap_body = body\<rparr>))"

definition payload_verify_identity :: "digest_env \<Rightarrow> artifact_payload \<Rightarrow> artifact_error + unit" where
  "payload_verify_identity env p =
     and_then (validate_schema_version (ap_schema_version p)) (\<lambda>_.
     and_then (digest_value env (payload_domain (ap_schema_version p)) (ap_body p)) (\<lambda>expected.
     if ap_content_digest p \<noteq> expected then Inl DigestMismatch else Inr ()))"

text \<open>\<open>decode\<close> with the typed deserializer as an argument.\<close>

definition payload_decode ::
    "digest_env \<Rightarrow> (json \<Rightarrow> artifact_error + 'a) \<Rightarrow> artifact_payload \<Rightarrow> string \<Rightarrow> artifact_error + 'a" where
  "payload_decode env from_value p expected_schema =
     (if ap_schema_version p \<noteq> expected_schema then Inl UnsupportedSchema
      else and_then (payload_verify_identity env p) (\<lambda>_. from_value (ap_body p)))"

end
