(* ===== verification/ArtifactValidate.thy ===== *)
theory ArtifactValidate
  imports ArtifactIdentity
begin

text \<open>
  Validation of plan and receipt bodies and the construction and verification of plans and receipts
  (\<open>src/execution/artifact/identity.rs\<close>, \<open>src/execution/artifact.rs\<close>), in the order of the checks
  of the code.
\<close>

definition validate_execution_limits :: "execution_limits \<Rightarrow> artifact_error + unit" where
  "validate_execution_limits l =
     and_then
       (check_all (\<lambda>(name, v). ensure (\<not> (v = 0 \<or> v > max_jcs_safe_integer)) (LimitOutOfRange name))
         (limit_fields l))
       (\<lambda>_. ensure (\<not> max_concurrency l > max_calls l) LimitConcurrency)"

definition validate_artifact_link :: "artifact_link \<Rightarrow> artifact_error + unit" where
  "validate_artifact_link link =
     (if al_kind link \<notin> set artifact_kinds then Inl UnsupportedLinkKind
      else and_then (validate_artifact_id (al_kind link) (al_id link)) (\<lambda>_.
           and_then (validate_digest (al_content_digest link)) (\<lambda>_. Inr ())))"

definition validate_artifact_links :: "artifact_link list \<Rightarrow> artifact_error + unit" where
  "validate_artifact_links links =
     and_then (validate_sorted_unique ''artifact links'' link_key links) (\<lambda>_.
     if windows2_any (\<lambda>a b. al_kind a = al_kind b \<and> al_id a = al_id b) links then Inl AmbiguousLink
     else check_all validate_artifact_link links)"

definition validate_tool_identity :: "tool_identity \<Rightarrow> artifact_error + unit" where
  "validate_tool_identity t =
     and_then (validate_nonblank ''tool name'' (ti_name t)) (\<lambda>_.
     and_then (validate_nonblank ''tool version'' (ti_version t)) (\<lambda>_.
     and_then (validate_digest (ti_digest t)) (\<lambda>_. Inr ())))"

text \<open>The fold of \<open>validate_call_counts\<close> with its checked addition.\<close>

fun add_call_counts :: "nat \<Rightarrow> call_count list \<Rightarrow> artifact_error + nat" where
  "add_call_counts acc [] = Inr acc"
| "add_call_counts acc (e # es) =
     (if cc_count e = 0 then Inl ZeroCount
      else if acc + cc_count e > u64_max then Inl CountOverflow
      else add_call_counts (acc + cc_count e) es)"

definition validate_call_counts :: "string \<Rightarrow> call_count list \<Rightarrow> artifact_error + nat" where
  "validate_call_counts label vs =
     and_then (validate_sorted_unique label count_key vs) (\<lambda>_.
     if windows2_any (\<lambda>a b. cc_category a = cc_category b) vs then Inl RepeatedCategory
     else add_call_counts 0 vs)"

definition validate_destination :: "network_destination \<Rightarrow> artifact_error + unit" where
  "validate_destination d =
     and_then (validate_nonblank ''destination scheme'' (nd_scheme d)) (\<lambda>_.
     and_then (validate_nonblank ''destination host'' (nd_host d)) (\<lambda>_.
     if nd_port d = 0 then Inl ZeroPort else Inr ()))"

definition validate_root :: "writable_scratch_root \<Rightarrow> artifact_error + unit" where
  "validate_root r =
     and_then (validate_nonblank ''writable scratch-root logical name'' (wr_logical_name r)) (\<lambda>_.
     validate_nonblank ''writable scratch-root owner'' (wr_owner r))"

definition validate_command :: "managed_command_evidence \<Rightarrow> artifact_error + unit" where
  "validate_command c =
     and_then (validate_nonblank ''managed command owner'' (mc_owner c)) (\<lambda>_.
     and_then (validate_digest (mc_digest c)) (\<lambda>_. Inr ()))"

text \<open>The digest an image reference \<open>repository@sha256:digest\<close> pins.\<close>

definition pinned_digest :: "string \<Rightarrow> string option" where
  "pinned_digest reference =
     (case split_once reference ''@sha256:'' of
        None \<Rightarrow> None
      | Some (repository, digest) \<Rightarrow>
          if repository \<noteq> [] \<and> length digest = 64 then Some (''sha256:'' @ digest) else None)"

definition validate_image :: "managed_image_evidence \<Rightarrow> artifact_error + unit" where
  "validate_image i =
     and_then (validate_nonblank ''managed image owner'' (mi_owner i)) (\<lambda>_.
     case pinned_digest (mi_reference i) of
       None \<Rightarrow> Inl ImageNotPinned
     | Some expected \<Rightarrow>
         and_then (validate_digest (mi_manifest_digest i)) (\<lambda>_.
         if mi_manifest_digest i \<noteq> expected then Inl ImageDigestMismatch else Inr ()))"

definition validate_secret :: "secret_reference \<Rightarrow> artifact_error + unit" where
  "validate_secret s =
     and_then (validate_nonblank ''secret reference name'' (sr_name s)) (\<lambda>_.
     validate_nonblank ''secret reference scope'' (sr_scope s))"

definition evidence_list :: "evidence_digests \<Rightarrow> string list" where
  "evidence_list e =
     [ed_workspace e, ed_config e, ed_target e, ed_contract e, ed_tool e, ed_engine e, ed_policy e]"

definition validate_digest_unit :: "string \<Rightarrow> artifact_error + unit" where
  "validate_digest_unit d = and_then (validate_digest d) (\<lambda>_. Inr ())"

definition validate_execution_plan_body :: "digest_env \<Rightarrow> plan_body \<Rightarrow> artifact_error + unit" where
  "validate_execution_plan_body env b =
     and_then (validate_nonblank ''execution operation'' (pb_operation b)) (\<lambda>_.
     and_then (validate_tool_identity (pb_tool b)) (\<lambda>_.
     and_then (validate_tool_identity (pb_engine b)) (\<lambda>_.
     and_then (check_all validate_digest_unit (evidence_list (pb_evidence b))) (\<lambda>_.
     and_then (ensure (\<not> (ti_digest (pb_tool b) \<noteq> ed_tool (pb_evidence b)
         \<or> ti_digest (pb_engine b) \<noteq> ed_engine (pb_evidence b))) EvidenceMismatch) (\<lambda>_.
     and_then (validate_nonblank ''target ID'' (pt_id (pb_target b))) (\<lambda>_.
     and_then (ensure (pt_class (pb_target b) = td_class (pb_authorization b)) ClassMismatch) (\<lambda>_.
     and_then (payload_verify_identity env (pb_workload b)) (\<lambda>_.
     and_then (validate_execution_limits (pb_limits b)) (\<lambda>_.
     and_then (validate_sorted_unique ''effects'' (\<lambda>x. x) (pb_effects b)) (\<lambda>_.
     and_then (validate_sorted_unique ''required capabilities'' (\<lambda>x. x) (pb_required_capabilities b)) (\<lambda>_.
     and_then (validate_sorted_unique ''destinations'' destination_key (pb_destinations b)) (\<lambda>_.
     and_then (validate_sorted_unique ''managed commands'' command_key (pb_managed_commands b)) (\<lambda>_.
     and_then (ensure (\<not> windows2_any (\<lambda>x y. mc_owner x = mc_owner y) (pb_managed_commands b))
       (DuplicateOwner ''command'')) (\<lambda>_.
     and_then (validate_sorted_unique ''managed images'' image_key (pb_managed_images b)) (\<lambda>_.
     and_then (ensure (\<not> windows2_any (\<lambda>x y. mi_owner x = mi_owner y) (pb_managed_images b))
       (DuplicateOwner ''image'')) (\<lambda>_.
     and_then (validate_call_counts ''Execution plan expected calls'' (pb_expected_calls b))
       (\<lambda>expected_calls.
     and_then (ensure (\<not> expected_calls > max_calls (pb_limits b)) TooManyExpectedCalls) (\<lambda>_.
     and_then (validate_sorted_unique ''writable scratch roots'' root_key (pb_writable_scratch_roots b)) (\<lambda>_.
     and_then (ensure (\<not> windows2_any (\<lambda>x y. wr_logical_name x = wr_logical_name y)
       (pb_writable_scratch_roots b)) (DuplicateOwner ''scratch root'')) (\<lambda>_.
     and_then (check_all validate_root (pb_writable_scratch_roots b)) (\<lambda>_.
     and_then (validate_sorted_unique ''secret references'' secret_key
       (pt_secret_references (pb_target b))) (\<lambda>_.
     and_then (validate_artifact_links (pb_links b)) (\<lambda>_.
     and_then (check_all validate_destination (pb_destinations b)) (\<lambda>_.
     and_then (check_all validate_command (pb_managed_commands b)) (\<lambda>_.
     and_then (check_all validate_image (pb_managed_images b)) (\<lambda>_.
     and_then (check_all validate_secret (pt_secret_references (pb_target b))) (\<lambda>_.
     check_all (validate_nonblank ''authorization reason'') (td_reasons (pb_authorization b)))))))))))))))))))))))))))))"

definition validate_execution_receipt_body :: "digest_env \<Rightarrow> receipt_body \<Rightarrow> artifact_error + unit" where
  "validate_execution_receipt_body env b =
     and_then (validate_nonblank ''execution operation'' (rb_operation b)) (\<lambda>_.
     and_then (validate_tool_identity (rb_tool b)) (\<lambda>_.
     and_then (validate_artifact_id ''plan'' (rb_plan_id b)) (\<lambda>_.
     and_then (validate_digest_unit (rb_plan_content_digest b)) (\<lambda>_.
     and_then (check_all (validate_nonblank ''receipt reason'') (rb_reasons b)) (\<lambda>_.
     and_then (validate_call_counts ''Execution receipt calls'' (by_category (rb_calls b)))
       (\<lambda>categorized.
     and_then (ensure (\<not> (consumed (rb_calls b) > reserved (rb_calls b)
       \<or> categorized \<noteq> consumed (rb_calls b))) InconsistentCalls) (\<lambda>_.
     and_then (ensure (\<not> (rb_outcome b = OutcomePassed
       \<and> (\<exists>c \<in> set (rb_cleanup b). \<not> ce_released c \<or> \<not> ce_verified c))) IncompleteCleanup) (\<lambda>_.
     and_then (case rb_result b of None \<Rightarrow> Inr () | Some r \<Rightarrow> payload_verify_identity env r) (\<lambda>_.
     and_then (case re_backend (rb_runtime b) of None \<Rightarrow> Inr () | Some t \<Rightarrow> validate_tool_identity t) (\<lambda>_.
     and_then (case re_environment_digest (rb_runtime b) of None \<Rightarrow> Inr ()
       | Some d \<Rightarrow> validate_digest_unit d) (\<lambda>_.
     and_then (validate_sorted_unique ''runtime capabilities'' (\<lambda>x. x)
       (re_capabilities (rb_runtime b))) (\<lambda>_.
     and_then (validate_artifact_links (rb_links b)) (\<lambda>_.
     ensure (\<exists>link \<in> set (rb_links b). al_kind link = ''plan'' \<and> al_id link = rb_plan_id b
       \<and> al_content_digest link = rb_plan_content_digest b) MissingParentPlan)))))))))))))"

subsection \<open>Plans and receipts\<close>

definition plan_domain :: string where
  "plan_domain = ''atlas.codeatlas.dev/execution-plan/v2''"

definition receipt_domain :: string where
  "receipt_domain = ''atlas.codeatlas.dev/execution-receipt/v1''"

definition execution_plan_new :: "digest_env \<Rightarrow> plan_body \<Rightarrow> artifact_error + execution_plan" where
  "execution_plan_new env b =
     and_then (validate_execution_plan_body env b) (\<lambda>_.
     and_then (digest_value env plan_domain (plan_value env b)) (\<lambda>digest.
     and_then (artifact_id ''plan'' digest) (\<lambda>aid.
     Inr \<lparr>ep_schema_version = execution_plan_schema_version, ep_kind = PlanKind, ep_id = aid,
          ep_content_digest = digest, ep_body = b\<rparr>)))"

definition execution_receipt_new ::
    "digest_env \<Rightarrow> receipt_body \<Rightarrow> artifact_error + execution_receipt" where
  "execution_receipt_new env b =
     and_then (validate_execution_receipt_body env b) (\<lambda>_.
     and_then (digest_value env receipt_domain (receipt_value env b)) (\<lambda>digest.
     and_then (artifact_id ''receipt'' digest) (\<lambda>aid.
     Inr \<lparr>er_schema_version = execution_receipt_schema_version, er_kind = ReceiptKind, er_id = aid,
          er_content_digest = digest, er_body = b\<rparr>)))"

definition plan_verify_identity :: "digest_env \<Rightarrow> execution_plan \<Rightarrow> artifact_error + unit" where
  "plan_verify_identity env p =
     (if ep_schema_version p \<noteq> execution_plan_schema_version then Inl UnsupportedSchema
      else
        and_then (validate_execution_plan_body env (ep_body p)) (\<lambda>_.
        and_then (digest_value env plan_domain (plan_value env (ep_body p))) (\<lambda>expected.
        verify_artifact_identity ''plan'' (ep_id p) (ep_content_digest p) expected)))"

definition receipt_verify_identity :: "digest_env \<Rightarrow> execution_receipt \<Rightarrow> artifact_error + unit" where
  "receipt_verify_identity env r =
     (if er_schema_version r \<noteq> execution_receipt_schema_version then Inl UnsupportedSchema
      else
        and_then (validate_execution_receipt_body env (er_body r)) (\<lambda>_.
        and_then (digest_value env receipt_domain (receipt_value env (er_body r))) (\<lambda>expected.
        verify_artifact_identity ''receipt'' (er_id r) (er_content_digest r) expected)))"

text \<open>\<open>managed_image_evidence\<close>: the evidence a plan carries for its image.\<close>

definition image_evidence ::
    "string \<Rightarrow> string option \<Rightarrow> artifact_error + managed_image_evidence list" where
  "image_evidence owner reference =
     and_then (validate_nonblank ''owner'' owner) (\<lambda>_.
     case reference of
       None \<Rightarrow> Inr []
     | Some ref \<Rightarrow>
         (case pinned_digest ref of
            None \<Rightarrow> Inl ImageNotPinned
          | Some manifest_digest \<Rightarrow>
              and_then (validate_digest manifest_digest) (\<lambda>_.
              Inr [\<lparr>mi_owner = owner, mi_reference = ref, mi_manifest_digest = manifest_digest\<rparr>])))"

end
