(* ===== verification/ArtifactContract.thy ===== *)
theory ArtifactContract
  imports ArtifactValidate BudgetContract
begin

text \<open>
  What the identity of an artifact guarantees: that what was constructed verifies, that an ID binds
  the body, that validated bodies are unambiguous and consistent, and that the usage a call budget
  reports is one a receipt accepts.
\<close>

subsection \<open>Sorted and unique sequences\<close>

lemma windows2_all_sorted_wrt:
  assumes "\<And>x y z. P x y \<Longrightarrow> P y z \<Longrightarrow> P x z"
  shows "windows2_all P xs \<longleftrightarrow> sorted_wrt P xs"
proof (induction xs rule: induct_list012)
  case (3 x y zs)
  then show ?case using assms by (auto intro: assms)
qed auto

lemma validate_sorted_unique_Inr:
  "validate_sorted_unique label key vs = Inr () \<longleftrightarrow> sorted_wrt (<) (map key vs)"
  unfolding validate_sorted_unique_def
  by (simp add: windows2_all_sorted_wrt sorted_wrt_map)

lemma unique_leading_field:
  fixes key :: "'a \<Rightarrow> 'k::linorder" and f :: "'a \<Rightarrow> 'f::linorder"
  assumes "windows2_all (\<lambda>x y. key x < key y) vs" and "\<not> windows2_any (\<lambda>x y. f x = f y) vs"
    and leading: "\<And>x y. key x < key y \<Longrightarrow> f x \<le> f y"
  shows "sorted_wrt (<) (map f vs)"
proof -
  have "windows2_all (\<lambda>x y. f x < f y) vs"
    using assms(1,2) unfolding windows2_any_def
  proof (induction vs rule: induct_list012)
    case (3 x y zs)
    then have "f x \<le> f y" and "f x \<noteq> f y" by (auto intro: leading)
    with 3 show ?case by auto
  qed auto
  then show ?thesis by (simp add: windows2_all_sorted_wrt sorted_wrt_map)
qed

lemma add_call_counts_Inr:
  "add_call_counts acc es = Inr n \<longleftrightarrow>
     (\<forall>e \<in> set es. 0 < cc_count e) \<and> n = acc + sum_list (map cc_count es)
     \<and> (es = [] \<or> n \<le> u64_max)"
proof (induction es arbitrary: acc)
  case (Cons e es)
  show ?case
    by (cases es) (use Cons [of "acc + cc_count e"] in auto)
qed auto

lemma validate_call_counts_Inr:
  "validate_call_counts label vs = Inr n \<longleftrightarrow>
     sorted_wrt (<) (map cc_category vs) \<and> (\<forall>e \<in> set vs. 0 < cc_count e)
     \<and> n = sum_list (map cc_count vs) \<and> n \<le> u64_max" (is "?l \<longleftrightarrow> ?r")
proof
  assume l: ?l
  then have sorted: "windows2_all (\<lambda>x y. count_key x < count_key y) vs"
    and distinct: "\<not> windows2_any (\<lambda>a b. cc_category a = cc_category b) vs"
    and "add_call_counts 0 vs = Inr n"
    by (auto simp: validate_call_counts_def validate_sorted_unique_def ensure_def and_then_Inr
        split: if_splits)
  then have sum: "(\<forall>e \<in> set vs. 0 < cc_count e) \<and> n = sum_list (map cc_count vs) \<and> (vs = [] \<or> n \<le> u64_max)"
    by (auto simp: add_call_counts_Inr)
  have "sorted_wrt (<) (map cc_category vs)"
    by (rule unique_leading_field [OF sorted distinct]) (auto simp: count_key_def less_prod_def')
  with sum show ?r by auto
next
  assume r: ?r
  then have cats: "sorted_wrt (\<lambda>x y. cc_category x < cc_category y) vs"
    by (simp add: sorted_wrt_map)
  then have "sorted_wrt (\<lambda>x y. count_key x < count_key y) vs"
    by (rule sorted_wrt_mono_rel [rotated]) (simp add: count_key_def)
  then have "validate_sorted_unique label count_key vs = Inr ()"
    by (simp add: validate_sorted_unique_Inr sorted_wrt_map)
  moreover have "\<not> windows2_any (\<lambda>a b. cc_category a = cc_category b) vs"
    using cats unfolding windows2_any_def by (induction vs rule: induct_list012) auto
  ultimately show ?l
    using r by (simp add: validate_call_counts_def add_call_counts_Inr)
qed

subsection \<open>Digests and IDs\<close>

lemma strip_prefix_None: "strip_prefix p v = None \<longleftrightarrow> (\<forall>r. v \<noteq> p @ r)"
  by (metis not_None_eq strip_prefix_Some)

lemma strip_prefix_append: "strip_prefix p (p @ r) = Some r"
  by (simp add: strip_prefix_Some)

lemma validate_digest_Inr:
  "validate_digest v = Inr hex \<longleftrightarrow>
     v = ''sha256:'' @ hex \<and> length hex = 64 \<and> (\<forall>c \<in> set hex. is_lower_hex c)"
proof (cases "strip_prefix ''sha256:'' v")
  case None
  then have "v \<noteq> ''sha256:'' @ hex" unfolding strip_prefix_None by blast
  with None show ?thesis by (simp only: validate_digest_def option.case) simp
next
  case (Some h)
  then have "v = ''sha256:'' @ h" by (simp only: strip_prefix_Some)
  then have "v = ''sha256:'' @ hex \<longleftrightarrow> h = hex" by (simp only: same_append_eq)
  with Some show ?thesis
    by (simp only: validate_digest_def option.case validate_lower_hex_def and_then_Inr_unit ensure_Inr)
      auto
qed

lemma validate_artifact_id_Inr:
  "validate_artifact_id prefix v = Inr () \<longleftrightarrow>
     (\<exists>hex. v = prefix @ ''_'' @ hex \<and> length hex = 64 \<and> (\<forall>c \<in> set hex. is_lower_hex c))"
proof (cases "strip_prefix (prefix @ ''_'') v")
  case None
  then have "\<forall>r. v \<noteq> prefix @ ''_'' @ r" unfolding strip_prefix_None by simp
  with None show ?thesis by (simp add: validate_artifact_id_def)
next
  case (Some h)
  then have "v = prefix @ ''_'' @ h" unfolding strip_prefix_Some by simp
  with Some show ?thesis
    by (simp add: validate_artifact_id_def validate_lower_hex_def)
qed

lemma artifact_id_Inr:
  "artifact_id prefix digest = Inr aid \<longleftrightarrow>
     (\<exists>hex. validate_digest digest = Inr hex \<and> aid = prefix @ ''_'' @ hex)"
  by (auto simp: artifact_id_def and_then_Inr)

lemma verify_artifact_identity_Inr:
  "verify_artifact_identity prefix aid content expected = Inr () \<longleftrightarrow>
     content = expected \<and> artifact_id prefix expected = Inr aid"
  by (auto simp: verify_artifact_identity_def and_then_Inr artifact_id_Inr validate_digest_Inr
      validate_artifact_id_Inr)

lemma digest_value_Inr:
  "digest_value env domain v = Inr d \<longleftrightarrow>
     validate_domain domain = Inr () \<and> validate_jcs_value v = Inr ()
     \<and> (\<exists>bs. canonicalize env v = Some bs \<and> d = digest_domain_bytes env domain bs)"
  by (auto simp: digest_value_def and_then_Inr_unit split: option.splits)

lemma plan_verify_Inr:
  "plan_verify_identity env p = Inr () \<longleftrightarrow>
     ep_schema_version p = execution_plan_schema_version
     \<and> validate_execution_plan_body env (ep_body p) = Inr ()
     \<and> digest_value env plan_domain (plan_value env (ep_body p)) = Inr (ep_content_digest p)
     \<and> artifact_id ''plan'' (ep_content_digest p) = Inr (ep_id p)"
  by (auto simp: plan_verify_identity_def and_then_Inr verify_artifact_identity_Inr)

lemma receipt_verify_Inr:
  "receipt_verify_identity env r = Inr () \<longleftrightarrow>
     er_schema_version r = execution_receipt_schema_version
     \<and> validate_execution_receipt_body env (er_body r) = Inr ()
     \<and> digest_value env receipt_domain (receipt_value env (er_body r)) = Inr (er_content_digest r)
     \<and> artifact_id ''receipt'' (er_content_digest r) = Inr (er_id r)"
  by (auto simp: receipt_verify_identity_def and_then_Inr verify_artifact_identity_Inr)

subsection \<open>The fixture plan of the repository's tests\<close>

definition sample_env :: digest_env where
  "sample_env =
     \<lparr>plan_value = (\<lambda>b. JString (pb_operation b)), receipt_value = (\<lambda>b. JString (rb_operation b)),
      canonicalize = (\<lambda>v. case v of JString s \<Rightarrow> Some s | _ \<Rightarrow> None),
      sha256_hex = (\<lambda>s. replicate 64 (if last s = CHR ''z'' then CHR ''a'' else CHR ''b''))\<rparr>"

definition sample_digest :: "char \<Rightarrow> string" where
  "sample_digest c = ''sha256:'' @ replicate 64 c"

definition sample_plan_body :: plan_body where
  "sample_plan_body =
     \<lparr>pb_subject = SubjectHttp, pb_operation = ''fuzz'',
      pb_tool = \<lparr>ti_name = ''codeatlas'', ti_version = ''1.0.0'', ti_digest = sample_digest CHR ''1''\<rparr>,
      pb_engine = \<lparr>ti_name = ''fixture'', ti_version = ''2.0.0'', ti_digest = sample_digest CHR ''2''\<rparr>,
      pb_evidence = \<lparr>ed_workspace = sample_digest CHR ''3'', ed_config = sample_digest CHR ''4'',
        ed_target = sample_digest CHR ''5'', ed_contract = sample_digest CHR ''6'',
        ed_tool = sample_digest CHR ''1'', ed_engine = sample_digest CHR ''2'',
        ed_policy = sample_digest CHR ''7''\<rparr>,
      pb_target = \<lparr>pt_id = ''fixture'', pt_class = LocalDisposable, pt_secret_references = []\<rparr>,
      pb_workload = \<lparr>ap_schema_version = ''codeatlas.fixture-workload/v1'',
        ap_content_digest = sample_digest CHR ''a'', ap_body = JString ''fuzz''\<rparr>,
      pb_effects = [FilesystemScratch, NetworkTargetCall],
      pb_required_capabilities = [CleanupVerification, NetworkAllowlist],
      pb_destinations = [\<lparr>nd_scheme = ''http'', nd_host = ''127.0.0.1'', nd_port = 8080\<rparr>],
      pb_managed_commands = [], pb_managed_images = [],
      pb_expected_calls = [\<lparr>cc_category = GeneratedCase, cc_count = 1\<rparr>,
        \<lparr>cc_category = Cleanup, cc_count = 1\<rparr>],
      pb_writable_scratch_roots =
        [\<lparr>wr_logical_name = ''execution_scratch'', wr_owner = ''execution_kernel''\<rparr>],
      pb_limits = sample_execution_limits,
      pb_isolation = \<lparr>ip_backend = ''container'', ip_filesystem = ''scratch_only'',
        ip_network = ''proxy_only'', ip_processes = ''planned_only''\<rparr>,
      pb_authorization = \<lparr>td_class = LocalDisposable, disposition = ReviewedPlanRequired,
        td_reasons = [''explicit review fixture'']\<rparr>,
      pb_links = []\<rparr>"

lemma nonblank_iff:
  "validate_nonblank label v = Inr () \<longleftrightarrow>
     v \<noteq> [] \<and> leading_white_space v = 0 \<and> trailing_white_space (rev v) = 0 \<and> \<not> has_control v"
  by (auto simp: validate_nonblank_def trim_id)

lemmas nonblank_eval = nonblank_iff leading_white_space_def trailing_white_space_def
  is_white_space_def

lemma sample_digest_valid: "is_lower_hex c \<Longrightarrow> validate_digest (sample_digest c) = Inr (replicate 64 c)"
  unfolding validate_digest_Inr sample_digest_def by simp

lemma is_lower_hex_digit: "is_ascii_digit c \<Longrightarrow> is_lower_hex c"
  by (simp add: is_lower_hex_def)

lemma sample_plan_texts:
  "validate_nonblank l ''fuzz'' = Inr ()" "validate_nonblank l ''codeatlas'' = Inr ()"
  "validate_nonblank l ''1.0.0'' = Inr ()" "validate_nonblank l ''fixture'' = Inr ()"
  "validate_nonblank l ''2.0.0'' = Inr ()" "validate_nonblank l ''http'' = Inr ()"
  "validate_nonblank l ''127.0.0.1'' = Inr ()" "validate_nonblank l ''execution_scratch'' = Inr ()"
  "validate_nonblank l ''execution_kernel'' = Inr ()"
  "validate_nonblank l ''explicit review fixture'' = Inr ()"
  "validate_nonblank l ''fuzx'' = Inr ()"
  by (simp_all add: nonblank_eval)

lemma sample_digests:
  "validate_digest (sample_digest CHR ''1'') = Inr (replicate 64 CHR ''1'')"
  "validate_digest (sample_digest CHR ''2'') = Inr (replicate 64 CHR ''2'')"
  "validate_digest (sample_digest CHR ''3'') = Inr (replicate 64 CHR ''3'')"
  "validate_digest (sample_digest CHR ''4'') = Inr (replicate 64 CHR ''4'')"
  "validate_digest (sample_digest CHR ''5'') = Inr (replicate 64 CHR ''5'')"
  "validate_digest (sample_digest CHR ''6'') = Inr (replicate 64 CHR ''6'')"
  "validate_digest (sample_digest CHR ''7'') = Inr (replicate 64 CHR ''7'')"
  "validate_digest (sample_digest CHR ''a'') = Inr (replicate 64 CHR ''a'')"
  "validate_digest (sample_digest CHR ''b'') = Inr (replicate 64 CHR ''b'')"
  by (rule sample_digest_valid, simp add: is_lower_hex_def is_ascii_digit_def)+

lemma sample_domains:
  "validate_domain plan_domain = Inr ()" "validate_domain receipt_domain = Inr ()"
  "validate_domain (payload_domain ''codeatlas.fixture-workload/v1'') = Inr ()"
  by (simp_all add: validate_domain_def ensure_def plan_domain_def receipt_domain_def payload_domain_def
      starts_with_def trim_id leading_white_space_def trailing_white_space_def is_white_space_def)

lemma sample_workload:
  "payload_verify_identity sample_env (pb_workload sample_plan_body) = Inr ()"
proof -
  have "decimal 1 = ''1''"
    by (simp add: decimal.simps digit_char_def char_of_eq_iff)
  then have "is_namespaced_artifact_version ''codeatlas.fixture-workload/v1''"
    by (simp add: is_namespaced_artifact_version_def strip_prefix_def starts_with_def
        rsplit_once_def contains_str_def parse_u32_def digits_value_def
        is_ascii_digit_def is_ascii_lowercase_def u32_max_def)
  then show ?thesis
    using sample_domains(3)
    by (simp add: payload_verify_identity_def validate_schema_version_def sample_plan_body_def
        digest_value_def sample_env_def digest_domain_bytes_def sample_digest_def ensure_def)
qed

lemma sample_limits: "validate_execution_limits sample_execution_limits = Inr ()"
  by (simp add: validate_execution_limits_def limit_fields_def sample_execution_limits_def
      max_jcs_safe_integer_def check_all.simps ensure_def)

lemma max_calls_sample: "max_calls sample_execution_limits = 3"
  by (simp add: sample_execution_limits_def)

lemma sample_calls:
  "validate_call_counts l (pb_expected_calls sample_plan_body) = Inr 2"
  by (simp add: validate_call_counts_Inr sample_plan_body_def less_call_category_def u64_max_def)

lemma sample_plan_body_valid:
  assumes "validate_nonblank ''execution operation'' op = Inr ()"
  shows "validate_execution_plan_body sample_env (sample_plan_body\<lparr>pb_operation := op\<rparr>) = Inr ()"
proof -
  show ?thesis
    using assms sample_limits sample_workload [unfolded sample_plan_body_def]
      sample_calls [unfolded sample_plan_body_def]
    by (simp add: validate_execution_plan_body_def sample_plan_body_def validate_tool_identity_def
        sample_plan_texts sample_digests evidence_list_def validate_digest_unit_def
        validate_sorted_unique_def less_execution_effect_def less_execution_capability_def
        windows2_any_def validate_root_def validate_artifact_links_def validate_destination_def
        ensure_def max_calls_sample)
qed

definition sample_plan :: "string \<Rightarrow> execution_plan" where
  "sample_plan op =
     \<lparr>ep_schema_version = execution_plan_schema_version, ep_kind = PlanKind,
      ep_id = ''plan_'' @ replicate 64 (if last op = CHR ''z'' then CHR ''a'' else CHR ''b''),
      ep_content_digest = sample_digest (if last op = CHR ''z'' then CHR ''a'' else CHR ''b''),
      ep_body = sample_plan_body\<lparr>pb_operation := op\<rparr>\<rparr>"

lemma sample_plan_new:
  assumes "validate_nonblank ''execution operation'' op = Inr ()"
  shows "execution_plan_new sample_env (sample_plan_body\<lparr>pb_operation := op\<rparr>) = Inr (sample_plan op)"
proof -
  have "op \<noteq> []" using assms by (simp add: nonblank_iff)
  then show ?thesis
    using sample_plan_body_valid [OF assms] sample_domains(1)
    by (simp add: execution_plan_new_def digest_value_def sample_env_def digest_domain_bytes_def
        artifact_id_def sample_digests [unfolded sample_digest_def, simplified] sample_plan_def
        sample_digest_def)
qed

subsection \<open>Properties\<close>

text \<open>A plan that could be constructed verifies, carries exactly the body it was made from, and
  its ID is \<open>plan_\<close> and 64 lowercase hexadecimal digits.\<close>

theorem constructed_plan_verifies:
  assumes "execution_plan_new env b = Inr p"
  shows "plan_verify_identity env p = Inr () \<and> ep_body p = b
    \<and> validate_artifact_id ''plan'' (ep_id p) = Inr () \<and> is_artifact_id (ep_id p)"
proof -
  from assms have p: "validate_execution_plan_body env b = Inr ()"
      "digest_value env plan_domain (plan_value env b) = Inr (ep_content_digest p)"
      "artifact_id ''plan'' (ep_content_digest p) = Inr (ep_id p)" "ep_body p = b"
      "ep_schema_version p = execution_plan_schema_version"
    by (auto simp: execution_plan_new_def and_then_Inr and_then_Inr_unit)
  then have "validate_artifact_id ''plan'' (ep_id p) = Inr ()"
    by (auto simp: artifact_id_Inr validate_digest_Inr validate_artifact_id_Inr)
  moreover from this have "is_artifact_id (ep_id p)"
    unfolding is_artifact_id_def artifact_kinds_def by simp
  ultimately show ?thesis using p by (simp add: plan_verify_Inr)
qed

theorem constructed_plan_verifies_witness:
  "plan_verify_identity sample_env (sample_plan ''fuzz'') = Inr ()"
  using constructed_plan_verifies [OF sample_plan_new [OF sample_plan_texts(1)]] by blast

definition plan_preimage :: "digest_env \<Rightarrow> plan_body \<Rightarrow> string option" where
  "plan_preimage env b =
     map_option (\<lambda>bs. plan_domain @ [CHR 0x0A] @ bs) (canonicalize env (plan_value env b))"

text \<open>C31: An ID binds its plan: if SHA-256 does not collide on the two preimages (the plan domain, a
  newline and the canonical body), two plans that verify have the same ID exactly when their
  canonical bodies are the same bytes.\<close>

theorem plan_id_binds_body:
  assumes "plan_verify_identity env p = Inr ()" and "plan_verify_identity env q = Inr ()"
    and "plan_preimage env (ep_body p) = Some x" and "plan_preimage env (ep_body q) = Some y"
    and "inj_on (sha256_hex env) {x, y}"
  shows "ep_id p = ep_id q \<longleftrightarrow>
    canonicalize env (plan_value env (ep_body p)) = canonicalize env (plan_value env (ep_body q))"
proof -
  from assms(1-4) have "ep_id p = ''plan_'' @ sha256_hex env x" and "ep_id q = ''plan_'' @ sha256_hex env y"
    by (auto simp: plan_verify_Inr digest_value_Inr artifact_id_Inr validate_digest_Inr
        digest_domain_bytes_def plan_preimage_def)
  then have "ep_id p = ep_id q \<longleftrightarrow> x = y"
    using assms(5) by (auto simp: inj_on_def)
  also have "\<dots> \<longleftrightarrow>
      canonicalize env (plan_value env (ep_body p)) = canonicalize env (plan_value env (ep_body q))"
    using assms(3,4) by (auto simp: plan_preimage_def)
  finally show ?thesis .
qed

theorem plan_id_binds_body_witness:
  "ep_id (sample_plan ''fuzz'') \<noteq> ep_id (sample_plan ''fuzx'')"
  using plan_id_binds_body [of sample_env "sample_plan ''fuzz''" "sample_plan ''fuzx''"
      "plan_domain @ [CHR 0x0A] @ ''fuzz''" "plan_domain @ [CHR 0x0A] @ ''fuzx''"]
    sample_plan_new [OF sample_plan_texts(1)] sample_plan_new [OF sample_plan_texts(11)]
  by (auto simp: execution_plan_new_def and_then_Inr plan_verify_Inr sample_plan_def
      plan_preimage_def sample_env_def inj_on_def sample_plan_body_def)

text \<open>C32: A receipt that could be constructed verifies, accounts for its calls within the reserved
  ones, links its exact parent plan, and is never recorded as passed over incomplete cleanup.\<close>

theorem constructed_receipt_is_consistent:
  assumes "execution_receipt_new env b = Inr r"
  shows "receipt_verify_identity env r = Inr () \<and> er_body r = b
    \<and> sum_list (map cc_count (by_category (rb_calls b))) = consumed (rb_calls b)
    \<and> consumed (rb_calls b) \<le> reserved (rb_calls b)
    \<and> (\<exists>link \<in> set (rb_links b). al_kind link = ''plan'' \<and> al_id link = rb_plan_id b
         \<and> al_content_digest link = rb_plan_content_digest b)
    \<and> (rb_outcome b = OutcomePassed \<longrightarrow> (\<forall>c \<in> set (rb_cleanup b). ce_released c \<and> ce_verified c))"
proof -
  from assms have valid: "validate_execution_receipt_body env b = Inr ()"
    and r: "digest_value env receipt_domain (receipt_value env b) = Inr (er_content_digest r)"
      "artifact_id ''receipt'' (er_content_digest r) = Inr (er_id r)" "er_body r = b"
      "er_schema_version r = execution_receipt_schema_version"
    by (auto simp: execution_receipt_new_def and_then_Inr and_then_Inr_unit)
  from valid have "validate_call_counts ''Execution receipt calls'' (by_category (rb_calls b))
      = Inr (consumed (rb_calls b))"
    and "consumed (rb_calls b) \<le> reserved (rb_calls b)"
    and "\<exists>link \<in> set (rb_links b). al_kind link = ''plan'' \<and> al_id link = rb_plan_id b
         \<and> al_content_digest link = rb_plan_content_digest b"
    and "rb_outcome b = OutcomePassed \<longrightarrow> (\<forall>c \<in> set (rb_cleanup b). ce_released c \<and> ce_verified c)"
    by (auto simp: validate_execution_receipt_body_def and_then_Inr and_then_Inr_unit)
  with valid r show ?thesis
    by (simp add: receipt_verify_Inr validate_call_counts_Inr)
qed

definition sample_receipt_body :: receipt_body where
  "sample_receipt_body =
     \<lparr>rb_subject = SubjectHttp, rb_operation = ''fuzz'',
      rb_tool = \<lparr>ti_name = ''codeatlas'', ti_version = ''1.0.0'', ti_digest = sample_digest CHR ''1''\<rparr>,
      rb_plan_id = ''plan_'' @ replicate 64 CHR ''a'', rb_plan_content_digest = sample_digest CHR ''a'',
      rb_authorization_mode = Reviewed, rb_outcome = OutcomePassed, rb_reasons = [],
      rb_calls = \<lparr>reserved = 3, consumed = 1, by_category = [\<lparr>cc_category = GeneratedCase, cc_count = 1\<rparr>]\<rparr>,
      rb_runtime = \<lparr>re_backend = None, re_environment_digest = None, re_capabilities = [],
        re_rootless = None, re_nested = None\<rparr>,
      rb_resources = \<lparr>rs_elapsed_ms = 5, rs_cpu_time_ms = None, rs_peak_rss_bytes = None,
        rs_peak_processes = None, rs_peak_open_files = None, rs_peak_calls_per_second_milli = None,
        rs_peak_concurrency = Some 1, rs_result_bytes = 0, rs_output_bytes = 0, rs_artifact_bytes = 0\<rparr>,
      rb_cleanup = [\<lparr>ce_owner = ''proxy'', ce_resource = ''socket'', ce_released = True,
        ce_verified = True, ce_message = None\<rparr>],
      rb_result = None,
      rb_links = [\<lparr>al_kind = ''plan'', al_id = ''plan_'' @ replicate 64 CHR ''a'',
        al_content_digest = sample_digest CHR ''a''\<rparr>]\<rparr>"

lemma sample_plan_id_valid: "validate_artifact_id ''plan'' (''plan_'' @ replicate 64 CHR ''a'') = Inr ()"
  unfolding validate_artifact_id_Inr by (simp add: is_lower_hex_def)

lemma sample_receipt_calls:
  "validate_call_counts l [\<lparr>cc_category = GeneratedCase, cc_count = Suc 0\<rparr>] = Inr (Suc 0)"
  by (simp add: validate_call_counts_Inr u64_max_def)

lemma sample_receipt_body_valid:
  "validate_execution_receipt_body sample_env sample_receipt_body = Inr ()"
  using sample_plan_id_valid
  by (simp add: validate_execution_receipt_body_def sample_receipt_body_def validate_tool_identity_def
      sample_plan_texts sample_digests validate_digest_unit_def sample_receipt_calls
      validate_sorted_unique_def windows2_any_def validate_artifact_links_def
      validate_artifact_link_def artifact_kinds_def ensure_def)

lemma sample_receipt_new:
  "\<exists>r. execution_receipt_new sample_env sample_receipt_body = Inr r"
proof -
  have "digest_value sample_env receipt_domain (receipt_value sample_env sample_receipt_body)
      = Inr (sample_digest CHR ''a'')"
    using sample_domains(2)
    by (simp add: digest_value_def sample_env_def sample_receipt_body_def digest_domain_bytes_def
        sample_digest_def)
  then show ?thesis
    by (simp add: execution_receipt_new_def sample_receipt_body_valid artifact_id_def sample_digests)
qed

theorem constructed_receipt_is_consistent_witness:
  "\<exists>r. receipt_verify_identity sample_env r = Inr () \<and> er_body r = sample_receipt_body"
  using sample_receipt_new constructed_receipt_is_consistent by blast

lemma lex_fst_le:
  fixes a c :: "'a::linorder" and b d :: "'b::linorder"
  shows "(a, b) < (c, d) \<Longrightarrow> a \<le> c"
  by (auto simp: less_prod_def')

text \<open>A validated plan is unambiguous: every managed command, managed image and scratch root has
  one owner or name, every call category one count, every link ID one digest, the tool and engine
  digests are the evidence digests, and the expected calls fit within \<open>max_calls\<close>.\<close>

theorem validated_plan_is_unambiguous:
  assumes "validate_execution_plan_body env b = Inr ()"
  shows "distinct (map mc_owner (pb_managed_commands b))
    \<and> distinct (map mi_owner (pb_managed_images b))
    \<and> distinct (map wr_logical_name (pb_writable_scratch_roots b))
    \<and> distinct (map cc_category (pb_expected_calls b))
    \<and> distinct (map (\<lambda>l. (al_kind l, al_id l)) (pb_links b))
    \<and> sum_list (map cc_count (pb_expected_calls b)) \<le> max_calls (pb_limits b)
    \<and> ti_digest (pb_tool b) = ed_tool (pb_evidence b)
    \<and> ti_digest (pb_engine b) = ed_engine (pb_evidence b)"
proof -
  from assms obtain n where
    commands: "windows2_all (\<lambda>x y. command_key x < command_key y) (pb_managed_commands b)"
      "\<not> windows2_any (\<lambda>x y. mc_owner x = mc_owner y) (pb_managed_commands b)"
    and images: "windows2_all (\<lambda>x y. image_key x < image_key y) (pb_managed_images b)"
      "\<not> windows2_any (\<lambda>x y. mi_owner x = mi_owner y) (pb_managed_images b)"
    and roots: "windows2_all (\<lambda>x y. root_key x < root_key y) (pb_writable_scratch_roots b)"
      "\<not> windows2_any (\<lambda>x y. wr_logical_name x = wr_logical_name y) (pb_writable_scratch_roots b)"
    and links: "validate_artifact_links (pb_links b) = Inr ()"
    and counts: "validate_call_counts ''Execution plan expected calls'' (pb_expected_calls b) = Inr n"
      "\<not> n > max_calls (pb_limits b)"
    and evidence: "ti_digest (pb_tool b) = ed_tool (pb_evidence b)"
      "ti_digest (pb_engine b) = ed_engine (pb_evidence b)"
    unfolding validate_execution_plan_body_def and_then_Inr_unit
    by (auto simp: and_then_Inr validate_sorted_unique_def)
  have c: "sorted_wrt (<) (map mc_owner (pb_managed_commands b))"
    by (rule unique_leading_field [OF commands]) (auto simp: command_key_def dest: lex_fst_le)
  have i: "sorted_wrt (<) (map mi_owner (pb_managed_images b))"
    by (rule unique_leading_field [OF images]) (auto simp: image_key_def dest: lex_fst_le)
  have r: "sorted_wrt (<) (map wr_logical_name (pb_writable_scratch_roots b))"
    by (rule unique_leading_field [OF roots]) (auto simp: root_key_def dest: lex_fst_le)
  have l: "sorted_wrt (<) (map (\<lambda>l. (al_kind l, al_id l)) (pb_links b))"
  proof (rule unique_leading_field [where key = link_key])
    show "windows2_all (\<lambda>x y. link_key x < link_key y) (pb_links b)"
      and "\<not> windows2_any (\<lambda>x y. (al_kind x, al_id x) = (al_kind y, al_id y)) (pb_links b)"
      using links by (auto simp: validate_artifact_links_def and_then_Inr_unit
          validate_sorted_unique_def split: if_splits)
  qed (auto simp: link_key_def less_prod_def' less_eq_prod_def)
  from counts have "sorted_wrt (<) (map cc_category (pb_expected_calls b))"
    and "sum_list (map cc_count (pb_expected_calls b)) \<le> max_calls (pb_limits b)"
    by (auto simp: validate_call_counts_Inr)
  with c i r l evidence show ?thesis
    by (simp add: strict_sorted_iff)
qed

theorem validated_plan_is_unambiguous_witness:
  "distinct (map cc_category (pb_expected_calls sample_plan_body))
   \<and> sum_list (map cc_count (pb_expected_calls sample_plan_body)) \<le> 3"
proof -
  have "validate_execution_plan_body sample_env sample_plan_body = Inr ()"
    using sample_plan_body_valid [OF sample_plan_texts(1)] by (simp add: sample_plan_body_def)
  from validated_plan_is_unambiguous [OF this] show ?thesis
    by (simp add: sample_plan_body_def max_calls_sample)
qed

text \<open>The grammar of payload schema names: a name is accepted exactly when it is
  \<open>codeatlas.\<close>, nonempty words of lowercase letters and digits separated by single hyphens, \<open>/v\<close>
  and the canonical decimal of a positive \<open>u32\<close>.\<close>

theorem schema_version_grammar:
  "is_namespaced_artifact_version v \<longleftrightarrow>
     (\<exists>kind n. v = ''codeatlas.'' @ kind @ ''/v'' @ decimal n \<and> 0 < n \<and> n \<le> u32_max
        \<and> (\<forall>w \<in> set (split_on (\<lambda>c. c = CHR ''-'') kind).
             w \<noteq> [] \<and> (\<forall>c \<in> set w. is_ascii_lowercase c \<or> is_ascii_digit c)))" (is "?l \<longleftrightarrow> ?r")
proof -
  let ?ok = "\<lambda>kind. kind \<noteq> [] \<and> hd kind \<noteq> CHR ''-'' \<and> last kind \<noteq> CHR ''-''
      \<and> position_window kind ''--'' = None
      \<and> (\<forall>c \<in> set kind. is_ascii_lowercase c \<or> is_ascii_digit c \<or> c = CHR ''-'')"
  have ok: "?ok kind \<longleftrightarrow> (\<forall>w \<in> set (split_on (\<lambda>c. c = CHR ''-'') kind).
      w \<noteq> [] \<and> (\<forall>c \<in> set w. is_ascii_lowercase c \<or> is_ascii_digit c))" for kind
  proof -
    have "(\<forall>w \<in> set (split_on (\<lambda>c. c = CHR ''-'') kind). \<forall>c \<in> set w. is_ascii_lowercase c \<or> is_ascii_digit c)
        \<longleftrightarrow> (\<forall>c \<in> set kind - {CHR ''-''}. is_ascii_lowercase c \<or> is_ascii_digit c)"
      unfolding set_split_on [symmetric] by blast
    then show ?thesis
      using split_on_nonempty_parts [of "CHR ''-''" kind] by blast
  qed
  show ?thesis
  proof
    assume l: ?l
    then obtain rest where rest: "strip_prefix ''codeatlas.'' v = Some rest"
      by (cases "strip_prefix ''codeatlas.'' v") (simp_all add: is_namespaced_artifact_version_def)
    with l obtain parts where parts: "rsplit_once rest ''/v'' = Some parts"
      by (cases "rsplit_once rest ''/v''") (simp_all add: is_namespaced_artifact_version_def)
    obtain kind version where "parts = (kind, version)" by (cases parts)
    with parts have split: "rsplit_once rest ''/v'' = Some (kind, version)" by simp
    from l rest split have kind: "?ok kind"
      and version: "\<exists>n. parse_u32 version = Some n \<and> 0 < n \<and> decimal n = version"
      by (simp_all add: is_namespaced_artifact_version_def contains_str_def
          split: if_splits option.splits)
    from version obtain n where n: "parse_u32 version = Some n" "0 < n" "version = decimal n" by auto
    then have "n \<le> u32_max" by (simp add: parse_u32_decimal split: if_splits)
    moreover have "v = ''codeatlas.'' @ kind @ ''/v'' @ decimal n"
    proof -
      have v: "v = ''codeatlas.'' @ rest" using rest by (rule strip_prefix_Some [THEN iffD1])
      have r: "rest = kind @ ''/v'' @ version" by (rule rsplit_once_Some [OF split])
      show ?thesis unfolding v r n(3) ..
    qed
    ultimately show ?r
      using n(2) ok [THEN iffD1, OF kind] by (intro exI [of _ kind] exI [of _ n] conjI)
  next
    assume ?r
    then obtain kind n where v: "v = ''codeatlas.'' @ kind @ ''/v'' @ decimal n"
      and n: "0 < n" "n \<le> u32_max" and kind: "?ok kind"
      unfolding ok by (elim exE conjE)
    have digits: "CHR ''/'' \<notin> set (decimal n)"
      using decimal_digits [of "CHR ''/''" n] by (auto simp: is_ascii_digit_def)
    then have "\<forall>x y. decimal n \<noteq> x @ ''/v'' @ y" by auto
    then have "rsplit_once (kind @ ''/v'' @ decimal n) ''/v'' = Some (kind, decimal n)"
      by (rule rsplit_once_unique [OF _ refl _ digits]) simp
    moreover have "strip_prefix ''codeatlas.'' v = Some (kind @ ''/v'' @ decimal n)"
      unfolding v by (rule strip_prefix_append)
    moreover have "parse_u32 (decimal n) = Some n"
      using n by (simp add: parse_u32_decimal)
    ultimately show ?l
      using kind n unfolding is_namespaced_artifact_version_def contains_str_def
      by (simp only: option.case prod.case) simp
  qed
qed

theorem schema_version_grammar_witness:
  "is_namespaced_artifact_version (''codeatlas.'' @ ''http-fuzz'' @ ''/v'' @ decimal 12)"
  unfolding schema_version_grammar
  by (intro exI [of _ "''http-fuzz''"] exI [of _ 12])
    (simp add: u32_max_def is_ascii_lowercase_def)

subsection \<open>Plans, budgets and receipts\<close>

text \<open>C30: The loop closes: whatever interleaving a budget saw, the usage it reports passes the
  validation of receipts: its counts are accepted and add up to the consumed calls, which are within
  the reserved ones.\<close>

theorem receipts_accept_every_snapshot:
  assumes "budget_new h started limits k = Inr (cb, s0)" and "reachable cb m"
    and "max_calls limits \<le> u64_max"
  shows "let u = usage (snapshot cb (shared m)) in
    validate_call_counts ''Execution receipt calls'' (by_category u) = Inr (consumed u)
    \<and> consumed u \<le> reserved u"
proof -
  let ?u = "usage (snapshot cb (shared m))"
  have account: "consumed ?u \<le> reserved ?u" "reserved ?u = max_calls limits"
      "sorted_wrt (<) (map cc_category (by_category ?u))" "\<forall>x \<in> set (by_category ?u). 0 < cc_count x"
      "sum_list (map cc_count (by_category ?u)) = consumed ?u"
    using snapshot_account [OF assms, unfolded Let_def] by blast+
  then have "consumed ?u \<le> u64_max"
    using assms(3) by linarith
  with account show ?thesis
    unfolding Let_def validate_call_counts_Inr by simp
qed

theorem receipts_accept_every_snapshot_witness:
  "validate_call_counts ''Execution receipt calls''
     (by_category (usage (snapshot sample_budget (shared sample_machine)))) = Inr 1"
  using receipts_accept_every_snapshot [OF sample_budget_new sample_machine_reachable]
  by (simp add: sample_execution_limits_def u64_max_def Let_def sample_machine_def snapshot_def
      record_admission_def schedule_admission_def allocate_call_def initial_state_def
      sample_budget_def deadline_of_def)

lemma validate_execution_limits_Inr:
  "validate_execution_limits l = Inr () \<longleftrightarrow>
     (\<forall>v \<in> set (field_values l). 0 < v \<and> v \<le> max_jcs_safe_integer) \<and> max_concurrency l \<le> max_calls l"
  by (auto simp: validate_execution_limits_def and_then_Inr_unit check_all_Inr limit_fields_def
      field_values_def)

lemma member_le_sum_list: "x \<in> set xs \<Longrightarrow> f x \<le> sum_list (map f xs)" for f :: "'a \<Rightarrow> nat"
  by (induction xs) auto

lemma div_ceil_le: "0 < b \<Longrightarrow> div_ceil a b \<le> a"
proof -
  assume "0 < b"
  then obtain c where b: "b = Suc c" by (cases b) auto
  have "a + c < Suc a * Suc c" by simp
  then have "(a + c) div Suc c < Suc a" by (rule less_mult_imp_div_less)
  with b show ?thesis by (simp add: div_ceil_def)
qed

lemma validated_plan_numbers:
  assumes valid: "validate_execution_plan_body env b = Inr ()"
  defines "k \<equiv> (case find (\<lambda>c. cc_category c = Cleanup) (pb_expected_calls b) of
      None \<Rightarrow> 0 | Some c \<Rightarrow> cc_count c)"
  shows "0 < calls_per_second (pb_limits b)" and "0 < run_timeout_ms (pb_limits b)"
    and "k \<le> max_calls (pb_limits b)"
    and "max (div_ceil 1000000000 (calls_per_second (pb_limits b))) 1 * k < 2 ^ 128"
proof -
  let ?l = "pb_limits b"
  from valid obtain n where limits: "validate_execution_limits ?l = Inr ()"
    and counts: "validate_call_counts ''Execution plan expected calls'' (pb_expected_calls b) = Inr n"
      "n \<le> max_calls ?l"
    unfolding validate_execution_plan_body_def and_then_Inr_unit
    by (auto simp: and_then_Inr)
  from limits have calls: "max_calls ?l \<le> max_jcs_safe_integer" and rate: "0 < calls_per_second ?l"
    and time: "0 < run_timeout_ms ?l"
    by (simp_all add: validate_execution_limits_Inr field_values_def limit_fields_def)
  have k: "k \<le> max_calls ?l"
    using counts member_le_sum_list [of _ "pb_expected_calls b" cc_count]
    by (auto simp: k_def validate_call_counts_Inr find_Some_iff split: option.split)
      (metis le_trans nth_mem)
  have interval: "max (div_ceil 1000000000 (calls_per_second ?l)) 1 \<le> 1000000000"
    using div_ceil_le [OF rate, of 1000000000] by simp
  have "max (div_ceil 1000000000 (calls_per_second ?l)) 1 * k
      \<le> 1000000000 * max_jcs_safe_integer"
    using interval k calls by (meson le_trans mult_le_mono)
  also have "\<dots> < 2 ^ 128" by (simp add: max_jcs_safe_integer_def)
  finally have small: "max (div_ceil 1000000000 (calls_per_second ?l)) 1 * k < 2 ^ 128" .
  from rate time k small show "0 < calls_per_second ?l" "0 < run_timeout_ms ?l" "k \<le> max_calls ?l"
    "max (div_ceil 1000000000 (calls_per_second ?l)) 1 * k < 2 ^ 128"
    by blast+
qed

text \<open>C37: Whatever the host, a validated plan never makes the constructor of its call budget panic: the
  rate it divides by is positive. On a host whose scheduler takes \<open>max_concurrency\<close> permits and whose
  clock reaches the run deadline, the constructor refuses the plan in two cases only, each with its own
  error: a run of one millisecond leaves no time for calls beyond cleanup, or the paced cleanup calls do
  not fit the cleanup reserve. In every other case it creates the budget, with the plan's limits.\<close>

theorem validated_plan_gives_a_budget:
  assumes valid: "validate_execution_plan_body env b = Inr ()"
  defines "k \<equiv> (case find (\<lambda>c. cc_category c = Cleanup) (pb_expected_calls b) of
      None \<Rightarrow> 0 | Some c \<Rightarrow> cc_count c)"
    and "reserve_ms \<equiv> clamp 1 10000 (run_timeout_ms (pb_limits b) div 5)"
    and "spacing \<equiv> max (div_ceil 1000000000 (calls_per_second (pb_limits b))) 1"
    and "result \<equiv> (\<lambda>h started. budget_from_plan h started (pb_limits b) (pb_expected_calls b))"
  shows "result h started \<noteq> Inl DivisionByZeroPanic
    \<and> (max_concurrency (pb_limits b) \<le> min (usize_max h) (max_permits h)
       \<and> started + from_millis (run_timeout_ms (pb_limits b)) \<le> instant_max h \<longrightarrow>
         result h started =
           (if run_timeout_ms (pb_limits b) = 1 \<and> k < max_calls (pb_limits b) then Inl NoTimeForCalls
            else if 0 < k \<and> from_millis reserve_ms \<le> spacing * k
            then Inl (CleanupCannotFit k (calls_per_second (pb_limits b)))
            else Inr (\<lparr>cb_max_calls = max_calls (pb_limits b), normal_limit = max_calls (pb_limits b) - k,
                       cleanup_limit = k, admission_interval = spacing, cb_started = started,
                       normal_deadline = started + from_millis (run_timeout_ms (pb_limits b) - reserve_ms),
                       run_deadline = started + from_millis (run_timeout_ms (pb_limits b)),
                       cb_concurrency = max_concurrency (pb_limits b)\<rparr>,
                      initial_state started)))"
proof -
  let ?l = "pb_limits b"
  note numbers = validated_plan_numbers [OF valid, folded k_def]
  note rate = numbers(1) and time = numbers(2) and k = numbers(3) and small = numbers(4)
  have reserve: "reserve_ms \<le> run_timeout_ms ?l" "reserve_ms = run_timeout_ms ?l \<longleftrightarrow> run_timeout_ms ?l = 1"
    using time by (auto simp: reserve_ms_def clamp_def)
  have "result h started \<noteq> Inl DivisionByZeroPanic"
    using rate unfolding result_def budget_from_plan_def budget_new_def Let_def
    by (simp split: option.split)
  moreover have "result h started =
      (if run_timeout_ms ?l = 1 \<and> k < max_calls ?l then Inl NoTimeForCalls
       else if 0 < k \<and> from_millis reserve_ms \<le> spacing * k then Inl (CleanupCannotFit k (calls_per_second ?l))
       else Inr (\<lparr>cb_max_calls = max_calls ?l, normal_limit = max_calls ?l - k,
                  cleanup_limit = k, admission_interval = spacing, cb_started = started,
                  normal_deadline = started + from_millis (run_timeout_ms ?l - reserve_ms),
                  run_deadline = started + from_millis (run_timeout_ms ?l), cb_concurrency = max_concurrency ?l\<rparr>,
                 initial_state started))"
    if host: "max_concurrency ?l \<le> min (usize_max h) (max_permits h)"
      "started + from_millis (run_timeout_ms ?l) \<le> instant_max h"
  proof -
    have run: "from_millis (run_timeout_ms ?l) - from_millis reserve_ms = from_millis (run_timeout_ms ?l - reserve_ms)"
      by (simp add: from_millis_def diff_mult_distrib)
    have fits: "\<not> from_millis (run_timeout_ms ?l) < from_millis reserve_ms"
      using reserve(1) by (simp add: from_millis_def)
    have none: "from_millis (run_timeout_ms ?l - reserve_ms) = 0 \<longleftrightarrow> run_timeout_ms ?l = 1"
      using reserve by (auto simp: from_millis_def)
    have instants: "checked_add_instant h started (from_millis (run_timeout_ms ?l)) = Some (started + from_millis (run_timeout_ms ?l))"
      "checked_add_instant h started (from_millis (run_timeout_ms ?l - reserve_ms))
        = Some (started + from_millis (run_timeout_ms ?l - reserve_ms))"
      using host(2) by (auto simp: checked_add_instant_def from_millis_def intro: order_trans [rotated])
    show ?thesis
      using k host(1) rate small
      unfolding result_def budget_from_plan_def k_def [symmetric] budget_new_def Let_def
        cleanup_reserve_fraction_def max_cleanup_time_ms_def reserve_ms_def [symmetric]
      by (simp add: run fits none instants spacing_def mult.commute)
  qed
  ultimately show ?thesis by blast
qed

theorem validated_plan_gives_a_budget_witness:
  "\<exists>cb. budget_from_plan sample_host 0 sample_execution_limits (pb_expected_calls sample_plan_body)
     = Inr (cb, initial_state 0)"
proof -
  have valid: "validate_execution_plan_body sample_env sample_plan_body = Inr ()"
    using sample_plan_body_valid [OF sample_plan_texts(1)] by (simp add: sample_plan_body_def)
  have limits: "pb_limits sample_plan_body = sample_execution_limits"
    by (simp add: sample_plan_body_def)
  show ?thesis
    using validated_plan_gives_a_budget [OF valid, of sample_host 0]
    unfolding limits
    by (simp add: sample_plan_body_def sample_execution_limits_def sample_host_def from_millis_def
        clamp_def div_ceil_def)
qed

end
