(* ===== verification/SqlLexer.thy ===== *)
theory SqlLexer
  imports Decimal
begin

text \<open>
  The SQL lexer of the query analysis (\<open>src/postgres/target/query/lexer.rs\<close>). The code keeps a byte
  index into a \<open>str\<close>; the model keeps the suffix that starts at that index. Slicing a \<open>str\<close> inside a
  character panics: the functions return \<open>None\<close> there. A nesting depth is a \<open>u32\<close> whose increments
  saturate in \<open>lex_sql\<close>; the helpers over token lists count in \<open>u32\<close> too, and their counts are
  natural numbers here (a list of four billion opening parentheses is not considered).
\<close>

datatype token =
    Identifier string
  | Parameter nat
  | Literal
  | StringLiteral string
  | Symbol char
  | Operator string

subsection \<open>Characters of a suffix\<close>

text \<open>\<open>sql[index..].chars().next()\<close>: the character and what follows it, \<open>None\<close> for the slice panic.\<close>

definition next_char :: "string \<Rightarrow> (string \<times> string) option" where
  "next_char s =
     (if is_char_boundary s \<and> s \<noteq> []
      then Some (take (len_utf8 (hd s)) s, drop (len_utf8 (hd s)) s) else None)"

lemma next_char_decreasing [decreasing]:
  "next_char s = Some (c, rest) \<Longrightarrow> length rest < length s"
  by (auto simp: next_char_def split: if_splits)

subsection \<open>Quoted texts\<close>

function quoted_string :: "string \<Rightarrow> (string \<times> string \<times> bool) option" where
  "quoted_string [] = Some ([], [], False)"
| "quoted_string (c # r) =
     (if starts_with [CHR 0x27, CHR 0x27] (c # r)
      then map_option (\<lambda>(v, rest, closed). (CHR 0x27 # v, rest, closed)) (quoted_string (drop 2 (c # r)))
      else if c = CHR 0x27 then Some ([], r, True)
      else if c = CHR 0x5C \<and> r \<noteq> []
      then (case next_char r of
              None \<Rightarrow> None
            | Some (ch, rest) \<Rightarrow>
                map_option (\<lambda>(v, rest, closed). (ch @ v, rest, closed)) (quoted_string rest))
      else (case next_char (c # r) of
              None \<Rightarrow> None
            | Some (ch, rest) \<Rightarrow>
                map_option (\<lambda>(v, rest, closed). (ch @ v, rest, closed)) (quoted_string rest)))"
  by pat_completeness auto
termination
  by (relation "measure length") (auto dest: next_char_decreasing)

function quoted_identifier :: "string \<Rightarrow> (string \<times> string \<times> bool) option" where
  "quoted_identifier [] = Some ([], [], False)"
| "quoted_identifier (c # r) =
     (if starts_with [CHR 0x22, CHR 0x22] (c # r)
      then map_option (\<lambda>(v, rest, closed). (CHR 0x22 # v, rest, closed))
             (quoted_identifier (drop 2 (c # r)))
      else if c = CHR 0x22 then Some ([], r, True)
      else (case next_char (c # r) of
              None \<Rightarrow> None
            | Some (ch, rest) \<Rightarrow>
                map_option (\<lambda>(v, rest, closed). (ch @ v, rest, closed)) (quoted_identifier rest)))"
  by pat_completeness auto
termination
  by (relation "measure length") (auto dest: next_char_decreasing)

text \<open>\<open>dollar_quote_delimiter\<close>: from a dollar sign to the next one over letters, digits and
  underscores.\<close>

fun dollar_tag :: "string \<Rightarrow> string option" where
  "dollar_tag [] = None"
| "dollar_tag (c # r) =
     (if c = CHR ''$'' then Some [c]
      else if is_ascii_alphanumeric c \<or> c = CHR ''_'' then map_option (Cons c) (dollar_tag r)
      else None)"

definition dollar_quote_delimiter :: "string \<Rightarrow> string option" where
  "dollar_quote_delimiter s =
     (case s of [] \<Rightarrow> None
      | c # r \<Rightarrow> if c \<noteq> CHR ''$'' then None else map_option (Cons c) (dollar_tag r))"

subsection \<open>Comments\<close>

definition line_comment_rest :: "string \<Rightarrow> string" where
  "line_comment_rest s = dropWhile (\<lambda>c. c \<noteq> CHR 0x0A) s"

text \<open>The rest after a block comment whose opening was consumed, and the depth that was left open.\<close>

function block_comment :: "nat \<Rightarrow> string \<Rightarrow> string \<times> nat" where
  "block_comment depth s =
     (if s = [] \<or> depth = 0 then (s, depth)
      else if starts_with ''/*'' s then block_comment (depth + 1) (drop 2 s)
      else if starts_with ''*/'' s then block_comment (depth - 1) (drop 2 s)
      else block_comment depth (tl s))"
  by pat_completeness auto
termination by (relation "measure (\<lambda>(d, s). length s)") auto

declare block_comment.simps [simp del]

lemma block_comment_length: "length (fst (block_comment d s)) \<le> length s"
proof (induction d s rule: block_comment.induct)
  case (1 d s)
  then show ?case
    by (subst block_comment.simps)
      (auto simp: starts_with_def elim: order_trans intro: le_trans [OF _ diff_le_self])
qed

subsection \<open>One token\<close>

definition is_operator_char :: "char \<Rightarrow> bool" where
  "is_operator_char c \<longleftrightarrow> c \<in> set ''=<>!~+-*/%^|&:?@#''"

definition is_identifier_char :: "char \<Rightarrow> bool" where
  "is_identifier_char c \<longleftrightarrow> is_ascii_alphanumeric c \<or> c = CHR ''_'' \<or> c = CHR ''$''"

definition is_number_char :: "char \<Rightarrow> bool" where
  "is_number_char c \<longleftrightarrow> is_ascii_alphanumeric c \<or> c \<in> set ''._+-''"

definition is_symbol_char :: "char \<Rightarrow> bool" where
  "is_symbol_char c \<longleftrightarrow> c \<in> set ''(),;.''"

text \<open>What follows a dollar sign: a parameter, a dollar-quoted literal, or an operator.\<close>

definition lex_dollar :: "char \<Rightarrow> string \<Rightarrow> token \<times> string \<times> bool" where
  "lex_dollar c r =
     (if r \<noteq> [] \<and> is_ascii_digit (hd r)
      then (Parameter (case parse_u32 (takeWhile is_ascii_digit r) of None \<Rightarrow> 0 | Some n \<Rightarrow> n),
            dropWhile is_ascii_digit r, True)
      else (case dollar_quote_delimiter (c # r) of
              Some delimiter \<Rightarrow>
                (let body = drop (length delimiter) (c # r)
                 in case position_window body delimiter of
                      Some e \<Rightarrow> (Literal, drop (e + length delimiter) body, True)
                    | None \<Rightarrow> (Literal, [], False))
            | None \<Rightarrow> (Operator ''$'', r, True)))"

text \<open>One turn of the loop at a non-empty suffix: the token it pushes, if any, the suffix it goes on
  with, and whether nothing was left open; \<open>None\<close> where slicing panics.\<close>

definition lex_step :: "char \<Rightarrow> string \<Rightarrow> (token option \<times> string \<times> bool) option" where
  "lex_step c r =
     (if is_ascii_whitespace c then Some (None, r, True)
      else if starts_with ''--'' (c # r) then Some (None, line_comment_rest (drop 2 (c # r)), True)
      else if starts_with ''/*'' (c # r)
      then (case block_comment 1 (drop 2 (c # r)) of (rest, depth) \<Rightarrow> Some (None, rest, depth = 0))
      else if c = CHR 0x27
      then map_option (\<lambda>(v, rest, closed). (Some (StringLiteral v), rest, closed)) (quoted_string r)
      else if c = CHR 0x22
      then map_option (\<lambda>(v, rest, closed). (Some (Identifier v), rest, closed)) (quoted_identifier r)
      else if c = CHR ''$''
      then (case lex_dollar c r of (tok, rest, closed) \<Rightarrow> Some (Some tok, rest, closed))
      else if is_ascii_alphabetic c \<or> c = CHR ''_''
      then Some (Some (Identifier (to_ascii_lowercase (c # takeWhile is_identifier_char r))),
                 dropWhile is_identifier_char r, True)
      else if is_ascii_digit c then Some (Some Literal, dropWhile is_number_char r, True)
      else if is_symbol_char c then Some (Some (Symbol c), r, True)
      else if is_char_boundary (c # r) \<and> is_char_boundary (dropWhile is_operator_char r)
      then Some (Some (Operator (c # takeWhile is_operator_char r)), dropWhile is_operator_char r, True)
      else None)"

lemma dropWhile_length: "length (dropWhile P xs) \<le> length xs"
  by (induction xs) auto

lemma quoted_string_length: "quoted_string s = Some (v, rest, b) \<Longrightarrow> length rest \<le> length s"
proof (induction s arbitrary: v rest b rule: quoted_string.induct)
  case (2 c r)
  then show ?case
    by (fastforce split: if_splits option.splits dest: next_char_decreasing)
qed auto

lemma quoted_identifier_length: "quoted_identifier s = Some (v, rest, b) \<Longrightarrow> length rest \<le> length s"
proof (induction s arbitrary: v rest b rule: quoted_identifier.induct)
  case (2 c r)
  then show ?case
    by (fastforce split: if_splits option.splits dest: next_char_decreasing)
qed auto

lemma lex_step_cases:
  assumes "lex_step c r = Some (tok, rest, closed)"
  obtains (space) "is_ascii_whitespace c" "tok = None" "rest = r" "closed"
  | (line_comment) "starts_with ''--'' (c # r)" "tok = None" "closed"
      "rest = line_comment_rest (drop 2 (c # r))"
  | (block) depth where "starts_with ''/*'' (c # r)" "tok = None" "closed \<longleftrightarrow> depth = 0"
      "block_comment 1 (drop 2 (c # r)) = (rest, depth)"
  | (str) v where "c = CHR 0x27" "tok = Some (StringLiteral v)" "quoted_string r = Some (v, rest, closed)"
  | (quoted) v where "c = CHR 0x22" "tok = Some (Identifier v)"
      "quoted_identifier r = Some (v, rest, closed)"
  | (dollar) t where "c = CHR ''$''" "tok = Some t" "lex_dollar c r = (t, rest, closed)"
  | (word) "is_ascii_alphabetic c \<or> c = CHR ''_''"
      "tok = Some (Identifier (to_ascii_lowercase (c # takeWhile is_identifier_char r)))"
      "rest = dropWhile is_identifier_char r" "closed"
  | (number) "tok = Some Literal" "rest = dropWhile is_number_char r" "closed"
  | (symbol) "is_symbol_char c" "tok = Some (Symbol c)" "rest = r" "closed"
  | (operator) "\<not> is_symbol_char c" "tok = Some (Operator (c # takeWhile is_operator_char r))"
      "rest = dropWhile is_operator_char r" "closed"
      "is_char_boundary (dropWhile is_operator_char r)"
proof -
  note step = assms [unfolded lex_step_def]
  show thesis
  proof (cases "is_ascii_whitespace c")
    case True
    with step  show ?thesis by (intro space) simp_all
  next
    case n0: False
    show ?thesis
    proof (cases "starts_with ''--'' (c # r)")
      case True
      with step n0 show ?thesis by (intro line_comment) simp_all
    next
      case n1: False
      show ?thesis
      proof (cases "starts_with ''/*'' (c # r)")
        case True
        obtain b d where "block_comment 1 (drop 2 (c # r)) = (b, d)" by fastforce
      with True step n0 n1 show ?thesis by (intro block [of d]) simp_all
      next
        case n2: False
        show ?thesis
        proof (cases "c = CHR 0x27")
          case True
          with step n0 n1 n2 show ?thesis by (auto split: prod.splits option.splits intro: str)
        next
          case n3: False
          show ?thesis
          proof (cases "c = CHR 0x22")
            case True
            with step n0 n1 n2 n3 show ?thesis by (auto split: prod.splits option.splits intro: quoted)
          next
            case n4: False
            show ?thesis
            proof (cases "c = CHR ''$''")
              case True
              with step n0 n1 n2 n3 n4 show ?thesis by (auto split: prod.splits option.splits intro: dollar)
            next
              case n5: False
              show ?thesis
              proof (cases "is_ascii_alphabetic c \<or> c = CHR ''_''")
                case True
                with step n0 n1 n2 n3 n4 n5 show ?thesis by (intro word) simp_all
              next
                case n6: False
                show ?thesis
                proof (cases "is_ascii_digit c")
                  case True
                  with step n0 n1 n2 n3 n4 n5 n6 show ?thesis by (intro number) simp_all
                next
                  case n7: False
                  show ?thesis
                  proof (cases "is_symbol_char c")
                    case True
                    with step n0 n1 n2 n3 n4 n5 n6 n7 show ?thesis by (intro symbol) simp_all
                  next
                    case n8: False
                    with step n0 n1 n2 n3 n4 n5 n6 n7 show ?thesis by (intro operator) (simp_all split: if_splits)
                  qed
                qed
              qed
            qed
          qed
        qed
      qed
    qed
  qed
qed

lemma lex_dollar_length: "lex_dollar c r = (t, rest, closed) \<Longrightarrow> length rest \<le> length r"
proof -
  have pos: "dollar_quote_delimiter (c # r) = Some d \<Longrightarrow> \<exists>k. length d = Suc k" for d
    by (auto simp: dollar_quote_delimiter_def split: if_splits)
  assume "lex_dollar c r = (t, rest, closed)"
  then show ?thesis
    unfolding lex_dollar_def using dropWhile_length [of is_ascii_digit r] pos
    by (auto simp: Let_def split: if_splits option.splits dest!: pos)
qed

lemma lex_step_decreasing [decreasing]:
  assumes "lex_step c r = Some (tok, rest, closed)"
  shows "length rest \<le> length r"
  using assms
proof (cases rule: lex_step_cases)
  case line_comment
  then show ?thesis
    using dropWhile_length [of _ "tl r"] by (simp add: line_comment_rest_def drop_Suc) 
      (metis diff_le_self dropWhile_length le_trans length_tl)
next
  case (block depth)
  then show ?thesis
    using block_comment_length [of 1 "tl r"] by (simp add: drop_Suc)
qed (auto dest: quoted_string_length quoted_identifier_length lex_dollar_length
    simp: dropWhile_length)

subsection \<open>The lexer\<close>

text \<open>What a token does to the nesting depth, and whether it keeps the text complete.\<close>

definition lex_depth :: "token option \<Rightarrow> nat \<Rightarrow> nat \<times> bool" where
  "lex_depth tok depth =
     (if tok = Some (Symbol CHR ''('') then (min (depth + 1) u32_max, True)
      else if tok = Some (Symbol CHR '')'')
      then (if depth = 0 then (depth, False) else (depth - 1, True))
      else (depth, True))"

function lex_loop :: "string \<Rightarrow> nat \<Rightarrow> (token list \<times> bool) option" where
  "lex_loop [] depth = Some ([], depth = 0)"
| "lex_loop (c # r) depth =
     (case lex_step c r of
        None \<Rightarrow> None
      | Some (tok, rest, closed) \<Rightarrow>
          (case lex_depth tok depth of
             (depth', paired) \<Rightarrow>
               map_option
                 (\<lambda>(ts, complete).
                    ((case tok of None \<Rightarrow> ts | Some t \<Rightarrow> t # ts), closed \<and> paired \<and> complete))
                 (lex_loop rest depth')))"
  by pat_completeness auto
termination
  by (relation "measure (\<lambda>(s, d). length s)") (auto dest: lex_step_decreasing simp: less_Suc_eq_le)

record lexed_sql =
  ls_tokens :: "token list"
  ls_complete :: bool

definition lex_sql :: "string \<Rightarrow> lexed_sql option" where
  "lex_sql sql =
     map_option (\<lambda>(ts, complete). \<lparr>ls_tokens = ts, ls_complete = complete\<rparr>) (lex_loop sql 0)"

subsection \<open>Token lists\<close>

definition get :: "'a list \<Rightarrow> nat \<Rightarrow> 'a option" where
  "get xs i = (if i < length xs then Some (xs ! i) else None)"

text \<open>\<open>trim_statement\<close>: the tokens without the semicolons at their end, and whether one is left.\<close>

definition trim_statement :: "token list \<Rightarrow> token list \<times> bool" where
  "trim_statement ts =
     (let kept = rev (dropWhile (\<lambda>t. t = Symbol CHR '';'') (rev ts))
      in (kept, Symbol CHR '';'' \<in> set kept))"

definition identifier_of :: "token option \<Rightarrow> string option" where
  "identifier_of t = (case t of Some (Identifier name) \<Rightarrow> Some name | _ \<Rightarrow> None)"

function qualified_rest :: "token list \<Rightarrow> nat \<Rightarrow> (string list \<times> nat) option" where
  "qualified_rest ts index =
     (if get ts index = Some (Symbol CHR ''.'')
      then (case identifier_of (get ts (index + 1)) of
              None \<Rightarrow> None
            | Some part \<Rightarrow> map_option (\<lambda>(parts, e). (part # parts, e)) (qualified_rest ts (index + 2)))
      else Some ([], index))"
  by pat_completeness auto
termination
  by (relation "measure (\<lambda>(ts, i). length ts - i)") (auto simp: get_def split: if_splits)

declare qualified_rest.simps [simp del]

definition qualified_identifier :: "token list \<Rightarrow> nat \<Rightarrow> (string list \<times> nat) option" where
  "qualified_identifier ts start =
     (case identifier_of (get ts start) of
        None \<Rightarrow> None
      | Some part \<Rightarrow> map_option (\<lambda>(parts, e). (part # parts, e)) (qualified_rest ts (start + 1)))"

text \<open>The parts in front of an index, the last one first.\<close>

fun qualified_before :: "token list \<Rightarrow> nat \<Rightarrow> string list option" where
  "qualified_before ts (Suc (Suc i)) =
     (if get ts (Suc i) = Some (Symbol CHR ''.'')
      then (case identifier_of (get ts i) of
              None \<Rightarrow> None
            | Some part \<Rightarrow> map_option (Cons part) (qualified_before ts i))
      else Some [])"
| "qualified_before ts _ = Some []"

definition qualified_identifier_backwards :: "token list \<Rightarrow> nat \<Rightarrow> string list option" where
  "qualified_identifier_backwards ts e =
     (case identifier_of (get ts e) of
        None \<Rightarrow> None
      | Some part \<Rightarrow> map_option (\<lambda>parts. rev (part # parts)) (qualified_before ts e))"

definition find_from :: "('a \<Rightarrow> bool) \<Rightarrow> 'a list \<Rightarrow> nat \<Rightarrow> nat option" where
  "find_from P ts start = find (\<lambda>i. P (ts ! i)) [start..<length ts]"

definition find_word :: "token list \<Rightarrow> nat \<Rightarrow> string \<Rightarrow> nat option" where
  "find_word ts start expected = find_from (\<lambda>t. t = Identifier expected) ts start"

definition update_depth :: "token \<Rightarrow> nat \<Rightarrow> nat" where
  "update_depth t depth =
     (if t = Symbol CHR ''('' then depth + 1
      else if t = Symbol CHR '')'' then depth - 1 else depth)"

fun top_level_word :: "token list \<Rightarrow> nat \<Rightarrow> nat \<Rightarrow> string \<Rightarrow> nat option" where
  "top_level_word [] index depth expected = None"
| "top_level_word (t # ts) index depth expected =
     (if depth = 0 \<and> t = Identifier expected then Some index
      else top_level_word ts (index + 1) (update_depth t depth) expected)"

definition find_top_level_word :: "token list \<Rightarrow> nat \<Rightarrow> string \<Rightarrow> nat option" where
  "find_top_level_word ts start expected = top_level_word (drop start ts) start 0 expected"

definition has_word :: "token list \<Rightarrow> string \<Rightarrow> bool" where
  "has_word ts expected \<longleftrightarrow> Identifier expected \<in> set ts"

text \<open>\<open>parenthesized_segments\<close> after the opening parenthesis: the current segment grows at its end.\<close>

fun segments_from :: "token list \<Rightarrow> nat \<Rightarrow> token list \<Rightarrow> nat \<Rightarrow> (token list list \<times> nat) option" where
  "segments_from [] depth cur index = None"
| "segments_from (t # ts) depth cur index =
     (if t = Symbol CHR ''('' then segments_from ts (depth + 1) (cur @ [t]) (index + 1)
      else if t = Symbol CHR '')'' \<and> depth = 0 then Some ([cur], index + 1)
      else if t = Symbol CHR '')'' then segments_from ts (depth - 1) (cur @ [t]) (index + 1)
      else if t = Symbol CHR '','' \<and> depth = 0
      then map_option (\<lambda>(segments, e). (cur # segments, e)) (segments_from ts 0 [] (index + 1))
      else segments_from ts depth (cur @ [t]) (index + 1))"

definition parenthesized_segments :: "token list \<Rightarrow> nat \<Rightarrow> (token list list \<times> nat) option" where
  "parenthesized_segments ts open_at =
     (if get ts open_at \<noteq> Some (Symbol CHR ''('') then None
      else segments_from (drop (open_at + 1) ts) 0 [] (open_at + 1))"

fun split_from :: "token list \<Rightarrow> nat \<Rightarrow> token list \<Rightarrow> token list list" where
  "split_from [] depth cur = [cur]"
| "split_from (t # ts) depth cur =
     (if t = Symbol CHR '','' \<and> depth = 0 then cur # split_from ts depth []
      else split_from ts (update_depth t depth) (cur @ [t]))"

definition split_top_level :: "token list \<Rightarrow> token list list" where
  "split_top_level ts = (if ts = [] then [] else split_from ts 0 [])"

definition reserved_words :: "string list" where
  "reserved_words =
     [''as'', ''cross'', ''delete'', ''from'', ''full'', ''group'', ''having'', ''inner'', ''insert'',
      ''join'', ''left'', ''limit'', ''offset'', ''on'', ''order'', ''outer'', ''returning'', ''right'',
      ''select'', ''set'', ''union'', ''update'', ''values'', ''where'']"

definition is_reserved_word :: "string \<Rightarrow> bool" where
  "is_reserved_word word \<longleftrightarrow> word \<in> set reserved_words"

end
