(* ===== verification/SqlModel.thy ===== *)
theory SqlModel
  imports ExecModel
begin

text \<open>
  The data of query contracts (\<open>src/postgres/model.rs\<close>, the query policy of
  \<open>src/config/postgres.rs\<close>) with the derived orders the sorted collections of the analysis use:
  enumerations by the order of their variants, structs field by field.
\<close>

datatype statement_class =
  Select | Insert | Update | Delete | DataDefinition | TransactionControl | Privilege
| Administrative | UnknownStatement

datatype parameter_role =
  Predicate | InsertValue | UpdateValue | Expression

fun parameter_role_rank :: "parameter_role \<Rightarrow> nat" where
  "parameter_role_rank Predicate = 0"
| "parameter_role_rank InsertValue = 1"
| "parameter_role_rank UpdateValue = 2"
| "parameter_role_rank Expression = 3"

lemma parameter_role_rank_inj: "parameter_role_rank a = parameter_role_rank b \<Longrightarrow> a = b"
  by (cases a; cases b) simp_all

instantiation parameter_role :: linorder
begin

definition less_eq_parameter_role :: "parameter_role \<Rightarrow> parameter_role \<Rightarrow> bool" where
  "less_eq_parameter_role a b \<longleftrightarrow> parameter_role_rank a \<le> parameter_role_rank b"

definition less_parameter_role :: "parameter_role \<Rightarrow> parameter_role \<Rightarrow> bool" where
  "less_parameter_role a b \<longleftrightarrow> parameter_role_rank a < parameter_role_rank b"

instance
  by standard (auto simp: less_eq_parameter_role_def less_parameter_role_def dest: parameter_role_rank_inj)

end

datatype object_kind =
  Table | Column

fun object_kind_rank :: "object_kind \<Rightarrow> nat" where
  "object_kind_rank Table = 0"
| "object_kind_rank Column = 1"

lemma object_kind_rank_inj: "object_kind_rank a = object_kind_rank b \<Longrightarrow> a = b"
  by (cases a; cases b) simp_all

instantiation object_kind :: linorder
begin

definition less_eq_object_kind :: "object_kind \<Rightarrow> object_kind \<Rightarrow> bool" where
  "less_eq_object_kind a b \<longleftrightarrow> object_kind_rank a \<le> object_kind_rank b"

definition less_object_kind :: "object_kind \<Rightarrow> object_kind \<Rightarrow> bool" where
  "less_object_kind a b \<longleftrightarrow> object_kind_rank a < object_kind_rank b"

instance
  by standard (auto simp: less_eq_object_kind_def less_object_kind_def dest: object_kind_rank_inj)

end

datatype function_class_kind =
  BuiltinReadOnly | Filesystem | ExternalLinkFunction | PrivilegedFunction
| UnknownFunctionClass

fun function_class_kind_rank :: "function_class_kind \<Rightarrow> nat" where
  "function_class_kind_rank BuiltinReadOnly = 0"
| "function_class_kind_rank Filesystem = 1"
| "function_class_kind_rank ExternalLinkFunction = 2"
| "function_class_kind_rank PrivilegedFunction = 3"
| "function_class_kind_rank UnknownFunctionClass = 4"

lemma function_class_kind_rank_inj: "function_class_kind_rank a = function_class_kind_rank b \<Longrightarrow> a = b"
  by (cases a; cases b) simp_all

instantiation function_class_kind :: linorder
begin

definition less_eq_function_class_kind :: "function_class_kind \<Rightarrow> function_class_kind \<Rightarrow> bool" where
  "less_eq_function_class_kind a b \<longleftrightarrow> function_class_kind_rank a \<le> function_class_kind_rank b"

definition less_function_class_kind :: "function_class_kind \<Rightarrow> function_class_kind \<Rightarrow> bool" where
  "less_function_class_kind a b \<longleftrightarrow> function_class_kind_rank a < function_class_kind_rank b"

instance
  by standard (auto simp: less_eq_function_class_kind_def less_function_class_kind_def dest: function_class_kind_rank_inj)

end

datatype query_eligibility =
  Eligible | RequiresEvidence | RequiresPolicy | BlockedQuery

datatype reason_code =
  BlockedByPolicy | MalformedFuzzDirective | DynamicSql | UnbalancedSyntax | MultipleStatements
| UnsupportedStatement | DataDefinitionReason | TransactionControlReason | PrivilegedOperation
| AdministrativeOperation | FilesystemAccess | ProgramExecution | ExternalLink | UnknownFunction
| DmlPolicyRequired | ParameterPositionInvalid | ParameterLimitExceeded | ParameterPositionGap
| ParameterTypeUnresolved | ReferencedObjectUnresolved | ResultTypeUnresolved

fun reason_code_rank :: "reason_code \<Rightarrow> nat" where
  "reason_code_rank BlockedByPolicy = 0"
| "reason_code_rank MalformedFuzzDirective = 1"
| "reason_code_rank DynamicSql = 2"
| "reason_code_rank UnbalancedSyntax = 3"
| "reason_code_rank MultipleStatements = 4"
| "reason_code_rank UnsupportedStatement = 5"
| "reason_code_rank DataDefinitionReason = 6"
| "reason_code_rank TransactionControlReason = 7"
| "reason_code_rank PrivilegedOperation = 8"
| "reason_code_rank AdministrativeOperation = 9"
| "reason_code_rank FilesystemAccess = 10"
| "reason_code_rank ProgramExecution = 11"
| "reason_code_rank ExternalLink = 12"
| "reason_code_rank UnknownFunction = 13"
| "reason_code_rank DmlPolicyRequired = 14"
| "reason_code_rank ParameterPositionInvalid = 15"
| "reason_code_rank ParameterLimitExceeded = 16"
| "reason_code_rank ParameterPositionGap = 17"
| "reason_code_rank ParameterTypeUnresolved = 18"
| "reason_code_rank ReferencedObjectUnresolved = 19"
| "reason_code_rank ResultTypeUnresolved = 20"

lemma reason_code_rank_inj: "reason_code_rank a = reason_code_rank b \<Longrightarrow> a = b"
  by (cases a; cases b) simp_all

instantiation reason_code :: linorder
begin

definition less_eq_reason_code :: "reason_code \<Rightarrow> reason_code \<Rightarrow> bool" where
  "less_eq_reason_code a b \<longleftrightarrow> reason_code_rank a \<le> reason_code_rank b"

definition less_reason_code :: "reason_code \<Rightarrow> reason_code \<Rightarrow> bool" where
  "less_reason_code a b \<longleftrightarrow> reason_code_rank a < reason_code_rank b"

instance
  by standard (auto simp: less_eq_reason_code_def less_reason_code_def dest: reason_code_rank_inj)

end

datatype type_name =
  TypeName
    (tn_schema: string)
    (tn_name: string)

definition type_name_key :: "type_name \<Rightarrow> string \<times> string" where
  "type_name_key x =
     (tn_schema x, tn_name x)"

lemma type_name_key_inj: "type_name_key a = type_name_key b \<Longrightarrow> a = b"
  by (cases a; cases b) (simp add: type_name_key_def)

instantiation type_name :: linorder
begin

definition less_eq_type_name :: "type_name \<Rightarrow> type_name \<Rightarrow> bool" where
  "less_eq_type_name a b \<longleftrightarrow> type_name_key a \<le> type_name_key b"

definition less_type_name :: "type_name \<Rightarrow> type_name \<Rightarrow> bool" where
  "less_type_name a b \<longleftrightarrow> type_name_key a < type_name_key b"

instance
  by standard (auto simp: less_eq_type_name_def less_type_name_def dest: type_name_key_inj)

end

datatype type_shape =
  TypeShape
    (ts_oid: "nat option")
    (ts_schema: "string option")
    (ts_name: string)
    (ts_formatted: string)
    (ts_base_type: "type_name option")
    (ts_enum_values: "string list")
    (ts_max_length: "nat option")
    (ts_numeric_precision: "nat option")
    (ts_numeric_scale: "nat option")

definition type_shape_key :: "type_shape \<Rightarrow> nat option \<times> string option \<times> string \<times> string \<times> type_name option \<times> string list \<times> nat option \<times> nat option \<times> nat option" where
  "type_shape_key x =
     (ts_oid x, ts_schema x, ts_name x, ts_formatted x, ts_base_type x, ts_enum_values x, ts_max_length x, ts_numeric_precision x, ts_numeric_scale x)"

lemma type_shape_key_inj: "type_shape_key a = type_shape_key b \<Longrightarrow> a = b"
  by (cases a; cases b) (simp add: type_shape_key_def)

instantiation type_shape :: linorder
begin

definition less_eq_type_shape :: "type_shape \<Rightarrow> type_shape \<Rightarrow> bool" where
  "less_eq_type_shape a b \<longleftrightarrow> type_shape_key a \<le> type_shape_key b"

definition less_type_shape :: "type_shape \<Rightarrow> type_shape \<Rightarrow> bool" where
  "less_type_shape a b \<longleftrightarrow> type_shape_key a < type_shape_key b"

instance
  by standard (auto simp: less_eq_type_shape_def less_type_shape_def dest: type_shape_key_inj)

end

datatype constraint_evidence =
  ConstraintEvidence
    (ce_name: string)
    (ce_kind: string)
    (ce_definition_digest: string)

definition constraint_evidence_key :: "constraint_evidence \<Rightarrow> string \<times> string \<times> string" where
  "constraint_evidence_key x =
     (ce_name x, ce_kind x, ce_definition_digest x)"

lemma constraint_evidence_key_inj: "constraint_evidence_key a = constraint_evidence_key b \<Longrightarrow> a = b"
  by (cases a; cases b) (simp add: constraint_evidence_key_def)

instantiation constraint_evidence :: linorder
begin

definition less_eq_constraint_evidence :: "constraint_evidence \<Rightarrow> constraint_evidence \<Rightarrow> bool" where
  "less_eq_constraint_evidence a b \<longleftrightarrow> constraint_evidence_key a \<le> constraint_evidence_key b"

definition less_constraint_evidence :: "constraint_evidence \<Rightarrow> constraint_evidence \<Rightarrow> bool" where
  "less_constraint_evidence a b \<longleftrightarrow> constraint_evidence_key a < constraint_evidence_key b"

instance
  by standard (auto simp: less_eq_constraint_evidence_def less_constraint_evidence_def dest: constraint_evidence_key_inj)

end

datatype object_reference =
  ObjectReference
    (or_kind: object_kind)
    (or_schema: "string option")
    (or_relation: "string option")
    (or_name: string)
    (or_resolved: bool)

definition object_reference_key :: "object_reference \<Rightarrow> object_kind \<times> string option \<times> string option \<times> string \<times> bool" where
  "object_reference_key x =
     (or_kind x, or_schema x, or_relation x, or_name x, or_resolved x)"

lemma object_reference_key_inj: "object_reference_key a = object_reference_key b \<Longrightarrow> a = b"
  by (cases a; cases b) (simp add: object_reference_key_def)

instantiation object_reference :: linorder
begin

definition less_eq_object_reference :: "object_reference \<Rightarrow> object_reference \<Rightarrow> bool" where
  "less_eq_object_reference a b \<longleftrightarrow> object_reference_key a \<le> object_reference_key b"

definition less_object_reference :: "object_reference \<Rightarrow> object_reference \<Rightarrow> bool" where
  "less_object_reference a b \<longleftrightarrow> object_reference_key a < object_reference_key b"

instance
  by standard (auto simp: less_eq_object_reference_def less_object_reference_def dest: object_reference_key_inj)

end

datatype column_binding =
  ColumnBinding
    (cb_role: parameter_role)
    (cb_column: object_reference)
    (cb_data_type: "type_shape option")
    (cb_column_nullable: "bool option")
    (cb_constraints: "constraint_evidence list")

definition column_binding_key :: "column_binding \<Rightarrow> parameter_role \<times> object_reference \<times> type_shape option \<times> bool option \<times> constraint_evidence list" where
  "column_binding_key x =
     (cb_role x, cb_column x, cb_data_type x, cb_column_nullable x, cb_constraints x)"

lemma column_binding_key_inj: "column_binding_key a = column_binding_key b \<Longrightarrow> a = b"
  by (cases a; cases b) (simp add: column_binding_key_def)

instantiation column_binding :: linorder
begin

definition less_eq_column_binding :: "column_binding \<Rightarrow> column_binding \<Rightarrow> bool" where
  "less_eq_column_binding a b \<longleftrightarrow> column_binding_key a \<le> column_binding_key b"

definition less_column_binding :: "column_binding \<Rightarrow> column_binding \<Rightarrow> bool" where
  "less_column_binding a b \<longleftrightarrow> column_binding_key a < column_binding_key b"

instance
  by standard (auto simp: less_eq_column_binding_def less_column_binding_def dest: column_binding_key_inj)

end

datatype function_evidence =
  FunctionEvidence
    (fe_name: string)
    (fe_class: function_class_kind)

definition function_evidence_key :: "function_evidence \<Rightarrow> string \<times> function_class_kind" where
  "function_evidence_key x =
     (fe_name x, fe_class x)"

lemma function_evidence_key_inj: "function_evidence_key a = function_evidence_key b \<Longrightarrow> a = b"
  by (cases a; cases b) (simp add: function_evidence_key_def)

instantiation function_evidence :: linorder
begin

definition less_eq_function_evidence :: "function_evidence \<Rightarrow> function_evidence \<Rightarrow> bool" where
  "less_eq_function_evidence a b \<longleftrightarrow> function_evidence_key a \<le> function_evidence_key b"

definition less_function_evidence :: "function_evidence \<Rightarrow> function_evidence \<Rightarrow> bool" where
  "less_function_evidence a b \<longleftrightarrow> function_evidence_key a < function_evidence_key b"

instance
  by standard (auto simp: less_eq_function_evidence_def less_function_evidence_def dest: function_evidence_key_inj)

end

datatype eligibility_reason =
  Reason
    (er_code: reason_code)
    (er_parameter_position: "nat option")
    (er_subject: "string option")

definition eligibility_reason_key :: "eligibility_reason \<Rightarrow> reason_code \<times> nat option \<times> string option" where
  "eligibility_reason_key x =
     (er_code x, er_parameter_position x, er_subject x)"

lemma eligibility_reason_key_inj: "eligibility_reason_key a = eligibility_reason_key b \<Longrightarrow> a = b"
  by (cases a; cases b) (simp add: eligibility_reason_key_def)

instantiation eligibility_reason :: linorder
begin

definition less_eq_eligibility_reason :: "eligibility_reason \<Rightarrow> eligibility_reason \<Rightarrow> bool" where
  "less_eq_eligibility_reason a b \<longleftrightarrow> eligibility_reason_key a \<le> eligibility_reason_key b"

definition less_eligibility_reason :: "eligibility_reason \<Rightarrow> eligibility_reason \<Rightarrow> bool" where
  "less_eligibility_reason a b \<longleftrightarrow> eligibility_reason_key a < eligibility_reason_key b"

instance
  by standard (auto simp: less_eq_eligibility_reason_def less_eligibility_reason_def dest: eligibility_reason_key_inj)

end

record query_parameter =
  qp_position :: nat
  qp_occurrence_count :: nat
  qp_roles :: "parameter_role list"
  qp_data_type :: "type_shape option"
  qp_bindings :: "column_binding list"

record result_column =
  rc_position :: nat
  rc_name :: "string option"
  rc_source :: "object_reference option"
  rc_data_type :: "type_shape option"
  rc_nullable :: "bool option"

record result_shape =
  rs_complete :: bool
  rs_columns :: "result_column list"

record catalog_table =
  ct_schema :: string
  ct_name :: string
  ct_kind :: string

record catalog_column =
  cc_schema :: string
  cc_table :: string
  cc_name :: string
  cc_position :: nat
  cc_data_type :: type_shape
  cc_nullable :: bool
  cc_default_digest :: "string option"

record catalog_constraint =
  ck_schema :: string
  ck_table :: string
  ck_name :: string
  ck_kind :: string
  ck_columns :: "string list"
  ck_definition_digest :: string

record catalog_index =
  ci_schema :: string
  ci_table :: string
  ci_name :: string
  ci_unique :: bool
  ci_valid :: bool
  ci_definition_digest :: string

record catalog_inventory =
  ca_digest :: string
  ca_tables :: "catalog_table list"
  ca_columns :: "catalog_column list"
  ca_constraints :: "catalog_constraint list"
  ca_indexes :: "catalog_index list"

record query_policy =
  dml_query_ids :: "string list"

definition allows_dml :: "query_policy \<Rightarrow> string \<Rightarrow> bool" where
  "allows_dml p query_id \<longleftrightarrow> (\<exists>candidate \<in> set (dml_query_ids p). candidate = query_id)"

end
