(* ===== verification/SqlClassify.thy ===== *)
theory SqlClassify
  imports SqlLexer SqlModel
begin

text \<open>
  Statement classes, functions, effects and eligibility of a query
  (\<open>src/postgres/target/query/classification.rs\<close>). The sets of effects and reasons are the sorted
  lists of \<^theory_text>\<open>BTree\<close>.
\<close>

subsection \<open>Statement class\<close>

definition statement_class_of :: "string \<Rightarrow> statement_class" where
  "statement_class_of word =
     (if word \<in> set [''select'', ''values'', ''table''] then Select
      else if word = ''insert'' then Insert
      else if word = ''update'' then Update
      else if word = ''delete'' then Delete
      else if word \<in> set [''create'', ''alter'', ''drop'', ''truncate'', ''comment''] then DataDefinition
      else if word \<in> set [''begin'', ''start'', ''commit'', ''rollback'', ''savepoint'', ''release'']
      then TransactionControl
      else if word \<in> set [''grant'', ''revoke''] then Privilege
      else if word \<in> set [''copy'', ''vacuum'', ''analyze'', ''reindex'', ''cluster'', ''checkpoint'',
        ''discard'', ''listen'', ''notify'', ''load'', ''call'', ''do'', ''set''] then Administrative
      else UnknownStatement)"

definition is_dml_or_select :: "statement_class \<Rightarrow> bool" where
  "is_dml_or_select c \<longleftrightarrow> c \<in> {Select, Insert, Update, Delete}"

definition refine_statement_class :: "token list \<Rightarrow> statement_class \<Rightarrow> nat \<Rightarrow> statement_class" where
  "refine_statement_class ts c statement_start =
     (if c = Select \<and> find_top_level_word ts (statement_start + 1) ''into'' \<noteq> None
      then DataDefinition else c)"

text \<open>The loop of a statement that starts with \<open>with\<close>: the first top-level word that names a query
  or a data modification.\<close>

fun with_statement :: "token list \<Rightarrow> token list \<Rightarrow> nat \<Rightarrow> nat \<Rightarrow> statement_class \<times> nat" where
  "with_statement all_ts [] index depth = (UnknownStatement, 0)"
| "with_statement all_ts (t # ts) index depth =
     (let depth = update_depth t depth
      in if depth = 0
         then (case identifier_of (Some t) of
                 None \<Rightarrow> with_statement all_ts ts (index + 1) depth
               | Some word \<Rightarrow>
                   let c = statement_class_of word
                   in if is_dml_or_select c then (refine_statement_class all_ts c index, index)
                      else with_statement all_ts ts (index + 1) depth)
         else with_statement all_ts ts (index + 1) depth)"

definition classify_statement :: "token list \<Rightarrow> statement_class \<times> nat" where
  "classify_statement ts =
     (case identifier_of (get ts 0) of
        None \<Rightarrow> (UnknownStatement, 0)
      | Some first \<Rightarrow>
          if first \<noteq> ''with'' then (refine_statement_class ts (statement_class_of first) 0, 0)
          else with_statement ts (drop 1 ts) 1 0)"

definition has_data_modifying_cte :: "token list \<Rightarrow> nat \<Rightarrow> bool" where
  "has_data_modifying_cte ts statement_start \<longleftrightarrow>
     (\<exists>t \<in> set (take statement_start ts).
        case identifier_of (Some t) of None \<Rightarrow> False
        | Some word \<Rightarrow> word \<in> set [''insert'', ''update'', ''delete''])"

subsection \<open>Functions\<close>

definition is_non_function_keyword :: "string \<Rightarrow> bool" where
  "is_non_function_keyword word \<longleftrightarrow>
     word \<in> set [''as'', ''cast'', ''distinct'', ''exists'', ''filter'', ''in'', ''over'', ''values'', ''with'']"

definition filesystem_functions :: "string list" where
  "filesystem_functions =
     [''pg_read_file'', ''pg_read_binary_file'', ''pg_stat_file'', ''pg_ls_dir'', ''lo_import'', ''lo_export'']"

definition external_link_functions :: "string list" where
  "external_link_functions = [''dblink'', ''dblink_connect'', ''dblink_exec'', ''dblink_send_query'']"

definition privileged_functions :: "string list" where
  "privileged_functions =
     [''pg_cancel_backend'', ''pg_terminate_backend'', ''pg_reload_conf'', ''pg_promote'', ''set_config'']"

definition read_only_functions :: "string list" where
  "read_only_functions =
     [''abs'', ''array_agg'', ''avg'', ''bool_and'', ''bool_or'', ''ceil'', ''ceiling'', ''char_length'',
      ''coalesce'', ''concat'', ''count'', ''date_trunc'', ''extract'', ''floor'', ''greatest'', ''json_agg'',
      ''json_build_array'', ''json_build_object'', ''jsonb_agg'', ''jsonb_build_array'',
      ''jsonb_build_object'', ''least'', ''length'', ''lower'', ''max'', ''min'', ''nullif'', ''octet_length'',
      ''round'', ''sum'', ''trim'', ''upper'']"

definition function_class :: "string \<Rightarrow> function_class_kind" where
  "function_class name =
     (let local_name = last (split_on (\<lambda>c. c = CHR ''.'') name)
      in if local_name \<in> set filesystem_functions then Filesystem
         else if local_name \<in> set external_link_functions then ExternalLinkFunction
         else if local_name \<in> set privileged_functions then PrivilegedFunction
         else if local_name \<in> set read_only_functions then BuiltinReadOnly
         else UnknownFunctionClass)"

text \<open>The names of common table expressions: the loop with its depth and whether a name is due.\<close>

fun cte_names_from :: "token list \<Rightarrow> nat \<Rightarrow> bool \<Rightarrow> string bset \<Rightarrow> string bset" where
  "cte_names_from [] depth expects names = names"
| "cte_names_from (t # ts) depth expects names =
     (if depth = 0 \<and> expects \<and> t = Identifier ''recursive''
      then cte_names_from ts depth expects names
      else
        let named = (if depth = 0 \<and> expects then identifier_of (Some t) else None);
            names = (case named of None \<Rightarrow> names | Some name \<Rightarrow> bset_insert name names);
            expects = (if named = None then expects else False);
            expects = (if t = Symbol CHR '','' \<and> depth = 0 then True else expects)
        in cte_names_from ts (update_depth t depth) expects names)"

definition collect_cte_names :: "token list \<Rightarrow> nat \<Rightarrow> string bset" where
  "collect_cte_names ts statement_start =
     (if identifier_of (get ts 0) \<noteq> Some ''with'' then []
      else cte_names_from (drop 1 (take statement_start ts)) 0 True [])"

lemma qualified_rest_bounds: "qualified_rest ts i = Some (parts, e) \<Longrightarrow> i \<le> e"
proof (induction ts i arbitrary: parts e rule: qualified_rest.induct)
  case (1 ts index)
  from 1(2) show ?case
    by (subst (asm) qualified_rest.simps)
      (auto split: if_splits option.splits dest!: 1(1) intro: le_trans)
qed

lemma qualified_identifier_bounds: "qualified_identifier ts i = Some (parts, e) \<Longrightarrow> i < e"
  by (auto simp: qualified_identifier_def split: option.splits dest!: qualified_rest_bounds)

function functions_from ::
    "token list \<Rightarrow> string bset \<Rightarrow> nat \<Rightarrow> function_evidence bset \<Rightarrow> function_evidence bset" where
  "functions_from ts cte_names index functions =
     (if index \<ge> length ts then functions
      else (case qualified_identifier ts index of
              None \<Rightarrow> functions_from ts cte_names (index + 1) functions
            | Some (parts, e) \<Rightarrow>
                let name = join ''.'' parts;
                    local_name = last parts;
                    is_insert_relation =
                      index > 0 \<and> identifier_of (get ts (index - 1)) = Some ''into'';
                    functions =
                      (if get ts e = Some (Symbol CHR ''('') \<and> \<not> is_insert_relation
                          \<and> \<not> is_non_function_keyword local_name \<and> local_name \<notin> set cte_names
                       then bset_insert (FunctionEvidence name (function_class name)) functions
                       else functions)
                in functions_from ts cte_names (max e (index + 1)) functions))"
  by pat_completeness auto
termination
  by (relation "measure (\<lambda>(ts, c, i, f). length ts - i)") auto

declare functions_from.simps [simp del]

definition collect_functions :: "token list \<Rightarrow> nat \<Rightarrow> function_evidence list" where
  "collect_functions ts statement_start =
     functions_from ts (collect_cte_names ts statement_start) 0 []"

subsection \<open>Effects and reasons\<close>

definition reason :: "reason_code \<Rightarrow> eligibility_reason" where
  "reason code = Reason code None None"

definition parameter_reason :: "reason_code \<Rightarrow> nat \<Rightarrow> eligibility_reason" where
  "parameter_reason code position = Reason code (Some position) None"

definition subject_reason :: "reason_code \<Rightarrow> string \<Rightarrow> eligibility_reason" where
  "subject_reason code subject = Reason code None (Some subject)"

definition statement_reason_code :: "statement_class \<Rightarrow> reason_code option" where
  "statement_reason_code c =
     (case c of
        DataDefinition \<Rightarrow> Some DataDefinitionReason
      | TransactionControl \<Rightarrow> Some TransactionControlReason
      | Privilege \<Rightarrow> Some PrivilegedOperation
      | Administrative \<Rightarrow> Some AdministrativeOperation
      | UnknownStatement \<Rightarrow> Some UnsupportedStatement
      | _ \<Rightarrow> None)"

definition add_statement_reasons ::
    "statement_class \<Rightarrow> eligibility_reason bset \<Rightarrow> eligibility_reason bset" where
  "add_statement_reasons c reasons =
     (case statement_reason_code c of None \<Rightarrow> reasons | Some code \<Rightarrow> bset_insert (reason code) reasons)"

definition words_of :: "token list \<Rightarrow> string list" where
  "words_of ts = concat (map (\<lambda>t. case identifier_of (Some t) of None \<Rightarrow> [] | Some w \<Rightarrow> [w]) ts)"

text \<open>\<open>windows(n).any(|words| words == pattern)\<close> for a pattern of \<open>n\<close> words.\<close>

definition has_window :: "string list \<Rightarrow> string list \<Rightarrow> bool" where
  "has_window words pattern \<longleftrightarrow> position_window words pattern \<noteq> None"

definition has_locking_read_clause :: "token list \<Rightarrow> bool" where
  "has_locking_read_clause ts \<longleftrightarrow>
     (let words = words_of ts
      in has_window words [''for'', ''update''] \<or> has_window words [''for'', ''share'']
         \<or> has_window words [''for'', ''no'', ''key'', ''update'']
         \<or> has_window words [''for'', ''key'', ''share'', ''nowait'']
         \<or> has_window words [''for'', ''key'', ''share''])"

type_synonym effects_reasons = "execution_effect bset \<times> eligibility_reason bset"

definition add_effect :: "execution_effect \<Rightarrow> effects_reasons \<Rightarrow> effects_reasons" where
  "add_effect e er = (bset_insert e (fst er), snd er)"

definition add_reason :: "eligibility_reason \<Rightarrow> effects_reasons \<Rightarrow> effects_reasons" where
  "add_reason r er = (fst er, bset_insert r (snd er))"

definition add_token_effect_reasons :: "token list \<Rightarrow> effects_reasons \<Rightarrow> effects_reasons" where
  "add_token_effect_reasons ts er0 =
     (let er1 = (if has_word ts ''copy'' \<and> has_word ts ''program''
                 then add_reason (reason ProgramExecution) (add_effect UnknownEffect er0) else er0);
          er2 = (if has_word ts ''copy'' \<and> (has_word ts ''from'' \<or> has_word ts ''to'')
                    \<and> (\<exists>t \<in> set ts. case t of Literal \<Rightarrow> True | StringLiteral _ \<Rightarrow> True | _ \<Rightarrow> False)
                 then add_reason (reason FilesystemAccess) (add_effect UnknownEffect er1) else er1);
          er3 = (if has_word ts ''server'' \<or> has_word ts ''foreign''
                 then add_reason (reason ExternalLink) (add_effect UnknownEffect er2) else er2);
          er4 = (if has_locking_read_clause ts
                 then add_reason (reason AdministrativeOperation) (add_effect TargetMutation er3)
                 else er3)
      in if (has_word ts ''role'' \<or> has_word ts ''user'')
            \<and> (case identifier_of (get ts 0) of None \<Rightarrow> False
               | Some word \<Rightarrow> word \<in> set [''create'', ''alter'', ''drop'', ''set''])
         then add_reason (reason PrivilegedOperation) er4 else er4)"

definition function_reason_code :: "function_class_kind \<Rightarrow> reason_code option" where
  "function_reason_code c =
     (case c of
        BuiltinReadOnly \<Rightarrow> None
      | Filesystem \<Rightarrow> Some FilesystemAccess
      | ExternalLinkFunction \<Rightarrow> Some ExternalLink
      | PrivilegedFunction \<Rightarrow> Some PrivilegedOperation
      | UnknownFunctionClass \<Rightarrow> Some UnknownFunction)"

fun add_function_reasons :: "function_evidence list \<Rightarrow> effects_reasons \<Rightarrow> effects_reasons" where
  "add_function_reasons [] er = er"
| "add_function_reasons (f # fs) er =
     (case function_reason_code (fe_class f) of
        None \<Rightarrow> add_function_reasons fs er
      | Some code \<Rightarrow>
          add_function_reasons fs
            (add_reason (subject_reason code (fe_name f)) (add_effect UnknownEffect er)))"

subsection \<open>Eligibility\<close>

definition is_hard_block :: "reason_code \<Rightarrow> bool" where
  "is_hard_block code \<longleftrightarrow>
     code \<in> set [BlockedByPolicy, MalformedFuzzDirective, DynamicSql, UnbalancedSyntax, MultipleStatements,
       UnsupportedStatement, DataDefinitionReason, TransactionControlReason, PrivilegedOperation,
       AdministrativeOperation, FilesystemAccess, ProgramExecution, ExternalLink, UnknownFunction,
       ParameterPositionInvalid, ParameterLimitExceeded, ParameterPositionGap]"

definition query_eligibility_of :: "eligibility_reason list \<Rightarrow> query_eligibility" where
  "query_eligibility_of reasons =
     (if \<exists>r \<in> set reasons. is_hard_block (er_code r) then BlockedQuery
      else if \<exists>r \<in> set reasons. er_code r = DmlPolicyRequired then RequiresPolicy
      else if reasons = [] then Eligible else RequiresEvidence)"

definition object_name :: "object_reference \<Rightarrow> string" where
  "object_name object =
     join ''.'' (concat (map (\<lambda>part. case part of None \<Rightarrow> [] | Some p \<Rightarrow> [p])
       [or_schema object, or_relation object, Some (or_name object)]))"

end
