(* ===== verification/SqlShape.thy ===== *)
theory SqlShape
  imports SqlClassify
begin

text \<open>
  Tables, parameters and result columns of a query and their resolution in a catalog
  (\<open>src/postgres/target/query/shape.rs\<close>).
\<close>

subsection \<open>Tables\<close>

definition table_reference :: "string list \<Rightarrow> object_reference" where
  "table_reference parts =
     (if length parts \<ge> 2
      then ObjectReference Table (Some (parts ! (length parts - 2))) None (parts ! (length parts - 1)) False
      else ObjectReference Table None None (case parts of [] \<Rightarrow> [] | p # _ \<Rightarrow> p) False)"

function table_references_from :: "token list \<Rightarrow> nat \<Rightarrow> object_reference list" where
  "table_references_from ts index =
     (if index \<ge> length ts then []
      else (case identifier_of (get ts index) of
              None \<Rightarrow> table_references_from ts (index + 1)
            | Some word \<Rightarrow>
                if word \<in> set [''from'', ''join'', ''update'']
                   \<or> word = ''into'' \<and> index > 0 \<and> identifier_of (get ts (index - 1)) = Some ''insert''
                then
                  (let start = (if identifier_of (get ts (index + 1)) = Some ''only''
                                then index + 2 else index + 1)
                   in case qualified_identifier ts start of
                        Some (parts, e) \<Rightarrow> table_reference parts # table_references_from ts e
                      | None \<Rightarrow> table_references_from ts (index + 1))
                else table_references_from ts (index + 1)))"
  by pat_completeness auto
termination
  by (relation "measure (\<lambda>(ts, i). length ts - i)")
    (auto dest!: qualified_identifier_bounds split: if_splits)

declare table_references_from.simps [simp del]

text \<open>\<open>sort\<close> followed by \<open>dedup\<close>.\<close>

definition sort_dedup :: "'a::linorder list \<Rightarrow> 'a list" where
  "sort_dedup xs = remdups_adj (sort xs)"

definition collect_table_references :: "token list \<Rightarrow> nat \<Rightarrow> object_reference list" where
  "collect_table_references ts statement_start = sort_dedup (table_references_from ts statement_start)"

function table_aliases_from ::
    "token list \<Rightarrow> object_reference list \<Rightarrow> nat \<Rightarrow> (string, object_reference) bmap
     \<Rightarrow> (string, object_reference) bmap" where
  "table_aliases_from ts tables index aliases =
     (if index \<ge> length ts then aliases
      else (case identifier_of (get ts index) of
              None \<Rightarrow> table_aliases_from ts tables (index + 1) aliases
            | Some word \<Rightarrow>
                if word \<notin> set [''from'', ''join'', ''update'', ''into'']
                then table_aliases_from ts tables (index + 1) aliases
                else (case qualified_identifier ts (index + 1) of
                        None \<Rightarrow> table_aliases_from ts tables (index + 1) aliases
                      | Some (parts, e0) \<Rightarrow>
                          let raw = table_reference parts;
                              table =
                                (case find (\<lambda>candidate. or_name candidate = or_name raw
                                              \<and> or_schema candidate = or_schema raw) tables of
                                   None \<Rightarrow> raw | Some candidate \<Rightarrow> candidate);
                              e = (if identifier_of (get ts e0) = Some ''as'' then e0 + 1 else e0);
                              aliases =
                                (case identifier_of (get ts e) of
                                   None \<Rightarrow> aliases
                                 | Some alias \<Rightarrow>
                                     if is_reserved_word alias then aliases
                                     else bmap_insert alias table aliases)
                          in table_aliases_from ts tables (max e (index + 1)) aliases)))"
  by pat_completeness auto
termination
  by (relation "measure (\<lambda>(ts, t, i, a). length ts - i)") auto

declare table_aliases_from.simps [simp del]

definition collect_table_aliases ::
    "token list \<Rightarrow> object_reference list \<Rightarrow> (string, object_reference) bmap" where
  "collect_table_aliases ts tables = table_aliases_from ts tables 0 []"

definition schema_matches :: "string option \<Rightarrow> string \<Rightarrow> bool" where
  "schema_matches schema candidate \<longleftrightarrow> (case schema of None \<Rightarrow> True | Some s \<Rightarrow> s = candidate)"

definition resolve_table :: "catalog_inventory \<Rightarrow> object_reference \<Rightarrow> object_reference" where
  "resolve_table catalog table =
     (case filter (\<lambda>candidate. ct_name candidate = or_name table
                     \<and> schema_matches (or_schema table) (ct_schema candidate)) (ca_tables catalog) of
        [candidate] \<Rightarrow>
          ObjectReference (or_kind table) (Some (ct_schema candidate)) (or_relation table)
            (or_name table) True
      | _ \<Rightarrow> table)"

definition resolve_table_references ::
    "object_reference list \<Rightarrow> catalog_inventory option \<Rightarrow> object_reference list" where
  "resolve_table_references tables catalog =
     (case catalog of None \<Rightarrow> tables | Some c \<Rightarrow> map (resolve_table c) tables)"

subsection \<open>Columns\<close>

definition column_reference ::
    "string list \<Rightarrow> object_reference list \<Rightarrow> (string, object_reference) bmap \<Rightarrow> object_reference" where
  "column_reference parts tables aliases =
     (let name = (if parts = [] then [] else last parts);
          qualifier = (if length parts \<ge> 2 then Some (parts ! (length parts - 2)) else None);
          schema = (if length parts \<ge> 3 then Some (parts ! (length parts - 3)) else None)
      in case Option.bind qualifier (bmap_get aliases) of
           Some table \<Rightarrow> ObjectReference Column (or_schema table) (Some (or_name table)) name False
         | None \<Rightarrow>
             if qualifier = None \<and> length tables = 1
             then ObjectReference Column (or_schema (tables ! 0)) (Some (or_name (tables ! 0))) name False
             else ObjectReference Column schema qualifier name False)"

text \<open>\<open>resolve_column\<close>: the reference it leaves and the column it found.\<close>

definition resolve_column ::
    "object_reference \<Rightarrow> object_reference list \<Rightarrow> catalog_inventory option
     \<Rightarrow> object_reference \<times> catalog_column option" where
  "resolve_column reference tables catalog =
     (case catalog of
        None \<Rightarrow> (reference, None)
      | Some c \<Rightarrow>
          (case filter (\<lambda>column. cc_name column = or_name reference
                  \<and> schema_matches (or_schema reference) (cc_schema column)
                  \<and> schema_matches (or_relation reference) (cc_table column)
                  \<and> (or_relation reference \<noteq> None
                     \<or> (\<exists>table \<in> set tables. or_name table = cc_table column
                          \<and> schema_matches (or_schema table) (cc_schema column))))
                (ca_columns c) of
             [column] \<Rightarrow>
               (ObjectReference (or_kind reference) (Some (cc_schema column)) (Some (cc_table column))
                  (or_name reference) True, Some column)
           | _ \<Rightarrow> (reference, None)))"

definition column_constraints :: "catalog_inventory \<Rightarrow> catalog_column \<Rightarrow> constraint_evidence list" where
  "column_constraints c column =
     sort (map (\<lambda>constr. ConstraintEvidence (ck_name constr) (ck_kind constr) (ck_definition_digest constr))
       (filter (\<lambda>constr. ck_schema constr = cc_schema column \<and> ck_table constr = cc_table column
          \<and> cc_name column \<in> set (ck_columns constr)) (ca_constraints c)))"

definition resolve_column_binding ::
    "column_binding \<Rightarrow> object_reference list \<Rightarrow> catalog_inventory option \<Rightarrow> column_binding" where
  "resolve_column_binding binding tables catalog =
     (case resolve_column (cb_column binding) tables catalog of
        (reference, None) \<Rightarrow>
          ColumnBinding (cb_role binding) reference (cb_data_type binding) (cb_column_nullable binding)
            (cb_constraints binding)
      | (reference, Some column) \<Rightarrow>
          ColumnBinding (cb_role binding) reference (Some (cc_data_type column))
            (Some (cc_nullable column))
            (case catalog of None \<Rightarrow> [] | Some c \<Rightarrow> column_constraints c column))"

definition type_names_match :: "type_shape \<Rightarrow> type_shape \<Rightarrow> bool" where
  "type_names_match left right \<longleftrightarrow>
     ts_name left = ts_name right
     \<and> (case ts_schema left of None \<Rightarrow> True | Some s \<Rightarrow> ts_schema right = Some s)"

subsection \<open>Parameters\<close>

definition inline_type_shape :: "string list \<Rightarrow> type_shape" where
  "inline_type_shape parts =
     TypeShape None (if length parts > 1 then Some (join ''.'' (butlast parts)) else None)
       (if parts = [] then [] else last parts) (join ''.'' parts) None [] None None None"

text \<open>The type a token at an index annotates its parameter with: \<open>$n::type\<close> or
  \<open>cast($n as type)\<close>.\<close>

definition inline_type_at :: "token list \<Rightarrow> nat \<Rightarrow> type_shape option" where
  "inline_type_at ts index =
     (case (if get ts (index + 1) = Some (Operator ''::'') then qualified_identifier ts (index + 2)
            else None) of
        Some (parts, _) \<Rightarrow> Some (inline_type_shape parts)
      | None \<Rightarrow>
          if index \<ge> 2 \<and> get ts (index - 1) = Some (Symbol CHR ''('')
             \<and> identifier_of (get ts (index - 2)) = Some ''cast''
             \<and> identifier_of (get ts (index + 1)) = Some ''as''
          then map_option (\<lambda>(parts, _). inline_type_shape parts) (qualified_identifier ts (index + 2))
          else None)"

fun first_some :: "('a \<Rightarrow> 'b option) \<Rightarrow> 'a list \<Rightarrow> 'b option" where
  "first_some f [] = None"
| "first_some f (x # xs) = (case f x of None \<Rightarrow> first_some f xs | Some y \<Rightarrow> Some y)"

definition inline_parameter_type :: "token list \<Rightarrow> nat \<Rightarrow> type_shape option" where
  "inline_parameter_type ts position =
     first_some (\<lambda>index. if ts ! index = Parameter position then inline_type_at ts index else None)
       [0..<length ts]"

fun parameter_position :: "token \<Rightarrow> nat option" where
  "parameter_position (Parameter position) = Some position"
| "parameter_position _ = None"

fun parameter_occurrences :: "token list \<Rightarrow> (nat, nat) bmap \<Rightarrow> (nat, nat) bmap" where
  "parameter_occurrences [] occurrences = occurrences"
| "parameter_occurrences (t # ts) occurrences =
     parameter_occurrences ts
       (case parameter_position t of
          None \<Rightarrow> occurrences
        | Some position \<Rightarrow> bmap_entry position 0 (\<lambda>n. n + 1) occurrences)"

definition query_parameters :: "token list \<Rightarrow> query_parameter list" where
  "query_parameters ts =
     map (\<lambda>(position, occurrence_count).
       \<lparr>qp_position = position, qp_occurrence_count = occurrence_count, qp_roles = [],
        qp_data_type = inline_parameter_type ts position, qp_bindings = []\<rparr>)
       (parameter_occurrences ts [])"

definition is_comparison :: "token option \<Rightarrow> bool" where
  "is_comparison t \<longleftrightarrow>
     (case t of Some (Operator op) \<Rightarrow> op \<in> set [''='', ''<>'', ''!='', ''<'', ''>'', ''<='', ''>='']
      | _ \<Rightarrow> False)"

definition comparison_column :: "token list \<Rightarrow> nat \<Rightarrow> string list option" where
  "comparison_column ts parameter_index =
     (if parameter_index \<ge> 2 \<and> is_comparison (get ts (parameter_index - 1))
      then qualified_identifier_backwards ts (parameter_index - 2)
      else if is_comparison (get ts (parameter_index + 1))
      then map_option fst (qualified_identifier ts (parameter_index + 2))
      else None)"

fun last_clause :: "token list \<Rightarrow> nat \<Rightarrow> string option \<Rightarrow> string option" where
  "last_clause [] depth clause = clause"
| "last_clause (t # ts) depth clause =
     (let depth = update_depth t depth
      in last_clause ts depth
           (if depth = 0
            then (case identifier_of (Some t) of
                    None \<Rightarrow> clause
                  | Some word \<Rightarrow>
                      if word \<in> set [''set'', ''where'', ''returning''] then Some word else clause)
            else clause))"

definition parameter_is_in_update_set :: "token list \<Rightarrow> nat \<Rightarrow> nat \<Rightarrow> bool" where
  "parameter_is_in_update_set ts start parameter_index \<longleftrightarrow>
     last_clause (drop start (take parameter_index ts)) 0 None = Some ''set''"

fun collect_options :: "'a option list \<Rightarrow> 'a list option" where
  "collect_options [] = Some []"
| "collect_options (x # xs) =
     (case x of None \<Rightarrow> None | Some y \<Rightarrow> map_option (Cons y) (collect_options xs))"

definition comma_separated_identifiers :: "token list \<Rightarrow> nat \<Rightarrow> (string list list \<times> nat) option" where
  "comma_separated_identifiers ts open_at =
     (case parenthesized_segments ts open_at of
        None \<Rightarrow> None
      | Some (segments, e) \<Rightarrow>
          map_option (\<lambda>ids. (ids, e))
            (collect_options (map (\<lambda>segment. map_option fst (qualified_identifier segment 0)) segments)))"

fun insert_bindings_from ::
    "(string list \<times> token list) list \<Rightarrow> object_reference list \<Rightarrow> (string, object_reference) bmap
     \<Rightarrow> (nat, column_binding) bmap \<Rightarrow> (nat, column_binding) bmap" where
  "insert_bindings_from [] tables aliases bindings = bindings"
| "insert_bindings_from ((column, segment) # rest) tables aliases bindings =
     insert_bindings_from rest tables aliases
       (case first_some parameter_position segment of
          None \<Rightarrow> bindings
        | Some position \<Rightarrow>
            bmap_insert position
              (ColumnBinding InsertValue (column_reference column tables aliases) None None []) bindings)"

definition insert_parameter_bindings ::
    "token list \<Rightarrow> nat \<Rightarrow> object_reference list \<Rightarrow> (string, object_reference) bmap
     \<Rightarrow> (nat, column_binding) bmap" where
  "insert_parameter_bindings ts start tables aliases =
     (if identifier_of (get ts start) \<noteq> Some ''insert'' then []
      else (case find_word ts (start + 1) ''into'' of
        None \<Rightarrow> []
      | Some into \<Rightarrow>
        (case qualified_identifier ts (into + 1) of
           None \<Rightarrow> []
         | Some (_, table_end) \<Rightarrow>
           if get ts table_end \<noteq> Some (Symbol CHR ''('') then []
           else (case comma_separated_identifiers ts table_end of
             None \<Rightarrow> []
           | Some (columns, after_columns) \<Rightarrow>
             (case find_word ts after_columns ''values'' of
                None \<Rightarrow> []
              | Some vals \<Rightarrow>
                if get ts (vals + 1) \<noteq> Some (Symbol CHR ''('') then []
                else (case parenthesized_segments ts (vals + 1) of
                        None \<Rightarrow> []
                      | Some (segments, _) \<Rightarrow>
                          insert_bindings_from (zip columns segments) tables aliases []))))))"

text \<open>The bindings of one occurrence of a parameter, before they are resolved.\<close>

definition occurrence_bindings ::
    "token list \<Rightarrow> statement_class \<Rightarrow> nat \<Rightarrow> object_reference list \<Rightarrow> (string, object_reference) bmap
     \<Rightarrow> (nat, column_binding) bmap \<Rightarrow> nat \<Rightarrow> nat \<Rightarrow> column_binding list" where
  "occurrence_bindings ts c statement_start tables aliases insert_bindings position index =
     (case bmap_get insert_bindings position of None \<Rightarrow> [] | Some b \<Rightarrow> [b])
     @ (case comparison_column ts index of
          None \<Rightarrow> []
        | Some parts \<Rightarrow>
            [ColumnBinding
               (if c = Update \<and> parameter_is_in_update_set ts statement_start index
                then UpdateValue else Predicate)
               (column_reference parts tables aliases) None None []])"

text \<open>One turn of the loop of \<open>bind_parameters\<close> on the parameter it found.\<close>

definition bind_occurrence ::
    "column_binding list \<Rightarrow> object_reference list \<Rightarrow> catalog_inventory option
     \<Rightarrow> query_parameter \<Rightarrow> query_parameter" where
  "bind_occurrence bindings tables catalog parameter =
     (let roles = (if bindings = [] then [Expression] else bset_of (map cb_role bindings));
          resolved = map (\<lambda>b. resolve_column_binding b tables catalog) bindings;
          all_bindings = sort_dedup (qp_bindings parameter @ resolved);
          resolved_types =
            bset_of (concat (map (\<lambda>b. case cb_data_type b of None \<Rightarrow> [] | Some t \<Rightarrow> [t]) all_bindings));
          data_type =
            (case resolved_types of
               [t] \<Rightarrow>
                 (case qp_data_type parameter of
                    None \<Rightarrow> Some t
                  | Some inline_type \<Rightarrow>
                      if type_names_match inline_type t then Some t else Some inline_type)
             | _ \<Rightarrow> qp_data_type parameter)
      in parameter\<lparr>qp_roles := roles, qp_bindings := all_bindings, qp_data_type := data_type\<rparr>)"

definition update_first :: "('a \<Rightarrow> bool) \<Rightarrow> ('a \<Rightarrow> 'a) \<Rightarrow> 'a list \<Rightarrow> 'a list" where
  "update_first P f xs =
     (case find (\<lambda>i. P (xs ! i)) [0..<length xs] of None \<Rightarrow> xs | Some i \<Rightarrow> xs[i := f (xs ! i)])"

definition bind_parameters ::
    "query_parameter list \<Rightarrow> token list \<Rightarrow> statement_class \<Rightarrow> nat \<Rightarrow> object_reference list
     \<Rightarrow> (string, object_reference) bmap \<Rightarrow> catalog_inventory option \<Rightarrow> query_parameter list" where
  "bind_parameters parameters ts c statement_start tables aliases catalog =
     (let insert_bindings = insert_parameter_bindings ts statement_start tables aliases
      in fold (\<lambda>index ps.
            case parameter_position (ts ! index) of
              None \<Rightarrow> ps
            | Some position \<Rightarrow>
                update_first (\<lambda>p. qp_position p = position)
                  (bind_occurrence
                     (occurrence_bindings ts c statement_start tables aliases insert_bindings position index)
                     tables catalog) ps)
          [0..<length ts] parameters)"

subsection \<open>Result columns\<close>

definition exact_identifier :: "token list \<Rightarrow> string list option" where
  "exact_identifier ts =
     (case qualified_identifier ts 0 of
        None \<Rightarrow> None | Some (parts, e) \<Rightarrow> if e = length ts then Some parts else None)"

fun alias_keyword :: "token list \<Rightarrow> nat \<Rightarrow> nat \<Rightarrow> nat option" where
  "alias_keyword [] index depth = None"
| "alias_keyword (t # ts) index depth =
     (let depth = update_depth t depth
      in if depth = 0 \<and> t = Identifier ''as'' then Some index
         else alias_keyword ts (index + 1) depth)"

definition expression_alias :: "token list \<Rightarrow> token list \<times> string option" where
  "expression_alias ex =
     (case alias_keyword ex 0 0 of
        Some index \<Rightarrow> (take index ex, identifier_of (get ex (index + 1)))
      | None \<Rightarrow>
          if length ex > 1
          then (case identifier_of (Some (last ex)) of
                  Some alias \<Rightarrow>
                    if get ex (length ex - 2) \<noteq> Some (Symbol CHR ''.'')
                       \<and> get ex (length ex - 2) \<noteq> Some (Operator ''::'')
                       \<and> \<not> is_reserved_word alias
                    then (butlast ex, Some alias) else (ex, None)
                | None \<Rightarrow> (ex, None))
          else (ex, None))"

definition result_column_of ::
    "object_reference list \<Rightarrow> (string, object_reference) bmap \<Rightarrow> catalog_inventory option
     \<Rightarrow> nat \<Rightarrow> token list \<Rightarrow> result_column" where
  "result_column_of tables aliases catalog index expression =
     (case expression_alias expression of
        (ex, alias) \<Rightarrow>
          let source = map_option (\<lambda>parts. column_reference parts tables aliases) (exact_identifier ex);
              name = (case alias of Some a \<Rightarrow> Some a | None \<Rightarrow> map_option or_name source)
          in case source of
               None \<Rightarrow>
                 \<lparr>rc_position = min (index + 1) u32_max, rc_name = name, rc_source = None,
                  rc_data_type = None, rc_nullable = None\<rparr>
             | Some reference \<Rightarrow>
                 (case resolve_column reference tables catalog of
                    (reference', column) \<Rightarrow>
                      \<lparr>rc_position = min (index + 1) u32_max, rc_name = name,
                       rc_source = Some reference',
                       rc_data_type = map_option cc_data_type column,
                       rc_nullable = map_option cc_nullable column\<rparr>))"

definition query_result ::
    "token list \<Rightarrow> statement_class \<Rightarrow> nat \<Rightarrow> object_reference list \<Rightarrow> (string, object_reference) bmap
     \<Rightarrow> catalog_inventory option \<Rightarrow> result_shape option" where
  "query_result ts c statement_start tables aliases catalog =
     (case (if c = Select
            then Some (statement_start + 1,
              (case find_top_level_word ts (statement_start + 1) ''from'' of
                 None \<Rightarrow> length ts | Some i \<Rightarrow> i))
            else map_option (\<lambda>returning. (returning + 1, length ts))
                   (find_top_level_word ts statement_start ''returning'')) of
        None \<Rightarrow> Some \<lparr>rs_complete = True, rs_columns = []\<rparr>
      | Some (start, e) \<Rightarrow>
          if start > e then None
          else
            let expressions = split_top_level (drop start (take e ts));
                columns =
                  filter (\<lambda>col. rc_name col \<noteq> None \<or> rc_source col \<noteq> None \<or> start < e)
                    (map (\<lambda>(index, ex). result_column_of tables aliases catalog index ex)
                       (zip [0..<length expressions] expressions))
            in Some \<lparr>rs_complete = (\<forall>col \<in> set columns. rc_data_type col \<noteq> None), rs_columns = columns\<rparr>)"

end
