(* ===== verification/DomainModel.thy ===== *)
theory DomainModel
  imports BTree
begin

text \<open>
  The parts of the domain model that several analyses share (\<open>src/domain/model.rs\<close>,
  \<open>src/domain/evidence.rs\<close>): source spans, symbol kinds and visibilities, the evidence of fuzz
  directives, and the classes of evidence a finding carries. The derived orders are lexicographic in
  declaration order and are given as \<open>linorder\<close> instances.
\<close>

datatype span =
  Span
    (start_line: nat)
    (start_col: nat)
    (end_line: nat)
    (end_col: nat)

definition span_key :: "span \<Rightarrow> nat \<times> nat \<times> nat \<times> nat" where
  "span_key x =
     (start_line x, start_col x, end_line x, end_col x)"

lemma span_key_inj: "span_key a = span_key b \<Longrightarrow> a = b"
  by (cases a; cases b) (simp add: span_key_def)

instantiation span :: linorder
begin

definition less_eq_span :: "span \<Rightarrow> span \<Rightarrow> bool" where
  "less_eq_span a b \<longleftrightarrow> span_key a \<le> span_key b"

definition less_span :: "span \<Rightarrow> span \<Rightarrow> bool" where
  "less_span a b \<longleftrightarrow> span_key a < span_key b"

instance
  by standard (auto simp: less_eq_span_def less_span_def dest: span_key_inj)

end

datatype symbol_kind =
  ModuleKind | ClassKind | MethodKind | FunctionKind | InterfaceKind
| StructKind | ConstKind | PropertyKind | DecoratorKind | EnumKind
| TraitKind | TypeAliasKind

datatype visibility =
  Public | Internal | Private | UnknownVisibility

subsection \<open>Fuzz policy evidence\<close>

datatype fuzz_directive_issue_kind =
  Malformed | UnsupportedAction | EmptyReason | ReasonTooLong | Duplicate
| Conflicting

fun issue_kind_str :: "fuzz_directive_issue_kind \<Rightarrow> string" where
  "issue_kind_str Malformed = ''malformed''"
| "issue_kind_str UnsupportedAction = ''unsupported_action''"
| "issue_kind_str EmptyReason = ''empty_reason''"
| "issue_kind_str ReasonTooLong = ''reason_too_long''"
| "issue_kind_str Duplicate = ''duplicate''"
| "issue_kind_str Conflicting = ''conflicting''"

record fuzz_denial =
  fd_line :: nat
  fd_reason :: string

record fuzz_directive_issue =
  fi_line :: nat
  fi_kind :: fuzz_directive_issue_kind
  fi_message :: string

record fuzz_policy_evidence =
  fp_denial :: "fuzz_denial option"
  fp_issues :: "fuzz_directive_issue list"

subsection \<open>Evidence\<close>

datatype evidence_class =
  Direct | Inferred | BoundaryLimited

datatype source_disposition =
  Maintained | Generated | Fixture | TestSource | ToolingSource

end
