(* ===== verification/SqlQuery.thy ===== *)
theory SqlQuery
  imports SqlShape DomainModel
begin

text \<open>
  The static analysis of one query (\<open>src/postgres/target/query.rs\<close>): its ID, its contract with the
  reasons for its eligibility, and the validation of the policy that may admit data modifications.
  SHA-256 is the argument \<open>hash\<close>; slicing panics of the lexer make the analysis \<open>None\<close>.
\<close>

definition max_query_parameters :: nat where
  "max_query_parameters = 1024"

record static_query_input =
  qi_contract_id :: string
  qi_path :: string
  qi_line :: nat
  qi_column :: nat
  qi_sha256 :: string
  qi_sql :: string
  qi_dynamic :: bool
  qi_fuzz_policy :: "fuzz_policy_evidence option"
  qi_fuzz_exclusions :: "string list"

record query_contract =
  qc_id :: string
  qc_path :: string
  qc_line :: nat
  qc_column :: nat
  qc_sha256 :: string
  qc_dynamic :: bool
  qc_placeholder_order :: "nat list"
  qc_parameters :: "query_parameter list"
  qc_statement_class :: statement_class
  qc_referenced_objects :: "object_reference list"
  qc_result :: result_shape
  qc_functions :: "function_evidence list"
  qc_effects :: "execution_effect list"
  qc_eligibility :: query_eligibility
  qc_eligibility_reasons :: "eligibility_reason list"
  qc_fuzz_policy :: "fuzz_policy_evidence option"
  qc_catalog_digest :: "string option"

subsection \<open>Query IDs\<close>

text \<open>\<open>to_be_bytes\<close> of a \<open>k\<close>-byte integer.\<close>

fun be_bytes :: "nat \<Rightarrow> nat \<Rightarrow> bytes" where
  "be_bytes 0 n = []"
| "be_bytes (Suc k) n = be_bytes k (n div 256) @ [char_of (n mod 256)]"

definition query_id_domain :: bytes where
  "query_id_domain = ''atlas.codeatlas.dev/postgres-query/v1'' @ [CHR 0x00]"

definition length_prefixed :: "bytes \<Rightarrow> bytes" where
  "length_prefixed part = be_bytes 8 (length part) @ part"

definition query_preimage :: "static_query_input \<Rightarrow> bytes" where
  "query_preimage input =
     query_id_domain
     @ concat (map length_prefixed [qi_contract_id input, qi_path input, qi_sha256 input])
     @ be_bytes 4 (qi_line input) @ be_bytes 4 (qi_column input)"

definition query_id :: "(bytes \<Rightarrow> string) \<Rightarrow> static_query_input \<Rightarrow> string" where
  "query_id hash input = ''query_'' @ hash (query_preimage input)"

subsection \<open>Parameters\<close>

text \<open>The gap loop over the positive positions in order.\<close>

fun first_gap :: "nat list \<Rightarrow> nat \<Rightarrow> nat option" where
  "first_gap [] expected = None"
| "first_gap (p # ps) expected =
     (if p \<noteq> expected then Some expected else first_gap ps (min (expected + 1) u32_max))"

definition add_parameter_reasons ::
    "query_parameter list \<Rightarrow> nat list \<Rightarrow> eligibility_reason bset \<Rightarrow> eligibility_reason bset" where
  "add_parameter_reasons parameters placeholder_order reasons0 =
     (let positions = bset_of placeholder_order;
          reasons1 = (if 0 \<in> set positions
                      then bset_insert (parameter_reason ParameterPositionInvalid 0) reasons0 else reasons0);
          reasons2 = (case find (\<lambda>p. p > max_query_parameters) positions of
                        None \<Rightarrow> reasons1
                      | Some p \<Rightarrow> bset_insert (parameter_reason ParameterLimitExceeded p) reasons1);
          reasons3 = (case first_gap (filter (\<lambda>p. p > 0) positions) 1 of
                        None \<Rightarrow> reasons2
                      | Some expected \<Rightarrow>
                          bset_insert (parameter_reason ParameterPositionGap expected) reasons2)
      in fold (\<lambda>parameter reasons.
            if Option.bind (qp_data_type parameter) ts_oid = None
            then bset_insert (parameter_reason ParameterTypeUnresolved (qp_position parameter)) reasons
            else reasons) parameters reasons3)"

subsection \<open>The analysis\<close>

definition is_dml_class :: "statement_class \<Rightarrow> bool" where
  "is_dml_class c \<longleftrightarrow> c \<in> {Insert, Update, Delete}"

definition is_mutating_class :: "statement_class \<Rightarrow> bool" where
  "is_mutating_class c \<longleftrightarrow> c \<in> {DataDefinition, TransactionControl, Privilege, Administrative}"

definition fuzz_reasons ::
    "static_query_input \<Rightarrow> string \<Rightarrow> eligibility_reason bset \<Rightarrow> eligibility_reason bset" where
  "fuzz_reasons input qid reasons0 =
     (let reasons1 = (if qid \<in> set (qi_fuzz_exclusions input)
                      then bset_insert (subject_reason BlockedByPolicy ''config'') reasons0 else reasons0)
      in case qi_fuzz_policy input of
           None \<Rightarrow> reasons1
         | Some policy \<Rightarrow>
             let reasons2 = (if fp_denial policy \<noteq> None
                             then bset_insert (subject_reason BlockedByPolicy ''source_directive'') reasons1
                             else reasons1)
             in if fp_issues policy \<noteq> []
                then bset_insert (subject_reason MalformedFuzzDirective ''source_directive'') reasons2
                else reasons2)"

definition add_object_reasons ::
    "object_reference list \<Rightarrow> eligibility_reason bset \<Rightarrow> eligibility_reason bset" where
  "add_object_reasons objects reasons =
     fold (\<lambda>object rs. if or_resolved object then rs
             else bset_insert (subject_reason ReferencedObjectUnresolved (object_name object)) rs)
       objects reasons"

definition add_result_reasons ::
    "result_column list \<Rightarrow> eligibility_reason bset \<Rightarrow> eligibility_reason bset" where
  "add_result_reasons columns reasons =
     fold (\<lambda>column rs. if rc_data_type column \<noteq> None then rs
             else bset_insert (subject_reason ResultTypeUnresolved
               (case rc_name column of None \<Rightarrow> decimal (rc_position column) | Some n \<Rightarrow> n)) rs)
       columns reasons"

definition option_list :: "'a option \<Rightarrow> 'a list" where
  "option_list x = (case x of None \<Rightarrow> [] | Some y \<Rightarrow> [y])"

text \<open>Everything of the contract that is computed before its reasons.\<close>

record query_facts =
  qf_tokens :: "token list"
  qf_complete :: bool
  qf_multiple :: bool
  qf_class :: statement_class
  qf_start :: nat
  qf_tables :: "object_reference list"
  qf_parameters :: "query_parameter list"
  qf_result :: result_shape
  qf_functions :: "function_evidence list"
  qf_dml :: bool

definition query_facts_of :: "string \<Rightarrow> catalog_inventory option \<Rightarrow> query_facts option" where
  "query_facts_of sql catalog =
     (case lex_sql sql of
        None \<Rightarrow> None
      | Some lexed \<Rightarrow>
          (case trim_statement (ls_tokens lexed) of (ts, has_multiple_statements) \<Rightarrow>
          (case classify_statement ts of (c, statement_start) \<Rightarrow>
           let tables = resolve_table_references (collect_table_references ts statement_start) catalog;
               aliases = collect_table_aliases ts tables;
               parameters = bind_parameters (query_parameters ts) ts c statement_start tables aliases catalog
           in (case query_result ts c statement_start tables aliases catalog of
                 None \<Rightarrow> None
               | Some shape \<Rightarrow>
                   let complete =
                         (\<forall>column \<in> set (rs_columns shape). rc_data_type column \<noteq> None)
                         \<or> (c \<noteq> Select \<and> find_top_level_word ts statement_start ''returning'' = None)
                   in Some \<lparr>qf_tokens = ts, qf_complete = ls_complete lexed,
                        qf_multiple = has_multiple_statements, qf_class = c, qf_start = statement_start,
                        qf_tables = tables, qf_parameters = parameters,
                        qf_result = shape\<lparr>rs_complete := complete\<rparr>,
                        qf_functions = (if is_dml_or_select c then collect_functions ts statement_start else []),
                        qf_dml = (is_dml_class c \<or> has_data_modifying_cte ts statement_start)\<rparr>))))"

definition placeholder_order :: "token list \<Rightarrow> nat list" where
  "placeholder_order ts = concat (map (\<lambda>t. option_list (parameter_position t)) ts)"

definition referenced_objects :: "query_facts \<Rightarrow> object_reference list" where
  "referenced_objects q =
     sort_dedup (qf_tables q
       @ concat (map (\<lambda>p. map cb_column (qp_bindings p)) (qf_parameters q))
       @ concat (map (\<lambda>column. option_list (rc_source column)) (rs_columns (qf_result q))))"

definition effects_and_reasons ::
    "static_query_input \<Rightarrow> string \<Rightarrow> query_facts \<Rightarrow> query_policy option \<Rightarrow> effects_reasons" where
  "effects_and_reasons input qid q policy =
     (let effects0 = [NetworkTargetCall];
          effects1 = (if qf_dml q \<or> is_mutating_class (qf_class q)
                      then bset_insert TargetMutation effects0 else effects0);
          er0 = (effects1, fuzz_reasons input qid []);
          er1 = (if qi_dynamic input
                 then add_reason (reason DynamicSql) (add_effect UnknownEffect er0) else er0);
          er2 = (if \<not> qf_complete q
                 then add_reason (reason UnbalancedSyntax) (add_effect UnknownEffect er1) else er1);
          er3 = (if qf_multiple q
                 then add_reason (reason MultipleStatements) (add_effect UnknownEffect er2) else er2);
          er4 = (fst er3, add_statement_reasons (qf_class q) (snd er3));
          er5 = add_token_effect_reasons (qf_tokens q) er4;
          er6 = add_function_reasons (qf_functions q) er5;
          er7 = (if qf_dml q
                    \<and> \<not> (case policy of None \<Rightarrow> False | Some p \<Rightarrow> allows_dml p qid)
                 then add_reason (reason DmlPolicyRequired) er6 else er6);
          reasons8 = add_parameter_reasons (qf_parameters q) (placeholder_order (qf_tokens q)) (snd er7);
          reasons9 = add_object_reasons (referenced_objects q) reasons8
      in (fst er7, add_result_reasons (rs_columns (qf_result q)) reasons9))"

definition analyze_query ::
    "(bytes \<Rightarrow> string) \<Rightarrow> static_query_input \<Rightarrow> catalog_inventory option \<Rightarrow> query_policy option
     \<Rightarrow> query_contract option" where
  "analyze_query hash input catalog policy =
     (let qid = query_id hash input
      in case query_facts_of (qi_sql input) catalog of
           None \<Rightarrow> None
         | Some q \<Rightarrow>
             (case effects_and_reasons input qid q policy of (effects, reasons) \<Rightarrow>
              Some \<lparr>qc_id = qid, qc_path = qi_path input, qc_line = qi_line input,
                qc_column = qi_column input, qc_sha256 = qi_sha256 input, qc_dynamic = qi_dynamic input,
                qc_placeholder_order = placeholder_order (qf_tokens q),
                qc_parameters = qf_parameters q, qc_statement_class = qf_class q,
                qc_referenced_objects = referenced_objects q, qc_result = qf_result q,
                qc_functions = qf_functions q, qc_effects = effects,
                qc_eligibility = query_eligibility_of reasons, qc_eligibility_reasons = reasons,
                qc_fuzz_policy = qi_fuzz_policy input,
                qc_catalog_digest = map_option ca_digest catalog\<rparr>))"

subsection \<open>The query policy\<close>

datatype policy_error = RepeatsQueryId string | UnknownQueryId string | NotEligibleDml string

text \<open>A collected query: the contract it belongs to and what was analysed.\<close>

type_synonym collected_query = "string \<times> query_contract"

definition policy_allows :: "query_contract \<Rightarrow> bool" where
  "policy_allows query \<longleftrightarrow>
     \<not> (TargetMutation \<notin> set (qc_effects query)
        \<or> qc_statement_class query
          \<in> {DataDefinition, TransactionControl, Privilege, Administrative, UnknownStatement})"

fun check_policy_ids ::
    "string list \<Rightarrow> string bset \<Rightarrow> (string, query_contract) bmap \<Rightarrow> policy_error + unit" where
  "check_policy_ids [] ids queries = Inr ()"
| "check_policy_ids (qid # rest) ids queries =
     (if qid \<in> set ids then Inl (RepeatsQueryId qid)
      else (case bmap_get queries qid of
              None \<Rightarrow> Inl (UnknownQueryId qid)
            | Some query \<Rightarrow>
                if \<not> policy_allows query then Inl (NotEligibleDml qid)
                else check_policy_ids rest (bset_insert qid ids) queries))"

definition eligible_queries :: "collected_query list \<Rightarrow> string list \<Rightarrow> (string, query_contract) bmap" where
  "eligible_queries queries execution_contracts =
     fold (\<lambda>(contract_id, query) m. bmap_insert (qc_id query) query m)
       (filter (\<lambda>(contract_id, query). contract_id \<in> set execution_contracts) queries) []"

definition validate_query_policy ::
    "query_policy \<Rightarrow> collected_query list \<Rightarrow> string list \<Rightarrow> policy_error + unit" where
  "validate_query_policy policy queries execution_contracts =
     check_policy_ids (dml_query_ids policy) [] (eligible_queries queries execution_contracts)"

end
