(* ===== verification/SqlLexProps.thy ===== *)
theory SqlLexProps
  imports SqlLexer
begin

text \<open>
  What the lexer guarantees: where it cannot panic and where it does, that quoted texts of any
  content are read back exactly, that a text it calls complete is balanced, and that the splitting
  functions over tokens lose nothing.
\<close>

subsection \<open>ASCII texts\<close>

definition ascii_text :: "string \<Rightarrow> bool" where
  "ascii_text s \<longleftrightarrow> (\<forall>c \<in> set s. is_ascii c)"

lemma ascii_text_simps [simp]:
  "ascii_text []" "ascii_text (c # s) \<longleftrightarrow> is_ascii c \<and> ascii_text s"
  by (auto simp: ascii_text_def)

lemma ascii_text_subset: "set t \<subseteq> set s \<Longrightarrow> ascii_text s \<Longrightarrow> ascii_text t"
  by (auto simp: ascii_text_def)

lemma ascii_text_drop: "ascii_text s \<Longrightarrow> ascii_text (drop n s)"
  by (rule ascii_text_subset [OF set_drop_subset])

lemma ascii_text_dropWhile: "ascii_text s \<Longrightarrow> ascii_text (dropWhile P s)"
  by (rule ascii_text_subset [OF subsetI]) (auto dest: set_dropWhileD)

lemma ascii_text_boundary: "ascii_text s \<Longrightarrow> is_char_boundary s"
  by (simp add: ascii_text_def ascii_boundary)

lemma next_char_ascii: "ascii_text (c # r) \<Longrightarrow> next_char (c # r) = Some ([c], r)"
  using ascii_text_boundary [of "c # r"] by (simp add: next_char_def len_utf8_ascii)

lemma next_char_ascii_rest: "next_char s = Some (ch, rest) \<Longrightarrow> ascii_text s \<Longrightarrow> ascii_text rest"
  by (auto simp: next_char_def ascii_text_drop split: if_splits)

lemma next_char_ascii_defined: "ascii_text s \<Longrightarrow> s \<noteq> [] \<Longrightarrow> next_char s \<noteq> None"
  by (simp add: next_char_def ascii_text_boundary)

lemma quoted_string_ascii_defined: "ascii_text s \<Longrightarrow> quoted_string s \<noteq> None"
proof (induction s rule: quoted_string.induct)
  case (2 c r)
  have "ascii_text (drop 2 (c # r))" by (rule ascii_text_drop [OF 2(4)])
  with 2 show ?case
    using next_char_ascii_defined [of r] next_char_ascii_defined [of "c # r"]
      next_char_ascii_rest [of r] next_char_ascii_rest [of "c # r"]
    by (auto split: option.splits if_splits simp del: not_None_eq)
qed simp

lemma quoted_identifier_ascii_defined: "ascii_text s \<Longrightarrow> quoted_identifier s \<noteq> None"
proof (induction s rule: quoted_identifier.induct)
  case (2 c r)
  have "ascii_text (drop 2 (c # r))" by (rule ascii_text_drop [OF 2(3)])
  with 2 show ?case
    using next_char_ascii_defined [of "c # r"] next_char_ascii_rest [of "c # r"]
    by (auto split: option.splits if_splits simp del: not_None_eq)
qed simp

lemma quoted_string_ascii_rest:
  "quoted_string s = Some (v, rest, closed) \<Longrightarrow> ascii_text s \<Longrightarrow> ascii_text rest"
proof (induction s arbitrary: v rest closed rule: quoted_string.induct)
  case (2 c r)
  then show ?case
    using ascii_text_drop [of "c # r" 2]
    by (fastforce split: option.splits if_splits dest: next_char_ascii_rest)
qed simp

lemma quoted_identifier_ascii_rest:
  "quoted_identifier s = Some (v, rest, closed) \<Longrightarrow> ascii_text s \<Longrightarrow> ascii_text rest"
proof (induction s arbitrary: v rest closed rule: quoted_identifier.induct)
  case (2 c r)
  then show ?case
    using ascii_text_drop [of "c # r" 2]
    by (fastforce split: option.splits if_splits dest: next_char_ascii_rest)
qed simp

lemma block_comment_ascii: "ascii_text s \<Longrightarrow> ascii_text (fst (block_comment d s))"
proof (induction d s rule: block_comment.induct)
  case (1 d s)
  have "ascii_text (tl s)" using 1(4) by (cases s) auto
  with 1 show ?case
    by (subst block_comment.simps) (auto simp: ascii_text_drop)
qed

lemma lex_dollar_ascii: "ascii_text r \<Longrightarrow> lex_dollar c r = (t, rest, closed) \<Longrightarrow> ascii_text rest"
proof -
  have "dollar_quote_delimiter (c # r) \<noteq> Some []"
    by (auto simp: dollar_quote_delimiter_def)
  then show "ascii_text r \<Longrightarrow> lex_dollar c r = (t, rest, closed) \<Longrightarrow> ascii_text rest"
    unfolding lex_dollar_def
    using ascii_text_dropWhile [of r] ascii_text_drop [of r]
    by (auto simp: Let_def drop_Cons' split: if_splits option.splits)
qed

lemma lex_step_ascii_defined:
  assumes "is_ascii c" and "ascii_text r"
  shows "lex_step c r \<noteq> None"
proof -
  have "is_char_boundary (c # r)" and "is_char_boundary (dropWhile is_operator_char r)"
    using assms by (auto intro: ascii_text_boundary ascii_text_dropWhile)
  moreover have "quoted_string r \<noteq> None" and "quoted_identifier r \<noteq> None"
    using quoted_string_ascii_defined quoted_identifier_ascii_defined assms(2) by blast+
  ultimately have "lex_step c r = None \<Longrightarrow> False"
    unfolding lex_step_def by (simp split: if_split_asm prod.split_asm)
  then show ?thesis by blast
qed

lemma lex_step_ascii_rest:
  assumes "lex_step c r = Some (tok, rest, closed)" and "ascii_text r"
  shows "ascii_text rest"
  using assms(1)
proof (cases rule: lex_step_cases)
  case (block depth)
  then show ?thesis
    using block_comment_ascii [OF ascii_text_drop [OF assms(2)], of 1 1] by simp
next
  case line_comment
  then show ?thesis
    using assms(2) by (simp add: line_comment_rest_def ascii_text_dropWhile ascii_text_drop)
next
  case (str v)
  then show ?thesis using quoted_string_ascii_rest assms(2) by blast
next
  case (quoted v)
  then show ?thesis using quoted_identifier_ascii_rest assms(2) by blast
next
  case (dollar t)
  then show ?thesis using lex_dollar_ascii [OF assms(2)] by blast
qed (simp_all add: assms(2) ascii_text_dropWhile)

lemma lex_loop_ascii: "ascii_text s \<Longrightarrow> lex_loop s d \<noteq> None"
proof (induction s d rule: lex_loop.induct)
  case (2 c r depth)
  then obtain tok rest closed where step: "lex_step c r = Some (tok, rest, closed)"
    using lex_step_ascii_defined [of c r] by auto
  with 2(2) have "ascii_text rest" using lex_step_ascii_rest by simp
  obtain depth' paired where "lex_depth tok depth = (depth', paired)" by fastforce
  with 2(1) [OF step] step \<open>ascii_text rest\<close> show ?case by (cases "lex_loop rest depth'") auto
qed simp

subsection \<open>Balanced texts\<close>

fun balanced :: "token list \<Rightarrow> nat \<Rightarrow> bool" where
  "balanced [] depth \<longleftrightarrow> depth = 0"
| "balanced (t # ts) depth \<longleftrightarrow>
     (if t = Symbol CHR ''('' then balanced ts (depth + 1)
      else if t = Symbol CHR '')'' then 0 < depth \<and> balanced ts (depth - 1)
      else balanced ts depth)"

lemma lex_loop_balanced:
  "lex_loop s d = Some (ts, True) \<Longrightarrow> d + length s \<le> u32_max \<Longrightarrow> balanced ts d"
proof (induction s d arbitrary: ts rule: lex_loop.induct)
  case (2 c r depth)
  from 2(2) obtain tok rest depth' us where step: "lex_step c r = Some (tok, rest, True)"
    and depth: "lex_depth tok depth = (depth', True)" and loop: "lex_loop rest depth' = Some (us, True)"
    and ts: "ts = (case tok of None \<Rightarrow> us | Some t \<Rightarrow> t # us)"
    by (auto split: option.splits prod.splits)
  have "length rest \<le> length r" by (rule lex_step_decreasing [OF step])
  moreover have "depth' \<le> depth + 1"
    using depth by (auto simp: lex_depth_def split: if_splits)
  ultimately have "balanced us depth'"
    using 2(1) [OF step refl refl depth [symmetric] loop] 2(3) by simp
  then show ?case
    using depth ts 2(3) by (cases tok) (auto simp: lex_depth_def split: if_splits)
qed auto

subsection \<open>Quoting\<close>

text \<open>A text as the list of its characters, each the bytes of one UTF-8 encoding.\<close>

definition utf8_char :: "string \<Rightarrow> bool" where
  "utf8_char ch \<longleftrightarrow> ch \<noteq> [] \<and> length ch = len_utf8 (hd ch) \<and> \<not> is_continuation (hd ch)"

definition utf8_text :: "string list \<Rightarrow> bool" where
  "utf8_text chars \<longleftrightarrow> (\<forall>ch \<in> set chars. utf8_char ch)"

definition escape_string_char :: "string \<Rightarrow> string" where
  "escape_string_char ch =
     (if ch = [CHR 0x27] then [CHR 0x27, CHR 0x27]
      else if ch = [CHR 0x5C] then [CHR 0x5C, CHR 0x5C] else ch)"

definition sql_string :: "string list \<Rightarrow> string" where
  "sql_string chars = [CHR 0x27] @ concat (map escape_string_char chars) @ [CHR 0x27]"

definition escape_identifier_char :: "string \<Rightarrow> string" where
  "escape_identifier_char ch = (if ch = [CHR 0x22] then [CHR 0x22, CHR 0x22] else ch)"

definition sql_identifier :: "string list \<Rightarrow> string" where
  "sql_identifier chars = [CHR 0x22] @ concat (map escape_identifier_char chars) @ [CHR 0x22]"

lemma next_char_utf8: "utf8_char ch \<Longrightarrow> next_char (ch @ rest) = Some (ch, rest)"
proof -
  assume ch: "utf8_char ch"
  then have "hd (ch @ rest) = hd ch" and "len_utf8 (hd ch) = length ch" and "ch \<noteq> []"
    by (simp_all add: utf8_char_def)
  moreover have "is_char_boundary (ch @ rest)"
    using ch by (cases ch) (simp_all add: utf8_char_def is_char_boundary_def)
  ultimately show ?thesis by (simp add: next_char_def)
qed

lemma utf8_char_single: "utf8_char (c # cs) \<Longrightarrow> is_ascii c \<Longrightarrow> cs = []"
  by (simp add: utf8_char_def len_utf8_ascii)

lemma starts_with_two: "starts_with [a, b] (c # r) \<longleftrightarrow> c = a \<and> r \<noteq> [] \<and> hd r = b"
  by (cases r) (auto simp: starts_with_def)

lemma quoted_string_char:
  assumes "utf8_char ch"
  shows "quoted_string (escape_string_char ch @ rest) =
    map_option (\<lambda>(v, tail, closed). (ch @ v, tail, closed)) (quoted_string rest)"
proof -
  obtain c cs where ch: "ch = c # cs" using assms by (cases ch) (auto simp: utf8_char_def)
  consider "ch = [CHR 0x27]" | "ch = [CHR 0x5C]" | "c \<noteq> CHR 0x27" "c \<noteq> CHR 0x5C"
    using utf8_char_single [of c cs] assms ch
    by (cases "c = CHR 0x27"; cases "c = CHR 0x5C") (simp_all add: is_ascii_def)
  then show ?thesis
  proof cases
    case 1
    then show ?thesis by (simp add: escape_string_char_def starts_with_two)
  next
    case 2
    then have "next_char ([CHR 0x5C] @ rest) = Some ([CHR 0x5C], rest)"
      using next_char_utf8 assms by blast
    with 2 show ?thesis by (simp add: escape_string_char_def starts_with_two)
  next
    case 3
    then show ?thesis
      using next_char_utf8 [OF assms, of rest]
      by (simp add: escape_string_char_def ch starts_with_two)
  qed
qed

lemma quoted_string_roundtrip:
  "utf8_text chars \<Longrightarrow> rest = [] \<or> hd rest \<noteq> CHR 0x27 \<Longrightarrow>
   quoted_string (concat (map escape_string_char chars) @ [CHR 0x27] @ rest)
     = Some (concat chars, rest, True)"
proof (induction chars)
  case Nil
  then show ?case by (auto simp: starts_with_two)
next
  case (Cons ch chars)
  then show ?case by (simp add: utf8_text_def quoted_string_char)
qed

lemma quoted_identifier_char:
  assumes "utf8_char ch"
  shows "quoted_identifier (escape_identifier_char ch @ rest) =
    map_option (\<lambda>(v, tail, closed). (ch @ v, tail, closed)) (quoted_identifier rest)"
proof -
  obtain c cs where ch: "ch = c # cs" using assms by (cases ch) (auto simp: utf8_char_def)
  consider "ch = [CHR 0x22]" | "c \<noteq> CHR 0x22"
    using utf8_char_single [of c cs] assms ch
    by (cases "c = CHR 0x22") (simp_all add: is_ascii_def)
  then show ?thesis
  proof cases
    case 1
    then show ?thesis by (simp add: escape_identifier_char_def starts_with_two)
  next
    case 2
    then show ?thesis
      using next_char_utf8 [OF assms, of rest]
      by (simp add: escape_identifier_char_def ch starts_with_two)
  qed
qed

lemma quoted_identifier_roundtrip:
  "utf8_text chars \<Longrightarrow> rest = [] \<or> hd rest \<noteq> CHR 0x22 \<Longrightarrow>
   quoted_identifier (concat (map escape_identifier_char chars) @ [CHR 0x22] @ rest)
     = Some (concat chars, rest, True)"
proof (induction chars)
  case Nil
  then show ?case by (auto simp: starts_with_two)
next
  case (Cons ch chars)
  then show ?case by (simp add: utf8_text_def quoted_identifier_char)
qed

lemma lex_step_quote:
  "lex_step CHR 0x27 r = map_option (\<lambda>(v, rest, closed). (Some (StringLiteral v), rest, closed)) (quoted_string r)"
  "lex_step CHR 0x22 r = map_option (\<lambda>(v, rest, closed). (Some (Identifier v), rest, closed)) (quoted_identifier r)"
  by (simp_all add: lex_step_def is_ascii_whitespace_def starts_with_two)

lemma lex_loop_sql_string:
  assumes "utf8_text chars" and "rest = [] \<or> hd rest \<noteq> CHR 0x27"
  shows "lex_loop (sql_string chars @ rest) d =
    map_option (\<lambda>(ts, complete). (StringLiteral (concat chars) # ts, complete)) (lex_loop rest d)"
  using quoted_string_roundtrip [OF assms]
  by (simp add: sql_string_def lex_step_quote lex_depth_def)

lemma lex_loop_sql_identifier:
  assumes "utf8_text chars" and "rest = [] \<or> hd rest \<noteq> CHR 0x22"
  shows "lex_loop (sql_identifier chars @ rest) d =
    map_option (\<lambda>(ts, complete). (Identifier (concat chars) # ts, complete)) (lex_loop rest d)"
  using quoted_identifier_roundtrip [OF assms]
  by (simp add: sql_identifier_def lex_step_quote lex_depth_def)

subsection \<open>Segments\<close>

lemma segments_from_join:
  "segments_from ts depth cur index = Some (segments, e) \<Longrightarrow>
   index < e \<and> e \<le> index + length ts \<and> segments \<noteq> []
   \<and> cur @ take (e - index) ts = join [Symbol CHR '',''] segments @ [Symbol CHR '')'']"
proof (induction ts depth cur index arbitrary: segments e rule: segments_from.induct)
  case (2 t ts depth cur index)
  show ?case
  proof (cases "t = Symbol CHR '','' \<and> depth = 0")
    case True
    with 2(5) obtain tail where tail: "segments_from ts 0 [] (index + 1) = Some (tail, e)"
      and segs: "segments = cur # tail"
      by auto
    have ih: "index + 1 < e \<and> e \<le> index + 1 + length ts \<and> tail \<noteq> []
        \<and> [] @ take (e - (index + 1)) ts = join [Symbol CHR '',''] tail @ [Symbol CHR '')'']"
      by (rule 2(3) [OF _ _ _ True tail]) (use True in simp_all)
    then have "e - index = Suc (e - (index + 1))" by linarith
    with ih segs True show ?thesis by (simp add: join_Cons)
  next
    case False
    show ?thesis
    proof (cases "t = Symbol CHR '')'' \<and> depth = 0")
      case True
      with 2(5) show ?thesis by auto
    next
      case closed: False
      then obtain depth' where next_seg: "segments_from ts depth' (cur @ [t]) (index + 1) = Some (segments, e)"
        and ih: "\<And>segs f. segments_from ts depth' (cur @ [t]) (index + 1) = Some (segs, f) \<Longrightarrow>
          index + 1 < f \<and> f \<le> index + 1 + length ts \<and> segs \<noteq> []
          \<and> (cur @ [t]) @ take (f - (index + 1)) ts = join [Symbol CHR '',''] segs @ [Symbol CHR '')'']"
        using 2 False by (auto split: if_splits)
      from ih [OF next_seg] have "e - index = Suc (e - (index + 1))" by linarith
      with ih [OF next_seg] show ?thesis by auto
    qed
  qed
qed simp

lemma split_from_join: "join [Symbol CHR '',''] (split_from ts depth cur) = cur @ ts"
proof (induction ts depth cur rule: split_from.induct)
  case (2 t ts depth cur)
  have "split_from ts d c \<noteq> []" for d c
    by (induction ts d c rule: split_from.induct) simp_all
  with 2 show ?case by (auto simp: join_Cons)
qed simp

subsection \<open>Properties\<close>

text \<open>C39: The lexer is total on ASCII: it never slices inside a character there.\<close>

theorem lexer_total_on_ascii:
  assumes "ascii_text sql"
  shows "\<exists>l. lex_sql sql = Some l"
  using lex_loop_ascii [OF assms, of 0] by (auto simp: lex_sql_def)

theorem lexer_total_on_ascii_witness:
  "\<exists>l. lex_sql ''SELECT $1::int, 'a' /* c */ FROM t;'' = Some l"
  by (rule lexer_total_on_ascii) (simp add: is_ascii_def)

lemma lex_step_panics:
  assumes "\<not> is_ascii c" and "is_continuation k"
  shows "lex_step c (k # r) = None"
proof -
  have k: "\<not> is_operator_char k"
    using assms(2) by (auto simp: is_operator_char_def is_continuation_def)
  have c: "128 \<le> byte c" using assms(1) by (simp add: is_ascii_def)
  then have "\<not> is_ascii_whitespace c" and "\<not> is_ascii_alphabetic c" and "\<not> is_ascii_digit c"
    by (auto simp: is_ascii_whitespace_def is_ascii_alphabetic_def is_ascii_digit_def
        is_ascii_lowercase_def is_ascii_uppercase_def Let_def)
  moreover have "\<not> is_symbol_char c" and "c \<notin> {CHR ''-'', CHR ''/'', CHR 0x27, CHR 0x22, CHR ''$'', CHR ''_''}"
    using c by (auto simp: is_symbol_char_def)
  ultimately show ?thesis
    using k assms(2) by (auto simp: lex_step_def starts_with_two is_char_boundary_def)
qed

subsection \<open>Valid UTF-8\<close>

text \<open>A suffix of a Rust string that starts at a character boundary: a list of whole characters.\<close>

definition whole_char :: "string \<Rightarrow> bool" where
  "whole_char ch \<longleftrightarrow> utf8_char ch \<and> (\<forall>k \<in> set (tl ch). is_continuation k)"

definition valid_utf8 :: "string \<Rightarrow> bool" where
  "valid_utf8 s \<longleftrightarrow> (\<exists>chars. s = concat chars \<and> (\<forall>ch \<in> set chars. whole_char ch))"

lemma valid_utf8_Nil [simp]: "valid_utf8 []"
  by (auto simp: valid_utf8_def intro: exI [of _ "[]"])

lemma valid_utf8_cases:
  assumes "valid_utf8 s" and "s \<noteq> []"
  obtains ch rest where "s = ch @ rest" "whole_char ch" "valid_utf8 rest"
proof -
  from assms(1) obtain chars where chars: "s = concat chars" "\<forall>ch \<in> set chars. whole_char ch"
    by (auto simp: valid_utf8_def)
  with assms(2) obtain ch cs where "chars = ch # cs" by (cases chars) auto
  with chars show thesis by (intro that [of ch "concat cs"]) (auto simp: valid_utf8_def)
qed

lemma continuation_not_ascii: "is_continuation k \<Longrightarrow> \<not> is_ascii k"
  by (simp add: is_continuation_def is_ascii_def Let_def)

lemma whole_char_shape:
  assumes "whole_char ch"
  obtains c ks where "ch = c # ks" "\<not> is_continuation c" "\<forall>k \<in> set ks. is_continuation k" "is_ascii c \<longleftrightarrow> ks = []"
proof -
  obtain c ks where ch: "ch = c # ks" using assms by (cases ch) (auto simp: whole_char_def utf8_char_def)
  with assms have len: "Suc (length ks) = len_utf8 c" and rest: "\<not> is_continuation c" "\<forall>k \<in> set ks. is_continuation k"
    by (simp_all add: whole_char_def utf8_char_def)
  have "is_ascii c \<longleftrightarrow> ks = []" using len by (auto simp: len_utf8_def is_ascii_def Let_def split: if_splits)
  with ch rest show thesis by (rule that)
qed

text \<open>What follows an ASCII byte, or starts with a byte that continues no character, is valid.\<close>

lemma valid_utf8_suffix:
  assumes "valid_utf8 (xs @ ys)" and "xs = [] \<or> is_ascii (last xs) \<or> ys = [] \<or> \<not> is_continuation (hd ys)"
  shows "valid_utf8 ys"
proof -
  from assms(1) obtain chars where "xs @ ys = concat chars" "\<forall>ch \<in> set chars. whole_char ch"
    by (auto simp: valid_utf8_def)
  then show ?thesis using assms(2)
  proof (induction chars arbitrary: xs)
    case (Cons ch chars)
    show ?case
    proof (cases "xs = []")
      case True
      with Cons.prems(1,2) show ?thesis unfolding valid_utf8_def by (intro exI [of _ "ch # chars"]) simp
    next
      case False
      from Cons.prems(2) have "whole_char ch" by simp
      then obtain c ks where ch: "ch = c # ks" "\<forall>k \<in> set ks. is_continuation k" "is_ascii c \<longleftrightarrow> ks = []"
        by (rule whole_char_shape) 
      from Cons.prems(1) have eq: "xs @ ys = ch @ concat chars" by simp
      then consider zs where "xs = ch @ zs" "zs @ ys = concat chars"
        | zs where "ch = xs @ zs" "zs \<noteq> []" "ys = zs @ concat chars"
        by (auto simp: append_eq_append_conv2) (metis append_Nil append_Nil2)
      then show ?thesis
      proof cases
        case (1 zs)
        have "zs = [] \<or> is_ascii (last zs) \<or> ys = [] \<or> \<not> is_continuation (hd ys)"
          using Cons.prems(3) False 1(1) by (auto simp: last_append)
        with Cons.IH [OF 1(2)] Cons.prems(2) show ?thesis by simp
      next
        case (2 zs)
        text \<open>A cut inside a character is neither after an ASCII byte nor before a first byte.\<close>
        from False obtain x us where xs: "xs = x # us" by (cases xs) auto
        with 2 ch(1) have "c = x" and ks: "ks = us @ zs" by simp_all
        then have "\<not> is_ascii c" using ch(3) 2(2) by auto
        moreover have "\<not> is_ascii k" if "k \<in> set us" for k
          using ch(2) ks that continuation_not_ascii by auto
        ultimately have "\<not> is_ascii (last xs)" using xs \<open>c = x\<close> by (cases us) (auto simp: last_in_set)
        moreover have "is_continuation (hd ys)" using ch(2) ks 2(2,3) by (cases zs) auto
        ultimately show ?thesis using Cons.prems(3) False 2(2,3) by auto
      qed
    qed
  qed simp
qed

lemma valid_utf8_ascii_tail: "valid_utf8 (c # r) \<Longrightarrow> is_ascii c \<Longrightarrow> valid_utf8 r"
  using valid_utf8_suffix [of "[c]" r] by simp

lemma valid_utf8_boundary: "valid_utf8 s \<Longrightarrow> is_char_boundary s"
proof (cases "s = []")
  case False
  assume "valid_utf8 s"
  then obtain ch rest where "s = ch @ rest" "whole_char ch" using False by (rule valid_utf8_cases)
  then show ?thesis by (auto simp: is_char_boundary_def elim!: whole_char_shape)
qed (simp add: is_char_boundary_def)

lemma valid_utf8_next_char:
  assumes "valid_utf8 s" and "s \<noteq> []"
  shows "\<exists>ch rest. next_char s = Some (ch, rest) \<and> valid_utf8 rest"
proof -
  obtain ch rest where "s = ch @ rest" "whole_char ch" "valid_utf8 rest"
    using assms by (rule valid_utf8_cases)
  then show ?thesis using next_char_utf8 [of ch rest] by (simp add: whole_char_def)
qed

lemma valid_utf8_dropWhile:
  assumes "valid_utf8 s" and "\<And>c. P c \<Longrightarrow> is_ascii c"
  shows "valid_utf8 (dropWhile P s)"
proof (rule valid_utf8_suffix)
  show "valid_utf8 (takeWhile P s @ dropWhile P s)" using assms(1) by simp
  show "takeWhile P s = [] \<or> is_ascii (last (takeWhile P s)) \<or> dropWhile P s = [] \<or> \<not> is_continuation (hd (dropWhile P s))"
  proof (cases "takeWhile P s = []")
    case False
    then have "last (takeWhile P s) \<in> set (takeWhile P s)" by (rule last_in_set)
    then have "is_ascii (last (takeWhile P s))" using assms(2) set_takeWhileD by metis
    then show ?thesis by simp
  qed simp
qed

lemma quoted_string_valid:
  "valid_utf8 s \<Longrightarrow> \<exists>v rest closed. quoted_string s = Some (v, rest, closed) \<and> valid_utf8 rest"
proof (induction s rule: quoted_string.induct)
  case (2 c r)
  show ?case
  proof (cases "starts_with [CHR 0x27, CHR 0x27] (c # r)")
    case True
    then obtain r' where r: "c = CHR 0x27" "r = CHR 0x27 # r'" by (cases r) (auto simp: starts_with_two)
    then have "valid_utf8 (drop 2 (c # r))"
      using valid_utf8_suffix [of "[CHR 0x27, CHR 0x27]" r'] 2(4) by (simp add: is_ascii_def)
    from 2(1) [OF True this] True show ?thesis by auto
  next
    case pair: False
    show ?thesis
    proof (cases "c = CHR 0x27")
      case True
      then have "valid_utf8 r" using valid_utf8_ascii_tail [OF 2(4)] by (simp add: is_ascii_def)
      with pair True show ?thesis by auto
    next
      case quote: False
      show ?thesis
      proof (cases "c = CHR 0x5C \<and> r \<noteq> []")
        case True
        then have "valid_utf8 r" using valid_utf8_ascii_tail [OF 2(4)] by (simp add: is_ascii_def)
        with True obtain ch rest where next_char: "next_char r = Some (ch, rest)" "valid_utf8 rest"
          using valid_utf8_next_char by blast
        from 2(2) [OF pair quote True next_char(1) refl next_char(2)] pair quote True next_char(1)
        show ?thesis by auto
      next
        case False
        obtain ch rest where next_char: "next_char (c # r) = Some (ch, rest)" "valid_utf8 rest"
          using valid_utf8_next_char [OF 2(4)] by blast
        from 2(3) [OF pair quote False next_char(1) refl next_char(2)] pair quote False next_char(1)
        show ?thesis by auto
      qed
    qed
  qed
qed (simp, rule exI [of _ False], simp)

lemma quoted_identifier_valid:
  "valid_utf8 s \<Longrightarrow> \<exists>v rest closed. quoted_identifier s = Some (v, rest, closed) \<and> valid_utf8 rest"
proof (induction s rule: quoted_identifier.induct)
  case (2 c r)
  show ?case
  proof (cases "starts_with [CHR 0x22, CHR 0x22] (c # r)")
    case True
    then obtain r' where r: "c = CHR 0x22" "r = CHR 0x22 # r'" by (cases r) (auto simp: starts_with_two)
    then have "valid_utf8 (drop 2 (c # r))"
      using valid_utf8_suffix [of "[CHR 0x22, CHR 0x22]" r'] 2(3) by (simp add: is_ascii_def)
    from 2(1) [OF True this] True show ?thesis by auto
  next
    case pair: False
    show ?thesis
    proof (cases "c = CHR 0x22")
      case True
      then have "valid_utf8 r" using valid_utf8_ascii_tail [OF 2(3)] by (simp add: is_ascii_def)
      with pair True show ?thesis by auto
    next
      case False
      obtain ch rest where next_char: "next_char (c # r) = Some (ch, rest)" "valid_utf8 rest"
        using valid_utf8_next_char [OF 2(3)] by blast
      from 2(2) [OF pair False next_char(1) refl next_char(2)] pair False next_char(1)
      show ?thesis by auto
    qed
  qed
qed (simp, rule exI [of _ False], simp)

text \<open>A block comment ends after its closing delimiter or at the end of the text.\<close>

lemma block_comment_ends:
  "block_comment d s = (rest, e) \<Longrightarrow> 0 < d \<Longrightarrow> rest = [] \<or> (\<exists>xs. s = xs @ rest \<and> xs \<noteq> [] \<and> last xs = CHR ''/'')"
proof (induction d s rule: block_comment.induct)
  case (1 d s)
  show ?case
  proof (cases "s = []")
    case True
    with 1(4) show ?thesis by (simp add: block_comment.simps)
  next
    case False
    then have go: "\<not> (s = [] \<or> d = 0)" using 1(5) by simp
    note run = 1(4) [unfolded block_comment.simps [of d s] if_not_P [OF go]]
    show ?thesis
    proof (cases "starts_with ''/*'' s")
      case True
      have "rest = [] \<or> (\<exists>xs. drop 2 s = xs @ rest \<and> xs \<noteq> [] \<and> last xs = CHR ''/'')"
        using 1(1) [OF go True] run True by simp
      moreover have "s = take 2 s @ drop 2 s" by simp
      ultimately show ?thesis by (metis append.assoc append_is_Nil_conv last_appendR)
    next
      case nested: False
      show ?thesis
      proof (cases "starts_with ''*/'' s")
        case True
        then obtain r where s: "s = [CHR ''*'', CHR ''/''] @ r" by (metis append_take_drop_id starts_with_def)
        show ?thesis
        proof (cases "d = 1")
          case True
          with run nested s have "rest = r" by (simp add: block_comment.simps starts_with_two)
          with s show ?thesis by (intro disjI2 exI [of _ "[CHR ''*'', CHR ''/'']"]) simp
        next
          case False
          then have "rest = [] \<or> (\<exists>xs. drop 2 s = xs @ rest \<and> xs \<noteq> [] \<and> last xs = CHR ''/'')"
            using 1(2) [OF go nested True] run nested True 1(5) by simp
          moreover have "s = take 2 s @ drop 2 s" by simp
          ultimately show ?thesis by (metis append.assoc append_is_Nil_conv last_appendR)
        qed
      next
        case False
        have "rest = [] \<or> (\<exists>xs. tl s = xs @ rest \<and> xs \<noteq> [] \<and> last xs = CHR ''/'')"
          using 1(3) [OF go nested False] run nested False 1(5) by simp
        moreover have "s = [hd s] @ tl s" using \<open>s \<noteq> []\<close> by simp
        ultimately show ?thesis by (metis append.assoc append_is_Nil_conv last_appendR)
      qed
    qed
  qed
qed

lemma position_window_split:
  "position_window s w = Some i \<Longrightarrow> s = take i s @ w @ drop (i + length w) s"
proof -
  assume i: "position_window s w = Some i"
  have "take (length w) (drop i s) = w" by (rule position_window_found [OF i])
  then have "drop i s = w @ drop (length w) (drop i s)" by (metis append_take_drop_id)
  then show ?thesis by (metis append_take_drop_id drop_drop add.commute)
qed

lemma dollar_tag_ends: "dollar_tag s = Some w \<Longrightarrow> w \<noteq> [] \<and> last w = CHR ''$'' \<and> s = w @ drop (length w) s"
  by (induction s arbitrary: w) (auto split: if_splits)

lemma lex_dollar_valid:
  assumes "valid_utf8 r" and "lex_dollar CHR ''$'' r = (t, rest, closed)"
  shows "valid_utf8 rest"
proof (cases "r \<noteq> [] \<and> is_ascii_digit (hd r)")
  case True
  then have "rest = dropWhile is_ascii_digit r"
    using assms(2) by (simp add: lex_dollar_def)
  then show ?thesis
    using assms(1) by (auto intro: valid_utf8_dropWhile simp: is_ascii_digit_def is_ascii_def Let_def)
next
  case False
  show ?thesis
  proof (cases "dollar_quote_delimiter (CHR ''$'' # r)")
    case None
    with False assms show ?thesis by (auto simp: lex_dollar_def)
  next
    case (Some w)
    then obtain v where v: "dollar_tag r = Some v" and w: "w = CHR ''$'' # v"
      by (auto simp: dollar_quote_delimiter_def)
    note ends = dollar_tag_ends [OF v]
    let ?body = "drop (length v) r"
    have body: "valid_utf8 ?body"
    proof (rule valid_utf8_suffix)
      show "valid_utf8 (v @ ?body)" using assms(1) ends by simp
    qed (use ends in \<open>simp add: is_ascii_def\<close>)
    show ?thesis
    proof (cases "position_window ?body w")
      case None
      with False Some assms show ?thesis by (auto simp: lex_dollar_def w)
    next
      case (Some e)
      have rest: "rest = drop (e + length w) ?body"
        using False \<open>dollar_quote_delimiter (CHR ''$'' # r) = Some w\<close> Some assms(2)
        by (auto simp: lex_dollar_def w)
      have "?body = (take e ?body @ w) @ rest"
        using position_window_split [OF Some] by (simp add: rest)
      with body have "valid_utf8 ((take e ?body @ w) @ rest)" by simp
      moreover have "is_ascii (last (take e ?body @ w))" using ends by (simp add: w is_ascii_def)
      ultimately show ?thesis by (blast intro: valid_utf8_suffix)
    qed
  qed
qed

text \<open>A step of the lexer at an ASCII byte of a valid text neither panics nor stops inside a character.\<close>

lemma lex_step_valid_defined:
  assumes "valid_utf8 (c # r)" and "is_ascii c"
  shows "lex_step c r \<noteq> None"
proof -
  have r: "valid_utf8 r" by (rule valid_utf8_ascii_tail [OF assms])
  have "is_ascii k" if "is_operator_char k" for k
    using that by (auto simp: is_operator_char_def is_ascii_def)
  then have "is_char_boundary (dropWhile is_operator_char r)"
    by (rule valid_utf8_boundary [OF valid_utf8_dropWhile [OF r]])
  moreover have "is_char_boundary (c # r)" by (rule valid_utf8_boundary [OF assms(1)])
  moreover have "quoted_string r \<noteq> None" and "quoted_identifier r \<noteq> None"
    using quoted_string_valid [OF r] quoted_identifier_valid [OF r] by auto
  ultimately have "lex_step c r = None \<Longrightarrow> False"
    unfolding lex_step_def by (simp split: if_split_asm prod.split_asm)
  then show ?thesis by blast
qed

lemma lex_step_valid_rest:
  assumes "lex_step c r = Some (tok, rest, closed)" and "valid_utf8 (c # r)" and "is_ascii c"
  shows "valid_utf8 rest"
proof -
  have r: "valid_utf8 r" by (rule valid_utf8_ascii_tail [OF assms(2,3)])
  have ascii: "is_ascii_alphanumeric k \<Longrightarrow> is_ascii k" for k
    by (auto simp: is_ascii_alphanumeric_def is_ascii_alphabetic_def is_ascii_lowercase_def is_ascii_uppercase_def
        is_ascii_digit_def is_ascii_def Let_def)
  show ?thesis
    using assms(1)
  proof (cases rule: lex_step_cases)
    case line_comment
    let ?s = "drop 2 (c # r)"
    have hd: "line_comment_rest ?s = [] \<or> \<not> is_continuation (hd (line_comment_rest ?s))"
      unfolding line_comment_rest_def
      using hd_dropWhile [of "\<lambda>c. c \<noteq> CHR 0x0A" ?s] by (cases "dropWhile (\<lambda>c. c \<noteq> CHR 0x0A) ?s = []")
        (simp_all add: is_continuation_def)
    have "c # r = (take 2 (c # r) @ takeWhile (\<lambda>c. c \<noteq> CHR 0x0A) ?s) @ line_comment_rest ?s"
      unfolding line_comment_rest_def by simp
    with assms(2) have "valid_utf8 ((take 2 (c # r) @ takeWhile (\<lambda>c. c \<noteq> CHR 0x0A) ?s) @ line_comment_rest ?s)"
      by (simp only:)
    with hd have "valid_utf8 (line_comment_rest ?s)" by (blast intro: valid_utf8_suffix)
    then show ?thesis by (simp only: line_comment)
  next
    case (block depth)
    let ?s = "drop 2 (c # r)"
    from block_comment_ends [OF block(4)] consider "rest = []"
      | xs where "?s = xs @ rest" "xs \<noteq> []" "last xs = CHR ''/''" by auto
    then show ?thesis
    proof cases
      case (2 xs)
      then have "c # r = (take 2 (c # r) @ xs) @ rest" by (metis append.assoc append_take_drop_id)
      with assms(2) have "valid_utf8 ((take 2 (c # r) @ xs) @ rest)" by (simp only:)
      moreover have "is_ascii (last (take 2 (c # r) @ xs))" using 2 by (simp add: is_ascii_def)
      ultimately show ?thesis by (blast intro: valid_utf8_suffix)
    qed simp
  next
    case (str v)
    then show ?thesis using quoted_string_valid [OF r] by auto
  next
    case (quoted v)
    then show ?thesis using quoted_identifier_valid [OF r] by auto
  next
    case (dollar t)
    then show ?thesis using lex_dollar_valid [OF r] by blast
  next
    case word
    then show ?thesis
      using r ascii by (auto intro!: valid_utf8_dropWhile simp: is_identifier_char_def is_ascii_def)
  next
    case number
    then show ?thesis
      using r ascii by (auto intro!: valid_utf8_dropWhile simp: is_number_char_def is_ascii_def)
  next
    case operator
    then show ?thesis
      using r by (auto intro!: valid_utf8_dropWhile simp: is_operator_char_def is_ascii_def)
  qed (simp_all add: r)
qed

text \<open>The suffixes at which the scan of a text starts a token, a comment or white space.\<close>

inductive scans_to :: "string \<Rightarrow> string \<Rightarrow> bool" where
  here: "scans_to s s"
| step: "lex_step c r = Some (tok, rest, closed) \<Longrightarrow> scans_to rest s \<Longrightarrow> scans_to (c # r) s"

lemma scans_to_panic: "scans_to sql s \<Longrightarrow> s = c # r \<Longrightarrow> lex_step c r = None \<Longrightarrow> lex_loop sql d = None"
proof (induction arbitrary: d rule: scans_to.induct)
  case (step c r tok rest closed s)
  then show ?case by (cases "lex_depth tok d") simp
qed simp

lemma lex_loop_panics:
  "valid_utf8 sql \<Longrightarrow> lex_loop sql d = None \<Longrightarrow> \<exists>c r. scans_to sql (c # r) \<and> \<not> is_ascii c"
proof (induction sql d rule: lex_loop.induct)
  case (2 c r depth)
  show ?case
  proof (cases "is_ascii c")
    case False
    then show ?thesis using scans_to.here by blast
  next
    case True
    then obtain tok rest closed where step: "lex_step c r = Some (tok, rest, closed)"
      using lex_step_valid_defined [OF 2(2)] by auto
    obtain depth' paired where depth: "lex_depth tok depth = (depth', paired)" by fastforce
    have "lex_loop rest depth' = None" using 2(3) by (simp add: step depth)
    with 2(1) [OF step refl refl depth [symmetric]] lex_step_valid_rest [OF step 2(2) True]
    obtain k s where "scans_to rest (k # s)" "\<not> is_ascii k" by blast
    then show ?thesis using scans_to.step [OF step] by blast
  qed
qed simp

lemma scans_to_valid:
  "scans_to sql s \<Longrightarrow> valid_utf8 sql \<Longrightarrow> valid_utf8 s \<or> lex_loop sql d = None"
proof (induction arbitrary: d rule: scans_to.induct)
  case (step c r tok rest closed s)
  show ?case
  proof (cases "is_ascii c")
    case True
    have "valid_utf8 s \<or> lex_loop rest (fst (lex_depth tok d)) = None"
      by (rule step(3) [OF lex_step_valid_rest [OF step(1,4) True]])
    with step(1) show ?thesis by (cases "lex_depth tok d") auto
  next
    case False
    from step(4) obtain ch tail where "c # r = ch @ tail" "whole_char ch" by (auto elim: valid_utf8_cases)
    with False obtain k ks where "r = k # ks" "is_continuation k"
      by (auto elim!: whole_char_shape) (metis append_Cons list.exhaust list.set_intros(1))
    with lex_step_panics [OF False] step(1) show ?thesis by simp
  qed
qed simp

text \<open>C40: The lexer panics on a text exactly when its scan comes to a multi-byte character where a token
  would start, wherever in the text that is: it steps one byte over the character's first byte and slices
  there. Everywhere else, in quotes, comments and dollar quotes, such characters are read.\<close>

theorem lexer_panics_on_unquoted_multibyte:
  assumes "valid_utf8 sql"
  shows "lex_sql sql = None \<longleftrightarrow> (\<exists>c r. scans_to sql (c # r) \<and> \<not> is_ascii c)"
proof
  assume "lex_sql sql = None"
  then have "lex_loop sql 0 = None" by (simp add: lex_sql_def)
  with assms show "\<exists>c r. scans_to sql (c # r) \<and> \<not> is_ascii c" by (rule lex_loop_panics)
next
  assume "\<exists>c r. scans_to sql (c # r) \<and> \<not> is_ascii c"
  then obtain c r where at: "scans_to sql (c # r)" and c: "\<not> is_ascii c" by blast
  have "lex_loop sql 0 = None"
  proof (cases "valid_utf8 (c # r)")
    case True
    then obtain ch tail where "c # r = ch @ tail" "whole_char ch" by (auto elim: valid_utf8_cases)
    with c obtain k ks where "r = k # ks" "is_continuation k"
      by (auto elim!: whole_char_shape) (metis append_Cons list.exhaust list.set_intros(1))
    with lex_step_panics [OF c] have "lex_step c r = None" by simp
    then show ?thesis by (rule scans_to_panic [OF at refl])
  qed (use scans_to_valid [OF at assms] in blast)
  then show "lex_sql sql = None" by (simp add: lex_sql_def)
qed

theorem lexer_panics_on_unquoted_multibyte_witness:
  "lex_sql (''SELECT '' @ [CHR 0xC3, CHR 0xA9]) = None"
proof -
  let ?e = "[CHR 0xC3, CHR 0xA9]"
  have "whole_char ch" if "ch \<in> set (map (\<lambda>c. [c]) ''SELECT '' @ [?e])" for ch
    using that by (auto simp: whole_char_def utf8_char_def len_utf8_def is_continuation_def)
  then have valid: "valid_utf8 (''SELECT '' @ ?e)"
    unfolding valid_utf8_def by (intro exI [of _ "map (\<lambda>c. [c]) ''SELECT '' @ [?e]"]) auto
  have "lex_step CHR ''S'' (''ELECT '' @ ?e) = Some (Some (Identifier ''select''), '' '' @ ?e, True)"
    by code_simp
  moreover have "lex_step CHR '' '' ?e = Some (None, ?e, True)" by code_simp
  ultimately have "scans_to (''SELECT '' @ ?e) ?e"
    using scans_to.step [OF _ scans_to.step [OF _ scans_to.here]] by force
  moreover have "\<not> is_ascii CHR 0xC3" by (simp add: is_ascii_def)
  ultimately show ?thesis
    using lexer_panics_on_unquoted_multibyte [OF valid] by blast
qed

text \<open>C33: Quoted texts cannot escape: whatever characters a value holds, its escaped literal in front
  of any text is read back as exactly that value, and the lexer goes on with the text unchanged;
  and likewise for a quoted identifier.\<close>

theorem quoted_texts_cannot_escape:
  assumes "utf8_text chars" and "lex_sql rest = Some l"
  shows "(rest = [] \<or> hd rest \<noteq> CHR 0x27 \<longrightarrow>
      lex_sql (sql_string chars @ rest)
        = Some (l\<lparr>ls_tokens := StringLiteral (concat chars) # ls_tokens l\<rparr>))
    \<and> (rest = [] \<or> hd rest \<noteq> CHR 0x22 \<longrightarrow>
      lex_sql (sql_identifier chars @ rest)
        = Some (l\<lparr>ls_tokens := Identifier (concat chars) # ls_tokens l\<rparr>))"
proof -
  obtain ts b where "lex_loop rest 0 = Some (ts, b)" and "l = \<lparr>ls_tokens = ts, ls_complete = b\<rparr>"
    using assms(2) by (auto simp: lex_sql_def)
  then show ?thesis
    using lex_loop_sql_string [OF assms(1), of rest 0] lex_loop_sql_identifier [OF assms(1), of rest 0]
    by (auto simp: lex_sql_def)
qed

theorem quoted_texts_cannot_escape_witness:
  "lex_sql (sql_string [''O'', [CHR 0x27], [CHR 0xC3, CHR 0xA9]])
     = Some \<lparr>ls_tokens = [StringLiteral [CHR ''O'', CHR 0x27, CHR 0xC3, CHR 0xA9]], ls_complete = True\<rparr>"
proof -
  have "utf8_text [''O'', [CHR 0x27], [CHR 0xC3, CHR 0xA9]]"
    by (simp add: utf8_text_def utf8_char_def len_utf8_def is_continuation_def)
  moreover have "lex_sql [] = Some \<lparr>ls_tokens = [], ls_complete = True\<rparr>"
    by (simp add: lex_sql_def)
  ultimately show ?thesis
    using quoted_texts_cannot_escape [of "[''O'', [CHR 0x27], [CHR 0xC3, CHR 0xA9]]" "[]"] by simp
qed

text \<open>A text the lexer calls complete is balanced: no closing parenthesis comes before its opening
  one and none is left open.\<close>

theorem complete_text_is_balanced:
  assumes "lex_sql sql = Some l" and "ls_complete l" and "length sql \<le> u32_max"
  shows "balanced (ls_tokens l) 0"
  using assms lex_loop_balanced [of sql 0] by (auto simp: lex_sql_def)

theorem complete_text_is_balanced_witness:
  "balanced [Symbol CHR ''('', Symbol CHR '')''] 0"
proof -
  have "lex_sql ''()'' = Some \<lparr>ls_tokens = [Symbol CHR ''('', Symbol CHR '')''], ls_complete = True\<rparr>"
    by (simp add: lex_sql_def lex_step_def is_ascii_whitespace_def starts_with_def
        is_ascii_alphabetic_def is_ascii_lowercase_def is_ascii_uppercase_def is_ascii_digit_def
        is_symbol_char_def lex_depth_def u32_max_def)
  from complete_text_is_balanced [OF this] show ?thesis by (simp add: u32_max_def)
qed

text \<open>Splitting a parenthesized list or a projection at its top-level commas loses nothing: the
  segments joined by commas are the tokens they were cut from.\<close>

theorem splitting_is_lossless:
  "(parenthesized_segments ts i = Some (segments, e) \<longrightarrow>
      i < e \<and> e \<le> length ts
      \<and> take (e - i) (drop i ts) = [Symbol CHR ''(''] @ join [Symbol CHR '',''] segments @ [Symbol CHR '')''])
   \<and> (us \<noteq> [] \<longrightarrow> join [Symbol CHR '',''] (split_top_level us) = us)"
proof (rule conjI)
  show "parenthesized_segments ts i = Some (segments, e) \<longrightarrow>
      i < e \<and> e \<le> length ts
      \<and> take (e - i) (drop i ts) = [Symbol CHR ''(''] @ join [Symbol CHR '',''] segments @ [Symbol CHR '')'']"
  proof
    assume "parenthesized_segments ts i = Some (segments, e)"
    then have i: "i < length ts" "ts ! i = Symbol CHR ''(''"
      and segs: "segments_from (drop (i + 1) ts) 0 [] (i + 1) = Some (segments, e)"
      by (auto simp: parenthesized_segments_def get_def split: if_splits)
    from segments_from_join [OF segs] have
      join: "i + 1 < e \<and> e \<le> i + 1 + (length ts - (i + 1))
        \<and> take (e - (i + 1)) (drop (i + 1) ts) = join [Symbol CHR '',''] segments @ [Symbol CHR '')'']"
      by simp
    moreover have "drop i ts = Symbol CHR ''('' # drop (i + 1) ts"
      using i by (metis Cons_nth_drop_Suc Suc_eq_plus1)
    moreover have "e - i = Suc (e - (i + 1))" using join by linarith
    ultimately show "i < e \<and> e \<le> length ts
        \<and> take (e - i) (drop i ts) = [Symbol CHR ''(''] @ join [Symbol CHR '',''] segments @ [Symbol CHR '')'']"
      using i by auto
  qed
next
  show "us \<noteq> [] \<longrightarrow> join [Symbol CHR '',''] (split_top_level us) = us"
    using split_from_join [of us 0 "[]"] by (simp add: split_top_level_def)
qed

theorem splitting_is_lossless_witness:
  "join [Symbol CHR '',''] (split_top_level [Literal, Symbol CHR '','', Parameter 1])
     = [Literal, Symbol CHR '','', Parameter 1]
   \<and> take 4 (drop 1 [Literal, Symbol CHR ''('', Literal, Symbol CHR '','', Symbol CHR '')''])
     = [Symbol CHR ''(''] @ join [Symbol CHR '',''] [[Literal], []] @ [Symbol CHR '')'']"
proof -
  have "parenthesized_segments [Literal, Symbol CHR ''('', Literal, Symbol CHR '','', Symbol CHR '')''] 1
      = Some ([[Literal], []], 5)"
    by (simp add: parenthesized_segments_def get_def)
  then show ?thesis
    using splitting_is_lossless by fastforce
qed

end
