(* ===== verification/SqlContract.thy ===== *)
theory SqlContract
  imports SqlQuery SqlLexProps "HOL-Library.Multiset"
begin

text \<open>
  What the analysis of queries promises: which queries it lets through without review, how
  parameters are accounted for, that a query ID identifies a query, and what a policy may name.
\<close>

subsection \<open>When there is no reason\<close>

named_theorems no_reason "when a step adds no reason"

lemma bset_insert_nonempty [simp]: "bset_insert x s \<noteq> []"
  by (cases s) auto

lemma fold_insert_empty [no_reason]:
  "fold (\<lambda>x rs. if P x then bset_insert (f x) rs else rs) xs s = [] \<longleftrightarrow> (\<forall>x \<in> set xs. \<not> P x) \<and> s = []"
  by (induction xs arbitrary: s) auto

lemma fold_insert_empty_not [no_reason]:
  "fold (\<lambda>x rs. if P x then rs else bset_insert (f x) rs) xs s = [] \<longleftrightarrow> (\<forall>x \<in> set xs. P x) \<and> s = []"
  by (induction xs arbitrary: s) auto

lemma fuzz_reasons_empty [no_reason]:
  "fuzz_reasons input qid rs = [] \<longleftrightarrow>
     qid \<notin> set (qi_fuzz_exclusions input)
     \<and> (\<forall>p. qi_fuzz_policy input = Some p \<longrightarrow> fp_denial p = None \<and> fp_issues p = []) \<and> rs = []"
  by (cases "qi_fuzz_policy input") (simp_all add: fuzz_reasons_def Let_def del: not_None_eq)

lemma add_statement_reasons_empty [no_reason]:
  "add_statement_reasons c rs = [] \<longleftrightarrow> is_dml_or_select c \<and> rs = []"
  by (cases c) (simp_all add: add_statement_reasons_def statement_reason_code_def is_dml_or_select_def)

lemma snd_add_reason [simp]: "snd (add_reason r er) = bset_insert r (snd er)"
  "fst (add_reason r er) = fst er" "snd (add_effect e er) = snd er"
  "fst (add_effect e er) = bset_insert e (fst er)"
  by (simp_all add: add_reason_def add_effect_def)

lemma add_token_effect_reasons_empty:
  "snd (add_token_effect_reasons ts er) = [] \<Longrightarrow>
     snd er = [] \<and> \<not> has_locking_read_clause ts \<and> add_token_effect_reasons ts er = er"
  by (auto simp: add_token_effect_reasons_def Let_def split: if_splits)

lemma add_function_reasons_empty:
  "snd (add_function_reasons fs er) = [] \<Longrightarrow>
     snd er = [] \<and> (\<forall>f \<in> set fs. fe_class f = BuiltinReadOnly) \<and> add_function_reasons fs er = er"
proof (induction fs arbitrary: er)
  case (Cons f fs)
  show ?case
  proof (cases "function_reason_code (fe_class f)")
    case None
    then have "fe_class f = BuiltinReadOnly"
      by (auto simp: function_reason_code_def split: function_class_kind.splits)
    with Cons None show ?thesis by simp
  next
    case (Some code)
    with Cons.prems Cons.IH show ?thesis by fastforce
  qed
qed simp

lemma add_parameter_reasons_empty [no_reason]:
  "add_parameter_reasons parameters order rs = [] \<longleftrightarrow>
     0 \<notin> set order \<and> (\<forall>p \<in> set order. p \<le> max_query_parameters)
     \<and> first_gap (filter (\<lambda>p. p > 0) (bset_of order)) 1 = None
     \<and> (\<forall>p \<in> set parameters. Option.bind (qp_data_type p) ts_oid \<noteq> None) \<and> rs = []"
proof -
  have limit: "find (\<lambda>p. p > max_query_parameters) (bset_of order) = None \<longleftrightarrow>
      (\<forall>p \<in> set order. p \<le> max_query_parameters)"
    by (auto simp: find_None_iff not_less)
  show ?thesis
    unfolding add_parameter_reasons_def Let_def fold_insert_empty
    using limit
    by (cases "find (\<lambda>p. p > max_query_parameters) (bset_of order)";
        cases "first_gap (filter (\<lambda>p. p > 0) (bset_of order)) 1") auto
qed

lemma add_object_reasons_empty [no_reason]:
  "add_object_reasons objects rs = [] \<longleftrightarrow> (\<forall>object \<in> set objects. or_resolved object) \<and> rs = []"
  unfolding add_object_reasons_def by (rule fold_insert_empty_not)

lemma add_result_reasons_empty [no_reason]:
  "add_result_reasons columns rs = [] \<longleftrightarrow> (\<forall>column \<in> set columns. rc_data_type column \<noteq> None) \<and> rs = []"
  unfolding add_result_reasons_def by (rule fold_insert_empty_not)

lemma eligible_no_reasons: "query_eligibility_of reasons = Eligible \<longleftrightarrow> reasons = []"
  by (auto simp: query_eligibility_of_def)

subsection \<open>Positions without gaps\<close>

lemma first_gap_None:
  "\<forall>p \<in> set ps. p < u32_max \<Longrightarrow> first_gap ps e = None \<longleftrightarrow> ps = [e..<e + length ps]"
proof (induction ps arbitrary: e)
  case (Cons p ps)
  show ?case
  proof (cases "p = e")
    case True
    then have "min (e + 1) u32_max = e + 1" using Cons.prems by simp
    moreover have "[e..<e + length (p # ps)] = e # [e + 1..<e + 1 + length ps]"
      by (subst upt_rec) simp
    moreover have "first_gap ps (e + 1) = None \<longleftrightarrow> ps = [e + 1..<e + 1 + length ps]"
      by (rule Cons.IH) (use Cons.prems in simp)
    ultimately show ?thesis using True by (simp del: upt_Suc)
  next
    case False
    moreover have "[e..<e + length (p # ps)] = e # [e + 1..<e + 1 + length ps]"
      by (subst upt_rec) simp
    ultimately show ?thesis by (simp del: upt_Suc)
  qed
qed simp

lemma contiguous_positions:
  assumes "0 \<notin> set order" and "\<forall>p \<in> set order. p \<le> max_query_parameters"
    and "first_gap (filter (\<lambda>p. p > 0) (bset_of order)) 1 = None"
  shows "\<exists>n \<le> max_query_parameters. set order = {1..n}"
proof -
  let ?ps = "filter (\<lambda>p. p > 0) (bset_of order)"
  have set: "set ?ps = set order" using assms(1) by (auto intro: Nat.gr0I)
  have "\<forall>p \<in> set ?ps. p < u32_max"
    using assms(2) by (auto simp: set max_query_parameters_def u32_max_def)
  then have "?ps = [1..<1 + length ?ps]"
    using first_gap_None assms(3) by blast
  then have range: "set order = {1..length ?ps}"
    using set by (metis One_nat_def atLeastLessThanSuc_atLeastAtMost plus_1_eq_Suc set_upt)
  moreover have "length ?ps \<le> max_query_parameters"
  proof (cases "length ?ps = 0")
    case False
    then have "length ?ps \<in> set order" unfolding range by (simp add: Suc_le_eq)
    with assms(2) show ?thesis by blast
  qed simp
  ultimately show ?thesis by blast
qed

lemma effects_and_reasons_empty:
  assumes "effects_and_reasons input qid q policy = (effects, [])"
  shows "qid \<notin> set (qi_fuzz_exclusions input)"
    and "\<forall>p. qi_fuzz_policy input = Some p \<longrightarrow> fp_denial p = None \<and> fp_issues p = []"
    and "\<not> qi_dynamic input" and "qf_complete q" and "\<not> qf_multiple q"
    and "is_dml_or_select (qf_class q)" and "\<not> has_locking_read_clause (qf_tokens q)"
    and "\<forall>f \<in> set (qf_functions q). fe_class f = BuiltinReadOnly"
    and "qf_dml q \<Longrightarrow> \<exists>p. policy = Some p \<and> allows_dml p qid"
    and "\<exists>n \<le> max_query_parameters. set (placeholder_order (qf_tokens q)) = {1..n}"
    and "\<forall>p \<in> set (qf_parameters q). Option.bind (qp_data_type p) ts_oid \<noteq> None"
    and "\<forall>object \<in> set (referenced_objects q). or_resolved object"
    and "\<forall>column \<in> set (rs_columns (qf_result q)). rc_data_type column \<noteq> None"
    and "effects = (if qf_dml q then [NetworkTargetCall, TargetMutation] else [NetworkTargetCall])"
proof -
  define effects1 where "effects1 = (if qf_dml q \<or> is_mutating_class (qf_class q)
      then bset_insert TargetMutation [NetworkTargetCall] else [NetworkTargetCall])"
  define er0 where "er0 = (effects1, fuzz_reasons input qid [])"
  define er1 where "er1 = (if qi_dynamic input
      then add_reason (reason DynamicSql) (add_effect UnknownEffect er0) else er0)"
  define er2 where "er2 = (if \<not> qf_complete q
      then add_reason (reason UnbalancedSyntax) (add_effect UnknownEffect er1) else er1)"
  define er3 where "er3 = (if qf_multiple q
      then add_reason (reason MultipleStatements) (add_effect UnknownEffect er2) else er2)"
  define er4 where "er4 = (fst er3, add_statement_reasons (qf_class q) (snd er3))"
  define er5 where "er5 = add_token_effect_reasons (qf_tokens q) er4"
  define er6 where "er6 = add_function_reasons (qf_functions q) er5"
  define er7 where "er7 = (if qf_dml q \<and> \<not> (case policy of None \<Rightarrow> False | Some p \<Rightarrow> allows_dml p qid)
      then add_reason (reason DmlPolicyRequired) er6 else er6)"
  note defs = effects1_def er0_def er1_def er2_def er3_def er4_def er5_def er6_def er7_def
  have whole: "effects_and_reasons input qid q policy =
      (fst er7, add_result_reasons (rs_columns (qf_result q)) (add_object_reasons (referenced_objects q)
         (add_parameter_reasons (qf_parameters q) (placeholder_order (qf_tokens q)) (snd er7))))"
    unfolding effects_and_reasons_def Let_def defs ..
  from assms have effects: "effects = fst er7"
    and columns_ok: "\<forall>column \<in> set (rs_columns (qf_result q)). rc_data_type column \<noteq> None"
    and objects_ok: "\<forall>object \<in> set (referenced_objects q). or_resolved object"
    and params: "add_parameter_reasons (qf_parameters q) (placeholder_order (qf_tokens q)) (snd er7) = []"
    unfolding whole by (simp_all add: no_reason)
  then have p: "0 \<notin> set (placeholder_order (qf_tokens q))"
      "\<forall>p \<in> set (placeholder_order (qf_tokens q)). p \<le> max_query_parameters"
      "first_gap (filter (\<lambda>p. p > 0) (bset_of (placeholder_order (qf_tokens q)))) 1 = None"
    and types_ok: "\<forall>p \<in> set (qf_parameters q). Option.bind (qp_data_type p) ts_oid \<noteq> None"
    and r7: "snd er7 = []"
    unfolding add_parameter_reasons_empty by blast+
  from r7 have r6: "snd er6 = []" and dml: "qf_dml q \<Longrightarrow> \<exists>p. policy = Some p \<and> allows_dml p qid"
    and e7: "er7 = er6"
    by (auto simp: er7_def split: if_splits option.splits)
  from add_function_reasons_empty [OF r6 [unfolded er6_def]]
  have r5: "snd er5 = []" and fun_ok: "\<forall>f \<in> set (qf_functions q). fe_class f = BuiltinReadOnly"
    and e6: "er6 = er5"
    by (simp_all add: er6_def)
  from add_token_effect_reasons_empty [OF r5 [unfolded er5_def]]
  have r4: "snd er4 = []" and locking: "\<not> has_locking_read_clause (qf_tokens q)" and e5: "er5 = er4"
    by (simp_all add: er5_def)
  from r4 have r3: "snd er3 = []" and class_ok: "is_dml_or_select (qf_class q)"
    by (simp_all add: er4_def no_reason)
  from r3 have r2: "snd er2 = []" and multiple: "\<not> qf_multiple q" and e3: "er3 = er2"
    by (auto simp: er3_def split: if_splits)
  from r2 have r1: "snd er1 = []" and complete: "qf_complete q" and e2: "er2 = er1"
    by (auto simp: er2_def split: if_splits)
  from r1 have r0: "snd er0 = []" and dynamic: "\<not> qi_dynamic input" and e1: "er1 = er0"
    by (auto simp: er1_def split: if_splits)
  from r0 have fuzz: "fuzz_reasons input qid [] = []" by (simp add: er0_def)
  have "\<not> is_mutating_class (qf_class q)"
    using class_ok by (auto simp: is_dml_or_select_def is_mutating_class_def)
  then have "effects1 = (if qf_dml q then [NetworkTargetCall, TargetMutation] else [NetworkTargetCall])"
    by (simp add: effects1_def less_execution_effect_def)
  then show "effects = (if qf_dml q then [NetworkTargetCall, TargetMutation] else [NetworkTargetCall])"
    using effects e1 e2 e3 e5 e6 e7 by (simp add: er4_def er0_def)
  show "\<exists>n \<le> max_query_parameters. set (placeholder_order (qf_tokens q)) = {1..n}"
    by (rule contiguous_positions [OF p])
  show "qid \<notin> set (qi_fuzz_exclusions input)"
    and "\<forall>p. qi_fuzz_policy input = Some p \<longrightarrow> fp_denial p = None \<and> fp_issues p = []"
    using fuzz unfolding fuzz_reasons_empty by blast+
  show "\<not> qi_dynamic input" and "qf_complete q" and "\<not> qf_multiple q" by fact+
  show "is_dml_or_select (qf_class q)" and "\<not> has_locking_read_clause (qf_tokens q)"
    and "\<forall>f \<in> set (qf_functions q). fe_class f = BuiltinReadOnly" by fact+
  show "\<forall>p \<in> set (qf_parameters q). Option.bind (qp_data_type p) ts_oid \<noteq> None"
    and "\<forall>object \<in> set (referenced_objects q). or_resolved object"
    and "\<forall>column \<in> set (rs_columns (qf_result q)). rc_data_type column \<noteq> None" by fact+
  show "\<exists>p. policy = Some p \<and> allows_dml p qid" if "qf_dml q" using that by (rule dml)
qed

subsection \<open>A sample query\<close>

definition sample_int :: type_shape where
  "sample_int = TypeShape (Some 23) (Some ''pg_catalog'') ''int4'' ''integer'' None [] None None None"

definition sample_catalog :: catalog_inventory where
  "sample_catalog =
     \<lparr>ca_digest = ''d'', ca_tables = [\<lparr>ct_schema = ''s'', ct_name = ''t'', ct_kind = ''r''\<rparr>],
      ca_columns = [\<lparr>cc_schema = ''s'', cc_table = ''t'', cc_name = ''a'', cc_position = 1,
        cc_data_type = sample_int, cc_nullable = False, cc_default_digest = None\<rparr>],
      ca_constraints = [], ca_indexes = []\<rparr>"

definition sample_input :: static_query_input where
  "sample_input =
     \<lparr>qi_contract_id = ''c'', qi_path = ''q.rs'', qi_line = 7, qi_column = 3, qi_sha256 = ''0a'',
      qi_sql = ''select a from t'', qi_dynamic = False, qi_fuzz_policy = None, qi_fuzz_exclusions = []\<rparr>"

abbreviation sample_tokens :: "token list" where
  "sample_tokens \<equiv> [Identifier ''select'', Identifier ''a'', Identifier ''from'', Identifier ''t'']"

abbreviation sample_table :: object_reference where
  "sample_table \<equiv> ObjectReference Table (Some ''s'') None ''t'' True"

abbreviation sample_column :: object_reference where
  "sample_column \<equiv> ObjectReference Column (Some ''s'') (Some ''t'') ''a'' True"

lemmas ascii_eval = is_ascii_whitespace_def is_ascii_alphabetic_def is_ascii_lowercase_def
  is_ascii_uppercase_def is_ascii_digit_def is_ascii_alphanumeric_def

lemma sample_word:
  "is_ascii_alphabetic c \<or> c = CHR ''_'' \<Longrightarrow> \<not> is_ascii_whitespace c
   \<and> c \<notin> {CHR ''-'', CHR ''/'', CHR 0x27, CHR 0x22, CHR ''$''}"
  by (auto simp: ascii_eval Let_def)

lemma lex_step_word:
  "is_ascii_alphabetic c \<or> c = CHR ''_'' \<Longrightarrow>
   lex_step c r = Some (Some (Identifier (to_ascii_lowercase (c # takeWhile is_identifier_char r))),
     dropWhile is_identifier_char r, True)"
  using sample_word [of c] by (auto simp: lex_step_def starts_with_two)

lemma lex_step_space: "is_ascii_whitespace c \<Longrightarrow> lex_step c r = Some (None, r, True)"
  by (simp add: lex_step_def)

lemma sample_lex: "lex_sql ''select a from t'' = Some \<lparr>ls_tokens = sample_tokens, ls_complete = True\<rparr>"
  by (simp add: lex_sql_def lex_step_word lex_step_space ascii_eval is_identifier_char_def
      to_ascii_lowercase_def ascii_lower_def lex_depth_def)

lemma sample_tables: "collect_table_references sample_tokens 0 = [ObjectReference Table None None ''t'' False]"
  by (simp add: collect_table_references_def table_references_from.simps identifier_of_def get_def
      qualified_identifier_def qualified_rest.simps table_reference_def sort_dedup_def)

lemma sample_aliases: "collect_table_aliases sample_tokens ts = []"
  by (simp add: collect_table_aliases_def table_aliases_from.simps identifier_of_def get_def
      qualified_identifier_def qualified_rest.simps)

lemma sample_facts:
  "query_facts_of ''select a from t'' (Some sample_catalog) = Some
     \<lparr>qf_tokens = sample_tokens, qf_complete = True, qf_multiple = False, qf_class = Select, qf_start = 0,
      qf_tables = [sample_table], qf_parameters = [],
      qf_result = \<lparr>rs_complete = True, rs_columns =
        [\<lparr>rc_position = 1, rc_name = Some ''a'', rc_source = Some sample_column,
          rc_data_type = Some sample_int, rc_nullable = Some False\<rparr>]\<rparr>,
      qf_functions = [], qf_dml = False\<rparr>"
proof -
  have trim: "trim_statement sample_tokens = (sample_tokens, False)"
    by (simp add: trim_statement_def)
  have cls: "classify_statement sample_tokens = (Select, 0)"
    by (simp add: classify_statement_def identifier_of_def get_def statement_class_of_def
        refine_statement_class_def find_top_level_word_def update_depth_def)
  have tables: "resolve_table_references [ObjectReference Table None None ''t'' False] (Some sample_catalog)
      = [sample_table]"
    by (simp add: resolve_table_references_def resolve_table_def sample_catalog_def schema_matches_def)
  have params: "bind_parameters (query_parameters sample_tokens) sample_tokens c st tables aliases cat = []"
    for c st tables aliases cat
    by (simp add: query_parameters_def bind_parameters_def Let_def upt_rec)
  have result: "query_result sample_tokens Select 0 [sample_table] [] (Some sample_catalog) = Some
      \<lparr>rs_complete = True, rs_columns =
        [\<lparr>rc_position = 1, rc_name = Some ''a'', rc_source = Some sample_column,
          rc_data_type = Some sample_int, rc_nullable = Some False\<rparr>]\<rparr>"
    by (simp add: query_result_def find_top_level_word_def update_depth_def split_top_level_def
        result_column_of_def expression_alias_def exact_identifier_def qualified_identifier_def
        identifier_of_def get_def qualified_rest.simps column_reference_def resolve_column_def
        sample_catalog_def schema_matches_def u32_max_def)
  have functions_none: "collect_functions sample_tokens 0 = []"
    by (simp add: collect_functions_def collect_cte_names_def functions_from.simps identifier_of_def get_def
        qualified_identifier_def qualified_rest.simps)
  show ?thesis
    by (simp add: query_facts_of_def sample_lex trim cls sample_tables tables sample_aliases params result
        functions_none is_dml_or_select_def is_dml_class_def has_data_modifying_cte_def Let_def)
qed

subsection \<open>Properties\<close>

text \<open>C24: A query is eligible without further evidence only if it is a single complete static
  statement (no semicolon inside, every quote and parenthesis closed) that reads, or that modifies
  data its policy lists by ID; that takes no row locks; calls only functions classified read-only;
  whose parameters are \<open>$1..$n\<close> without gaps, at most 1024, each of a resolved type; whose tables and
  columns are all resolved and result columns all typed; and that no exclusion or directive denies.
  Its effects never include an unknown one, and without a policy it is a pure read.\<close>

theorem eligible_queries_are_vetted:
  assumes "analyze_query hash input catalog policy = Some q" and "qc_eligibility q = Eligible"
  shows "\<exists>l ts. lex_sql (qi_sql input) = Some l \<and> ls_complete l
      \<and> trim_statement (ls_tokens l) = (ts, False) \<and> \<not> has_locking_read_clause ts
      \<and> \<not> qi_dynamic input
      \<and> qc_statement_class q \<in> {Select, Insert, Update, Delete}
      \<and> (\<forall>f \<in> set (qc_functions q). fe_class f = BuiltinReadOnly)
      \<and> (qc_effects q = [NetworkTargetCall]
         \<or> qc_effects q = [NetworkTargetCall, TargetMutation]
           \<and> (\<exists>p. policy = Some p \<and> qc_id q \<in> set (dml_query_ids p)))
      \<and> (policy = None \<longrightarrow> qc_statement_class q = Select \<and> qc_effects q = [NetworkTargetCall])
      \<and> (\<exists>n \<le> 1024. set (qc_placeholder_order q) = {1..n})
      \<and> (\<forall>p \<in> set (qc_parameters q). \<exists>t. qp_data_type p = Some t \<and> ts_oid t \<noteq> None)
      \<and> (\<forall>object \<in> set (qc_referenced_objects q). or_resolved object)
      \<and> (\<forall>column \<in> set (rs_columns (qc_result q)). rc_data_type column \<noteq> None)
      \<and> qc_id q \<notin> set (qi_fuzz_exclusions input)
      \<and> (\<forall>p. qi_fuzz_policy input = Some p \<longrightarrow> fp_denial p = None \<and> fp_issues p = [])"
proof -
  from assms obtain f effects where facts: "query_facts_of (qi_sql input) catalog = Some f"
    and er: "effects_and_reasons input (query_id hash input) f policy = (effects, [])"
    and q: "qc_id q = query_id hash input" "qc_effects q = effects" "qc_statement_class q = qf_class f"
      "qc_functions q = qf_functions f" "qc_parameters q = qf_parameters f" "qc_result q = qf_result f"
      "qc_referenced_objects q = referenced_objects f"
      "qc_placeholder_order q = placeholder_order (qf_tokens f)"
    by (auto simp: analyze_query_def Let_def eligible_no_reasons split: option.splits prod.splits)
  from facts obtain l where lex: "lex_sql (qi_sql input) = Some l"
    and trim: "trim_statement (ls_tokens l) = (qf_tokens f, qf_multiple f)"
    and complete: "qf_complete f = ls_complete l"
    and dml: "qf_dml f \<longleftrightarrow> is_dml_class (qf_class f) \<or> has_data_modifying_cte (qf_tokens f) (qf_start f)"
    by (auto simp: query_facts_of_def Let_def split: option.splits prod.splits)
  note no = effects_and_reasons_empty [OF er]
  have types: "\<forall>p \<in> set (qc_parameters q). \<exists>t. qp_data_type p = Some t \<and> ts_oid t \<noteq> None"
  proof
    fix p assume "p \<in> set (qc_parameters q)"
    with no(11) q(5) have "Option.bind (qp_data_type p) ts_oid \<noteq> None" by simp
    then show "\<exists>t. qp_data_type p = Some t \<and> ts_oid t \<noteq> None" by (cases "qp_data_type p") auto
  qed
  have class_ok: "qc_statement_class q \<in> {Select, Insert, Update, Delete}"
    using no(6) q(3) by (simp add: is_dml_or_select_def)
  have effects: "qc_effects q = [NetworkTargetCall]
      \<or> qc_effects q = [NetworkTargetCall, TargetMutation]
        \<and> (\<exists>p. policy = Some p \<and> qc_id q \<in> set (dml_query_ids p))"
    using no(9) no(14) q(1,2) by (auto simp: allows_dml_def)
  have pure: "policy = None \<longrightarrow> qc_statement_class q = Select \<and> qc_effects q = [NetworkTargetCall]"
    using no(9) no(14) q(2,3) dml class_ok by (auto simp: is_dml_class_def)
  show ?thesis
    using lex trim complete no(1-5,7,8,10,12,13) q types class_ok effects pure
    by (intro exI [of _ l] exI [of _ "qf_tokens f"]) (simp add: max_query_parameters_def)
qed

theorem eligible_queries_are_vetted_witness:
  "\<exists>q. analyze_query (\<lambda>_. ''00'') sample_input (Some sample_catalog) None = Some q
     \<and> qc_statement_class q = Select \<and> qc_effects q = [NetworkTargetCall]"
proof -
  define f where "f = the (query_facts_of ''select a from t'' (Some sample_catalog))"
  have facts: "query_facts_of (qi_sql sample_input) (Some sample_catalog) = Some f"
    using sample_facts by (simp add: f_def sample_input_def)
  have "effects_and_reasons sample_input (query_id (\<lambda>_. ''00'') sample_input) f None
      = ([NetworkTargetCall], [])"
    using sample_facts
    by (simp add: f_def effects_and_reasons_def Let_def sample_input_def fuzz_reasons_def
        is_mutating_class_def add_statement_reasons_def statement_reason_code_def
        add_token_effect_reasons_def has_word_def has_locking_read_clause_def words_of_def
        identifier_of_def has_window_def starts_with_def get_def add_parameter_reasons_def
        placeholder_order_def option_list_def bset_of_def bset_extend_def add_object_reasons_def
        referenced_objects_def sort_dedup_def insort_key.simps less_eq_object_reference_def
        object_reference_key_def less_eq_object_kind_def less_object_kind_def add_result_reasons_def)
  then obtain q where q: "analyze_query (\<lambda>_. ''00'') sample_input (Some sample_catalog) None = Some q"
    and "qc_eligibility q = Eligible"
    using facts by (simp add: analyze_query_def Let_def query_eligibility_of_def)
  with eligible_queries_are_vetted [OF this] show ?thesis by blast
qed

subsection \<open>Query IDs\<close>

lemma length_be_bytes [simp]: "length (be_bytes k n) = k"
  by (induction k arbitrary: n) simp_all

lemma be_bytes_inj: "be_bytes k m = be_bytes k n \<Longrightarrow> m < 256 ^ k \<Longrightarrow> n < 256 ^ k \<Longrightarrow> m = n"
proof (induction k arbitrary: m n)
  case (Suc k)
  from Suc.prems(1) have "be_bytes k (m div 256) = be_bytes k (n div 256)"
    and "char_of (m mod 256) = (char_of (n mod 256) :: char)"
    by simp_all
  then have "m div 256 = n div 256" and "m mod 256 = n mod 256"
    using Suc.IH Suc.prems(2,3) by (simp_all add: less_mult_imp_div_less mult.commute char_of_eq_iff take_bit_eq_mod)
  then show ?case by (metis div_mult_mod_eq)
qed simp

lemma length_prefixed_inj:
  assumes "length_prefixed a @ x = length_prefixed b @ y"
    and "length a < 256 ^ 8" and "length b < 256 ^ 8"
  shows "a = b \<and> x = y"
proof -
  have "be_bytes 8 (length a) = be_bytes 8 (length b)" and rest: "a @ x = b @ y"
    using assms(1) by (simp_all add: length_prefixed_def append_eq_append_conv)
  then have "length a = length b"
    using be_bytes_inj assms(2,3) by blast
  with rest show ?thesis by simp
qed

text \<open>The sizes the code's fixed-width encodings hold: lengths in 64 bits, positions in 32.\<close>

definition encodable :: "static_query_input \<Rightarrow> bool" where
  "encodable input \<longleftrightarrow>
     length (qi_contract_id input) < 256 ^ 8 \<and> length (qi_path input) < 256 ^ 8
     \<and> length (qi_sha256 input) < 256 ^ 8 \<and> qi_line input < 256 ^ 4 \<and> qi_column input < 256 ^ 4"

lemma query_preimage_inj:
  assumes "query_preimage a = query_preimage b" and "encodable a" and "encodable b"
  shows "qi_contract_id a = qi_contract_id b \<and> qi_path a = qi_path b \<and> qi_sha256 a = qi_sha256 b
    \<and> qi_line a = qi_line b \<and> qi_column a = qi_column b"
proof -
  from assms(1) have e: "length_prefixed (qi_contract_id a) @ length_prefixed (qi_path a)
      @ length_prefixed (qi_sha256 a) @ be_bytes 4 (qi_line a) @ be_bytes 4 (qi_column a)
    = length_prefixed (qi_contract_id b) @ length_prefixed (qi_path b)
      @ length_prefixed (qi_sha256 b) @ be_bytes 4 (qi_line b) @ be_bytes 4 (qi_column b)"
    by (simp add: query_preimage_def)
  note bounds = assms(2,3) [unfolded encodable_def]
  have 1: "qi_contract_id a = qi_contract_id b" and r1: "length_prefixed (qi_path a)
      @ length_prefixed (qi_sha256 a) @ be_bytes 4 (qi_line a) @ be_bytes 4 (qi_column a)
    = length_prefixed (qi_path b)
      @ length_prefixed (qi_sha256 b) @ be_bytes 4 (qi_line b) @ be_bytes 4 (qi_column b)"
    using length_prefixed_inj [OF e] bounds by blast+
  have 2: "qi_path a = qi_path b" and r2: "length_prefixed (qi_sha256 a) @ be_bytes 4 (qi_line a)
      @ be_bytes 4 (qi_column a)
    = length_prefixed (qi_sha256 b) @ be_bytes 4 (qi_line b) @ be_bytes 4 (qi_column b)"
    using length_prefixed_inj [OF r1] bounds by blast+
  have 3: "qi_sha256 a = qi_sha256 b"
    and r3: "be_bytes 4 (qi_line a) @ be_bytes 4 (qi_column a) = be_bytes 4 (qi_line b) @ be_bytes 4 (qi_column b)"
    using length_prefixed_inj [OF r2] bounds by blast+
  from r3 have "be_bytes 4 (qi_line a) = be_bytes 4 (qi_line b)"
    and "be_bytes 4 (qi_column a) = be_bytes 4 (qi_column b)"
    by (simp_all add: append_eq_append_conv)
  with bounds have "qi_line a = qi_line b" and "qi_column a = qi_column b"
    using be_bytes_inj by blast+
  with 1 2 3 show ?thesis by simp
qed

text \<open>A query ID identifies where a query stands and what it is: unless the hash collides on the
  two preimages, two queries share an ID exactly when contract, path, digest, line and column agree;
  the length prefixes leave no other way to the same preimage.\<close>

theorem query_id_identifies:
  assumes "encodable a" and "encodable b" and "inj_on hash {query_preimage a, query_preimage b}"
  shows "query_id hash a = query_id hash b \<longleftrightarrow>
    qi_contract_id a = qi_contract_id b \<and> qi_path a = qi_path b \<and> qi_sha256 a = qi_sha256 b
    \<and> qi_line a = qi_line b \<and> qi_column a = qi_column b"
proof -
  have "query_id hash a = query_id hash b \<longleftrightarrow> query_preimage a = query_preimage b"
    using inj_on_eq_iff [OF assms(3)] by (simp add: query_id_def)
  also have "\<dots> \<longleftrightarrow> qi_contract_id a = qi_contract_id b \<and> qi_path a = qi_path b \<and> qi_sha256 a = qi_sha256 b
      \<and> qi_line a = qi_line b \<and> qi_column a = qi_column b" (is "?l = ?r")
  proof
    assume ?l
    then show ?r by (rule query_preimage_inj [OF _ assms(1,2)])
  next
    assume ?r
    then show ?l by (simp only: query_preimage_def)
  qed
  finally show ?thesis .
qed

theorem query_id_identifies_witness:
  "query_id id sample_input \<noteq> query_id id (sample_input\<lparr>qi_line := 8\<rparr>)"
  using query_id_identifies [of sample_input "sample_input\<lparr>qi_line := 8\<rparr>" id]
  by (simp add: encodable_def sample_input_def)

subsection \<open>Parameters\<close>

lemma parameter_occurrences_wf: "bmap_wf m \<Longrightarrow> bmap_wf (parameter_occurrences ts m)"
  by (induction ts arbitrary: m) (auto split: option.split simp: bmap_wf_entry)

lemma parameter_occurrences_get:
  "bmap_get (parameter_occurrences ts m) p =
     (let n = count_list (placeholder_order ts) p
      in if n = 0 then bmap_get m p
         else Some ((case bmap_get m p of None \<Rightarrow> 0 | Some v \<Rightarrow> v) + n))"
proof (induction ts arbitrary: m)
  case (Cons t ts)
  then show ?case
    by (cases t) (auto simp: placeholder_order_def option_list_def Let_def split: option.splits)
qed (simp add: placeholder_order_def)

lemma bind_occurrence_frame [simp]:
  "qp_position (bind_occurrence bs tables catalog p) = qp_position p"
  "qp_occurrence_count (bind_occurrence bs tables catalog p) = qp_occurrence_count p"
  by (simp_all add: bind_occurrence_def Let_def)

lemma update_first_map:
  "(\<And>x. g (f x) = g x) \<Longrightarrow> map g (update_first P f xs) = map g xs"
proof -
  assume g: "\<And>x. g (f x) = g x"
  show ?thesis
    by (auto simp: update_first_def map_update g find_Some_iff list_update_same_conv
        split: option.split)
qed

lemma bind_parameters_frame:
  "map (\<lambda>p. (qp_position p, qp_occurrence_count p)) (bind_parameters ps ts c st tables aliases cat)
     = map (\<lambda>p. (qp_position p, qp_occurrence_count p)) ps"
proof -
  have "map (\<lambda>p. (qp_position p, qp_occurrence_count p))
      (fold (\<lambda>index ps. case parameter_position (ts ! index) of None \<Rightarrow> ps
         | Some position \<Rightarrow> update_first (\<lambda>p. qp_position p = position)
             (bind_occurrence (F position index) tables cat) ps) is ps)
    = map (\<lambda>p. (qp_position p, qp_occurrence_count p)) ps" for F "is"
  proof (induction "is" arbitrary: ps)
    case (Cons i "is")
    then show ?case by (auto simp: update_first_map split: option.split)
  qed simp
  then show ?thesis by (simp add: bind_parameters_def Let_def)
qed

text \<open>The parameters of an analysed query are the positions its text uses, in ascending order,
  each once and with the number of its occurrences.\<close>

theorem parameters_are_counted:
  assumes "analyze_query hash input catalog policy = Some q"
  shows "sorted_wrt (<) (map qp_position (qc_parameters q))
    \<and> set (map qp_position (qc_parameters q)) = set (qc_placeholder_order q)
    \<and> (\<forall>p \<in> set (qc_parameters q).
         qp_occurrence_count p = count_list (qc_placeholder_order q) (qp_position p))"
proof -
  from assms obtain f where facts: "query_facts_of (qi_sql input) catalog = Some f"
    and q: "qc_parameters q = qf_parameters f" "qc_placeholder_order q = placeholder_order (qf_tokens f)"
    by (auto simp: analyze_query_def Let_def split: option.splits prod.splits)
  let ?ts = "qf_tokens f" and ?occ = "parameter_occurrences (qf_tokens f) []"
  from facts have "map (\<lambda>p. (qp_position p, qp_occurrence_count p)) (qf_parameters f)
      = map (\<lambda>p. (qp_position p, qp_occurrence_count p)) (query_parameters ?ts)"
    by (auto simp: query_facts_of_def Let_def bind_parameters_frame split: option.splits prod.splits)
  also have "\<dots> = ?occ"
    by (simp add: query_parameters_def case_prod_beta comp_def)
  finally have params: "map (\<lambda>p. (qp_position p, qp_occurrence_count p)) (qf_parameters f) = ?occ" .
  from arg_cong [OF this, of "map fst"]
  have positions: "map qp_position (qf_parameters f) = map fst ?occ"
    by (simp add: comp_def)
  have wf: "bmap_wf ?occ" by (rule parameter_occurrences_wf) simp
  have get: "(p, n) \<in> set ?occ \<longleftrightarrow> n = count_list (placeholder_order ?ts) p \<and> n \<noteq> 0" for p n
    using bmap_get_iff [OF wf, of p n] parameter_occurrences_get [of ?ts "[]" p]
    by (auto simp: Let_def split: if_splits)
  have "set (map fst ?occ) = set (placeholder_order ?ts)"
  proof (intro set_eqI iffI)
    fix p assume "p \<in> set (map fst ?occ)"
    then obtain n where "(p, n) \<in> set ?occ" by auto
    then have "count_list (placeholder_order ?ts) p \<noteq> 0" unfolding get by blast
    then show "p \<in> set (placeholder_order ?ts)" unfolding count_list_0_iff by blast
  next
    fix p assume "p \<in> set (placeholder_order ?ts)"
    then have "count_list (placeholder_order ?ts) p \<noteq> 0" unfolding count_list_0_iff by blast
    then have "(p, count_list (placeholder_order ?ts) p) \<in> set ?occ"
      unfolding get by blast
    then show "p \<in> set (map fst ?occ)" by force
  qed
  moreover have "qp_occurrence_count p = count_list (placeholder_order ?ts) (qp_position p)"
    if "p \<in> set (qf_parameters f)" for p
  proof -
    have "(qp_position p, qp_occurrence_count p) \<in> set ?occ"
      unfolding params [symmetric] using that by simp
    with get show ?thesis by blast
  qed
  ultimately show ?thesis
    using wf by (simp add: q positions bmap_wf_def del: set_map)
qed

theorem parameters_are_counted_witness:
  "\<exists>q. analyze_query (\<lambda>_. ''00'') sample_input (Some sample_catalog) None = Some q
     \<and> map qp_position (qc_parameters q) = [] \<and> sorted_wrt (<) (map qp_position (qc_parameters q))"
proof -
  have "query_facts_of (qi_sql sample_input) (Some sample_catalog) \<noteq> None"
    using sample_facts by (simp add: sample_input_def)
  then have "analyze_query (\<lambda>_. ''00'') sample_input (Some sample_catalog) None \<noteq> None"
    by (simp add: analyze_query_def Let_def split: option.split prod.split)
  then obtain q where q: "analyze_query (\<lambda>_. ''00'') sample_input (Some sample_catalog) None = Some q"
    by blast
  moreover have "qc_parameters q = []"
    using q sample_facts by (auto simp: analyze_query_def Let_def sample_input_def split: prod.splits)
  ultimately show ?thesis using parameters_are_counted [OF q] by auto
qed

subsection \<open>Policies\<close>

lemma check_policy_ids_Inr:
  "check_policy_ids ids seen queries = Inr () \<longleftrightarrow>
     distinct ids \<and> set ids \<inter> set seen = {}
     \<and> (\<forall>i \<in> set ids. \<exists>q. bmap_get queries i = Some q \<and> policy_allows q)"
  by (induction ids arbitrary: seen) (auto split: option.splits)

lemma eligible_queries_get:
  "bmap_get (eligible_queries queries contracts) i = Some q \<Longrightarrow>
     qc_id q = i \<and> (\<exists>c \<in> set contracts. (c, q) \<in> set queries)"
proof -
  have "bmap_get (fold (\<lambda>(contract_id, query) m. bmap_insert (qc_id query) query m) xs m) i = Some q \<Longrightarrow>
      bmap_get m i = Some q \<or> (\<exists>c. (c, q) \<in> set xs \<and> qc_id q = i)" for xs m
    by (induction xs arbitrary: m) (fastforce split: if_splits)+
  from this [of "filter (\<lambda>(c, _). c \<in> set contracts) queries" "[]"]
  show "bmap_get (eligible_queries queries contracts) i = Some q \<Longrightarrow> ?thesis"
    by (auto simp: eligible_queries_def)
qed

text \<open>A policy of data-modifying query IDs is accepted only if it names each ID once, and every ID
  it names belongs to a collected query of an execution contract whose effects include a target
  mutation and that is no schema change, transaction control, privilege or administrative
  statement.\<close>

theorem accepted_policy_names_dml:
  assumes "validate_query_policy policy queries contracts = Inr ()"
  shows "distinct (dml_query_ids policy)
    \<and> (\<forall>i \<in> set (dml_query_ids policy). \<exists>c q. (c, q) \<in> set queries \<and> c \<in> set contracts \<and> qc_id q = i
         \<and> TargetMutation \<in> set (qc_effects q)
         \<and> qc_statement_class q \<in> {Select, Insert, Update, Delete})"
proof -
  from assms have ids: "distinct (dml_query_ids policy)"
    and known: "\<forall>i \<in> set (dml_query_ids policy).
      \<exists>q. bmap_get (eligible_queries queries contracts) i = Some q \<and> policy_allows q"
    by (simp_all add: validate_query_policy_def check_policy_ids_Inr)
  have allowed: "policy_allows q \<Longrightarrow> TargetMutation \<in> set (qc_effects q)
      \<and> qc_statement_class q \<in> {Select, Insert, Update, Delete}" for q
    by (cases "qc_statement_class q") (simp_all add: policy_allows_def)
  show ?thesis
  proof (intro conjI ballI)
    fix i assume "i \<in> set (dml_query_ids policy)"
    with known obtain q where get: "bmap_get (eligible_queries queries contracts) i = Some q"
      and "policy_allows q" by blast
    with eligible_queries_get [OF get] allowed
    show "\<exists>c q. (c, q) \<in> set queries \<and> c \<in> set contracts \<and> qc_id q = i
        \<and> TargetMutation \<in> set (qc_effects q) \<and> qc_statement_class q \<in> {Select, Insert, Update, Delete}"
      by blast
  qed (rule ids)
qed

definition sample_dml_contract :: query_contract where
  "sample_dml_contract =
     \<lparr>qc_id = ''query_1'', qc_path = ''q.rs'', qc_line = 1, qc_column = 1, qc_sha256 = ''0'',
      qc_dynamic = False, qc_placeholder_order = [], qc_parameters = [], qc_statement_class = Delete,
      qc_referenced_objects = [], qc_result = \<lparr>rs_complete = True, rs_columns = []\<rparr>, qc_functions = [],
      qc_effects = [NetworkTargetCall, TargetMutation], qc_eligibility = RequiresPolicy,
      qc_eligibility_reasons = [reason DmlPolicyRequired], qc_fuzz_policy = None,
      qc_catalog_digest = None\<rparr>"

theorem accepted_policy_names_dml_witness:
  "validate_query_policy \<lparr>dml_query_ids = [''query_1'']\<rparr> [(''c'', sample_dml_contract)] [''c''] = Inr ()
   \<and> distinct [''query_1'']"
proof -
  have valid: "validate_query_policy \<lparr>dml_query_ids = [''query_1'']\<rparr> [(''c'', sample_dml_contract)] [''c''] = Inr ()"
    by (simp add: validate_query_policy_def eligible_queries_def sample_dml_contract_def policy_allows_def
      bmap_get_def)
  with accepted_policy_names_dml [OF valid] show ?thesis by simp
qed

text \<open>The class of a function is the class of its last name part: a schema in front of a read-only
  built-in's name does not change it, whichever schema it is.\<close>

theorem function_class_ignores_schema:
  assumes "CHR ''.'' \<notin> set local_name"
  shows "function_class (schema @ ''.'' @ local_name) = function_class local_name"
proof -
  have single: "split_on (\<lambda>c. c = CHR ''.'') local_name = [local_name]"
    using assms by (induction local_name) auto
  have "last (split_on (\<lambda>c. c = CHR ''.'') (schema @ ''.'' @ local_name)) = local_name"
  proof (induction schema)
    case (Cons c schema)
    obtain w ws where ws: "split_on (\<lambda>c. c = CHR ''.'') (schema @ ''.'' @ local_name) = w # ws"
      by (meson list.exhaust split_on_nonempty)
    have "ws \<noteq> []"
    proof -
      have "length (split_on (\<lambda>c. c = CHR ''.'') (schema @ ''.'' @ local_name)) > 1"
        by (induction schema) (auto simp: single split: list.splits)
      with ws show ?thesis by auto
    qed
    with Cons ws show ?case by auto
  qed (simp add: single)
  then show ?thesis by (simp add: function_class_def single Let_def del: append_Cons)
qed

theorem function_class_ignores_schema_witness:
  "function_class (''evil'' @ ''.'' @ ''abs'') = BuiltinReadOnly"
  using function_class_ignores_schema [of "''abs''" "''evil''"]
  by (simp add: function_class_def filesystem_functions_def external_link_functions_def
      privileged_functions_def read_only_functions_def)

end
