(* ===== verification/SourceGraph.thy ===== *)
theory SourceGraph
  imports DomainModel
begin

text \<open>
  The source graph (\<open>src/domain/source_graph.rs\<close>): facts observed from source code, shared by the
  analyses. Project, node and context IDs are the strings the source's newtypes wrap. What a callable
  symbol's contract holds is not looked at by any operation here, so its type is a parameter.
\<close>

type_synonym project_id = string
type_synonym node_id = string
type_synonym context_id = string

subsection \<open>Enumerations, in the derived order\<close>

datatype source_language =
  JavaScript | TypeScript | Svelte | Python | Rust

fun source_language_rank :: "source_language \<Rightarrow> nat" where
  "source_language_rank JavaScript = 0"
| "source_language_rank TypeScript = 1"
| "source_language_rank Svelte = 2"
| "source_language_rank Python = 3"
| "source_language_rank Rust = 4"

lemma source_language_rank_inj: "source_language_rank a = source_language_rank b \<Longrightarrow> a = b"
  by (cases a; cases b) simp_all

instantiation source_language :: linorder
begin

definition less_eq_source_language :: "source_language \<Rightarrow> source_language \<Rightarrow> bool" where
  "less_eq_source_language a b \<longleftrightarrow> source_language_rank a \<le> source_language_rank b"

definition less_source_language :: "source_language \<Rightarrow> source_language \<Rightarrow> bool" where
  "less_source_language a b \<longleftrightarrow> source_language_rank a < source_language_rank b"

instance
  by standard (auto simp: less_eq_source_language_def less_source_language_def dest: source_language_rank_inj)

end

datatype source_symbol_kind =
  SymModule | SymClass | SymFunction | SymMethod | SymVariable
| SymConstant | SymInterface | SymStruct | SymEnum | SymTrait
| SymTypeAlias | SymProperty | SymOther

fun source_symbol_kind_of :: "symbol_kind \<Rightarrow> source_symbol_kind" where
  "source_symbol_kind_of ModuleKind = SymModule"
| "source_symbol_kind_of ClassKind = SymClass"
| "source_symbol_kind_of MethodKind = SymMethod"
| "source_symbol_kind_of FunctionKind = SymFunction"
| "source_symbol_kind_of InterfaceKind = SymInterface"
| "source_symbol_kind_of StructKind = SymStruct"
| "source_symbol_kind_of ConstKind = SymConstant"
| "source_symbol_kind_of PropertyKind = SymProperty"
| "source_symbol_kind_of EnumKind = SymEnum"
| "source_symbol_kind_of TraitKind = SymTrait"
| "source_symbol_kind_of TypeAliasKind = SymTypeAlias"
| "source_symbol_kind_of DecoratorKind = SymOther"

datatype source_visibility =
  VisPublic | VisInternal | VisPrivate | VisUnknown

fun source_visibility_of :: "visibility \<Rightarrow> source_visibility" where
  "source_visibility_of Public = VisPublic"
| "source_visibility_of Internal = VisInternal"
| "source_visibility_of Private = VisPrivate"
| "source_visibility_of UnknownVisibility = VisUnknown"

datatype analysis_completeness =
  Complete | Partial | Unsupported

fun analysis_completeness_rank :: "analysis_completeness \<Rightarrow> nat" where
  "analysis_completeness_rank Complete = 0"
| "analysis_completeness_rank Partial = 1"
| "analysis_completeness_rank Unsupported = 2"

lemma analysis_completeness_rank_inj: "analysis_completeness_rank a = analysis_completeness_rank b \<Longrightarrow> a = b"
  by (cases a; cases b) simp_all

instantiation analysis_completeness :: linorder
begin

definition less_eq_analysis_completeness :: "analysis_completeness \<Rightarrow> analysis_completeness \<Rightarrow> bool" where
  "less_eq_analysis_completeness a b \<longleftrightarrow> analysis_completeness_rank a \<le> analysis_completeness_rank b"

definition less_analysis_completeness :: "analysis_completeness \<Rightarrow> analysis_completeness \<Rightarrow> bool" where
  "less_analysis_completeness a b \<longleftrightarrow> analysis_completeness_rank a < analysis_completeness_rank b"

instance
  by standard (auto simp: less_eq_analysis_completeness_def less_analysis_completeness_def dest: analysis_completeness_rank_inj)

end

fun worst :: "analysis_completeness \<Rightarrow> analysis_completeness \<Rightarrow> analysis_completeness" where
  "worst Unsupported b = Unsupported"
| "worst a Unsupported = Unsupported"
| "worst Partial b = Partial"
| "worst a Partial = Partial"
| "worst Complete Complete = Complete"

datatype finding_confidence =
  High | Medium | Low

datatype context_role =
  Production | Test | Tooling

fun context_role_rank :: "context_role \<Rightarrow> nat" where
  "context_role_rank Production = 0"
| "context_role_rank Test = 1"
| "context_role_rank Tooling = 2"

lemma context_role_rank_inj: "context_role_rank a = context_role_rank b \<Longrightarrow> a = b"
  by (cases a; cases b) simp_all

instantiation context_role :: linorder
begin

definition less_eq_context_role :: "context_role \<Rightarrow> context_role \<Rightarrow> bool" where
  "less_eq_context_role a b \<longleftrightarrow> context_role_rank a \<le> context_role_rank b"

definition less_context_role :: "context_role \<Rightarrow> context_role \<Rightarrow> bool" where
  "less_context_role a b \<longleftrightarrow> context_role_rank a < context_role_rank b"

instance
  by standard (auto simp: less_eq_context_role_def less_context_role_def dest: context_role_rank_inj)

end

datatype context_scope =
  Runtime | PublicSurface

datatype source_edge_kind =
  Contains | ModuleDependency | Import | ReExport | DynamicImport
| GlobImport | Require | WorkspaceSourceBypass | LexicalReference | AssumeReachable

fun source_edge_kind_rank :: "source_edge_kind \<Rightarrow> nat" where
  "source_edge_kind_rank Contains = 0"
| "source_edge_kind_rank ModuleDependency = 1"
| "source_edge_kind_rank Import = 2"
| "source_edge_kind_rank ReExport = 3"
| "source_edge_kind_rank DynamicImport = 4"
| "source_edge_kind_rank GlobImport = 5"
| "source_edge_kind_rank Require = 6"
| "source_edge_kind_rank WorkspaceSourceBypass = 7"
| "source_edge_kind_rank LexicalReference = 8"
| "source_edge_kind_rank AssumeReachable = 9"

lemma source_edge_kind_rank_inj: "source_edge_kind_rank a = source_edge_kind_rank b \<Longrightarrow> a = b"
  by (cases a; cases b) simp_all

instantiation source_edge_kind :: linorder
begin

definition less_eq_source_edge_kind :: "source_edge_kind \<Rightarrow> source_edge_kind \<Rightarrow> bool" where
  "less_eq_source_edge_kind a b \<longleftrightarrow> source_edge_kind_rank a \<le> source_edge_kind_rank b"

definition less_source_edge_kind :: "source_edge_kind \<Rightarrow> source_edge_kind \<Rightarrow> bool" where
  "less_source_edge_kind a b \<longleftrightarrow> source_edge_kind_rank a < source_edge_kind_rank b"

instance
  by standard (auto simp: less_eq_source_edge_kind_def less_source_edge_kind_def dest: source_edge_kind_rank_inj)

end

datatype boundary_kind =
  BoundaryDynamicImport | Reflection | MacroExpansion | ConditionalCompilation | BoundaryUnresolvedInternal
| UnsupportedDependency | UnsupportedSyntax

fun boundary_kind_rank :: "boundary_kind \<Rightarrow> nat" where
  "boundary_kind_rank BoundaryDynamicImport = 0"
| "boundary_kind_rank Reflection = 1"
| "boundary_kind_rank MacroExpansion = 2"
| "boundary_kind_rank ConditionalCompilation = 3"
| "boundary_kind_rank BoundaryUnresolvedInternal = 4"
| "boundary_kind_rank UnsupportedDependency = 5"
| "boundary_kind_rank UnsupportedSyntax = 6"

lemma boundary_kind_rank_inj: "boundary_kind_rank a = boundary_kind_rank b \<Longrightarrow> a = b"
  by (cases a; cases b) simp_all

instantiation boundary_kind :: linorder
begin

definition less_eq_boundary_kind :: "boundary_kind \<Rightarrow> boundary_kind \<Rightarrow> bool" where
  "less_eq_boundary_kind a b \<longleftrightarrow> boundary_kind_rank a \<le> boundary_kind_rank b"

definition less_boundary_kind :: "boundary_kind \<Rightarrow> boundary_kind \<Rightarrow> bool" where
  "less_boundary_kind a b \<longleftrightarrow> boundary_kind_rank a < boundary_kind_rank b"

instance
  by standard (auto simp: less_eq_boundary_kind_def less_boundary_kind_def dest: boundary_kind_rank_inj)

end

subsection \<open>Edges, evidence and boundaries\<close>

datatype edge_target =
  ToNode node_id | ToExternal string | ToUnexportedWorkspace string
| ToUnresolvedInternal string | ToDynamicUnknown string | ToUnsupported string

fun edge_target_key :: "edge_target \<Rightarrow> nat \<times> string" where
  "edge_target_key (ToNode v) = (0, v)"
| "edge_target_key (ToExternal v) = (1, v)"
| "edge_target_key (ToUnexportedWorkspace v) = (2, v)"
| "edge_target_key (ToUnresolvedInternal v) = (3, v)"
| "edge_target_key (ToDynamicUnknown v) = (4, v)"
| "edge_target_key (ToUnsupported v) = (5, v)"

lemma edge_target_key_inj: "edge_target_key a = edge_target_key b \<Longrightarrow> a = b"
  by (cases a; cases b) simp_all

instantiation edge_target :: linorder
begin

definition less_eq_edge_target :: "edge_target \<Rightarrow> edge_target \<Rightarrow> bool" where
  "less_eq_edge_target a b \<longleftrightarrow> edge_target_key a \<le> edge_target_key b"

definition less_edge_target :: "edge_target \<Rightarrow> edge_target \<Rightarrow> bool" where
  "less_edge_target a b \<longleftrightarrow> edge_target_key a < edge_target_key b"

instance
  by standard (auto simp: less_eq_edge_target_def less_edge_target_def dest: edge_target_key_inj)

end

datatype source_binding =
  SourceBinding
    (sb_imported: string)
    (sb_local: string)
    (sb_exported: "string option")
    (sb_namespace: bool)
    (sb_type_only: bool)

definition source_binding_key :: "source_binding \<Rightarrow> string \<times> string \<times> string option \<times> bool \<times> bool" where
  "source_binding_key x =
     (sb_imported x, sb_local x, sb_exported x, sb_namespace x, sb_type_only x)"

lemma source_binding_key_inj: "source_binding_key a = source_binding_key b \<Longrightarrow> a = b"
  by (cases a; cases b) (simp add: source_binding_key_def)

instantiation source_binding :: linorder
begin

definition less_eq_source_binding :: "source_binding \<Rightarrow> source_binding \<Rightarrow> bool" where
  "less_eq_source_binding a b \<longleftrightarrow> source_binding_key a \<le> source_binding_key b"

definition less_source_binding :: "source_binding \<Rightarrow> source_binding \<Rightarrow> bool" where
  "less_source_binding a b \<longleftrightarrow> source_binding_key a < source_binding_key b"

instance
  by standard (auto simp: less_eq_source_binding_def less_source_binding_def dest: source_binding_key_inj)

end

datatype source_evidence =
  SourceEvidence
    (ev_path: string)
    (ev_span: "span option")
    (ev_extractor: string)

definition source_evidence_key :: "source_evidence \<Rightarrow> string \<times> span option \<times> string" where
  "source_evidence_key x =
     (ev_path x, ev_span x, ev_extractor x)"

lemma source_evidence_key_inj: "source_evidence_key a = source_evidence_key b \<Longrightarrow> a = b"
  by (cases a; cases b) (simp add: source_evidence_key_def)

instantiation source_evidence :: linorder
begin

definition less_eq_source_evidence :: "source_evidence \<Rightarrow> source_evidence \<Rightarrow> bool" where
  "less_eq_source_evidence a b \<longleftrightarrow> source_evidence_key a \<le> source_evidence_key b"

definition less_source_evidence :: "source_evidence \<Rightarrow> source_evidence \<Rightarrow> bool" where
  "less_source_evidence a b \<longleftrightarrow> source_evidence_key a < source_evidence_key b"

instance
  by standard (auto simp: less_eq_source_evidence_def less_source_evidence_def dest: source_evidence_key_inj)

end

datatype source_edge =
  SourceEdge
    (se_from: node_id)
    (se_to: edge_target)
    (se_kind: source_edge_kind)
    (se_bindings: "source_binding list")
    (se_evidence: source_evidence)

definition source_edge_key :: "source_edge \<Rightarrow> node_id \<times> edge_target \<times> source_edge_kind \<times> source_binding list \<times> source_evidence" where
  "source_edge_key x =
     (se_from x, se_to x, se_kind x, se_bindings x, se_evidence x)"

lemma source_edge_key_inj: "source_edge_key a = source_edge_key b \<Longrightarrow> a = b"
  by (cases a; cases b) (simp add: source_edge_key_def)

instantiation source_edge :: linorder
begin

definition less_eq_source_edge :: "source_edge \<Rightarrow> source_edge \<Rightarrow> bool" where
  "less_eq_source_edge a b \<longleftrightarrow> source_edge_key a \<le> source_edge_key b"

definition less_source_edge :: "source_edge \<Rightarrow> source_edge \<Rightarrow> bool" where
  "less_source_edge a b \<longleftrightarrow> source_edge_key a < source_edge_key b"

instance
  by standard (auto simp: less_eq_source_edge_def less_source_edge_def dest: source_edge_key_inj)

end

datatype analysis_boundary =
  AnalysisBoundary
    (ab_project: project_id)
    (ab_node: "node_id option")
    (ab_kind: boundary_kind)
    (ab_effect: analysis_completeness)
    (ab_message: string)
    (ab_evidence: source_evidence)

definition analysis_boundary_key :: "analysis_boundary \<Rightarrow> project_id \<times> node_id option \<times> boundary_kind \<times> analysis_completeness \<times> string \<times> source_evidence" where
  "analysis_boundary_key x =
     (ab_project x, ab_node x, ab_kind x, ab_effect x, ab_message x, ab_evidence x)"

lemma analysis_boundary_key_inj: "analysis_boundary_key a = analysis_boundary_key b \<Longrightarrow> a = b"
  by (cases a; cases b) (simp add: analysis_boundary_key_def)

instantiation analysis_boundary :: linorder
begin

definition less_eq_analysis_boundary :: "analysis_boundary \<Rightarrow> analysis_boundary \<Rightarrow> bool" where
  "less_eq_analysis_boundary a b \<longleftrightarrow> analysis_boundary_key a \<le> analysis_boundary_key b"

definition less_analysis_boundary :: "analysis_boundary \<Rightarrow> analysis_boundary \<Rightarrow> bool" where
  "less_analysis_boundary a b \<longleftrightarrow> analysis_boundary_key a < analysis_boundary_key b"

instance
  by standard (auto simp: less_eq_analysis_boundary_def less_analysis_boundary_def dest: analysis_boundary_key_inj)

end

subsection \<open>Projects, nodes, contexts and the graph\<close>

record source_project =
  sp_id :: project_id
  sp_root :: string
  sp_languages :: "source_language bset"
  sp_completeness :: analysis_completeness

record source_file =
  sf_project :: project_id
  sf_path :: string
  sf_language :: source_language

record 'c source_symbol =
  ss_project :: project_id
  ss_file :: node_id
  ss_name :: string
  ss_kind :: source_symbol_kind
  ss_visibility :: source_visibility
  ss_span :: "span option"
  ss_callable :: "'c option"
  ss_fuzz_policy :: "fuzz_policy_evidence option"

datatype 'c source_node = FileNode source_file | SymbolNode "'c source_symbol"

fun node_project :: "'c source_node \<Rightarrow> project_id" where
  "node_project (FileNode file) = sf_project file"
| "node_project (SymbolNode symbol) = ss_project symbol"

record source_context =
  sc_id :: context_id
  sc_project :: project_id
  sc_name :: string
  sc_role :: context_role
  sc_scope :: context_scope
  sc_roots :: "node_id bset"

record 'c source_graph =
  sg_schema_version :: nat
  sg_projects :: "(project_id, source_project) bmap"
  sg_nodes :: "(node_id, 'c source_node) bmap"
  sg_edges :: "source_edge bset"
  sg_contexts :: "(context_id, source_context) bmap"
  sg_boundaries :: "analysis_boundary bset"

definition source_graph_schema_version :: nat where
  "source_graph_schema_version = 6"

definition source_graph_new :: "'c source_graph" where
  "source_graph_new =
     \<lparr>sg_schema_version = source_graph_schema_version, sg_projects = [], sg_nodes = [],
      sg_edges = [], sg_contexts = [], sg_boundaries = []\<rparr>"

subsection \<open>Node and context IDs\<close>

text \<open>\<open>str::replace\<close> of a one-character pattern.\<close>

definition replace_char :: "char \<Rightarrow> string \<Rightarrow> string \<Rightarrow> string" where
  "replace_char c r s = concat (map (\<lambda>x. if x = c then r else [x]) s)"

definition escape_id_segment :: "string \<Rightarrow> string" where
  "escape_id_segment value =
     replace_char CHR ''/'' ''~1'' (replace_char CHR ''~'' ''~0'' value)"

definition file_node_id :: "project_id \<Rightarrow> string \<Rightarrow> node_id" where
  "file_node_id project path =
     ''file/'' @ escape_id_segment project @ ''/'' @ escape_id_segment path"

definition symbol_node_id :: "node_id \<Rightarrow> string \<Rightarrow> node_id" where
  "symbol_node_id file local_id =
     ''symbol/'' @ escape_id_segment file @ ''/'' @ escape_id_segment local_id"

definition context_id_new :: "project_id \<Rightarrow> string \<Rightarrow> context_id" where
  "context_id_new project name =
     ''context/'' @ escape_id_segment project @ ''/'' @ escape_id_segment name"

subsection \<open>Building the graph\<close>

datatype graph_error = DuplicateProject | DuplicateNode | DuplicateContext

text \<open>\<open>BTreeMap::insert\<close> replaces an old entry and returns it, so a refused duplicate has already
  taken the place of the entry it repeats: the new graph is returned on both branches.\<close>

definition add_project ::
    "source_project \<Rightarrow> 'c source_graph \<Rightarrow> (graph_error + unit) \<times> 'c source_graph" where
  "add_project project g =
     (if bmap_get (sg_projects g) (sp_id project) \<noteq> None then Inl DuplicateProject else Inr (),
      g\<lparr>sg_projects := bmap_insert (sp_id project) project (sg_projects g)\<rparr>)"

definition add_node ::
    "node_id \<Rightarrow> 'c source_node \<Rightarrow> 'c source_graph \<Rightarrow> (graph_error + unit) \<times> 'c source_graph" where
  "add_node i node g =
     (if bmap_get (sg_nodes g) i \<noteq> None then Inl DuplicateNode else Inr (),
      g\<lparr>sg_nodes := bmap_insert i node (sg_nodes g)\<rparr>)"

definition add_context ::
    "source_context \<Rightarrow> 'c source_graph \<Rightarrow> (graph_error + unit) \<times> 'c source_graph" where
  "add_context ctxt g =
     (if bmap_get (sg_contexts g) (sc_id ctxt) \<noteq> None then Inl DuplicateContext else Inr (),
      g\<lparr>sg_contexts := bmap_insert (sc_id ctxt) ctxt (sg_contexts g)\<rparr>)"

definition record_boundary ::
    "project_id \<Rightarrow> node_id option \<Rightarrow> boundary_kind \<Rightarrow> analysis_completeness \<Rightarrow> string
     \<Rightarrow> source_evidence \<Rightarrow> 'c source_graph \<Rightarrow> 'c source_graph" where
  "record_boundary project node kind effect message evidence g =
     (let projects = (case bmap_get (sg_projects g) project of
                        None \<Rightarrow> sg_projects g
                      | Some p \<Rightarrow>
                          bmap_insert project
                            (p\<lparr>sp_completeness := worst (sp_completeness p) effect\<rparr>) (sg_projects g))
      in g\<lparr>sg_projects := projects,
           sg_boundaries :=
             bset_insert (AnalysisBoundary project node kind effect message evidence) (sg_boundaries g)\<rparr>)"

subsection \<open>Validation\<close>

text \<open>A diagnostic is its code and its message, in the derived order.\<close>

type_synonym graph_diagnostic = "string \<times> string"

definition symbol_diagnostics :: "'c source_graph \<Rightarrow> node_id \<Rightarrow> 'c source_symbol \<Rightarrow> graph_diagnostic list" where
  "symbol_diagnostics g node_id symbol =
     (case bmap_get (sg_nodes g) (ss_file symbol) of
        Some (FileNode file) \<Rightarrow>
          if sf_project file = ss_project symbol then []
          else [(''source_graph.cross_project_symbol'',
                 node_id @ '' and file '' @ ss_file symbol @ '' belong to different projects'')]
      | Some (SymbolNode s) \<Rightarrow>
          [(''source_graph.symbol_file_not_file'',
            node_id @ '' references symbol '' @ ss_file symbol @ '' as its file'')]
      | None \<Rightarrow>
          [(''source_graph.unknown_symbol_file'',
            node_id @ '' references unknown file '' @ ss_file symbol)])"

definition node_diagnostics :: "'c source_graph \<Rightarrow> node_id \<times> 'c source_node \<Rightarrow> graph_diagnostic list" where
  "node_diagnostics g x =
     (case x of (node_id, node) \<Rightarrow>
        (if bmap_get (sg_projects g) (node_project node) = None
         then [(''source_graph.unknown_project'',
                node_id @ '' references unknown project '' @ node_project node)] else [])
        @ (case node of
             SymbolNode symbol \<Rightarrow> symbol_diagnostics g node_id symbol
           | FileNode file \<Rightarrow> []))"

definition edge_diagnostics :: "'c source_graph \<Rightarrow> source_edge \<Rightarrow> graph_diagnostic list" where
  "edge_diagnostics g edge =
     (if bmap_get (sg_nodes g) (se_from edge) = None
      then [(''source_graph.unknown_edge_source'',
             ''edge source '' @ se_from edge @ '' does not exist'')] else [])
     @ (case se_to edge of
          ToNode target \<Rightarrow>
            if bmap_get (sg_nodes g) target = None
            then [(''source_graph.unknown_edge_target'', ''edge target '' @ target @ '' does not exist'')]
            else []
        | _ \<Rightarrow> [])"

definition root_diagnostics :: "'c source_graph \<Rightarrow> source_context \<Rightarrow> node_id \<Rightarrow> graph_diagnostic list" where
  "root_diagnostics g ctxt root =
     (case bmap_get (sg_nodes g) root of
        Some node \<Rightarrow>
          if node_project node = sc_project ctxt then []
          else [(''source_graph.cross_project_context_root'',
                 ''context '' @ sc_id ctxt @ '' has root '' @ root @ '' from another project'')]
      | None \<Rightarrow>
          [(''source_graph.unknown_context_root'',
            ''context '' @ sc_id ctxt @ '' references unknown root '' @ root)])"

definition context_diagnostics :: "'c source_graph \<Rightarrow> source_context \<Rightarrow> graph_diagnostic list" where
  "context_diagnostics g ctxt =
     (if bmap_get (sg_projects g) (sc_project ctxt) = None
      then [(''source_graph.unknown_context_project'',
             ''context '' @ sc_id ctxt @ '' references unknown project '' @ sc_project ctxt)] else [])
     @ concat (map (root_diagnostics g ctxt) (sc_roots ctxt))"

definition boundary_diagnostics :: "'c source_graph \<Rightarrow> analysis_boundary \<Rightarrow> graph_diagnostic list" where
  "boundary_diagnostics g boundary =
     (if bmap_get (sg_projects g) (ab_project boundary) = None
      then [(''source_graph.unknown_boundary_project'',
             ''boundary references unknown project '' @ ab_project boundary)] else [])
     @ (case ab_node boundary of
          Some node \<Rightarrow>
            if bmap_get (sg_nodes g) node = None
            then [(''source_graph.unknown_boundary_node'', ''boundary references unknown node '' @ node)]
            else []
        | None \<Rightarrow> [])"

definition graph_validate :: "'c source_graph \<Rightarrow> graph_diagnostic list + unit" where
  "graph_validate g =
     (let diagnostics =
            sort (concat (map (node_diagnostics g) (sg_nodes g))
              @ concat (map (edge_diagnostics g) (sg_edges g))
              @ concat (map (context_diagnostics g) (map snd (sg_contexts g)))
              @ concat (map (boundary_diagnostics g) (sg_boundaries g)))
      in if diagnostics = [] then Inr () else Inl diagnostics)"

end
