(* ===== verification/Search.thy ===== *)
theory Search
  imports BTree
begin

text \<open>
  The breadth-first loop that the analyses share: a queue of nodes with labels, a set of visited nodes,
  and an adjacency map of ordered sets. A node is recorded with the label of its first visit and hands
  a stepped label to its successors. In the source the label is the index of a root (unchanged along an
  edge, \<open>src/analysis/reachability.rs\<close>) or a distance (one more along an edge,
  \<open>src/analysis/reachability/targets.rs\<close>). The locale proves, for every monotone and increasing step,
  that the label of a node is the least one any walk to it carries.
\<close>

type_synonym adjacency = "(string, string bset) bmap"

definition succs :: "adjacency \<Rightarrow> string \<Rightarrow> string list" where
  "succs adj node = (case bmap_get adj node of None \<Rightarrow> [] | Some targets \<Rightarrow> targets)"

definition succ_edges :: "adjacency \<Rightarrow> (string \<times> string) set" where
  "succ_edges adj = {(a, b). b \<in> set (succs adj a)}"

function traverse ::
    "('l \<Rightarrow> 'l) \<Rightarrow> adjacency \<Rightarrow> (string \<times> 'l) list \<Rightarrow> string bset \<Rightarrow> (string \<times> 'l) list" where
  "traverse step adj [] visited = []"
| "traverse step adj ((node, label) # queue) visited =
     (if node \<in> set visited then traverse step adj queue visited
      else (node, label)
        # traverse step adj (queue @ map (\<lambda>t. (t, step label)) (succs adj node)) (bset_insert node visited))"
  by pat_completeness auto

text \<open>The loop ends: a visit of a node with an adjacency entry uses up the entry, every other turn
  shortens the queue.\<close>

termination
proof (relation "measures [\<lambda>(step, adj, queue, visited). card (fst ` set adj - set visited),
    \<lambda>(step, adj, queue, visited). length queue]")
  fix step :: "'l \<Rightarrow> 'l" and adj :: adjacency and node label queue and visited :: "string bset"
  assume new: "node \<notin> set visited"
  let ?R = "measures [\<lambda>(step, adj, queue, visited). card (fst ` set adj - set visited),
    \<lambda>(step :: 'l \<Rightarrow> 'l, adj :: adjacency, queue :: (string \<times> 'l) list, visited :: string bset). length queue]"
  show "((step, adj, queue @ map (\<lambda>t. (t, step label)) (succs adj node), bset_insert node visited),
      (step, adj, (node, label) # queue, visited)) \<in> ?R"
  proof (cases "node \<in> fst ` set adj")
    case True
    with new have "fst ` set adj - insert node (set visited) \<subset> fst ` set adj - set visited" by auto
    then have "card (fst ` set adj - insert node (set visited)) < card (fst ` set adj - set visited)"
      by (intro psubset_card_mono) auto
    then show ?thesis by simp
  next
    case False
    then have "succs adj node = []" by (simp add: succs_def bmap_get_None [THEN iffD2])
    moreover from False have "fst ` set adj - insert node (set visited) = fst ` set adj - set visited"
      by auto
    ultimately show ?thesis by simp
  qed
qed auto

declare traverse.simps(2) [simp del]

lemma traverse_fresh: "n \<in> fst ` set (traverse step adj queue visited) \<Longrightarrow> n \<notin> set visited"
  by (induction step adj queue visited rule: traverse.induct)
    (auto simp: traverse.simps(2) split: if_splits)

lemma traverse_distinct: "distinct (map fst (traverse step adj queue visited))"
  by (induction step adj queue visited rule: traverse.induct)
    (auto simp: traverse.simps(2) dest: traverse_fresh [OF imageI, unfolded fst_conv])

text \<open>Induction over the loop for one step function and one adjacency.\<close>

lemma traverse_loop_induct [case_names empty visited visit]:
  assumes "\<And>visited. P [] visited"
    and "\<And>x m queue visited. x \<in> set visited \<Longrightarrow> P queue visited \<Longrightarrow> P ((x, m) # queue) visited"
    and "\<And>x m queue visited. x \<notin> set visited \<Longrightarrow>
      P (queue @ map (\<lambda>t. (t, step m)) (succs adj x)) (bset_insert x visited) \<Longrightarrow>
      P ((x, m) # queue) visited"
  shows "P queue visited"
proof -
  have "s = step \<Longrightarrow> a = adj \<Longrightarrow> P queue visited" for s a
    by (induction s a queue visited rule: traverse.induct) (use assms in blast)+
  then show ?thesis by blast
qed

text \<open>A change of labels that commutes with the steps does not change the traversal.\<close>

lemma traverse_map:
  "(\<And>l. f (step l) = step' (f l)) \<Longrightarrow>
     traverse step' adj (map (\<lambda>(n, l). (n, f l)) queue) visited =
     map (\<lambda>(n, l). (n, f l)) (traverse step adj queue visited)"
  by (induction step adj queue visited rule: traverse.induct)
    (simp_all add: traverse.simps(2) comp_def split: prod.split)

subsection \<open>Walks that avoid the visited nodes\<close>

definition fresh_edges :: "adjacency \<Rightarrow> string set \<Rightarrow> (string \<times> string) set" where
  "fresh_edges adj v = {(a, b). (a, b) \<in> succ_edges adj \<and> a \<notin> v \<and> b \<notin> v}"

definition walk_labels ::
    "('l \<Rightarrow> 'l) \<Rightarrow> adjacency \<Rightarrow> (string \<times> 'l) list \<Rightarrow> string set \<Rightarrow> string \<Rightarrow> 'l set" where
  "walk_labels step adj queue v n =
     {(step ^^ k) l | s l k. (s, l) \<in> set queue \<and> s \<notin> v \<and> (s, n) \<in> fresh_edges adj v ^^ k}"

lemma walk_labelsI:
  "(s, l) \<in> set queue \<Longrightarrow> s \<notin> v \<Longrightarrow> (s, n) \<in> fresh_edges adj v ^^ k \<Longrightarrow>
   (step ^^ k) l \<in> walk_labels step adj queue v n"
  by (auto simp: walk_labels_def)

lemma fresh_edges_mono: "v \<subseteq> w \<Longrightarrow> fresh_edges adj w \<subseteq> fresh_edges adj v"
  by (auto simp: fresh_edges_def)

lemma fresh_edges_empty: "fresh_edges adj {} = succ_edges adj"
  by (simp add: fresh_edges_def)

lemma walk_end_fresh: "(s, n) \<in> fresh_edges adj v ^^ k \<Longrightarrow> s \<notin> v \<Longrightarrow> n \<notin> v"
  by (cases k) (auto simp: fresh_edges_def)

lemma walk_labels_visited: "n \<in> v \<Longrightarrow> walk_labels step adj queue v n = {}"
  using walk_end_fresh by (fastforce simp: walk_labels_def)

text \<open>A walk to a node other than \<open>x\<close> misses \<open>x\<close>, or a shorter walk starts at a successor of \<open>x\<close>
  and misses it: the one after the last passage through \<open>x\<close>.\<close>

lemma walk_past:
  assumes "(s, n) \<in> fresh_edges adj v ^^ k" and "s \<notin> v" and "n \<noteq> x"
  shows "s \<noteq> x \<and> (s, n) \<in> fresh_edges adj (insert x v) ^^ k
    \<or> (\<exists>y j. y \<in> set (succs adj x) \<and> y \<notin> insert x v \<and> j < k
        \<and> (y, n) \<in> fresh_edges adj (insert x v) ^^ j)"
  using assms
proof (induction k arbitrary: n)
  case (Suc k)
  from Suc.prems(1) obtain m where walk: "(s, m) \<in> fresh_edges adj v ^^ k" and
    edge: "(m, n) \<in> fresh_edges adj v" by auto
  show ?case
  proof (cases "m = x")
    case True
    with edge Suc.prems(3) have "n \<in> set (succs adj x) \<and> n \<notin> insert x v"
      by (auto simp: fresh_edges_def succ_edges_def)
    then show ?thesis by (intro disjI2 exI [of _ n] exI [of _ 0]) simp
  next
    case False
    with edge Suc.prems(3) have "(m, n) \<in> fresh_edges adj (insert x v)"
      by (auto simp: fresh_edges_def)
    with Suc.IH [OF walk Suc.prems(2) False] show ?thesis
      by (meson Suc_mono relpow_Suc_I)
  qed
qed simp

lemma walk_labels_visit_subset:
  assumes "x \<notin> v"
  shows "walk_labels step adj (queue @ map (\<lambda>t. (t, step l)) (succs adj x)) (insert x v) n
    \<subseteq> walk_labels step adj ((x, l) # queue) v n"
proof
  fix a assume "a \<in> walk_labels step adj (queue @ map (\<lambda>t. (t, step l)) (succs adj x)) (insert x v) n"
  then obtain s l0 k where a: "a = (step ^^ k) l0" and s: "s \<notin> insert x v"
    and start: "(s, l0) \<in> set queue \<or> s \<in> set (succs adj x) \<and> l0 = step l"
    and walk: "(s, n) \<in> fresh_edges adj (insert x v) ^^ k"
    by (auto simp: walk_labels_def)
  from walk have fresh: "(s, n) \<in> fresh_edges adj v ^^ k"
    by (rule relpowp_mono [to_set, rotated])
      (use fresh_edges_mono [of v "insert x v" adj] in blast)
  from start show "a \<in> walk_labels step adj ((x, l) # queue) v n"
  proof
    assume "(s, l0) \<in> set queue"
    with a s fresh show ?thesis by (auto simp: walk_labels_def)
  next
    assume new: "s \<in> set (succs adj x) \<and> l0 = step l"
    with s assms have "(x, s) \<in> fresh_edges adj v" by (simp add: fresh_edges_def succ_edges_def)
    from relpow_Suc_I2 [OF this fresh] have "(x, n) \<in> fresh_edges adj v ^^ Suc k" .
    moreover from a new have "a = (step ^^ Suc k) l" by (simp add: funpow_swap1)
    ultimately show ?thesis using assms
      unfolding walk_labels_def by (intro CollectI exI [of _ x] exI [of _ l] exI [of _ "Suc k"]) simp
  qed
qed

subsection \<open>The label of the first visit is the least one\<close>

locale labelled_search =
  fixes step :: "'l::linorder \<Rightarrow> 'l"
  assumes step_mono: "l \<le> m \<Longrightarrow> step l \<le> step m"
    and step_ge: "l \<le> step l"
begin

lemma funpow_ge: "l \<le> (step ^^ k) l"
  by (induction k) (auto intro: order.trans step_ge)

lemma funpow_mono_both: "i \<le> k \<Longrightarrow> l \<le> m \<Longrightarrow> (step ^^ i) l \<le> (step ^^ k) m"
proof -
  assume "i \<le> k" and "l \<le> m"
  have "(step ^^ i) l \<le> (step ^^ i) m"
    using \<open>l \<le> m\<close> by (induction i) (auto intro: step_mono)
  also have "\<dots> \<le> (step ^^ (k - i)) ((step ^^ i) m)" by (rule funpow_ge)
  also have "\<dots> = (step ^^ k) m"
    using \<open>i \<le> k\<close> by (simp add: funpow_add [symmetric, unfolded comp_def, THEN fun_cong])
  finally show ?thesis .
qed

definition spread :: "(string \<times> 'l) list \<Rightarrow> bool" where
  "spread queue \<longleftrightarrow> sorted (map snd queue)
     \<and> (\<forall>x \<in> set queue. snd x \<le> step (snd (hd queue)))"

lemma spread_hd: "spread ((x, l) # queue) \<Longrightarrow> y \<in> set ((x, l) # queue) \<Longrightarrow> l \<le> snd y"
  by (auto simp: spread_def)

lemma spread_tl: "spread (x # queue) \<Longrightarrow> spread queue"
  by (cases queue) (auto simp: spread_def intro: order.trans step_mono)

lemma spread_visit:
  assumes "spread ((x, l) # queue)"
  shows "spread (queue @ map (\<lambda>t. (t, step l)) ts)"
proof -
  from assms have sorted: "sorted (map snd queue)" and low: "\<forall>y \<in> set queue. l \<le> snd y"
    and high: "\<forall>y \<in> set queue. snd y \<le> step l" by (auto simp: spread_def)
  have "sorted (map snd (queue @ map (\<lambda>t. (t, step l)) ts))"
    using sorted high by (auto simp: sorted_append comp_def map_replicate_const)
  moreover have "\<forall>z \<in> set (queue @ map (\<lambda>t. (t, step l)) ts).
      snd z \<le> step (snd (hd (queue @ map (\<lambda>t. (t, step l)) ts)))"
  proof (cases queue)
    case Nil
    then show ?thesis by (cases ts) (auto intro: step_ge)
  next
    case (Cons q qs)
    with low have "step l \<le> step (snd q)" by (simp add: step_mono)
    with Cons high show ?thesis by (auto intro: order.trans)
  qed
  ultimately show ?thesis by (simp add: spread_def)
qed

text \<open>Passing through \<open>x\<close> again does not give a smaller label than starting afresh at its successors.\<close>

lemma walk_labels_visit_le:
  assumes "spread ((x, l) # queue)" and "n \<noteq> x" and "a \<in> walk_labels step adj ((x, l) # queue) v n"
  shows "\<exists>b \<in> walk_labels step adj (queue @ map (\<lambda>t. (t, step l)) (succs adj x)) (insert x v) n. b \<le> a"
proof -
  from assms(3) obtain s l0 k where start: "(s, l0) \<in> set ((x, l) # queue)" and "s \<notin> v"
    and walk: "(s, n) \<in> fresh_edges adj v ^^ k" and a: "a = (step ^^ k) l0"
    by (auto simp: walk_labels_def)
  from walk_past [OF walk \<open>s \<notin> v\<close> assms(2)] show ?thesis
  proof
    assume avoid: "s \<noteq> x \<and> (s, n) \<in> fresh_edges adj (insert x v) ^^ k"
    with start \<open>s \<notin> v\<close> have "a \<in> walk_labels step adj (queue @ map (\<lambda>t. (t, step l)) (succs adj x)) (insert x v) n"
      unfolding a by (intro walk_labelsI [of s]) auto
    then show ?thesis by blast
  next
    assume "\<exists>y j. y \<in> set (succs adj x) \<and> y \<notin> insert x v \<and> j < k
      \<and> (y, n) \<in> fresh_edges adj (insert x v) ^^ j"
    then obtain y j where y: "y \<in> set (succs adj x)" "y \<notin> insert x v" and "j < k"
      and rest: "(y, n) \<in> fresh_edges adj (insert x v) ^^ j" by blast
    from y rest have "(step ^^ j) (step l) \<in>
        walk_labels step adj (queue @ map (\<lambda>t. (t, step l)) (succs adj x)) (insert x v) n"
      by (intro walk_labelsI [of y]) auto
    moreover have "(step ^^ j) (step l) \<le> a"
    proof -
      from spread_hd [OF assms(1) start] have "l \<le> l0" by simp
      with \<open>j < k\<close> have "(step ^^ Suc j) l \<le> (step ^^ k) l0" by (intro funpow_mono_both) auto
      then show ?thesis by (simp add: a funpow_swap1)
    qed
    ultimately show ?thesis by blast
  qed
qed

definition least_in :: "'l \<Rightarrow> 'l set \<Rightarrow> bool" where
  "least_in l A \<longleftrightarrow> l \<in> A \<and> (\<forall>m \<in> A. l \<le> m)"

lemma least_in_sandwich:
  assumes "A \<subseteq> B" and below: "\<And>b. b \<in> B \<Longrightarrow> \<exists>a \<in> A. a \<le> b"
  shows "least_in l A \<longleftrightarrow> least_in l B"
proof
  assume least: "least_in l A"
  have "l \<le> b" if "b \<in> B" for b
  proof -
    from below [OF that] obtain a where "a \<in> A" and "a \<le> b" by blast
    with least show ?thesis unfolding least_in_def by (blast intro: order.trans)
  qed
  with least assms(1) show "least_in l B" unfolding least_in_def by blast
next
  assume least: "least_in l B"
  then have "l \<in> B" unfolding least_in_def by blast
  from below [OF this] obtain a where a: "a \<in> A" "a \<le> l" by blast
  with least assms(1) have "l \<le> a" unfolding least_in_def by blast
  with a have "l \<in> A" by simp
  with least assms(1) show "least_in l A" unfolding least_in_def by blast
qed

theorem traverse_least:
  "spread queue \<Longrightarrow>
     (n, l) \<in> set (traverse step adj queue visited)
     \<longleftrightarrow> least_in l (walk_labels step adj queue (set visited) n)"
proof (induction queue visited arbitrary: l rule: traverse_loop_induct [of _ step adj])
  case (empty visited)
  then show ?case by (simp add: walk_labels_def least_in_def)
next
  case (visited x m queue visited)
  then have "walk_labels step adj ((x, m) # queue) (set visited) n =
      walk_labels step adj queue (set visited) n"
    by (auto simp: walk_labels_def)
  with visited spread_tl show ?case by (simp add: traverse.simps(2))
next
  case (visit x m queue visited)
  let ?queue = "queue @ map (\<lambda>t. (t, step m)) (succs adj x)"
  have IH: "(n, l) \<in> set (traverse step adj ?queue (bset_insert x visited))
      \<longleftrightarrow> least_in l (walk_labels step adj ?queue (insert x (set visited)) n)" for l
    using visit.IH [OF spread_visit [OF visit.prems]] by simp
  show ?case
  proof (cases "n = x")
    case True
    have "m \<in> walk_labels step adj ((x, m) # queue) (set visited) n"
      using walk_labelsI [where k = 0 and s = x and l = m and step = step] True visit.hyps by simp
    moreover have "m \<le> a" if "a \<in> walk_labels step adj ((x, m) # queue) (set visited) n" for a
      using that spread_hd [OF visit.prems] by (fastforce simp: walk_labels_def intro: order.trans funpow_ge)
    ultimately have "least_in l (walk_labels step adj ((x, m) # queue) (set visited) n) \<longleftrightarrow> l = m"
      by (auto simp: least_in_def intro: order.antisym)
    moreover have "\<not> least_in l (walk_labels step adj ?queue (insert x (set visited)) n)"
      using True by (simp add: walk_labels_visited least_in_def)
    ultimately show ?thesis using True visit.hyps IH by (simp add: traverse.simps(2))
  next
    case neq: False
    have "least_in l (walk_labels step adj ?queue (insert x (set visited)) n)
        \<longleftrightarrow> least_in l (walk_labels step adj ((x, m) # queue) (set visited) n)"
      by (rule least_in_sandwich [OF walk_labels_visit_subset [OF visit.hyps]])
        (rule walk_labels_visit_le [OF visit.prems neq])
    with IH neq visit.hyps show ?thesis by (simp add: traverse.simps(2))
  qed
qed

end

subsection \<open>The steps of the program\<close>

text \<open>A distance grows by one along an edge; a distance with the index of the root it is measured from
  also orders equally near roots. Both are instances of the search.\<close>

definition hop :: "nat \<times> nat \<Rightarrow> nat \<times> nat" where
  "hop x = (Suc (fst x), snd x)"

lemma funpow_hop: "(hop ^^ k) (d, i) = (d + k, i)"
  by (induction k) (simp_all add: hop_def)

lemma funpow_Suc: "(Suc ^^ k) d = d + k"
  by (induction k) simp_all

interpretation distance_search: labelled_search Suc
  by unfold_locales auto

interpretation hop_search: labelled_search hop
  by unfold_locales (auto simp: hop_def less_eq_prod_def)

interpretation plain_search: labelled_search "\<lambda>u :: unit. u"
  by unfold_locales auto

text \<open>What is reached does not depend on the labels.\<close>

lemma traverse_reached:
  "fst ` set (traverse step adj queue []) = (succ_edges adj)\<^sup>* `` (fst ` set queue)"
proof -
  let ?forget = "map (\<lambda>(n, l). (n, ()))"
  have "traverse (\<lambda>u. u) adj (?forget queue) [] = ?forget (traverse step adj queue [])"
    by (rule traverse_map [of "\<lambda>_. ()"]) simp
  then have nodes: "fst ` set (traverse step adj queue []) = fst ` set (traverse (\<lambda>u. u) adj (?forget queue) [])"
    by (auto simp: image_image split_beta)
  have spread: "plain_search.spread (?forget queue)"
    unfolding plain_search.spread_def by (auto simp: comp_def split_beta sorted_iff_nth_mono)
  have "(n, ()) \<in> set (traverse (\<lambda>u. u) adj (?forget queue) []) \<longleftrightarrow>
      n \<in> (succ_edges adj)\<^sup>* `` (fst ` set queue)" for n
    unfolding plain_search.traverse_least [OF spread] plain_search.least_in_def walk_labels_def
    by (force simp: fresh_edges_empty rtrancl_power)
  then show ?thesis unfolding nodes by force
qed

end
