(* ===== verification/Reachability.thy ===== *)
theory Reachability
  imports SourceGraph Search
begin

text \<open>
  Reachability over the source graph (\<open>src/analysis/reachability.rs\<close> and its \<open>targets.rs\<close>): contexts
  are propagated from their roots along the traversable edges, for all nodes or for a few targets, and
  the confidence of a finding is read off the completeness of the analysis.
\<close>

subsection \<open>Results\<close>

record reachability =
  contexts_by_node :: "(node_id, context_id bset) bmap"
  roles_by_node :: "(node_id, context_role bset) bmap"
  witness_roots_by_node :: "(node_id, (context_id \<times> node_id) bset) bmap"

text \<open>A \<open>ReachabilityRoot\<close> is the pair of its context and its root, in the derived order.\<close>

definition reachability_default :: reachability where
  "reachability_default =
     \<lparr>contexts_by_node = [], roles_by_node = [], witness_roots_by_node = []\<rparr>"

definition record_visit :: "node_id \<Rightarrow> source_context \<Rightarrow> node_id \<Rightarrow> reachability \<Rightarrow> reachability" where
  "record_visit node ctxt root r =
     \<lparr>contexts_by_node = bmap_entry node [] (bset_insert (sc_id ctxt)) (contexts_by_node r),
      roles_by_node = bmap_entry node [] (bset_insert (sc_role ctxt)) (roles_by_node r),
      witness_roots_by_node =
        bmap_entry node [] (bset_insert (sc_id ctxt, root)) (witness_roots_by_node r)\<rparr>"

definition get_or_default :: "(string, 'a list) bmap \<Rightarrow> string \<Rightarrow> 'a list" where
  "get_or_default m k = (case bmap_get m k of None \<Rightarrow> [] | Some xs \<Rightarrow> xs)"

definition contexts_of :: "reachability \<Rightarrow> node_id \<Rightarrow> context_id bset" where
  "contexts_of r node = get_or_default (contexts_by_node r) node"

definition roles_of :: "reachability \<Rightarrow> node_id \<Rightarrow> context_role bset" where
  "roles_of r node = get_or_default (roles_by_node r) node"

definition roots_of :: "reachability \<Rightarrow> node_id \<Rightarrow> (context_id \<times> node_id) bset" where
  "roots_of r node = get_or_default (witness_roots_by_node r) node"

subsection \<open>Adjacencies\<close>

definition add_arc :: "node_id \<Rightarrow> node_id \<Rightarrow> adjacency \<Rightarrow> adjacency" where
  "add_arc a b adj = bmap_entry a [] (bset_insert b) adj"

definition add_edge :: "source_edge \<Rightarrow> adjacency \<times> adjacency \<Rightarrow> adjacency \<times> adjacency" where
  "add_edge edge adjs =
     (case adjs of (runtime, public_surface) \<Rightarrow>
        (case se_to edge of
           ToNode target \<Rightarrow>
             (case se_kind edge of
                Contains \<Rightarrow> adjs
              | ReExport \<Rightarrow> (runtime, add_arc (se_from edge) target public_surface)
              | _ \<Rightarrow> (add_arc (se_from edge) target runtime, public_surface))
         | _ \<Rightarrow> adjs))"

definition add_symbol_file :: "node_id \<times> 'c source_node \<Rightarrow> adjacency \<Rightarrow> adjacency" where
  "add_symbol_file x runtime =
     (case x of (node_id, node) \<Rightarrow>
        (case node of
           SymbolNode symbol \<Rightarrow> add_arc node_id (ss_file symbol) runtime
         | FileNode file \<Rightarrow> runtime))"

definition adjacencies :: "'c source_graph \<Rightarrow> adjacency \<times> adjacency" where
  "adjacencies g =
     (case fold add_edge (sg_edges g) ([], []) of (runtime, public_surface) \<Rightarrow>
        (fold add_symbol_file (sg_nodes g) runtime, public_surface))"

definition public_surface_roots :: "node_id \<Rightarrow> adjacency \<Rightarrow> node_id bset" where
  "public_surface_roots root adj = bset_of (map fst (traverse (\<lambda>u. u) adj [(root, ())] []))"

subsection \<open>All nodes\<close>

definition start_queue :: "source_context \<Rightarrow> adjacency \<Rightarrow> (node_id \<times> nat) list" where
  "start_queue ctxt public_surface =
     concat (map (\<lambda>(root_index, root).
         case sc_scope ctxt of
           Runtime \<Rightarrow> [(root, root_index)]
         | PublicSurface \<Rightarrow>
             map (\<lambda>node. (node, root_index)) (public_surface_roots root public_surface))
       (enumerate 0 (sc_roots ctxt)))"

definition analyze_context ::
    "adjacency \<Rightarrow> adjacency \<Rightarrow> source_context \<Rightarrow> reachability \<Rightarrow> reachability" where
  "analyze_context runtime public_surface ctxt r =
     fold (\<lambda>(node, root_index). record_visit node ctxt (sc_roots ctxt ! root_index))
       (traverse (\<lambda>root_index. root_index) runtime (start_queue ctxt public_surface) []) r"

definition analyze_validated :: "'c source_graph \<Rightarrow> reachability" where
  "analyze_validated g =
     (case adjacencies g of (runtime, public_surface) \<Rightarrow>
        fold (analyze_context runtime public_surface) (map snd (sg_contexts g)) reachability_default)"

definition analyze :: "'c source_graph \<Rightarrow> graph_diagnostic list + reachability" where
  "analyze g = and_then (graph_validate g) (\<lambda>_. Inr (analyze_validated g))"

subsection \<open>A few targets\<close>

definition reverse_adjacency :: "adjacency \<Rightarrow> adjacency" where
  "reverse_adjacency adj =
     fold (\<lambda>(source, targets) reversed. fold (\<lambda>target. add_arc target source) targets reversed) adj []"

definition reverse_distances :: "node_id \<Rightarrow> adjacency \<Rightarrow> (node_id, nat) bmap" where
  "reverse_distances target adj =
     fold (\<lambda>(node, distance). bmap_insert node distance) (traverse Suc adj [(target, 0)] []) []"

definition min_option :: "'a::linorder list \<Rightarrow> 'a option" where
  "min_option xs = (case xs of [] \<Rightarrow> None | x # ys \<Rightarrow> Some (fold min ys x))"

definition root_distance ::
    "source_context \<Rightarrow> adjacency \<Rightarrow> (node_id, nat) bmap \<Rightarrow> node_id \<Rightarrow> nat option" where
  "root_distance ctxt public_surface distances root =
     (case sc_scope ctxt of
        Runtime \<Rightarrow> bmap_get distances root
      | PublicSurface \<Rightarrow>
          min_option (List.map_filter (bmap_get distances) (public_surface_roots root public_surface)))"

definition select_root :: "source_context \<Rightarrow> adjacency \<Rightarrow> (node_id, nat) bmap \<Rightarrow> (nat \<times> nat) option" where
  "select_root ctxt public_surface distances =
     min_option (List.map_filter (\<lambda>(root_index, root).
         map_option (\<lambda>distance. (distance, root_index)) (root_distance ctxt public_surface distances root))
       (enumerate 0 (sc_roots ctxt)))"

definition analyze_target ::
    "'c source_graph \<Rightarrow> adjacency \<Rightarrow> adjacency \<Rightarrow> node_id \<Rightarrow> reachability \<Rightarrow> reachability" where
  "analyze_target g reversed public_surface target r =
     (if bmap_get (sg_nodes g) target = None then r
      else
        let distances = reverse_distances target reversed
        in fold (\<lambda>ctxt r.
             case select_root ctxt public_surface distances of
               None \<Rightarrow> r
             | Some (_, root_index) \<Rightarrow> record_visit target ctxt (sc_roots ctxt ! root_index) r)
           (map snd (sg_contexts g)) r)"

definition analyze_targets :: "'c source_graph \<Rightarrow> node_id bset \<Rightarrow> graph_diagnostic list + reachability" where
  "analyze_targets g targets =
     and_then (graph_validate g) (\<lambda>_.
       if targets = [] then Inr reachability_default
       else if length targets > max (length (sg_contexts g)) 1 then Inr (analyze_validated g)
       else (case adjacencies g of (runtime, public_surface) \<Rightarrow>
         let reversed = reverse_adjacency runtime
         in Inr (fold (analyze_target g reversed public_surface) targets reachability_default)))"

definition is_test_identity_witness :: "reachability \<Rightarrow> 'c source_graph \<Rightarrow> source_edge \<Rightarrow> bool" where
  "is_test_identity_witness r g edge =
     (if se_kind edge \<noteq> WorkspaceSourceBypass
         \<or> \<not> (case se_to edge of ToNode _ \<Rightarrow> True | _ \<Rightarrow> False)
         \<or> roles_of r (se_from edge) \<noteq> [Test] then False
      else (\<exists>candidate \<in> set (sg_edges g).
        se_from candidate = se_from edge \<and> se_to candidate = se_to edge
        \<and> se_kind candidate \<in> {ModuleDependency, DynamicImport, Require}))"

definition render_diagnostics :: "graph_diagnostic list \<Rightarrow> string" where
  "render_diagnostics diagnostics =
     join ''; '' (map (\<lambda>(code, message). code @ '': '' @ message) diagnostics)"

subsection \<open>Confidence\<close>

fun confidence_for_completeness :: "analysis_completeness \<Rightarrow> finding_confidence" where
  "confidence_for_completeness Complete = High"
| "confidence_for_completeness Partial = Medium"
| "confidence_for_completeness Unsupported = Low"

definition project_boundaries :: "'c source_graph \<Rightarrow> project_id \<Rightarrow> analysis_boundary list" where
  "project_boundaries g project = filter (\<lambda>b. ab_project b = project) (sg_boundaries g)"

definition max_option :: "'a::linorder list \<Rightarrow> 'a option" where
  "max_option xs = (case xs of [] \<Rightarrow> None | x # ys \<Rightarrow> Some (fold max ys x))"

definition project_confidence :: "'c source_graph \<Rightarrow> project_id \<Rightarrow> finding_confidence" where
  "project_confidence g project =
     (let project_completeness = (case bmap_get (sg_projects g) project of
                                    None \<Rightarrow> Unsupported | Some p \<Rightarrow> sp_completeness p)
      in confidence_for_completeness
           (case max_option (map ab_effect (project_boundaries g project)) of
              Some boundary \<Rightarrow> worst project_completeness boundary
            | None \<Rightarrow> project_completeness))"

definition node_language :: "'c source_graph \<Rightarrow> node_id \<Rightarrow> source_language option" where
  "node_language g node =
     (case bmap_get (sg_nodes g) node of
        Some (FileNode file) \<Rightarrow> Some (sf_language file)
      | Some (SymbolNode symbol) \<Rightarrow>
          (case bmap_get (sg_nodes g) (ss_file symbol) of
             Some (FileNode file) \<Rightarrow> Some (sf_language file)
           | _ \<Rightarrow> None)
      | None \<Rightarrow> None)"

definition same_runtime_family :: "source_language option \<Rightarrow> source_language option \<Rightarrow> bool" where
  "same_runtime_family left right =
     (case (left, right) of
        (Some l, Some r) \<Rightarrow>
          l \<in> {JavaScript, TypeScript, Svelte} \<and> r \<in> {JavaScript, TypeScript, Svelte} \<or> l = r
      | _ \<Rightarrow> False)"

definition localized_confidence ::
    "'c source_graph \<Rightarrow> project_id \<Rightarrow> (analysis_boundary \<Rightarrow> bool) \<Rightarrow> finding_confidence" where
  "localized_confidence g project boundary_applies =
     (case bmap_get (sg_projects g) project of
        None \<Rightarrow> Low
      | Some source_project \<Rightarrow>
          if sp_completeness source_project = Unsupported then Low
          else
            let boundaries = project_boundaries g project;
                completeness = (if sp_completeness source_project = Partial \<and> boundaries = []
                                then Partial else Complete)
            in confidence_for_completeness
                 (fold (\<lambda>b completeness.
                    if ab_node b = None \<or> boundary_applies b then worst completeness (ab_effect b)
                    else completeness) boundaries completeness))"

definition file_boundary_applies :: "'c source_graph \<Rightarrow> node_id \<Rightarrow> analysis_boundary \<Rightarrow> bool" where
  "file_boundary_applies g file b =
     (case ab_node b of
        None \<Rightarrow> False
      | Some node \<Rightarrow>
          node = file
          \<or> (case bmap_get (sg_nodes g) node of Some (SymbolNode symbol) \<Rightarrow> ss_file symbol = file | _ \<Rightarrow> False)
          \<or> (ab_kind b \<in> {BoundaryDynamicImport, Reflection}
             \<and> same_runtime_family (node_language g node) (node_language g file)))"

definition file_confidence :: "'c source_graph \<Rightarrow> project_id \<Rightarrow> node_id \<Rightarrow> finding_confidence" where
  "file_confidence g project file = localized_confidence g project (file_boundary_applies g file)"

definition static_limit :: "boundary_kind \<Rightarrow> bool" where
  "static_limit k \<longleftrightarrow> k \<in> {MacroExpansion, ConditionalCompilation, UnsupportedSyntax}"

definition symbol_boundary_applies ::
    "'c source_graph \<Rightarrow> node_id \<Rightarrow> node_id \<Rightarrow> analysis_boundary \<Rightarrow> bool" where
  "symbol_boundary_applies g file symbol b =
     (case ab_node b of
        None \<Rightarrow> False
      | Some node \<Rightarrow>
          node = symbol
          \<or> (ab_kind b = Reflection \<and> same_runtime_family (node_language g node) (node_language g file))
          \<or> (node = file \<and> static_limit (ab_kind b)))"

definition rust_completeness :: "'c source_graph \<Rightarrow> project_id \<Rightarrow> analysis_completeness" where
  "rust_completeness g project =
     fold (\<lambda>b completeness. worst completeness (ab_effect b))
       (filter (\<lambda>b. ab_project b = project \<and> static_limit (ab_kind b)
            \<and> (case ab_node b of None \<Rightarrow> True | Some node \<Rightarrow> node_language g node = Some Rust))
          (sg_boundaries g)) Complete"

definition symbol_confidence ::
    "'c source_graph \<Rightarrow> project_id \<Rightarrow> node_id \<Rightarrow> node_id \<Rightarrow> finding_confidence" where
  "symbol_confidence g project file symbol =
     (if node_language g file = Some Rust \<and> rust_completeness g project \<noteq> Complete
      then confidence_for_completeness (rust_completeness g project)
      else localized_confidence g project (symbol_boundary_applies g file symbol))"

end
