(* ===== verification/SourcePolicy.thy ===== *)
theory SourcePolicy
  imports Decimal
begin

text \<open>
  Paths and the policy of which sources are scanned (\<open>src/paths.rs\<close>, \<open>src/source_policy.rs\<close>). A path
  is a string; \<open>Path::components\<close>, \<open>file_name\<close>, \<open>file_stem\<close> and \<open>extension\<close> are the standard library's
  on Unix. \<open>pathdiff::diff_paths\<close> is a third-party function and an argument here.
\<close>

subsection \<open>Path components\<close>

datatype path_component = RootDir | CurDir | ParentDir | Normal string

fun component_str :: "path_component \<Rightarrow> string" where
  "component_str RootDir = ''/''"
| "component_str CurDir = ''.''"
| "component_str ParentDir = ''..''"
| "component_str (Normal s) = s"

definition segments :: "string \<Rightarrow> string list" where
  "segments path = split_on (\<lambda>c. c = CHR ''/'') path"

definition is_absolute :: "string \<Rightarrow> bool" where
  "is_absolute path = (path \<noteq> [] \<and> hd path = CHR ''/'')"

definition path_components :: "string \<Rightarrow> path_component list" where
  "path_components path =
     (if is_absolute path then [RootDir]
      else if hd (segments path) = ''.'' then [CurDir] else [])
     @ map (\<lambda>s. if s = ''..'' then ParentDir else Normal s)
         (filter (\<lambda>s. s \<noteq> [] \<and> s \<noteq> ''.'') (segments path))"

definition file_name :: "string \<Rightarrow> string option" where
  "file_name path =
     (let cs = path_components path
      in if cs = [] then None else (case last cs of Normal s \<Rightarrow> Some s | _ \<Rightarrow> None))"

text \<open>The split of a file name at its last dot; a leading dot alone does not split it.\<close>

definition split_file_at_dot :: "string \<Rightarrow> string option \<times> string option" where
  "split_file_at_dot file =
     (case rsplit_once file ''.'' of
        None \<Rightarrow> (None, Some file)
      | Some (before, after) \<Rightarrow> if before = [] then (Some file, None) else (Some before, Some after))"

definition file_stem :: "string \<Rightarrow> string option" where
  "file_stem path =
     Option.bind (file_name path) (\<lambda>file.
       case split_file_at_dot file of (before, after) \<Rightarrow> if before = None then after else before)"

definition extension :: "string \<Rightarrow> string option" where
  "extension path =
     Option.bind (file_name path) (\<lambda>file.
       case split_file_at_dot file of (before, after) \<Rightarrow> if before = None then None else after)"

subsection \<open>Normalization\<close>

fun push_component :: "path_component \<Rightarrow> string list \<Rightarrow> string list" where
  "push_component (Normal part) parts = parts @ [part]"
| "push_component ParentDir parts =
     (if parts \<noteq> [] \<and> last parts \<noteq> ''..'' then butlast parts else parts @ [''..''])"
| "push_component RootDir parts = parts"
| "push_component CurDir parts = parts"

definition normalize_path :: "string \<Rightarrow> string" where
  "normalize_path path = join ''/'' (fold push_component (path_components path) [])"

definition normalize_entrypoint ::
    "(string \<Rightarrow> string \<Rightarrow> string option) \<Rightarrow> string \<Rightarrow> string \<Rightarrow> string" where
  "normalize_entrypoint diff_paths entry root_dir =
     normalize_path
       (if is_absolute entry
        then (case diff_paths entry root_dir of None \<Rightarrow> entry | Some relative \<Rightarrow> relative)
        else entry)"

text \<open>\<open>Path::strip_prefix\<close> compares components.\<close>

definition normalize_relative_path ::
    "(string \<Rightarrow> string \<Rightarrow> string option) \<Rightarrow> string \<Rightarrow> string \<Rightarrow> string" where
  "normalize_relative_path diff_paths path root_dir =
     (let components = path_components path; prefix = path_components root_dir
      in if take (length prefix) components = prefix
         then join ''/'' (fold push_component (drop (length prefix) components) [])
         else normalize_path
           (case diff_paths path root_dir of None \<Rightarrow> path | Some relative \<Rightarrow> relative))"

definition trim_slashes :: "string \<Rightarrow> string" where
  "trim_slashes s =
     rev (dropWhile (\<lambda>c. c = CHR ''/'') (rev (dropWhile (\<lambda>c. c = CHR ''/'') s)))"

definition repository_path :: "string \<Rightarrow> string \<Rightarrow> string" where
  "repository_path project_root file_path =
     (let root = trim_slashes project_root
      in if root = [] \<or> root = ''.'' then file_path
         else if file_path = [] then root
         else root @ ''/'' @ file_path)"

subsection \<open>Which sources are scanned\<close>

definition source_extensions :: "string list" where
  "source_extensions =
     [''cjs'', ''js'', ''jsx'', ''mjs'', ''py'', ''rs'', ''svelte'', ''ts'', ''tsx'']"

definition is_ignored_part :: "string \<Rightarrow> bool" where
  "is_ignored_part part \<longleftrightarrow>
     part \<in> {''tests'', ''__tests__'', ''__test__'', ''__mocks__'', ''target'', ''node_modules'',
             ''dist'', ''build'', ''coverage'', ''.git''}"

definition is_ignored_dir :: "string \<Rightarrow> bool \<Rightarrow> bool" where
  "is_ignored_dir name no_default_ignore \<longleftrightarrow>
     \<not> no_default_ignore \<and> (starts_with ''.'' name \<or> is_ignored_part name)"

definition is_ignored_consumer_dir :: "string \<Rightarrow> bool" where
  "is_ignored_consumer_dir name \<longleftrightarrow>
     starts_with ''.'' name
     \<or> name \<in> {''target'', ''node_modules'', ''dist'', ''build'', ''coverage''}"

definition is_ignored_path :: "string \<Rightarrow> bool \<Rightarrow> bool" where
  "is_ignored_path path no_default_ignore \<longleftrightarrow>
     \<not> no_default_ignore \<and> list_ex is_ignored_part (segments path)"

definition ends_with :: "string \<Rightarrow> string \<Rightarrow> bool" where
  "ends_with suffix s \<longleftrightarrow> starts_with (rev suffix) (rev s)"

definition is_conventional_test_source :: "string \<Rightarrow> bool" where
  "is_conventional_test_source path \<longleftrightarrow>
     (\<exists>component \<in> set (path_components path).
        to_ascii_lowercase (component_str component)
          \<in> {''test'', ''tests'', ''__test__'', ''__tests__'', ''integration-tests'', ''fixtures''})
     \<or> (case file_name path of
          None \<Rightarrow> False
        | Some file \<Rightarrow>
            let name = to_ascii_lowercase file
            in contains_str name ''.test.'' \<or> contains_str name ''.spec.''
               \<or> contains_str name ''.playwright.''
               \<or> ends_with ''_test.py'' name \<or> ends_with ''_test.rs'' name)"

fun has_public_assets :: "string option \<Rightarrow> string list \<Rightarrow> bool" where
  "has_public_assets previous [] = False"
| "has_public_assets previous (part # parts) =
     (if part = ''assets'' \<and> (previous = Some ''public'' \<or> previous = Some ''public_html'') then True
      else has_public_assets (Some part) parts)"

text \<open>The suffixes after each dash, which \<open>match_indices\<close> enumerates.\<close>

fun after_dashes :: "string \<Rightarrow> string list" where
  "after_dashes [] = []"
| "after_dashes (c # s) = (if c = CHR ''-'' then s # after_dashes s else after_dashes s)"

definition is_fingerprint :: "string \<Rightarrow> bool" where
  "is_fingerprint fingerprint =
     (let uppercase = length (filter is_ascii_uppercase fingerprint);
          digits = length (filter is_ascii_digit fingerprint)
      in 8 \<le> length fingerprint \<and> length fingerprint \<le> 16
         \<and> list_all (\<lambda>c. is_ascii_alphanumeric c \<or> c = CHR ''-'' \<or> c = CHR ''_'') fingerprint
         \<and> (uppercase \<ge> 2 \<or> (uppercase \<ge> 1 \<and> digits \<ge> 1)))"

definition is_fingerprinted_web_bundle :: "string \<Rightarrow> bool" where
  "is_fingerprinted_web_bundle path =
     (if \<not> has_public_assets None (segments path) then False
      else (case file_stem path of
              None \<Rightarrow> False
            | Some stem \<Rightarrow> list_ex is_fingerprint (after_dashes stem)))"

definition source_argument :: "string \<Rightarrow> string option" where
  "source_argument token =
     (let path = (case strip_prefix ''./'' token of None \<Rightarrow> token | Some rest \<Rightarrow> rest)
      in if \<not> is_absolute path
            \<and> (case extension path of None \<Rightarrow> False | Some ext \<Rightarrow> ext \<in> set source_extensions)
         then Some (normalize_path path) else None)"

subsection \<open>Normal paths\<close>

definition normal_part :: "string \<Rightarrow> bool" where
  "normal_part s \<longleftrightarrow> s \<noteq> [] \<and> s \<noteq> ''.'' \<and> s \<noteq> ''..'' \<and> CHR ''/'' \<notin> set s"

definition normal_parts :: "string list \<Rightarrow> bool" where
  "normal_parts parts \<longleftrightarrow> (\<exists>k xs. parts = replicate k ''..'' @ xs \<and> list_all normal_part xs)"

lemma segment_no_slash: "s \<in> set (segments path) \<Longrightarrow> CHR ''/'' \<notin> set s"
  using set_split_on [of "CHR ''/''" path] by (auto simp: segments_def)

lemma push_component_normal:
  assumes "normal_parts parts" and "\<And>s. c = Normal s \<Longrightarrow> normal_part s"
  shows "normal_parts (push_component c parts)"
proof -
  from assms(1) obtain k xs where parts: "parts = replicate k ''..'' @ xs" and xs: "list_all normal_part xs"
    by (auto simp: normal_parts_def)
  show ?thesis
  proof (cases c)
    case ParentDir
    show ?thesis
    proof (cases xs rule: rev_cases)
      case Nil
      then have "push_component c parts = replicate (Suc k) ''..'' @ []"
        by (cases k) (auto simp: parts ParentDir replicate_append_same)
      moreover have "normal_parts (replicate (Suc k) ''..'' @ [])"
        unfolding normal_parts_def by (metis list.pred_inject(1))
      ultimately show ?thesis by simp
    next
      case (snoc ys y)
      with xs have "y \<noteq> ''..''" by (simp add: normal_part_def)
      with snoc xs show ?thesis
        by (auto simp: parts ParentDir normal_parts_def butlast_append intro!: exI [of _ k] exI [of _ ys])
    qed
  next
    case (Normal s)
    with assms(2) xs show ?thesis
      by (auto simp: parts normal_parts_def intro!: exI [of _ k] exI [of _ "xs @ [s]"])
  qed (use assms(1) in simp_all)
qed

lemma components_normal: "Normal s \<in> set (path_components path) \<Longrightarrow> normal_part s"
  using segment_no_slash [of s path]
  by (auto simp: path_components_def normal_part_def split: if_splits)

lemma fold_push_normal:
  "normal_parts parts \<Longrightarrow> (\<And>s. Normal s \<in> set cs \<Longrightarrow> normal_part s) \<Longrightarrow>
     normal_parts (fold push_component cs parts)"
proof (induction cs arbitrary: parts)
  case (Cons c cs)
  have "normal_parts (push_component c parts)"
    using Cons.prems by (auto intro: push_component_normal)
  with Cons show ?case by simp
qed simp

lemma segments_join:
  "parts \<noteq> [] \<Longrightarrow> \<forall>p \<in> set parts. CHR ''/'' \<notin> set p \<Longrightarrow> segments (join ''/'' parts) = parts"
proof (induction parts rule: induct_list012)
  case (2 p)
  then have "split_on (\<lambda>c. c = CHR ''/'') p = [p]" by (induction p) auto
  then show ?case by (simp add: segments_def)
next
  case (3 p q parts)
  have "split_on (\<lambda>c. c = CHR ''/'') (p @ CHR ''/'' # s) = p # split_on (\<lambda>c. c = CHR ''/'') s"
    if "CHR ''/'' \<notin> set p" for p s
    using that by (induction p) auto
  with 3 show ?case by (simp add: segments_def)
qed simp

lemma part_not_dot: "normal_parts parts \<Longrightarrow> p \<in> set parts \<Longrightarrow> p \<noteq> [] \<and> p \<noteq> ''.'' \<and> CHR ''/'' \<notin> set p"
proof -
  assume "normal_parts parts" and "p \<in> set parts"
  then obtain k xs where "parts = replicate k ''..'' @ xs" and xs: "list_all normal_part xs"
    unfolding normal_parts_def by blast
  with \<open>p \<in> set parts\<close> consider "p = ''..''" | "p \<in> set xs"
    by (metis Un_iff in_set_replicate set_append)
  then show ?thesis
  proof cases
    case 1
    then show ?thesis by simp
  next
    case 2
    with xs show ?thesis by (simp add: list_all_iff normal_part_def)
  qed
qed

lemma components_of_normal:
  assumes "normal_parts parts" and "parts \<noteq> []"
  shows "path_components (join ''/'' parts) = map (\<lambda>s. if s = ''..'' then ParentDir else Normal s) parts"
proof -
  have seg: "segments (join ''/'' parts) = parts"
    using assms part_not_dot by (intro segments_join) blast+
  obtain p ps where parts: "parts = p # ps" using assms(2) by (cases parts) auto
  have p: "p \<noteq> [] \<and> p \<noteq> ''.'' \<and> CHR ''/'' \<notin> set p"
    using part_not_dot [OF assms(1)] by (simp add: parts)
  then have "\<not> is_absolute (join ''/'' parts)"
    by (cases ps; cases p) (auto simp: is_absolute_def parts)
  moreover have "filter (\<lambda>s. s \<noteq> [] \<and> s \<noteq> ''.'') parts = parts"
    using part_not_dot [OF assms(1)] by (simp add: filter_id_conv)
  moreover from p have "hd parts \<noteq> ''.''" by (simp add: parts)
  ultimately show ?thesis by (simp add: path_components_def seg)
qed

lemma push_normal_parts:
  assumes "normal_parts parts"
  shows "fold push_component (map (\<lambda>s. if s = ''..'' then ParentDir else Normal s) parts) [] = parts"
proof -
  from assms obtain k xs where parts: "parts = replicate k ''..'' @ xs" and xs: "list_all normal_part xs"
    by (auto simp: normal_parts_def)
  have up: "fold push_component (replicate k ParentDir) (replicate j ''..'') = replicate (j + k) ''..''" for j
  proof (induction k arbitrary: j)
    case (Suc k)
    have "push_component ParentDir (replicate j ''..'') = replicate (Suc j) ''..''"
      by (cases j) (simp_all add: replicate_append_same)
    with Suc.IH [of "Suc j"] show ?case by simp
  qed simp
  have down: "fold push_component (map (\<lambda>s. if s = ''..'' then ParentDir else Normal s) xs) ys = ys @ xs" for ys
    using xs by (induction xs arbitrary: ys) (auto simp: normal_part_def)
  show ?thesis using up [of 0] by (simp add: parts down)
qed

lemma normalized_parts: "normal_parts (fold push_component (path_components path) [])"
  by (rule fold_push_normal) (auto simp: normal_parts_def components_normal intro: exI [of _ 0])

text \<open>
  What a relative path means: a walk from a directory, which is the list of its names, the innermost
  first. The parent of the root is the root.
\<close>

fun walk :: "path_component list \<Rightarrow> string list \<Rightarrow> string list" where
  "walk [] dir = dir"
| "walk (Normal s # cs) dir = walk cs (s # dir)"
| "walk (ParentDir # cs) dir = walk cs (tl dir)"
| "walk (CurDir # cs) dir = walk cs dir"
| "walk (RootDir # cs) dir = walk cs []"

abbreviation part_component :: "string \<Rightarrow> path_component" where
  "part_component s \<equiv> (if s = ''..'' then ParentDir else Normal s)"

lemma walk_append: "walk (cs @ ds) dir = walk ds (walk cs dir)"
  by (induction cs dir rule: walk.induct) simp_all

text \<open>Pushing a component walks one step further; a parent only cancels a name, never another parent.\<close>

lemma walk_push_component:
  assumes "c \<noteq> RootDir" and "\<And>s. c = Normal s \<Longrightarrow> s \<noteq> ''..''"
  shows "walk (map part_component (push_component c parts)) dir = walk [c] (walk (map part_component parts) dir)"
proof (cases c)
  case ParentDir
  show ?thesis
  proof (cases parts rule: rev_cases)
    case (snoc ps p)
    then show ?thesis by (simp add: ParentDir walk_append)
  qed (simp add: ParentDir)
qed (use assms in \<open>simp_all add: walk_append\<close>)

lemma walk_fold_push:
  assumes "RootDir \<notin> set cs" and "\<And>s. Normal s \<in> set cs \<Longrightarrow> normal_part s"
  shows "walk (map part_component (fold push_component cs parts)) dir = walk cs (walk (map part_component parts) dir)"
  using assms
proof (induction cs arbitrary: parts)
  case (Cons c cs)
  have "walk (map part_component (push_component c parts)) dir = walk [c] (walk (map part_component parts) dir)"
    using Cons.prems by (intro walk_push_component) (auto simp: normal_part_def)
  with Cons show ?case using walk_append [of "[c]" cs] by simp
qed simp

lemma components_of_parts:
  "normal_parts parts \<Longrightarrow> path_components (join ''/'' parts) = map part_component parts"
proof (cases "parts = []")
  case True
  then show ?thesis by (simp add: path_components_def segments_def is_absolute_def)
qed (rule components_of_normal)

text \<open>A canonical part list is determined by where it leads.\<close>

lemma walk_ups: "walk (map part_component (replicate k ''..'')) dir = drop k dir"
  by (induction k arbitrary: dir) (simp_all add: drop_Suc)

lemma walk_names: "list_all normal_part xs \<Longrightarrow> walk (map part_component xs) dir = rev xs @ dir"
  by (induction xs arbitrary: dir) (auto simp: normal_part_def)

lemma takeWhile_prefix: "\<forall>x \<in> set xs. P x \<Longrightarrow> takeWhile P ys = [] \<Longrightarrow> takeWhile P (xs @ ys) = xs"
  by (induction xs) simp_all

lemma canonical_unique:
  assumes "list_all normal_part xs" and "list_all normal_part ys"
    and "\<And>dir. rev xs @ drop j dir = rev ys @ drop k dir"
  shows "j = k \<and> xs = ys"
proof -
  text \<open>Two directories deep enough for both, over names that differ, tell how far up the lists go.\<close>
  let ?dir = "\<lambda>s. replicate (j + k) [] @ [s]"
  have len: "length xs + (j + k + 1 - j) = length ys + (j + k + 1 - k)"
    using arg_cong [OF assms(3) [of "?dir []"], of length] by simp
  have names: "takeWhile (\<lambda>s. s \<noteq> []) (rev zs @ drop i (?dir [])) = rev zs"
    if "list_all normal_part zs" "i \<le> j + k" for zs i
  proof -
    have "\<forall>s \<in> set (rev zs). s \<noteq> []" using that(1) by (auto simp: list_all_iff normal_part_def)
    moreover have drop: "drop i (?dir []) = replicate (j + k - i) [] @ [[]]" using that(2) by simp
    have "takeWhile (\<lambda>s. s \<noteq> []) (drop i (?dir [])) = []" unfolding drop by (cases "j + k - i") simp_all
    ultimately show ?thesis by (rule takeWhile_prefix)
  qed
  have "rev xs = rev ys"
    using names [OF assms(1) le_add1, unfolded assms(3)] names [OF assms(2) le_add2] by argo
  with len show ?thesis by simp
qed

text \<open>C38: Normalization keeps where a relative path leads, from every directory, and two relative paths
  have the same normal form exactly when they lead to the same place from every directory. A normal
  form is a run of \<open>..\<close> parts followed by ordinary names, none of them empty, \<open>.\<close> or \<open>..\<close> and none
  with a slash, and normalizing it again does not change it.\<close>

theorem normalized_paths_are_canonical:
  "(\<not> is_absolute path \<longrightarrow>
      (\<forall>dir. walk (path_components (normalize_path path)) dir = walk (path_components path) dir))
   \<and> (\<not> is_absolute path \<and> \<not> is_absolute other \<longrightarrow>
      (normalize_path path = normalize_path other
        \<longleftrightarrow> (\<forall>dir. walk (path_components path) dir = walk (path_components other) dir)))
   \<and> normalize_path (normalize_path path) = normalize_path path
   \<and> (\<exists>k xs. normalize_path path = join ''/'' (replicate k ''..'' @ xs) \<and> list_all normal_part xs)"
proof -
  let ?parts = "\<lambda>path. fold push_component (path_components path) []"
  have components: "path_components (normalize_path path) = map part_component (?parts path)" for path
    unfolding normalize_path_def by (rule components_of_parts [OF normalized_parts])
  have leads: "walk (path_components (normalize_path path)) dir = walk (path_components path) dir"
    if "\<not> is_absolute path" for path dir
  proof -
    have "RootDir \<notin> set (path_components path)" using that by (auto simp: path_components_def)
    then show ?thesis using walk_fold_push [of "path_components path" "[]" dir] components_normal [of _ path]
      by (simp add: components)
  qed
  have same: "normalize_path path = normalize_path other"
    if relative: "\<not> is_absolute path" "\<not> is_absolute other"
      and eq: "\<And>dir. walk (path_components path) dir = walk (path_components other) dir"
  proof -
    obtain j xs where xs: "?parts path = replicate j ''..'' @ xs" "list_all normal_part xs"
      using normalized_parts [of path] by (auto simp: normal_parts_def)
    obtain k ys where ys: "?parts other = replicate k ''..'' @ ys" "list_all normal_part ys"
      using normalized_parts [of other] by (auto simp: normal_parts_def)
    have "rev xs @ drop j dir = rev ys @ drop k dir" for dir
      using leads [OF relative(1), of dir] leads [OF relative(2), of dir] eq [of dir]
      by (simp add: components xs(1) ys(1) walk_append walk_ups walk_names [OF xs(2)] walk_names [OF ys(2)] del: map_replicate)
    then have "j = k \<and> xs = ys" by (rule canonical_unique [OF xs(2) ys(2)])
    then show ?thesis by (simp add: normalize_path_def xs ys)
  qed
  have idempotent: "normalize_path (normalize_path path) = normalize_path path"
    unfolding normalize_path_def [of "normalize_path path"] components
    by (simp only: push_normal_parts [OF normalized_parts]) (simp add: normalize_path_def)
  have form: "\<exists>k xs. normalize_path path = join ''/'' (replicate k ''..'' @ xs) \<and> list_all normal_part xs"
    using normalized_parts [of path] unfolding normal_parts_def normalize_path_def by metis
  have same_iff: "normalize_path path = normalize_path other
      \<longleftrightarrow> (\<forall>dir. walk (path_components path) dir = walk (path_components other) dir)"
    if "\<not> is_absolute path" "\<not> is_absolute other"
    using same [OF that] leads [OF that(1)] leads [OF that(2)] by metis
  show ?thesis using leads same_iff idempotent form by blast
qed

text \<open>The theorem at a path whose parents go above its start.\<close>

theorem normalized_paths_are_canonical_witness:
  "walk (path_components (normalize_path ''../../x'')) [''c'', ''b'', ''a''] = [''x'', ''a'']
   \<and> normalize_path ''a/../../b/./c'' = ''../b/c''"
proof
  have "\<not> is_absolute ''../../x''" by (simp add: is_absolute_def)
  then have "walk (path_components (normalize_path ''../../x'')) [''c'', ''b'', ''a'']
      = walk (path_components ''../../x'') [''c'', ''b'', ''a'']"
    using normalized_paths_are_canonical [of "''../../x''"] by blast
  then show "walk (path_components (normalize_path ''../../x'')) [''c'', ''b'', ''a''] = [''x'', ''a'']"
    by (simp add: path_components_def segments_def is_absolute_def)
qed (simp add: normalize_path_def path_components_def segments_def is_absolute_def)

end
