(* ===== verification/DeadCodeModel.thy ===== *)
theory DeadCodeModel
  imports Reachability SourcePolicy
begin

text \<open>
  The dead-code report (\<open>src/dead_code/model.rs\<close>) and the classification of a finding
  (\<open>src/dead_code/classification.rs\<close>): its identity, evidence class, source disposition and whether it
  gates. SHA-256 with hexadecimal output is the argument \<open>hash\<close>.
\<close>

subsection \<open>The report\<close>

datatype dead_code_kind =
  UnreachableFile | UnusedPrivateSymbol | TestOnly | ToolingOnly | UnreferencedPublic
| UnexportedWorkspaceImport | WorkspaceBypass | UnresolvedInternalEdge | DynamicBoundary | MalformedDirective

fun dead_code_kind_rank :: "dead_code_kind \<Rightarrow> nat" where
  "dead_code_kind_rank UnreachableFile = 0"
| "dead_code_kind_rank UnusedPrivateSymbol = 1"
| "dead_code_kind_rank TestOnly = 2"
| "dead_code_kind_rank ToolingOnly = 3"
| "dead_code_kind_rank UnreferencedPublic = 4"
| "dead_code_kind_rank UnexportedWorkspaceImport = 5"
| "dead_code_kind_rank WorkspaceBypass = 6"
| "dead_code_kind_rank UnresolvedInternalEdge = 7"
| "dead_code_kind_rank DynamicBoundary = 8"
| "dead_code_kind_rank MalformedDirective = 9"

lemma dead_code_kind_rank_inj: "dead_code_kind_rank a = dead_code_kind_rank b \<Longrightarrow> a = b"
  by (cases a; cases b) simp_all

instantiation dead_code_kind :: linorder
begin

definition less_eq_dead_code_kind :: "dead_code_kind \<Rightarrow> dead_code_kind \<Rightarrow> bool" where
  "less_eq_dead_code_kind a b \<longleftrightarrow> dead_code_kind_rank a \<le> dead_code_kind_rank b"

definition less_dead_code_kind :: "dead_code_kind \<Rightarrow> dead_code_kind \<Rightarrow> bool" where
  "less_dead_code_kind a b \<longleftrightarrow> dead_code_kind_rank a < dead_code_kind_rank b"

instance
  by standard (auto simp: less_eq_dead_code_kind_def less_dead_code_kind_def dest: dead_code_kind_rank_inj)

end

fun kind_str :: "dead_code_kind \<Rightarrow> string" where
  "kind_str UnreachableFile = ''unreachable_file''"
| "kind_str UnusedPrivateSymbol = ''unused_private_symbol''"
| "kind_str TestOnly = ''test_only''"
| "kind_str ToolingOnly = ''tooling_only''"
| "kind_str UnreferencedPublic = ''unreferenced_public''"
| "kind_str UnexportedWorkspaceImport = ''unexported_workspace_import''"
| "kind_str WorkspaceBypass = ''workspace_source_bypass''"
| "kind_str UnresolvedInternalEdge = ''unresolved_internal_edge''"
| "kind_str DynamicBoundary = ''dynamic_boundary''"
| "kind_str MalformedDirective = ''malformed_fuzz_directive''"

definition gates_at :: "dead_code_kind \<Rightarrow> finding_confidence \<Rightarrow> bool" where
  "gates_at kind confidence \<longleftrightarrow>
     confidence = High
     \<and> kind \<in> {UnreachableFile, UnusedPrivateSymbol, UnexportedWorkspaceImport, WorkspaceBypass,
               UnresolvedInternalEdge, MalformedDirective}"

record root_context_label =
  rcl_context :: string
  rcl_root :: string

record dead_code_finding =
  df_id :: string
  df_kind :: dead_code_kind
  df_project :: string
  df_node_id :: "node_id option"
  df_path :: string
  df_symbol :: "string option"
  df_language :: "source_language option"
  df_contexts :: "string list"
  df_root_contexts :: "root_context_label list"
  df_roles :: "context_role bset"
  df_confidence :: finding_confidence
  df_evidence_class :: evidence_class
  df_source_disposition :: source_disposition
  df_evidence :: source_evidence
  df_message :: string
  df_gates :: bool

record completeness_reason =
  cr_kind :: boundary_kind
  cr_effect :: analysis_completeness
  cr_message :: string
  cr_evidence :: source_evidence

record project_summary =
  ps_project :: string
  ps_root :: string
  ps_completeness :: analysis_completeness
  ps_completeness_reasons :: "completeness_reason list"
  ps_require_complete :: bool
  ps_files :: nat
  ps_files_by_language :: "(source_language, nat) bmap"
  ps_symbols :: nat

record dead_code_report =
  dr_schema_version :: nat
  dr_tool_version :: string
  dr_projects :: "project_summary list"
  dr_findings :: "dead_code_finding list"

definition dead_code_schema_version :: nat where
  "dead_code_schema_version = 6"

text \<open>The tool version is the package version of the build, an argument here.\<close>

definition report_new :: "string \<Rightarrow> dead_code_report" where
  "report_new version =
     \<lparr>dr_schema_version = dead_code_schema_version, dr_tool_version = version,
      dr_projects = [], dr_findings = []\<rparr>"

definition finding_order ::
    "dead_code_finding \<Rightarrow> string \<times> string \<times> dead_code_kind \<times> string option \<times> string" where
  "finding_order f = (df_project f, df_path f, df_kind f, df_symbol f, df_id f)"

definition canonicalize :: "dead_code_report \<Rightarrow> dead_code_report" where
  "canonicalize report =
     report\<lparr>dr_projects := sort_key ps_project (dr_projects report),
            dr_findings := sort_key finding_order (dr_findings report)\<rparr>"

definition gate_count :: "dead_code_report \<Rightarrow> nat" where
  "gate_count report = length (filter df_gates (dr_findings report))"

definition apply_completeness_requirements :: "string bset \<Rightarrow> dead_code_report \<Rightarrow> dead_code_report" where
  "apply_completeness_requirements required report =
     report\<lparr>dr_projects :=
       map (\<lambda>p. p\<lparr>ps_require_complete := ps_project p \<in> set required\<rparr>) (dr_projects report)\<rparr>"

definition completeness_gate_count :: "dead_code_report \<Rightarrow> nat" where
  "completeness_gate_count report =
     length (filter (\<lambda>p. ps_require_complete p \<and> ps_completeness p \<noteq> Complete) (dr_projects report))"

definition check_failure_count :: "dead_code_report \<Rightarrow> nat" where
  "check_failure_count report = gate_count report + completeness_gate_count report"

subsection \<open>Classification\<close>

record finding_details =
  det_project :: string
  det_node_id :: "node_id option"
  det_path :: string
  det_symbol :: "string option"
  det_language :: "source_language option"
  det_contexts :: "string list"
  det_root_contexts :: "root_context_label list"
  det_roles :: "context_role bset"
  det_confidence :: finding_confidence
  det_evidence :: source_evidence
  det_message :: string
  det_identity_detail :: "string option"

definition evidence_class_of :: "dead_code_kind \<Rightarrow> finding_confidence \<Rightarrow> evidence_class" where
  "evidence_class_of kind confidence =
     (if confidence \<noteq> High \<or> kind = UnreferencedPublic \<or> kind = DynamicBoundary then BoundaryLimited
      else if kind \<in> {UnreachableFile, UnusedPrivateSymbol, TestOnly, ToolingOnly} then Inferred
      else Direct)"

definition path_parts :: "string \<Rightarrow> string list" where
  "path_parts path =
     map to_ascii_lowercase (split_on (\<lambda>c. c = CHR ''/'' \<or> c = CHR 0x5C) path)"

definition source_disposition_of :: "string \<Rightarrow> source_disposition" where
  "source_disposition_of path =
     (let parts = path_parts path
      in if \<exists>part \<in> set parts. part \<in> {''fixture'', ''fixtures'', ''__fixtures__'', ''testdata'',
              ''test-data'', ''snapshots''}
         then Fixture
         else if \<exists>part \<in> set parts. part \<in> {''generated'', ''__generated__'', ''dist'', ''build'',
              ''coverage'', ''target''}
         then Generated
         else if is_conventional_test_source path then TestSource
         else if \<exists>part \<in> set parts. part \<in> {''tool'', ''tools'', ''script'', ''scripts'', ''xtask'',
              ''benches''}
         then ToolingSource
         else Maintained)"

text \<open>\<open>to_le_bytes\<close> of a \<open>k\<close>-byte integer.\<close>

fun le_bytes :: "nat \<Rightarrow> nat \<Rightarrow> string" where
  "le_bytes 0 n = []"
| "le_bytes (Suc k) n = char_of (n mod 256) # le_bytes k (n div 256)"

definition or_empty :: "string option \<Rightarrow> string" where
  "or_empty s = (case s of None \<Rightarrow> [] | Some v \<Rightarrow> v)"

definition span_bytes :: "span option \<Rightarrow> string" where
  "span_bytes s =
     (case s of
        None \<Rightarrow> [CHR 0x00]
      | Some s \<Rightarrow>
          CHR 0x01 # concat (map (le_bytes 4) [start_line s, start_col s, end_line s, end_col s]))"

definition identity_values :: "dead_code_kind \<Rightarrow> finding_details \<Rightarrow> string list" where
  "identity_values kind details =
     [kind_str kind, det_project details, or_empty (det_node_id details), det_path details,
      or_empty (det_symbol details), ev_extractor (det_evidence details),
      or_empty (det_identity_detail details)]"

definition finding_preimage :: "dead_code_kind \<Rightarrow> finding_details \<Rightarrow> string" where
  "finding_preimage kind details =
     ''atlas.codeatlas.dev/dead-code-finding/v1'' @ [CHR 0x00]
     @ concat (map (\<lambda>value. le_bytes 8 (length value) @ value) (identity_values kind details))
     @ span_bytes (ev_span (det_evidence details))"

definition stable_finding_id ::
    "(string \<Rightarrow> string) \<Rightarrow> dead_code_kind \<Rightarrow> finding_details \<Rightarrow> string" where
  "stable_finding_id hash kind details =
     ''dead-code/'' @ kind_str kind @ ''/'' @ hash (finding_preimage kind details)"

definition build_finding ::
    "(string \<Rightarrow> string) \<Rightarrow> dead_code_kind \<Rightarrow> finding_details \<Rightarrow> dead_code_finding" where
  "build_finding hash kind details =
     \<lparr>df_id = stable_finding_id hash kind details, df_kind = kind, df_project = det_project details,
      df_node_id = det_node_id details, df_path = det_path details, df_symbol = det_symbol details,
      df_language = det_language details, df_contexts = det_contexts details,
      df_root_contexts = det_root_contexts details, df_roles = det_roles details,
      df_confidence = det_confidence details,
      df_evidence_class = evidence_class_of kind (det_confidence details),
      df_source_disposition = source_disposition_of (det_path details),
      df_evidence = det_evidence details, df_message = det_message details,
      df_gates = gates_at kind (det_confidence details)\<rparr>"

end
