(* ===== verification/DeadCode.thy ===== *)
theory DeadCode
  imports DeadCodeModel
begin

text \<open>
  The dead-code analysis (\<open>src/dead_code/analyze.rs\<close>): a report over a source graph and its
  reachability. Each loop of \<open>analyze_report\<close> is a fold whose step is the loop's body. The arguments
  \<open>hash\<close> (SHA-256 in hexadecimal), \<open>debug\<close> (the \<open>{:?}\<close> rendering of a string) and \<open>version\<close> (the package
  version) stand for what is outside the sources.
\<close>

subsection \<open>Labels and small lookups\<close>

definition context_labels :: "context_id bset \<Rightarrow> (context_id, string) bmap \<Rightarrow> string list" where
  "context_labels contexts names =
     map (\<lambda>c. case bmap_get names c of None \<Rightarrow> c | Some name \<Rightarrow> name) contexts"

definition root_label :: "'c source_graph \<Rightarrow> node_id \<Rightarrow> string" where
  "root_label g root =
     (case bmap_get (sg_nodes g) root of Some (FileNode file) \<Rightarrow> sf_path file | _ \<Rightarrow> root)"

definition root_context_labels ::
    "(context_id \<times> node_id) bset \<Rightarrow> (context_id, string) bmap \<Rightarrow> 'c source_graph
     \<Rightarrow> root_context_label list" where
  "root_context_labels roots names g =
     map (\<lambda>(c, root).
       \<lparr>rcl_context = (case bmap_get names c of None \<Rightarrow> c | Some name \<Rightarrow> name),
        rcl_root = root_label g root\<rparr>) roots"

definition project_for_node :: "'c source_graph \<Rightarrow> node_id \<Rightarrow> project_id option" where
  "project_for_node g node = map_option node_project (bmap_get (sg_nodes g) node)"

definition is_workspace_root_project :: "'c source_graph \<Rightarrow> project_id \<Rightarrow> bool" where
  "is_workspace_root_project g project =
     (case bmap_get (sg_projects g) project of None \<Rightarrow> False | Some p \<Rightarrow> sp_root p = ''.'')"

text \<open>The recursion follows a symbol to its file. A validated graph needs one step; a chain of symbols
  longer than the number of nodes is a cycle, on which the source does not return.\<close>

fun file_language_in :: "nat \<Rightarrow> 'c source_graph \<Rightarrow> node_id \<Rightarrow> source_language option" where
  "file_language_in 0 g node = None"
| "file_language_in (Suc fuel) g node =
     (case bmap_get (sg_nodes g) node of
        Some (FileNode file) \<Rightarrow> Some (sf_language file)
      | Some (SymbolNode symbol) \<Rightarrow> file_language_in fuel g (ss_file symbol)
      | None \<Rightarrow> None)"

definition file_language :: "'c source_graph \<Rightarrow> node_id \<Rightarrow> source_language option" where
  "file_language g node = file_language_in (length (sg_nodes g) + 1) g node"

fun lower_confidence :: "finding_confidence \<Rightarrow> finding_confidence" where
  "lower_confidence High = Medium"
| "lower_confidence Medium = Medium"
| "lower_confidence Low = Low"

definition unresolved_internal_confidence ::
    "'c source_graph \<Rightarrow> project_id \<Rightarrow> node_id option \<Rightarrow> finding_confidence" where
  "unresolved_internal_confidence g project node =
     (let project_level_confidence = project_confidence g project;
          rust_source =
            (case Option.bind node (file_language g) of
               Some language \<Rightarrow> language = Rust
             | None \<Rightarrow>
                 (case bmap_get (sg_projects g) project of
                    None \<Rightarrow> False
                  | Some p \<Rightarrow> length (sp_languages p) = 1 \<and> Rust \<in> set (sp_languages p)))
      in if rust_source \<and> project_level_confidence \<noteq> High then project_level_confidence else High)"

definition context_only_kind :: "context_role bset \<Rightarrow> dead_code_kind" where
  "context_only_kind roles =
     (if length roles = 1 \<and> Test \<in> set roles then TestOnly else ToolingOnly)"

subsection \<open>What public symbols depend on\<close>

definition add_dependency :: "source_edge \<Rightarrow> adjacency \<Rightarrow> adjacency" where
  "add_dependency edge adj =
     (if se_kind edge = Contains \<or> se_kind edge = ReExport then adj
      else (case se_to edge of
              ToNode target \<Rightarrow> add_arc (se_from edge) target adj
            | _ \<Rightarrow> adj))"

definition is_public_symbol :: "'c source_node \<Rightarrow> bool" where
  "is_public_symbol node =
     (case node of SymbolNode symbol \<Rightarrow> ss_visibility symbol = VisPublic | FileNode _ \<Rightarrow> False)"

definition public_dependency_nodes :: "'c source_graph \<Rightarrow> node_id bset" where
  "public_dependency_nodes g =
     (let adj = fold add_dependency (sg_edges g) [];
          queue = map (\<lambda>(node_id, _). (node_id, ())) (filter (\<lambda>(_, node). is_public_symbol node) (sg_nodes g))
      in bset_of (map fst (traverse (\<lambda>u. u) adj queue [])))"

subsection \<open>Project summaries\<close>

definition is_file_of :: "project_id \<Rightarrow> 'c source_node \<Rightarrow> bool" where
  "is_file_of p node = (case node of FileNode file \<Rightarrow> sf_project file = p | SymbolNode _ \<Rightarrow> False)"

definition is_symbol_of :: "project_id \<Rightarrow> 'c source_node \<Rightarrow> bool" where
  "is_symbol_of p node = (case node of SymbolNode symbol \<Rightarrow> ss_project symbol = p | FileNode _ \<Rightarrow> False)"

definition count_language ::
    "project_id \<Rightarrow> 'c source_node \<Rightarrow> (source_language, nat) bmap \<Rightarrow> (source_language, nat) bmap" where
  "count_language p node counts =
     (case node of
        FileNode file \<Rightarrow>
          if sf_project file = p then bmap_entry (sf_language file) 0 (\<lambda>n. n + 1) counts else counts
      | SymbolNode _ \<Rightarrow> counts)"

definition project_summary_of :: "'c source_graph \<Rightarrow> source_project \<Rightarrow> project_summary" where
  "project_summary_of g project =
     (let nodes = map snd (sg_nodes g)
      in \<lparr>ps_project = sp_id project, ps_root = sp_root project,
          ps_completeness = sp_completeness project,
          ps_completeness_reasons =
            map (\<lambda>b. \<lparr>cr_kind = ab_kind b, cr_effect = ab_effect b, cr_message = ab_message b,
                      cr_evidence = ab_evidence b\<rparr>)
              (filter (\<lambda>b. ab_project b = sp_id project) (sg_boundaries g)),
          ps_require_complete = False,
          ps_files = length (filter (is_file_of (sp_id project)) nodes),
          ps_files_by_language = fold (count_language (sp_id project)) nodes [],
          ps_symbols = length (filter (is_symbol_of (sp_id project)) nodes)\<rparr>)"

subsection \<open>Files\<close>

text \<open>What the loops read: the graph, the reachability and what is computed from them up front.\<close>

record 'c dead_code_input =
  di_graph :: "'c source_graph"
  di_reach :: reachability
  di_names :: "(context_id, string) bmap"
  di_roots :: "node_id bset"
  di_public :: "node_id bset"
  di_hash :: "string \<Rightarrow> string"
  di_debug :: "string \<Rightarrow> string"

definition dead_code_input_of ::
    "(string \<Rightarrow> string) \<Rightarrow> (string \<Rightarrow> string) \<Rightarrow> 'c source_graph \<Rightarrow> reachability \<Rightarrow> 'c dead_code_input" where
  "dead_code_input_of hash debug g reach =
     \<lparr>di_graph = g, di_reach = reach,
      di_names = fold (\<lambda>(i, ctxt). bmap_insert i (sc_name ctxt)) (sg_contexts g) [],
      di_roots = bset_of (concat (map sc_roots (map snd (sg_contexts g)))),
      di_public = public_dependency_nodes g, di_hash = hash, di_debug = debug\<rparr>"

definition graph_evidence :: "string \<Rightarrow> span option \<Rightarrow> source_evidence" where
  "graph_evidence path s = SourceEvidence path s ''codeatlas.source-graph''"

definition file_details ::
    "'c dead_code_input \<Rightarrow> node_id \<Rightarrow> source_file \<Rightarrow> finding_confidence \<Rightarrow> string \<Rightarrow> finding_details" where
  "file_details i node_id file confidence message =
     \<lparr>det_project = sf_project file, det_node_id = Some node_id, det_path = sf_path file,
      det_symbol = None, det_language = Some (sf_language file),
      det_contexts = context_labels (contexts_of (di_reach i) node_id) (di_names i),
      det_root_contexts = root_context_labels (roots_of (di_reach i) node_id) (di_names i) (di_graph i),
      det_roles = roles_of (di_reach i) node_id, det_confidence = confidence,
      det_evidence = graph_evidence (sf_path file) None, det_message = message,
      det_identity_detail = None\<rparr>"

record file_scan =
  fs_findings :: "dead_code_finding list"
  fs_unreachable :: "node_id bset"
  fs_non_production :: "node_id bset"

definition scan_file :: "'c dead_code_input \<Rightarrow> node_id \<times> 'c source_node \<Rightarrow> file_scan \<Rightarrow> file_scan" where
  "scan_file i x s =
     (case x of
        (node_id, SymbolNode _) \<Rightarrow> s
      | (node_id, FileNode file) \<Rightarrow>
          let base_confidence = file_confidence (di_graph i) (sf_project file) node_id;
              public_dependency = node_id \<in> set (di_public i);
              confidence = (if public_dependency then lower_confidence base_confidence else base_confidence);
              contexts = contexts_of (di_reach i) node_id;
              roles = roles_of (di_reach i) node_id
          in if contexts = [] then
               s\<lparr>fs_unreachable := bset_insert node_id (fs_unreachable s),
                 fs_findings := fs_findings s @ [build_finding (di_hash i) UnreachableFile
                   (file_details i node_id file confidence
                     (if public_dependency
                      then ''No configured context reaches this file, but an unreferenced public symbol depends on it; external consumers may exist.''
                      else ''No configured context reaches this file.''))]\<rparr>
             else if Production \<notin> set roles then
               let s1 = s\<lparr>fs_non_production := bset_insert node_id (fs_non_production s)\<rparr>
               in if node_id \<in> set (di_roots i) then s1
                  else s1\<lparr>fs_findings := fs_findings s1 @ [build_finding (di_hash i) (context_only_kind roles)
                    (file_details i node_id file confidence
                      (if public_dependency
                       then ''This file is reachable only from non-production contexts and is also required by an unreferenced public symbol; external consumers may exist.''
                       else ''This file is reachable only from non-production contexts.''))]\<rparr>
             else s)"

definition scan_files :: "'c dead_code_input \<Rightarrow> file_scan" where
  "scan_files i =
     fold (scan_file i) (sg_nodes (di_graph i))
       \<lparr>fs_findings = [], fs_unreachable = [], fs_non_production = []\<rparr>"

subsection \<open>Symbols\<close>

definition symbol_path :: "'c source_graph \<Rightarrow> 'c source_symbol \<Rightarrow> string" where
  "symbol_path g symbol =
     (case bmap_get (sg_nodes g) (ss_file symbol) of
        Some (FileNode file) \<Rightarrow> sf_path file
      | _ \<Rightarrow> ss_file symbol)"

definition symbol_details ::
    "'c dead_code_input \<Rightarrow> node_id \<Rightarrow> 'c source_symbol \<Rightarrow> string list \<Rightarrow> node_id \<Rightarrow> context_role bset
     \<Rightarrow> finding_confidence \<Rightarrow> string \<Rightarrow> finding_details" where
  "symbol_details i node_id symbol contexts roots_node roles confidence message =
     (let path = symbol_path (di_graph i) symbol
      in \<lparr>det_project = ss_project symbol, det_node_id = Some node_id, det_path = path,
          det_symbol = Some (ss_name symbol), det_language = file_language (di_graph i) (ss_file symbol),
          det_contexts = contexts,
          det_root_contexts = root_context_labels (roots_of (di_reach i) roots_node) (di_names i) (di_graph i),
          det_roles = roles, det_confidence = confidence,
          det_evidence = graph_evidence path (ss_span symbol), det_message = message,
          det_identity_detail = None\<rparr>)"

definition context_only_message :: "dead_code_kind \<Rightarrow> context_role bset \<Rightarrow> string" where
  "context_only_message kind roles =
     (if kind = TestOnly
      then ''Only test contexts reach this symbol; removing those tests may make it removable.''
      else if Test \<in> set roles
      then ''Only tooling and test contexts reach this symbol; production code does not use it.''
      else ''Only tooling contexts reach this symbol; production code does not use it.'')"

text \<open>A symbol that some context reaches.\<close>

definition reached_symbol ::
    "'c dead_code_input \<Rightarrow> node_id \<Rightarrow> 'c source_symbol \<Rightarrow> dead_code_finding option" where
  "reached_symbol i node_id symbol =
     (let contexts = contexts_of (di_reach i) node_id;
          roles = roles_of (di_reach i) node_id;
          base_confidence = symbol_confidence (di_graph i) (ss_project symbol) (ss_file symbol) node_id;
          public_dependency = node_id \<in> set (di_public i)
      in if Production \<in> set roles \<or> node_id \<in> set (di_roots i) then None
         else
           let kind = context_only_kind roles;
               confidence = (if ss_visibility symbol = VisPublic \<or> public_dependency
                             then lower_confidence base_confidence else base_confidence);
               message = context_only_message kind roles
                 @ (if public_dependency \<and> ss_visibility symbol \<noteq> VisPublic
                    then '' It is also required by an unreferenced public symbol; external consumers may exist.''
                    else [])
           in Some (build_finding (di_hash i) kind
                (symbol_details i node_id symbol (context_labels contexts (di_names i)) node_id roles
                   confidence message)))"

text \<open>The kind, confidence and message of a symbol that no context reaches.\<close>

definition unreached_verdict ::
    "source_visibility \<Rightarrow> bool \<Rightarrow> finding_confidence \<Rightarrow> (dead_code_kind \<times> finding_confidence \<times> string) option" where
  "unreached_verdict visibility public_dependency base_confidence =
     (if visibility = VisPrivate \<or> visibility = VisInternal then
        if public_dependency
        then Some (UnusedPrivateSymbol, lower_confidence base_confidence,
          ''No configured context reaches this private symbol, but an unreferenced public symbol depends on it; external consumers may exist.'')
        else Some (UnusedPrivateSymbol, base_confidence,
          ''No configured context reaches this private symbol.'')
      else if visibility = VisPublic
      then Some (UnreferencedPublic, lower_confidence base_confidence,
        ''No repository context reaches this public symbol. External consumers may exist.'')
      else None)"

definition unreached_symbol ::
    "'c dead_code_input \<Rightarrow> node_id \<Rightarrow> 'c source_symbol \<Rightarrow> dead_code_finding option" where
  "unreached_symbol i node_id symbol =
     map_option (\<lambda>(kind, confidence, message).
         build_finding (di_hash i) kind
           (symbol_details i node_id symbol [] (ss_file symbol) [] confidence message))
       (unreached_verdict (ss_visibility symbol) (node_id \<in> set (di_public i))
         (symbol_confidence (di_graph i) (ss_project symbol) (ss_file symbol) node_id))"

definition symbol_finding ::
    "'c dead_code_input \<Rightarrow> file_scan \<Rightarrow> node_id \<times> 'c source_node \<Rightarrow> dead_code_finding option" where
  "symbol_finding i files x =
     (case x of
        (node_id, FileNode _) \<Rightarrow> None
      | (node_id, SymbolNode symbol) \<Rightarrow>
          if ss_file symbol \<in> set (fs_unreachable files) \<or> ss_file symbol \<in> set (fs_non_production files)
          then None
          else if contexts_of (di_reach i) node_id \<noteq> [] then reached_symbol i node_id symbol
          else unreached_symbol i node_id symbol)"

definition symbol_findings :: "'c dead_code_input \<Rightarrow> file_scan \<Rightarrow> dead_code_finding list" where
  "symbol_findings i files = List.map_filter (symbol_finding i files) (sg_nodes (di_graph i))"

subsection \<open>Edges\<close>

text \<open>What an edge that cannot be followed says: its kind, the text it names, its confidence, whether it
  crosses a workspace root and whether it is a test's identity witness.\<close>

definition edge_verdict ::
    "'c dead_code_input \<Rightarrow> project_id \<Rightarrow> source_edge
     \<Rightarrow> (dead_code_kind \<times> string \<times> finding_confidence \<times> bool \<times> bool) option" where
  "edge_verdict i project edge =
     (let g = di_graph i
      in case se_to edge of
           ToNode target \<Rightarrow>
             if se_kind edge = WorkspaceSourceBypass
             then Some (WorkspaceBypass, target, High,
                    is_workspace_root_project g project
                      \<or> (case project_for_node g target of
                           None \<Rightarrow> False | Some p \<Rightarrow> is_workspace_root_project g p),
                    is_test_identity_witness (di_reach i) g edge)
             else None
         | ToUnexportedWorkspace v \<Rightarrow> Some (UnexportedWorkspaceImport, v, High, False, False)
         | ToUnresolvedInternal v \<Rightarrow>
             Some (UnresolvedInternalEdge, v,
               unresolved_internal_confidence g project (Some (se_from edge)), False, False)
         | ToDynamicUnknown v \<Rightarrow> Some (DynamicBoundary, v, project_confidence g project, False, False)
         | ToUnsupported v \<Rightarrow> Some (DynamicBoundary, v, project_confidence g project, False, False)
         | ToExternal v \<Rightarrow> None)"

definition edge_message ::
    "(string \<Rightarrow> string) \<Rightarrow> dead_code_kind \<Rightarrow> string \<Rightarrow> bool \<Rightarrow> bool \<Rightarrow> string" where
  "edge_message debug kind v workspace_root_boundary test_identity_witness =
     (if kind = UnexportedWorkspaceImport
      then ''Workspace import '' @ debug v @ '' is not declared by the target package exports.''
      else if kind = WorkspaceBypass then
        if workspace_root_boundary
        then ''Workspace-root source import crosses a repository tooling boundary and resolves to '' @ v @ ''.''
        else if test_identity_witness
        then ''Test identity witness compares a public package export with its source module at '' @ v @ ''.''
        else ''Workspace source import bypasses the target package exports and resolves to '' @ v @ ''.''
      else if kind = UnresolvedInternalEdge
      then ''Could not resolve internal source edge '' @ debug v @ ''.''
      else ''Unresolved source boundary '' @ debug v @ '' prevents certainty.'')"

definition edge_details ::
    "'c dead_code_input \<Rightarrow> project_id \<Rightarrow> source_edge \<Rightarrow> finding_confidence \<Rightarrow> string \<Rightarrow> string
     \<Rightarrow> finding_details" where
  "edge_details i project edge confidence message v =
     \<lparr>det_project = project, det_node_id = Some (se_from edge), det_path = ev_path (se_evidence edge),
      det_symbol = None, det_language = file_language (di_graph i) (se_from edge),
      det_contexts = context_labels (contexts_of (di_reach i) (se_from edge)) (di_names i),
      det_root_contexts = root_context_labels (roots_of (di_reach i) (se_from edge)) (di_names i) (di_graph i),
      det_roles = roles_of (di_reach i) (se_from edge), det_confidence = confidence,
      det_evidence = se_evidence edge, det_message = message, det_identity_detail = Some v\<rparr>"

type_synonym represented = "(project_id \<times> node_id \<times> dead_code_kind) set"

definition scan_edge ::
    "'c dead_code_input \<Rightarrow> source_edge \<Rightarrow> dead_code_finding list \<times> represented
     \<Rightarrow> dead_code_finding list \<times> represented" where
  "scan_edge i edge s =
     (case s of (findings, represented_boundaries) \<Rightarrow>
      case project_for_node (di_graph i) (se_from edge) of
        None \<Rightarrow> s
      | Some project \<Rightarrow>
          (case edge_verdict i project edge of
             None \<Rightarrow> s
           | Some (kind, v, confidence, workspace_root_boundary, test_identity_witness) \<Rightarrow>
               let finding = build_finding (di_hash i) kind
                     (edge_details i project edge confidence
                       (edge_message (di_debug i) kind v workspace_root_boundary test_identity_witness) v);
                   finding' = (if workspace_root_boundary \<or> test_identity_witness
                               then finding\<lparr>df_gates := False\<rparr> else finding)
               in (findings @ [finding'], insert (project, se_from edge, kind) represented_boundaries)))"

subsection \<open>Boundaries\<close>

definition option_map_or :: "'b \<Rightarrow> ('a \<Rightarrow> 'b) \<Rightarrow> 'a option \<Rightarrow> 'b" where
  "option_map_or d f x = (case x of None \<Rightarrow> d | Some y \<Rightarrow> f y)"

definition boundary_finding_kind :: "boundary_kind \<Rightarrow> dead_code_kind" where
  "boundary_finding_kind kind =
     (if kind = BoundaryUnresolvedInternal then UnresolvedInternalEdge else DynamicBoundary)"

definition boundary_finding ::
    "'c dead_code_input \<Rightarrow> represented \<Rightarrow> analysis_boundary \<Rightarrow> dead_code_finding option" where
  "boundary_finding i represented_boundaries b =
     (let g = di_graph i;
          kind = boundary_finding_kind (ab_kind b);
          node = option_map_or (''project/'' @ ab_project b) (\<lambda>n. n) (ab_node b)
      in if (ab_project b, node, kind) \<in> represented_boundaries then None
         else Some (build_finding (di_hash i) kind
           \<lparr>det_project = ab_project b, det_node_id = ab_node b, det_path = ev_path (ab_evidence b),
            det_symbol = None, det_language = Option.bind (ab_node b) (file_language g),
            det_contexts =
              option_map_or [] (\<lambda>n. context_labels (contexts_of (di_reach i) n) (di_names i)) (ab_node b),
            det_root_contexts =
              option_map_or [] (\<lambda>n. root_context_labels (roots_of (di_reach i) n) (di_names i) g) (ab_node b),
            det_roles = option_map_or [] (roles_of (di_reach i)) (ab_node b),
            det_confidence =
              (if kind = UnresolvedInternalEdge then unresolved_internal_confidence g (ab_project b) (ab_node b)
               else project_confidence g (ab_project b)),
            det_evidence = ab_evidence b, det_message = ab_message b,
            det_identity_detail = Some (ab_message b)\<rparr>))"

subsection \<open>Fuzz directives\<close>

definition issue_finding ::
    "'c dead_code_input \<Rightarrow> node_id \<Rightarrow> 'c source_symbol \<Rightarrow> source_file \<Rightarrow> fuzz_directive_issue
     \<Rightarrow> dead_code_finding" where
  "issue_finding i node_id symbol file issue =
     build_finding (di_hash i) MalformedDirective
       \<lparr>det_project = ss_project symbol, det_node_id = Some node_id, det_path = sf_path file,
        det_symbol = Some (ss_name symbol), det_language = Some (sf_language file),
        det_contexts = context_labels (contexts_of (di_reach i) node_id) (di_names i),
        det_root_contexts = root_context_labels (roots_of (di_reach i) node_id) (di_names i) (di_graph i),
        det_roles = roles_of (di_reach i) node_id, det_confidence = High,
        det_evidence = SourceEvidence (sf_path file) (Some (Span (fi_line issue) 0 (fi_line issue) 0))
          ''codeatlas.fuzz-directive'',
        det_message = fi_message issue, det_identity_detail = Some (issue_kind_str (fi_kind issue))\<rparr>"

definition directive_findings :: "'c dead_code_input \<Rightarrow> node_id \<times> 'c source_node \<Rightarrow> dead_code_finding list" where
  "directive_findings i x =
     (case x of
        (node_id, FileNode _) \<Rightarrow> []
      | (node_id, SymbolNode symbol) \<Rightarrow>
          (case (ss_fuzz_policy symbol, bmap_get (sg_nodes (di_graph i)) (ss_file symbol)) of
             (Some policy, Some (FileNode file)) \<Rightarrow>
               map (issue_finding i node_id symbol file) (fp_issues policy)
           | _ \<Rightarrow> []))"

subsection \<open>The report\<close>

definition all_findings :: "'c dead_code_input \<Rightarrow> bool \<Rightarrow> dead_code_finding list" where
  "all_findings i include_policy_findings =
     (let files = scan_files i;
          (edge_findings, represented_boundaries) = fold (scan_edge i) (sg_edges (di_graph i)) ([], {})
      in fs_findings files @ symbol_findings i files @ edge_findings
         @ List.map_filter (boundary_finding i represented_boundaries) (sg_boundaries (di_graph i))
         @ (if include_policy_findings
            then concat (map (directive_findings i) (sg_nodes (di_graph i))) else []))"

definition analyze_report ::
    "(string \<Rightarrow> string) \<Rightarrow> (string \<Rightarrow> string) \<Rightarrow> string \<Rightarrow> 'c source_graph \<Rightarrow> reachability \<Rightarrow> bool
     \<Rightarrow> dead_code_report" where
  "analyze_report hash debug version g reach include_policy_findings =
     canonicalize
       ((report_new version)
          \<lparr>dr_projects := map (project_summary_of g) (map snd (sg_projects g)),
           dr_findings := all_findings (dead_code_input_of hash debug g reach) include_policy_findings\<rparr>)"

definition analyze_with_reachability ::
    "(string \<Rightarrow> string) \<Rightarrow> (string \<Rightarrow> string) \<Rightarrow> string \<Rightarrow> 'c source_graph \<Rightarrow> reachability \<Rightarrow> dead_code_report" where
  "analyze_with_reachability hash debug version g reach = analyze_report hash debug version g reach False"

definition analyze_check_with_reachability ::
    "(string \<Rightarrow> string) \<Rightarrow> (string \<Rightarrow> string) \<Rightarrow> string \<Rightarrow> 'c source_graph \<Rightarrow> reachability \<Rightarrow> dead_code_report" where
  "analyze_check_with_reachability hash debug version g reach = analyze_report hash debug version g reach True"

end
