(* ===== verification/ReachProps.thy ===== *)
theory ReachProps
  imports Reachability
begin

text \<open>
  What the reachability analysis computes: the declarative reading of a context's reach, its agreement
  with the breadth-first loops, and the agreement of the analysis of all nodes with the one of targets.
\<close>

subsection \<open>The edges that are followed\<close>

definition runtime_edges :: "'c source_graph \<Rightarrow> (node_id \<times> node_id) set" where
  "runtime_edges g =
     {(a, b). (\<exists>e \<in> set (sg_edges g). se_from e = a \<and> se_to e = ToNode b
        \<and> se_kind e \<noteq> Contains \<and> se_kind e \<noteq> ReExport)
      \<or> (\<exists>s. (a, SymbolNode s) \<in> set (sg_nodes g) \<and> ss_file s = b)}"

definition public_edges :: "'c source_graph \<Rightarrow> (node_id \<times> node_id) set" where
  "public_edges g =
     {(a, b). \<exists>e \<in> set (sg_edges g). se_from e = a \<and> se_to e = ToNode b \<and> se_kind e = ReExport}"

definition root_starts :: "'c source_graph \<Rightarrow> source_context \<Rightarrow> node_id \<Rightarrow> node_id set" where
  "root_starts g ctxt root =
     (case sc_scope ctxt of Runtime \<Rightarrow> {root} | PublicSurface \<Rightarrow> (public_edges g)\<^sup>* `` {root})"

definition context_reaches :: "'c source_graph \<Rightarrow> source_context \<Rightarrow> node_id \<Rightarrow> bool" where
  "context_reaches g ctxt n \<longleftrightarrow>
     (\<exists>root \<in> set (sc_roots ctxt). \<exists>s \<in> root_starts g ctxt root. (s, n) \<in> (runtime_edges g)\<^sup>*)"

text \<open>The number of edges between the \<open>i\<close>-th root of a context and a node, paired with \<open>i\<close>.\<close>

definition root_hops :: "'c source_graph \<Rightarrow> source_context \<Rightarrow> node_id \<Rightarrow> (nat \<times> nat) set" where
  "root_hops g ctxt n =
     {(k, i). i < length (sc_roots ctxt)
        \<and> (\<exists>s \<in> root_starts g ctxt (sc_roots ctxt ! i). (s, n) \<in> runtime_edges g ^^ k)}"

definition nearest_root :: "'c source_graph \<Rightarrow> source_context \<Rightarrow> node_id \<Rightarrow> nat \<Rightarrow> bool" where
  "nearest_root g ctxt n i \<longleftrightarrow>
     (\<exists>k. (k, i) \<in> root_hops g ctxt n \<and> (\<forall>x \<in> root_hops g ctxt n. (k, i) \<le> x))"

lemma context_reaches_hops: "context_reaches g ctxt n \<longleftrightarrow> root_hops g ctxt n \<noteq> {}"
  by (fastforce simp: context_reaches_def root_hops_def in_set_conv_nth rtrancl_power)

lemma succ_edges_add_arc [simp]: "succ_edges (add_arc a b adj) = insert (a, b) (succ_edges adj)"
  by (auto simp: succ_edges_def succs_def add_arc_def split: option.splits if_splits)

lemma succ_edges_Nil [simp]: "succ_edges [] = {}"
  by (simp add: succ_edges_def succs_def)

lemma add_edge_arcs:
  "succ_edges (fst (add_edge e adjs)) = succ_edges (fst adjs)
     \<union> {(a, b). se_from e = a \<and> se_to e = ToNode b \<and> se_kind e \<noteq> Contains \<and> se_kind e \<noteq> ReExport}" (is ?runtime)
  "succ_edges (snd (add_edge e adjs)) = succ_edges (snd adjs)
     \<union> {(a, b). se_from e = a \<and> se_to e = ToNode b \<and> se_kind e = ReExport}" (is ?public)
proof -
  show ?runtime by (cases "se_to e"; cases "se_kind e") (auto simp: add_edge_def split_beta)
  show ?public by (cases "se_to e"; cases "se_kind e") (auto simp: add_edge_def split_beta)
qed

lemma fold_add_edge_arcs:
  "succ_edges (fst (fold add_edge es adjs)) = succ_edges (fst adjs)
     \<union> {(a, b). \<exists>e \<in> set es. se_from e = a \<and> se_to e = ToNode b \<and> se_kind e \<noteq> Contains \<and> se_kind e \<noteq> ReExport}"
  "succ_edges (snd (fold add_edge es adjs)) = succ_edges (snd adjs)
     \<union> {(a, b). \<exists>e \<in> set es. se_from e = a \<and> se_to e = ToNode b \<and> se_kind e = ReExport}"
  by (induction es arbitrary: adjs) (auto simp: add_edge_arcs)

lemma add_symbol_file_arcs:
  "succ_edges (add_symbol_file x adj) = succ_edges adj
     \<union> {(a, b). \<exists>s. (a, SymbolNode s) = x \<and> ss_file s = b}"
  by (cases x; cases "snd x") (auto simp: add_symbol_file_def)

lemma fold_add_symbol_file_arcs:
  "succ_edges (fold add_symbol_file ns adj) = succ_edges adj
     \<union> {(a, b). \<exists>s. (a, SymbolNode s) \<in> set ns \<and> ss_file s = b}"
  by (induction ns arbitrary: adj) (auto simp: add_symbol_file_arcs)

lemma adjacencies_edges:
  assumes "adjacencies g = (runtime, public_surface)"
  shows "succ_edges runtime = runtime_edges g" and "succ_edges public_surface = public_edges g"
  using assms fold_add_edge_arcs [of "sg_edges g" "([], [])"]
  by (auto simp: adjacencies_def runtime_edges_def public_edges_def fold_add_symbol_file_arcs
      split: prod.splits)

lemma public_surface_roots_set:
  "set (public_surface_roots root adj) = (succ_edges adj)\<^sup>* `` {root}"
  by (simp add: public_surface_roots_def traverse_reached)

subsection \<open>Recording\<close>

type_synonym visit = "node_id \<times> source_context \<times> node_id"

definition record_all :: "visit list \<Rightarrow> reachability \<Rightarrow> reachability" where
  "record_all = fold (\<lambda>(n, ctxt, root). record_visit n ctxt root)"

lemma record_visit_of [simp]:
  "contexts_of (record_visit n ctxt root r) m =
     (if m = n then bset_insert (sc_id ctxt) (contexts_of r n) else contexts_of r m)"
  "roles_of (record_visit n ctxt root r) m =
     (if m = n then bset_insert (sc_role ctxt) (roles_of r n) else roles_of r m)"
  "roots_of (record_visit n ctxt root r) m =
     (if m = n then bset_insert (sc_id ctxt, root) (roots_of r n) else roots_of r m)"
  by (simp_all add: contexts_of_def roles_of_def roots_of_def get_or_default_def record_visit_def
      split: option.split)

lemma default_of [simp]:
  "contexts_of reachability_default m = []" "roles_of reachability_default m = []"
  "roots_of reachability_default m = []"
  by (simp_all add: contexts_of_def roles_of_def roots_of_def get_or_default_def reachability_default_def)

lemma record_all_of:
  "contexts_of (record_all vs r) n =
     bset_extend (map (\<lambda>(_, ctxt, _). sc_id ctxt) (filter (\<lambda>v. fst v = n) vs)) (contexts_of r n)"
  "roles_of (record_all vs r) n =
     bset_extend (map (\<lambda>(_, ctxt, _). sc_role ctxt) (filter (\<lambda>v. fst v = n) vs)) (roles_of r n)"
  "roots_of (record_all vs r) n =
     bset_extend (map (\<lambda>(_, ctxt, root). (sc_id ctxt, root)) (filter (\<lambda>v. fst v = n) vs)) (roots_of r n)"
  by (induction vs arbitrary: r) (auto simp: record_all_def bset_extend_def split: prod.splits)

lemma record_all_append: "record_all ws (record_all vs r) = record_all (vs @ ws) r"
  by (simp add: record_all_def)

lemma fold_record_all:
  "(\<And>x r. x \<in> set xs \<Longrightarrow> f x r = record_all (visits x) r) \<Longrightarrow>
     fold f xs r = record_all (concat (map visits xs)) r"
  by (induction xs arbitrary: r) (simp_all add: record_all_append, simp add: record_all_def)

lemma record_all_sets:
  "cid \<in> set (contexts_of (record_all vs reachability_default) n) \<longleftrightarrow>
     (\<exists>ctxt root. (n, ctxt, root) \<in> set vs \<and> sc_id ctxt = cid)"
  "role \<in> set (roles_of (record_all vs reachability_default) n) \<longleftrightarrow>
     (\<exists>ctxt root. (n, ctxt, root) \<in> set vs \<and> sc_role ctxt = role)"
  "(cid, root) \<in> set (roots_of (record_all vs reachability_default) n) \<longleftrightarrow>
     (\<exists>ctxt. (n, ctxt, root) \<in> set vs \<and> sc_id ctxt = cid)"
  by (force simp: record_all_of)+

text \<open>Two lists of visits with the same visits of a node record the same for it.\<close>

lemma visits_cong:
  "{v \<in> set vs. fst v = n} = {v \<in> set ws. fst v = n} \<Longrightarrow>
     bset_extend (map f (filter (\<lambda>v. fst v = n) vs)) [] = bset_extend (map f (filter (\<lambda>v. fst v = n) ws)) []"
  unfolding bset_of_def [symmetric] by (rule bset_of_cong) (simp only: set_map set_filter)

lemma record_all_cong:
  assumes "{v \<in> set vs. fst v = n} = {v \<in> set ws. fst v = n}"
  shows "contexts_of (record_all vs reachability_default) n = contexts_of (record_all ws reachability_default) n"
    and "roles_of (record_all vs reachability_default) n = roles_of (record_all ws reachability_default) n"
    and "roots_of (record_all vs reachability_default) n = roots_of (record_all ws reachability_default) n"
  by (simp_all only: record_all_of default_of visits_cong [OF assms])

subsection \<open>The analysis of all nodes\<close>

text \<open>The visits of one context, in the order of its loop.\<close>

definition context_visits :: "adjacency \<Rightarrow> adjacency \<Rightarrow> source_context \<Rightarrow> visit list" where
  "context_visits runtime public_surface ctxt =
     map (\<lambda>(node, i). (node, ctxt, sc_roots ctxt ! i))
       (traverse (\<lambda>i. i) runtime (start_queue ctxt public_surface) [])"

lemma analyze_context_visits:
  "analyze_context runtime public_surface ctxt r =
     record_all (context_visits runtime public_surface ctxt) r"
  by (simp add: analyze_context_def context_visits_def record_all_def fold_map comp_def case_prod_unfold)

lemma analyze_validated_visits:
  assumes "adjacencies g = (runtime, public_surface)"
  shows "analyze_validated g =
    record_all (concat (map (context_visits runtime public_surface) (map snd (sg_contexts g))))
      reachability_default"
  by (simp only: analyze_validated_def assms prod.case)
    (rule fold_record_all, rule analyze_context_visits)

text \<open>The nodes a root starts from, as a list.\<close>

definition starts_of :: "source_context \<Rightarrow> adjacency \<Rightarrow> node_id \<Rightarrow> node_id list" where
  "starts_of ctxt public_surface root =
     (case sc_scope ctxt of Runtime \<Rightarrow> [root] | PublicSurface \<Rightarrow> public_surface_roots root public_surface)"

lemma set_starts_of:
  "succ_edges public_surface = public_edges g \<Longrightarrow>
     set (starts_of ctxt public_surface root) = root_starts g ctxt root"
  by (simp add: starts_of_def root_starts_def public_surface_roots_set split: context_scope.split)

lemma start_queue_starts:
  "start_queue ctxt public_surface =
     concat (map (\<lambda>(i, root). map (\<lambda>n. (n, i)) (starts_of ctxt public_surface root))
       (enumerate 0 (sc_roots ctxt)))"
  by (cases "sc_scope ctxt") (simp_all add: start_queue_def starts_of_def)

lemma enumerated_starts_set:
  "(s, i) \<in> set (concat (map (\<lambda>(i, root). map (\<lambda>n. (n, i)) (f root)) (enumerate k xs)))
     \<longleftrightarrow> (k \<le> i \<and> i < k + length xs \<and> s \<in> set (f (xs ! (i - k))))"
  by (force simp: in_set_enumerate_eq)

lemma enumerated_starts_sorted:
  "sorted (map snd (concat (map (\<lambda>(i, root). map (\<lambda>n. (n, i)) (f root)) (enumerate k xs))))"
proof (induction xs arbitrary: k)
  case (Cons x xs)
  have "k \<le> i" if "(s, i) \<in> set (concat (map (\<lambda>(i, root). map (\<lambda>n. (n, i)) (f root)) (enumerate (Suc k) xs)))"
    for s i
    using that unfolding enumerated_starts_set by simp
  then have "\<forall>i \<in> snd ` set (concat (map (\<lambda>(i, root). map (\<lambda>n. (n, i)) (f root)) (enumerate (Suc k) xs))). k \<le> i"
    by force
  with Cons.IH [of "Suc k"] show ?case
    by (simp add: sorted_append comp_def map_replicate_const del: set_concat)
qed simp

lemma start_queue_set:
  "succ_edges public_surface = public_edges g \<Longrightarrow>
     (s, i) \<in> set (start_queue ctxt public_surface) \<longleftrightarrow>
     i < length (sc_roots ctxt) \<and> s \<in> root_starts g ctxt (sc_roots ctxt ! i)"
  unfolding start_queue_starts enumerated_starts_set by (simp add: set_starts_of)

lemma start_queue_sorted: "sorted (map snd (start_queue ctxt public_surface))"
  unfolding start_queue_starts by (rule enumerated_starts_sorted)

text \<open>A node is visited with the index of its nearest root, the smallest index among equally near
  ones: the same traversal with labels that also count the edges.\<close>

lemma traverse_nearest:
  assumes adj: "adjacencies g = (runtime, public_surface)"
  shows "(n, i) \<in> set (traverse (\<lambda>i. i) runtime (start_queue ctxt public_surface) [])
    \<longleftrightarrow> nearest_root g ctxt n i"
proof -
  let ?q = "map (\<lambda>(s, i). (s, (0 :: nat, i))) (start_queue ctxt public_surface)"
  have "traverse (\<lambda>i. i) runtime (map (\<lambda>(s, l). (s, snd l)) ?q) [] =
      map (\<lambda>(s, l). (s, snd l)) (traverse hop runtime ?q [])"
    by (rule traverse_map [of snd hop "\<lambda>i. i"]) (simp add: hop_def)
  then have labels: "traverse (\<lambda>i. i) runtime (start_queue ctxt public_surface) [] =
      map (\<lambda>(s, l). (s, snd l)) (traverse hop runtime ?q [])"
    by (simp add: comp_def split_beta)
  have spread: "hop_search.spread ?q"
    using start_queue_sorted [of ctxt public_surface]
    unfolding hop_search.spread_def
    by (auto simp: sorted_iff_nth_mono less_eq_prod_def hop_def split_beta)
  have queue: "(s, l) \<in> set ?q \<longleftrightarrow>
      (\<exists>i. l = (0, i) \<and> i < length (sc_roots ctxt) \<and> s \<in> root_starts g ctxt (sc_roots ctxt ! i))" for s l
  proof -
    have "(s, l) \<in> set ?q \<longleftrightarrow> (\<exists>i. l = (0, i) \<and> (s, i) \<in> set (start_queue ctxt public_surface))"
      by force
    then show ?thesis by (simp only: start_queue_set [OF adjacencies_edges(2) [OF adj]])
  qed
  have walks: "walk_labels hop runtime ?q {} n = root_hops g ctxt n"
  proof (rule set_eqI)
    fix x :: "nat \<times> nat"
    obtain k i where x: "x = (k, i)" by (cases x)
    show "x \<in> walk_labels hop runtime ?q {} n \<longleftrightarrow> x \<in> root_hops g ctxt n"
      unfolding walk_labels_def root_hops_def x mem_Collect_eq queue fresh_edges_empty
        adjacencies_edges(1) [OF adj]
      by (auto simp: funpow_hop)
  qed
  have "(n, i) \<in> set (traverse (\<lambda>i. i) runtime (start_queue ctxt public_surface) [])
      \<longleftrightarrow> (\<exists>k. (n, (k, i)) \<in> set (traverse hop runtime ?q []))"
    unfolding labels by force
  also have "\<dots> \<longleftrightarrow> (\<exists>k. hop_search.least_in (k, i) (root_hops g ctxt n))"
    unfolding hop_search.traverse_least [OF spread] by (simp add: walks)
  finally show ?thesis by (simp add: nearest_root_def hop_search.least_in_def)
qed

lemma context_visits_set:
  assumes "adjacencies g = (runtime, public_surface)"
  shows "set (context_visits runtime public_surface ctxt) =
    {(n, ctxt, sc_roots ctxt ! i) | n i. nearest_root g ctxt n i}"
  by (auto simp: context_visits_def traverse_nearest [OF assms] image_iff)

lemma nearest_root_exists: "(\<exists>i. nearest_root g ctxt n i) \<longleftrightarrow> context_reaches g ctxt n"
proof
  assume "context_reaches g ctxt n"
  then obtain x where "x \<in> root_hops g ctxt n" unfolding context_reaches_hops by blast
  then have "(LEAST x. x \<in> root_hops g ctxt n) \<in> root_hops g ctxt n"
    and "\<forall>y \<in> root_hops g ctxt n. (LEAST x. x \<in> root_hops g ctxt n) \<le> y"
    by (auto intro: LeastI Least_le)
  then show "\<exists>i. nearest_root g ctxt n i"
    unfolding nearest_root_def by (metis prod.collapse)
qed (auto simp: nearest_root_def context_reaches_hops)

lemma analyze_validated_set:
  "cid \<in> set (contexts_of (analyze_validated g) n) \<longleftrightarrow>
     (\<exists>ctxt \<in> snd ` set (sg_contexts g). sc_id ctxt = cid \<and> context_reaches g ctxt n)"
  "role \<in> set (roles_of (analyze_validated g) n) \<longleftrightarrow>
     (\<exists>ctxt \<in> snd ` set (sg_contexts g). sc_role ctxt = role \<and> context_reaches g ctxt n)"
  "(cid, root) \<in> set (roots_of (analyze_validated g) n) \<longleftrightarrow>
     (\<exists>ctxt \<in> snd ` set (sg_contexts g). sc_id ctxt = cid
       \<and> (\<exists>i. nearest_root g ctxt n i \<and> sc_roots ctxt ! i = root))"
proof -
  obtain runtime public_surface where adj: "adjacencies g = (runtime, public_surface)"
    by (cases "adjacencies g")
  let ?vs = "concat (map (context_visits runtime public_surface) (map snd (sg_contexts g)))"
  have visits: "(m, ctxt, root) \<in> set ?vs \<longleftrightarrow> ctxt \<in> snd ` set (sg_contexts g)
      \<and> (\<exists>i. nearest_root g ctxt m i \<and> sc_roots ctxt ! i = root)" for m ctxt root
    by (auto simp: context_visits_set [OF adj])
  note facts = analyze_validated_visits [OF adj] record_all_sets visits
  show "cid \<in> set (contexts_of (analyze_validated g) n) \<longleftrightarrow>
     (\<exists>ctxt \<in> snd ` set (sg_contexts g). sc_id ctxt = cid \<and> context_reaches g ctxt n)"
    unfolding facts nearest_root_exists [symmetric] by blast
  show "role \<in> set (roles_of (analyze_validated g) n) \<longleftrightarrow>
     (\<exists>ctxt \<in> snd ` set (sg_contexts g). sc_role ctxt = role \<and> context_reaches g ctxt n)"
    unfolding facts nearest_root_exists [symmetric] by blast
  show "(cid, root) \<in> set (roots_of (analyze_validated g) n) \<longleftrightarrow>
     (\<exists>ctxt \<in> snd ` set (sg_contexts g). sc_id ctxt = cid
       \<and> (\<exists>i. nearest_root g ctxt n i \<and> sc_roots ctxt ! i = root))"
    unfolding facts by blast
qed

subsection \<open>The analysis of targets\<close>

lemma min_option_Some:
  "min_option xs = Some x \<longleftrightarrow> x \<in> set xs \<and> (\<forall>y \<in> set xs. x \<le> y)"
proof (cases xs)
  case (Cons y ys)
  have "fold min ys y = Min (set xs)" unfolding Cons by (rule Min.set_eq_fold [symmetric])
  moreover have "Min (set xs) = x \<longleftrightarrow> x \<in> set xs \<and> (\<forall>y \<in> set xs. x \<le> y)"
    using Cons by (auto intro: Min_eqI simp: Min_eq_iff)
  ultimately show ?thesis by (simp add: min_option_def Cons)
qed (simp add: min_option_def)

lemma set_map_filter: "set (List.map_filter f xs) = {y. \<exists>x \<in> set xs. f x = Some y}"
  by (force simp: map_filter_def)

lemma fold_insert_get:
  "distinct (map fst xs) \<Longrightarrow>
     bmap_get (fold (\<lambda>(k, v). bmap_insert k v) xs m) k =
       (case map_of xs k of None \<Rightarrow> bmap_get m k | Some v \<Rightarrow> Some v)"
  by (induction xs arbitrary: m) (auto split: option.split dest: map_of_SomeD simp: image_iff)

lemma succ_edges_entries: "bmap_wf adj \<Longrightarrow> succ_edges adj = {(a, b). \<exists>bs. (a, bs) \<in> set adj \<and> b \<in> set bs}"
  by (auto simp: succ_edges_def succs_def bmap_get_iff split: option.split)
    (metis bmap_get_iff option.simps(5), metis bmap_get_iff)

lemma reverse_adjacency_edges: "bmap_wf adj \<Longrightarrow> succ_edges (reverse_adjacency adj) = (succ_edges adj)\<inverse>"
proof -
  have inner: "succ_edges (fold (\<lambda>target. add_arc target source) targets m) =
      succ_edges m \<union> {(b, source) | b. b \<in> set targets}" for source targets m
    by (induction targets arbitrary: m) auto
  have "succ_edges (fold (\<lambda>(source, targets) reversed. fold (\<lambda>target. add_arc target source) targets reversed) es m) =
      succ_edges m \<union> {(b, a). \<exists>bs. (a, bs) \<in> set es \<and> b \<in> set bs}" for es m
    by (induction es arbitrary: m) (auto simp: inner)
  then show "bmap_wf adj \<Longrightarrow> ?thesis"
    by (auto simp: reverse_adjacency_def succ_edges_entries)
qed

lemma relpow_converse: "(R\<inverse>) ^^ k = ((R :: ('a \<times> 'a) set) ^^ k)\<inverse>"
proof (induction k)
  case (Suc k)
  have "(R\<inverse>) ^^ Suc k = (R O R ^^ k)\<inverse>" by (simp add: Suc converse_relcomp)
  then show ?case by (simp add: relpow_commute)
qed simp

lemma reverse_distances_get:
  assumes "succ_edges reversed = (succ_edges adj)\<inverse>"
  shows "bmap_get (reverse_distances target reversed) s = Some d \<longleftrightarrow>
    (s, target) \<in> succ_edges adj ^^ d \<and> (\<forall>k. (s, target) \<in> succ_edges adj ^^ k \<longrightarrow> d \<le> k)"
proof -
  have spread: "distance_search.spread [(target, 0)]" by (simp add: distance_search.spread_def)
  have walks: "walk_labels Suc reversed [(target, 0)] {} s = {k. (s, target) \<in> succ_edges adj ^^ k}"
    by (auto simp: walk_labels_def fresh_edges_empty assms funpow_Suc relpow_converse)
  have "bmap_get (reverse_distances target reversed) s = map_of (traverse Suc reversed [(target, 0)] []) s"
    by (simp add: reverse_distances_def fold_insert_get traverse_distinct split: option.split)
  also have "\<dots> = Some d \<longleftrightarrow> (s, d) \<in> set (traverse Suc reversed [(target, 0)] [])"
    by (simp add: traverse_distinct)
  finally show ?thesis
    by (simp add: distance_search.traverse_least [OF spread] walks distance_search.least_in_def)
qed

text \<open>The distance of a root is the least number of edges from one of its starts.\<close>

lemma min_over_options:
  "min_option (List.map_filter f xs) = Some d \<longleftrightarrow>
     (\<exists>x \<in> set xs. f x = Some d) \<and> (\<forall>x \<in> set xs. \<forall>e. f x = Some e \<longrightarrow> d \<le> e)"
  by (auto simp: min_option_Some set_map_filter)

lemma least_distance:
  assumes "\<And>x d. f x = Some d \<longleftrightarrow> P x d \<and> (\<forall>k. P x k \<longrightarrow> d \<le> (k :: nat))"
  shows "(\<exists>x \<in> A. f x = Some d) \<and> (\<forall>x \<in> A. \<forall>e. f x = Some e \<longrightarrow> d \<le> e) \<longleftrightarrow>
    (\<exists>x \<in> A. P x d) \<and> (\<forall>x \<in> A. \<forall>k. P x k \<longrightarrow> d \<le> k)"
proof -
  have below: "\<exists>e \<le> k. f x = Some e" if "P x k" for x k
    using that assms Least_le [of "P x"] LeastI [of "P x"] by blast
  show ?thesis
    using assms below by (meson order.trans)
qed

lemma root_distance_hops:
  assumes adj: "adjacencies g = (runtime, public_surface)"
    and reversed: "succ_edges reversed = (runtime_edges g)\<inverse>"
  shows "root_distance ctxt public_surface (reverse_distances target reversed) root = Some d \<longleftrightarrow>
    (\<exists>s \<in> root_starts g ctxt root. (s, target) \<in> runtime_edges g ^^ d)
    \<and> (\<forall>s \<in> root_starts g ctxt root. \<forall>k. (s, target) \<in> runtime_edges g ^^ k \<longrightarrow> d \<le> k)"
proof -
  have get: "bmap_get (reverse_distances target reversed) s = Some d \<longleftrightarrow>
      (s, target) \<in> runtime_edges g ^^ d \<and> (\<forall>k. (s, target) \<in> runtime_edges g ^^ k \<longrightarrow> d \<le> k)" for s d
    using reverse_distances_get [of reversed runtime target s d] reversed adjacencies_edges(1) [OF adj]
    by simp
  show ?thesis
  proof (cases "sc_scope ctxt")
    case Runtime
    then show ?thesis by (simp add: root_distance_def root_starts_def get)
  next
    case PublicSurface
    with set_starts_of [OF adjacencies_edges(2) [OF adj], of ctxt root]
    have starts: "set (public_surface_roots root public_surface) = root_starts g ctxt root"
      by (simp add: starts_of_def)
    show ?thesis
      unfolding root_distance_def PublicSurface context_scope.case min_over_options starts
      by (rule least_distance) (rule get)
  qed
qed

lemma select_root_hops:
  assumes adj: "adjacencies g = (runtime, public_surface)"
    and reversed: "succ_edges reversed = (runtime_edges g)\<inverse>"
  shows "select_root ctxt public_surface (reverse_distances target reversed) = Some (d, i) \<longleftrightarrow>
    (d, i) \<in> root_hops g ctxt target \<and> (\<forall>x \<in> root_hops g ctxt target. (d, i) \<le> x)"
proof -
  let ?f = "\<lambda>(i, root). map_option (\<lambda>distance. (distance, i))
    (root_distance ctxt public_surface (reverse_distances target reversed) root)"
  let ?A = "set (enumerate 0 (sc_roots ctxt))"
  have entry: "(\<exists>x \<in> ?A. ?f x = Some (k, j)) \<longleftrightarrow>
      j < length (sc_roots ctxt) \<and> root_distance ctxt public_surface (reverse_distances target reversed)
        (sc_roots ctxt ! j) = Some k" for k j
  proof
    assume "j < length (sc_roots ctxt) \<and> root_distance ctxt public_surface
      (reverse_distances target reversed) (sc_roots ctxt ! j) = Some k"
    then show "\<exists>x \<in> ?A. ?f x = Some (k, j)"
      by (intro bexI [of _ "(j, sc_roots ctxt ! j)"]) (auto simp: in_set_enumerate_eq)
  qed (auto simp: in_set_enumerate_eq)
  have in_hops: "(\<exists>x \<in> ?A. ?f x = Some (k, j)) \<Longrightarrow> (k, j) \<in> root_hops g ctxt target" for k j
    unfolding entry root_distance_hops [OF adj reversed] root_hops_def by blast
  have below: "\<exists>k' \<le> k. \<exists>x \<in> ?A. ?f x = Some (k', j)" if "(k, j) \<in> root_hops g ctxt target" for k j
  proof -
    let ?P = "\<lambda>k. \<exists>s \<in> root_starts g ctxt (sc_roots ctxt ! j). (s, target) \<in> runtime_edges g ^^ k"
    from that have "?P k" and j: "j < length (sc_roots ctxt)" by (auto simp: root_hops_def)
    then have "?P (LEAST k. ?P k)" and "(LEAST k. ?P k) \<le> k" by (auto intro: LeastI Least_le)
    moreover have "\<forall>k. ?P k \<longrightarrow> (LEAST k. ?P k) \<le> k" by (auto intro: Least_le)
    ultimately have "root_distance ctxt public_surface (reverse_distances target reversed)
        (sc_roots ctxt ! j) = Some (LEAST k. ?P k)"
      unfolding root_distance_hops [OF adj reversed] by blast
    with entry j \<open>(LEAST k. ?P k) \<le> k\<close> show ?thesis by blast
  qed
  show ?thesis
    unfolding select_root_def min_over_options
  proof (intro iffI conjI)
    assume least: "(\<exists>x \<in> ?A. ?f x = Some (d, i)) \<and> (\<forall>x \<in> ?A. \<forall>e. ?f x = Some e \<longrightarrow> (d, i) \<le> e)"
    then show "(d, i) \<in> root_hops g ctxt target" using in_hops by blast
    show "\<forall>x \<in> root_hops g ctxt target. (d, i) \<le> x"
    proof
      fix x assume "x \<in> root_hops g ctxt target"
      then obtain k j where x: "x = (k, j)" and "(k, j) \<in> root_hops g ctxt target" by (cases x) auto
      from below [OF this(2)] least obtain k' where "k' \<le> k" and "(d, i) \<le> (k', j)" by blast
      then show "(d, i) \<le> x" by (auto simp: x less_eq_prod_def)
    qed
  next
    assume least: "(d, i) \<in> root_hops g ctxt target \<and> (\<forall>x \<in> root_hops g ctxt target. (d, i) \<le> x)"
    from below [of d i] least obtain k where k: "k \<le> d" "\<exists>x \<in> ?A. ?f x = Some (k, i)" by blast
    from in_hops [OF k(2)] least have "(d, i) \<le> (k, i)" by blast
    with k show "\<exists>x \<in> ?A. ?f x = Some (d, i)" by (simp add: less_eq_prod_def)
    show "\<forall>x \<in> ?A. \<forall>e. ?f x = Some e \<longrightarrow> (d, i) \<le> e"
      using in_hops least by (metis prod.collapse)
  qed
qed

end
