(* ===== verification/ReachContract.thy ===== *)
theory ReachContract
  imports ReachProps
begin

text \<open>
  The properties of the source graph and of the reachability analysis.
\<close>

subsection \<open>Identities\<close>

definition escape_char :: "char \<Rightarrow> string" where
  "escape_char c = (if c = CHR ''~'' then ''~0'' else if c = CHR ''/'' then ''~1'' else [c])"

lemma escape_by_char: "escape_id_segment s = concat (map escape_char s)"
  by (induction s) (auto simp: escape_id_segment_def replace_char_def escape_char_def)

lemma escape_no_slash: "CHR ''/'' \<notin> set (escape_id_segment s)"
  by (induction s) (auto simp: escape_by_char escape_char_def)

lemma escape_inj: "escape_id_segment s = escape_id_segment t \<longleftrightarrow> s = t"
proof
  show "escape_id_segment s = escape_id_segment t \<Longrightarrow> s = t"
    unfolding escape_by_char
  proof (induction s arbitrary: t)
    case Nil
    then show ?case by (cases t) (auto simp: escape_char_def split: if_splits)
  next
    case (Cons c s)
    then show ?case by (cases t) (auto simp: escape_char_def split: if_splits)
  qed
qed simp

lemma separated_inj:
  "c \<notin> set u \<Longrightarrow> c \<notin> set v \<Longrightarrow> u @ c # x = v @ c # y \<longleftrightarrow> u = v \<and> x = y"
  by (auto simp: append_eq_Cons_conv append_eq_append_conv2 Cons_eq_append_conv)

lemma two_segments_inj:
  "escape_id_segment a @ CHR ''/'' # escape_id_segment b
     = escape_id_segment c @ CHR ''/'' # escape_id_segment d \<longleftrightarrow> a = c \<and> b = d"
  by (simp add: separated_inj [OF escape_no_slash escape_no_slash] escape_inj)

text \<open>A node ID determines what it was made from: file IDs and symbol IDs are each injective in both
  parts, and no file ID is a symbol ID, whatever characters the parts hold.\<close>

theorem node_ids_are_injective:
  "(file_node_id p x = file_node_id q y \<longleftrightarrow> p = q \<and> x = y)
   \<and> (symbol_node_id f l = symbol_node_id g m \<longleftrightarrow> f = g \<and> l = m)
   \<and> (context_id_new p x = context_id_new q y \<longleftrightarrow> p = q \<and> x = y)
   \<and> file_node_id p x \<noteq> symbol_node_id f l"
  by (simp add: file_node_id_def symbol_node_id_def context_id_new_def two_segments_inj)

subsection \<open>Validation\<close>

definition node_exists :: "'c source_graph \<Rightarrow> node_id \<Rightarrow> bool" where
  "node_exists g n \<longleftrightarrow> bmap_get (sg_nodes g) n \<noteq> None"

definition project_exists :: "'c source_graph \<Rightarrow> project_id \<Rightarrow> bool" where
  "project_exists g p \<longleftrightarrow> bmap_get (sg_projects g) p \<noteq> None"

definition graph_wf :: "'c source_graph \<Rightarrow> bool" where
  "graph_wf g \<longleftrightarrow>
     (\<forall>(i, node) \<in> set (sg_nodes g). project_exists g (node_project node)
        \<and> (\<forall>s. node = SymbolNode s \<longrightarrow>
             (\<exists>file. bmap_get (sg_nodes g) (ss_file s) = Some (FileNode file)
                \<and> sf_project file = ss_project s)))
   \<and> (\<forall>e \<in> set (sg_edges g). node_exists g (se_from e) \<and> (\<forall>t. se_to e = ToNode t \<longrightarrow> node_exists g t))
   \<and> (\<forall>ctxt \<in> snd ` set (sg_contexts g). project_exists g (sc_project ctxt)
        \<and> (\<forall>root \<in> set (sc_roots ctxt). \<exists>node. bmap_get (sg_nodes g) root = Some node
             \<and> node_project node = sc_project ctxt))
   \<and> (\<forall>b \<in> set (sg_boundaries g). project_exists g (ab_project b)
        \<and> (\<forall>n. ab_node b = Some n \<longrightarrow> node_exists g n))"

lemma symbol_diagnostics_Nil:
  "symbol_diagnostics g i s = [] \<longleftrightarrow>
     (\<exists>file. bmap_get (sg_nodes g) (ss_file s) = Some (FileNode file) \<and> sf_project file = ss_project s)"
  by (auto simp: symbol_diagnostics_def split: option.split source_node.split)

lemma node_diagnostics_Nil:
  "node_diagnostics g (i, node) = [] \<longleftrightarrow> project_exists g (node_project node)
     \<and> (\<forall>s. node = SymbolNode s \<longrightarrow>
          (\<exists>file. bmap_get (sg_nodes g) (ss_file s) = Some (FileNode file)
             \<and> sf_project file = ss_project s))"
  by (cases node) (auto simp: node_diagnostics_def symbol_diagnostics_Nil project_exists_def)

lemma edge_diagnostics_Nil:
  "edge_diagnostics g e = [] \<longleftrightarrow>
     node_exists g (se_from e) \<and> (\<forall>t. se_to e = ToNode t \<longrightarrow> node_exists g t)"
  by (cases "se_to e") (auto simp: edge_diagnostics_def node_exists_def)

lemma context_diagnostics_Nil:
  "context_diagnostics g ctxt = [] \<longleftrightarrow> project_exists g (sc_project ctxt)
     \<and> (\<forall>root \<in> set (sc_roots ctxt). \<exists>node. bmap_get (sg_nodes g) root = Some node
          \<and> node_project node = sc_project ctxt)"
  by (auto simp: context_diagnostics_def root_diagnostics_def project_exists_def split: option.splits if_splits)

lemma boundary_diagnostics_Nil:
  "boundary_diagnostics g b = [] \<longleftrightarrow> project_exists g (ab_project b)
     \<and> (\<forall>n. ab_node b = Some n \<longrightarrow> node_exists g n)"
  by (auto simp: boundary_diagnostics_def project_exists_def node_exists_def split: option.splits)

lemma sort_Nil_iff: "sort xs = [] \<longleftrightarrow> xs = []"
  by (metis set_empty set_sort)

lemma graph_validate_wf: "graph_validate g = Inr () \<longleftrightarrow> graph_wf g"
proof -
  have "graph_validate g = Inr () \<longleftrightarrow>
      (\<forall>x \<in> set (sg_nodes g). node_diagnostics g x = [])
      \<and> (\<forall>e \<in> set (sg_edges g). edge_diagnostics g e = [])
      \<and> (\<forall>ctxt \<in> snd ` set (sg_contexts g). context_diagnostics g ctxt = [])
      \<and> (\<forall>b \<in> set (sg_boundaries g). boundary_diagnostics g b = [])"
    by (auto simp: graph_validate_def Let_def sort_Nil_iff)
  also have "\<dots> \<longleftrightarrow> graph_wf g"
    by (auto simp: graph_wf_def node_diagnostics_Nil edge_diagnostics_Nil context_diagnostics_Nil
        boundary_diagnostics_Nil)
  finally show ?thesis .
qed

text \<open>C35: The analysis runs exactly on the graphs whose references are closed: every node, context and
  boundary names a known project, every symbol a file of its own project, every edge, root and
  boundary an existing node, every root a node of the context's project. Any other graph is refused
  with a sorted, nonempty list of diagnostics.\<close>

theorem analyze_accepts_wellformed_graphs:
  "case analyze g of
     Inl diagnostics \<Rightarrow> \<not> graph_wf g \<and> diagnostics \<noteq> [] \<and> sorted diagnostics
   | Inr r \<Rightarrow> graph_wf g \<and> r = analyze_validated g"
proof (cases "graph_validate g")
  case (Inl ds)
  then have "ds \<noteq> [] \<and> sorted ds" by (auto simp: graph_validate_def Let_def split: if_splits)
  with Inl graph_validate_wf [of g] show ?thesis by (simp add: analyze_def)
next
  case (Inr u)
  with graph_validate_wf [of g] show ?thesis by (simp add: analyze_def)
qed

subsection \<open>Reach\<close>

lemma analyze_Inr: "analyze g = Inr r \<longleftrightarrow> graph_wf g \<and> r = analyze_validated g"
  by (auto simp: analyze_def and_then_Inr graph_validate_wf)

text \<open>C8: The contexts recorded for a node are exactly those with a root whose start nodes (the root, or
  for a public surface everything it re-exports) lead to the node along runtime edges; the recorded
  roles are theirs, and the recorded witness is the nearest root, the first of equally near ones.\<close>

theorem reachability_is_exact:
  assumes "analyze g = Inr r"
  shows "(cid \<in> set (contexts_of r n) \<longleftrightarrow>
      (\<exists>ctxt. ctxt \<in> snd ` set (sg_contexts g) \<and> sc_id ctxt = cid \<and> context_reaches g ctxt n))
    \<and> (role \<in> set (roles_of r n) \<longleftrightarrow>
      (\<exists>ctxt. ctxt \<in> snd ` set (sg_contexts g) \<and> sc_role ctxt = role \<and> context_reaches g ctxt n))
    \<and> ((cid, root) \<in> set (roots_of r n) \<longleftrightarrow>
      (\<exists>ctxt i. ctxt \<in> snd ` set (sg_contexts g) \<and> sc_id ctxt = cid
        \<and> nearest_root g ctxt n i \<and> sc_roots ctxt ! i = root))"
proof -
  from assms have r: "r = analyze_validated g" by (simp add: analyze_Inr)
  show ?thesis unfolding r analyze_validated_set by blast
qed

lemma adjacencies_wf: "bmap_wf (fst (adjacencies g))"
proof -
  have edge: "bmap_wf (fst adjs) \<Longrightarrow> bmap_wf (fst (add_edge e adjs))" for e adjs
    by (cases adjs; cases "se_to e"; cases "se_kind e")
      (simp_all add: add_edge_def add_arc_def bmap_wf_entry)
  have edges: "bmap_wf (fst adjs) \<Longrightarrow> bmap_wf (fst (fold add_edge es adjs))" for es adjs
    by (induction es arbitrary: adjs) (auto simp: edge)
  have nodes: "bmap_wf adj \<Longrightarrow> bmap_wf (fold add_symbol_file ns adj)" for ns adj
    by (induction ns arbitrary: adj)
      (auto simp: add_symbol_file_def add_arc_def bmap_wf_entry split: source_node.split)
  show ?thesis
    using edges [of "([], [])" "sg_edges g"]
    by (auto simp: adjacencies_def intro: nodes split: prod.split)
qed

lemma wf_symbol_file:
  "graph_wf g \<Longrightarrow> (a, SymbolNode s) \<in> set (sg_nodes g) \<Longrightarrow>
     \<exists>file. bmap_get (sg_nodes g) (ss_file s) = Some (FileNode file) \<and> sf_project file = ss_project s"
  unfolding graph_wf_def by (drule conjunct1, drule (1) bspec) simp

lemma wf_symbol_file_exists:
  "graph_wf g \<Longrightarrow> (a, SymbolNode s) \<in> set (sg_nodes g) \<Longrightarrow> node_exists g (ss_file s)"
  using wf_symbol_file [of g a s] by (auto simp: node_exists_def)

lemma wf_edge_target:
  "graph_wf g \<Longrightarrow> e \<in> set (sg_edges g) \<Longrightarrow> se_to e = ToNode t \<Longrightarrow> node_exists g t"
  by (simp add: graph_wf_def)

lemma wf_edges_exist:
  assumes "graph_wf g"
  shows "(a, b) \<in> runtime_edges g \<Longrightarrow> node_exists g b"
    and "(a, b) \<in> public_edges g \<Longrightarrow> node_exists g b"
  using wf_edge_target [OF assms] wf_symbol_file_exists [OF assms]
  by (auto simp: runtime_edges_def public_edges_def)

lemma wf_reached_exists:
  assumes wf: "graph_wf g" and "ctxt \<in> snd ` set (sg_contexts g)" and "context_reaches g ctxt n"
  shows "node_exists g n"
proof -
  from assms(3) obtain root s where root: "root \<in> set (sc_roots ctxt)"
    and s: "s \<in> root_starts g ctxt root" and walk: "(s, n) \<in> (runtime_edges g)\<^sup>*"
    by (auto simp: context_reaches_def)
  from wf assms(2) root have exists: "node_exists g root"
    unfolding graph_wf_def node_exists_def by (metis option.distinct(1))
  from s have "s = root \<or> (root, s) \<in> (public_edges g)\<^sup>*"
    by (auto simp: root_starts_def split: context_scope.splits)
  with exists have "node_exists g s"
    by (auto elim: rtranclE dest: wf_edges_exist(2) [OF wf])
  with walk show ?thesis by (auto elim: rtranclE dest: wf_edges_exist(1) [OF wf])
qed

subsection \<open>Targets\<close>

text \<open>The visits the analysis of one target records.\<close>

definition target_visits :: "'c source_graph \<Rightarrow> node_id \<Rightarrow> visit list" where
  "target_visits g target =
     (case adjacencies g of (runtime, public_surface) \<Rightarrow>
        if bmap_get (sg_nodes g) target = None then []
        else concat (map (\<lambda>ctxt.
          case select_root ctxt public_surface (reverse_distances target (reverse_adjacency runtime)) of
            None \<Rightarrow> []
          | Some (_, i) \<Rightarrow> [(target, ctxt, sc_roots ctxt ! i)]) (map snd (sg_contexts g))))"

lemma analyze_target_visits:
  assumes "adjacencies g = (runtime, public_surface)"
  shows "analyze_target g (reverse_adjacency runtime) public_surface target r =
    record_all (target_visits g target) r"
proof (cases "bmap_get (sg_nodes g) target = None")
  case False
  then show ?thesis
    unfolding analyze_target_def target_visits_def assms prod.case Let_def
    by (simp only: if_False, intro fold_record_all)
      (simp add: record_all_def split: option.split prod.split)
qed (simp add: analyze_target_def target_visits_def record_all_def assms)

lemma target_visits_set:
  assumes "graph_wf g"
  shows "(n, ctxt, root) \<in> set (target_visits g target) \<longleftrightarrow>
    n = target \<and> ctxt \<in> snd ` set (sg_contexts g)
    \<and> (\<exists>i. nearest_root g ctxt target i \<and> sc_roots ctxt ! i = root)"
proof -
  obtain runtime public_surface where adj: "adjacencies g = (runtime, public_surface)"
    by (cases "adjacencies g")
  have reversed: "succ_edges (reverse_adjacency runtime) = (runtime_edges g)\<inverse>"
    using reverse_adjacency_edges adjacencies_wf [of g] adjacencies_edges(1) [OF adj] by (simp add: adj)
  let ?select = "\<lambda>ctxt. select_root ctxt public_surface
    (reverse_distances target (reverse_adjacency runtime))"
  have select: "(\<exists>d. ?select ctxt = Some (d, i)) \<longleftrightarrow> nearest_root g ctxt target i" for i
    unfolding select_root_hops [OF adj reversed] nearest_root_def ..
  show ?thesis
  proof (cases "bmap_get (sg_nodes g) target = None")
    case True
    have "\<not> nearest_root g ctxt target i" if "ctxt \<in> snd ` set (sg_contexts g)" for i
    proof
      assume "nearest_root g ctxt target i"
      then have "context_reaches g ctxt target" using nearest_root_exists by blast
      from wf_reached_exists [OF assms that this] True show False by (simp add: node_exists_def)
    qed
    with True show ?thesis by (auto simp: target_visits_def adj)
  next
    case False
    let ?one = "\<lambda>ctxt. case ?select ctxt of None \<Rightarrow> [] | Some (_, i) \<Rightarrow> [(target, ctxt, sc_roots ctxt ! i)]"
    have one: "(n, ctxt, root) \<in> set (?one c) \<longleftrightarrow>
        n = target \<and> ctxt = c \<and> (\<exists>d i. ?select c = Some (d, i) \<and> sc_roots c ! i = root)" for c
      by (cases "?select c") auto
    have "target_visits g target = concat (map ?one (map snd (sg_contexts g)))"
      by (simp add: target_visits_def adj False)
    then have "(n, ctxt, root) \<in> set (target_visits g target) \<longleftrightarrow>
        (\<exists>c \<in> snd ` set (sg_contexts g). (n, ctxt, root) \<in> set (?one c))"
      by simp
    then show ?thesis unfolding one select [symmetric] by blast
  qed
qed

lemma targets_agree:
  assumes "analyze g = Inr full" and "analyze_targets g targets = Inr r" and "t \<in> set targets"
  shows "contexts_of r t = contexts_of full t \<and> roles_of r t = roles_of full t
    \<and> roots_of r t = roots_of full t"
proof -
  from assms(1) have wf: "graph_wf g" and full: "full = analyze_validated g" by (simp_all add: analyze_Inr)
  obtain runtime public_surface where adj: "adjacencies g = (runtime, public_surface)"
    by (cases "adjacencies g")
  let ?all = "concat (map (context_visits runtime public_surface) (map snd (sg_contexts g)))"
  let ?some = "concat (map (target_visits g) targets)"
  have visits: "fold (analyze_target g (reverse_adjacency runtime) public_surface) targets r0 =
      record_all ?some r0" for r0
    by (rule fold_record_all) (rule analyze_target_visits [OF adj])
  from assms(2,3) have "r = analyze_validated g \<or> r = record_all ?some reachability_default"
    by (auto simp: visits analyze_targets_def and_then_Inr adj Let_def split: if_splits)
  moreover have "{v \<in> set ?some. fst v = t} = {v \<in> set ?all. fst v = t}"
  proof -
    have "(n, ctxt, root) \<in> set ?all \<longleftrightarrow> ctxt \<in> snd ` set (sg_contexts g)
        \<and> (\<exists>i. nearest_root g ctxt n i \<and> sc_roots ctxt ! i = root)" for n ctxt root
      by (auto simp: context_visits_set [OF adj])
    moreover have "(n, ctxt, root) \<in> set ?some \<longleftrightarrow> n \<in> set targets \<and> ctxt \<in> snd ` set (sg_contexts g)
        \<and> (\<exists>i. nearest_root g ctxt n i \<and> sc_roots ctxt ! i = root)" for n ctxt root
      by (auto simp: target_visits_set [OF wf])
    ultimately show ?thesis using assms(3) by (auto simp del: set_concat)
  qed
  ultimately show ?thesis
    using record_all_cong [of ?some t ?all] unfolding full analyze_validated_visits [OF adj] by auto
qed

text \<open>C9: Analysing a set of targets backwards gives each target the contexts, roles and witness roots
  that the forward analysis of the whole graph gives it, whichever of its three paths is taken.\<close>

theorem targets_agree_with_full_analysis:
  assumes "analyze g = Inr full" and "analyze_targets g targets = Inr r" and "t \<in> set targets"
  shows "contexts_of r t = contexts_of full t \<and> roles_of r t = roles_of full t
    \<and> roots_of r t = roots_of full t"
  by (rule targets_agree [OF assms])

subsection \<open>Confidence\<close>

lemma worst_max: "worst a b = max a b"
  by (cases a; cases b) (simp_all add: max_def less_eq_analysis_completeness_def)

definition lower_of :: "finding_confidence \<Rightarrow> finding_confidence \<Rightarrow> finding_confidence" where
  "lower_of a b = (if a = Low \<or> b = Low then Low else if a = Medium \<or> b = Medium then Medium else High)"

lemma confidence_max:
  "confidence_for_completeness (max a b) =
     lower_of (confidence_for_completeness a) (confidence_for_completeness b)"
  by (cases a; cases b) (simp_all add: max_def less_eq_analysis_completeness_def lower_of_def)

lemma max_option_Max: "max_option xs = (if xs = [] then None else Some (Max (set xs)))"
  by (cases xs) (simp_all add: max_option_def Max.set_eq_fold [symmetric] del: list.set)

text \<open>What \<open>project_confidence\<close> reads: the worst of the project and of its boundaries.\<close>

definition effective_completeness :: "'c source_graph \<Rightarrow> project_id \<Rightarrow> analysis_completeness" where
  "effective_completeness g p =
     Max (insert (case bmap_get (sg_projects g) p of None \<Rightarrow> Unsupported | Some q \<Rightarrow> sp_completeness q)
       (ab_effect ` set (project_boundaries g p)))"

lemma project_confidence_effective:
  "project_confidence g p = confidence_for_completeness (effective_completeness g p)"
proof (cases "project_boundaries g p")
  case (Cons b bs)
  then show ?thesis
    by (simp add: project_confidence_def effective_completeness_def Let_def max_option_Max worst_max
        Max_insert [where A = "insert _ _"] del: Max_insert)
qed (simp add: project_confidence_def effective_completeness_def Let_def max_option_Max)

lemma record_boundary_effective:
  "effective_completeness (record_boundary p node kind effect message evidence g) q =
     (if q = p then max (effective_completeness g p) effect else effective_completeness g q)"
proof -
  have "set (project_boundaries (record_boundary p node kind effect message evidence g) q) =
      (if q = p then insert (AnalysisBoundary p node kind effect message evidence) (set (project_boundaries g p))
       else set (project_boundaries g q))"
    by (auto simp: record_boundary_def project_boundaries_def Let_def)
  then have boundaries: "ab_effect ` set (project_boundaries (record_boundary p node kind effect message evidence g) q) =
      (if q = p then insert effect (ab_effect ` set (project_boundaries g p))
       else ab_effect ` set (project_boundaries g q))"
    by simp
  have top: "x \<le> Unsupported" for x
    by (cases x) (simp_all add: less_eq_analysis_completeness_def)
  then have unsupported: "max Unsupported x = Unsupported" "max x Unsupported = Unsupported"
      "finite A \<Longrightarrow> Max (insert Unsupported A) = Unsupported" for x A
    by (auto simp: max_def intro: order.antisym Max_eqI)
  have Max2: "Max (insert (max c e) (insert e A)) = max (Max (insert c A)) e" if "finite A" for c e A
    using that by (cases "A = {}") (auto simp: max.commute max.left_commute max.assoc)
  show ?thesis
    unfolding effective_completeness_def boundaries
    using Max2 [of "ab_effect ` set (project_boundaries g p)" _ effect]
    by (auto simp: record_boundary_def Let_def worst_max unsupported split: option.split)
qed

text \<open>Recording a boundary lowers the confidence of its project to the one its effect allows, never
  raises it, and leaves every other project's confidence as it was.\<close>

theorem boundary_lowers_confidence:
  "project_confidence (record_boundary p node kind effect message evidence g) q =
     (if q = p then lower_of (project_confidence g p) (confidence_for_completeness effect)
      else project_confidence g q)"
  by (simp add: project_confidence_effective record_boundary_effective confidence_max)

subsection \<open>A graph on which the properties are used\<close>

definition sample_evidence :: source_evidence where
  "sample_evidence = SourceEvidence ''a.rs'' None ''test''"

definition sample_file :: "string \<Rightarrow> source_file" where
  "sample_file path = \<lparr>sf_project = ''p'', sf_path = path, sf_language = Rust\<rparr>"

definition sample_symbol :: "unit source_symbol" where
  "sample_symbol =
     \<lparr>ss_project = ''p'', ss_file = ''b'', ss_name = ''run'', ss_kind = SymFunction,
      ss_visibility = VisPrivate, ss_span = None, ss_callable = None, ss_fuzz_policy = None\<rparr>"

definition sample_context :: source_context where
  "sample_context =
     \<lparr>sc_id = ''c'', sc_project = ''p'', sc_name = ''main'', sc_role = Production,
      sc_scope = Runtime, sc_roots = [''a'']\<rparr>"

definition sample_graph :: "unit source_graph" where
  "sample_graph =
     \<lparr>sg_schema_version = 6,
      sg_projects = [(''p'', \<lparr>sp_id = ''p'', sp_root = ''.'', sp_languages = [Rust],
                              sp_completeness = Complete\<rparr>)],
      sg_nodes = [(''a'', FileNode (sample_file ''a.rs'')), (''b'', FileNode (sample_file ''b.rs'')),
                  (''s'', SymbolNode sample_symbol)],
      sg_edges = [SourceEdge ''a'' (ToNode ''s'') LexicalReference [] sample_evidence],
      sg_contexts = [(''c'', sample_context)],
      sg_boundaries = []\<rparr>"

lemma sample_graph_wf: "graph_wf sample_graph"
  by (auto simp: graph_wf_def sample_graph_def sample_context_def sample_file_def sample_symbol_def
      project_exists_def node_exists_def bmap_get_def)

lemma sample_reaches: "context_reaches sample_graph sample_context ''b''"
proof -
  have "(''a'', ''s'') \<in> runtime_edges sample_graph" and "(''s'', ''b'') \<in> runtime_edges sample_graph"
    by (auto simp: runtime_edges_def sample_graph_def sample_symbol_def)
  then have "(''a'', ''b'') \<in> (runtime_edges sample_graph)\<^sup>*" by (meson rtrancl.simps)
  then show ?thesis by (simp add: context_reaches_def root_starts_def sample_context_def)
qed

theorem reachability_is_exact_witness:
  "\<exists>r. analyze sample_graph = Inr r \<and> ''c'' \<in> set (contexts_of r ''b'')"
proof -
  have run: "analyze sample_graph = Inr (analyze_validated sample_graph)"
    using sample_graph_wf by (simp add: analyze_Inr)
  have "sample_context \<in> snd ` set (sg_contexts sample_graph) \<and> sc_id sample_context = ''c''"
    by (simp add: sample_graph_def sample_context_def)
  with reachability_is_exact [OF run, of "''c''" "''b''" Production "''a''"] sample_reaches run
  show ?thesis by blast
qed

theorem targets_agree_with_full_analysis_witness:
  "\<exists>full r. analyze sample_graph = Inr full \<and> analyze_targets sample_graph [''b''] = Inr r
     \<and> contexts_of r ''b'' = contexts_of full ''b''"
proof -
  have run: "analyze sample_graph = Inr (analyze_validated sample_graph)"
    using sample_graph_wf by (simp add: analyze_Inr)
  have valid: "graph_validate sample_graph = Inr ()"
    using sample_graph_wf by (simp only: graph_validate_wf)
  obtain r where targets: "analyze_targets sample_graph [''b''] = Inr r"
    by (cases "adjacencies sample_graph") (auto simp: analyze_targets_def valid Let_def)
  have "contexts_of r ''b'' = contexts_of (analyze_validated sample_graph) ''b''"
    using targets_agree_with_full_analysis [OF run targets, of "''b''"] by simp
  with run targets show ?thesis by blast
qed

end
