(* ===== verification/DeadCodeProps.thy ===== *)
theory DeadCodeProps
  imports DeadCode ReachContract
begin

text \<open>
  Lemmas on the dead-code report: what each loop appends, when a node counts as reached, and when a
  confidence is high.
\<close>

subsection \<open>Findings as values\<close>

lemma build_finding_sel [simp]:
  "df_kind (build_finding hash kind d) = kind"
  "df_node_id (build_finding hash kind d) = det_node_id d"
  "df_project (build_finding hash kind d) = det_project d"
  "df_confidence (build_finding hash kind d) = det_confidence d"
  "df_gates (build_finding hash kind d) = gates_at kind (det_confidence d)"
  by (simp_all add: build_finding_def)

lemma file_details_sel [simp]:
  "det_node_id (file_details i n file c m) = Some n"
  "det_project (file_details i n file c m) = sf_project file"
  "det_confidence (file_details i n file c m) = c"
  by (simp_all add: file_details_def)

lemma symbol_details_sel [simp]:
  "det_node_id (symbol_details i n s cs r roles c m) = Some n"
  "det_project (symbol_details i n s cs r roles c m) = ss_project s"
  "det_confidence (symbol_details i n s cs r roles c m) = c"
  by (simp_all add: symbol_details_def Let_def)

lemma context_only_kind_cases: "context_only_kind roles = TestOnly \<or> context_only_kind roles = ToolingOnly"
  by (simp add: context_only_kind_def)

lemma context_only_kind_neq [simp]:
  "context_only_kind roles \<noteq> UnreachableFile" "context_only_kind roles \<noteq> UnusedPrivateSymbol"
  "UnreachableFile \<noteq> context_only_kind roles" "UnusedPrivateSymbol \<noteq> context_only_kind roles"
  by (simp_all add: context_only_kind_def)

subsection \<open>The file loop\<close>

definition file_message :: "bool \<Rightarrow> string" where
  "file_message public_dependency =
     (if public_dependency
      then ''No configured context reaches this file, but an unreferenced public symbol depends on it; external consumers may exist.''
      else ''No configured context reaches this file.'')"

definition context_file_message :: "bool \<Rightarrow> string" where
  "context_file_message public_dependency =
     (if public_dependency
      then ''This file is reachable only from non-production contexts and is also required by an unreferenced public symbol; external consumers may exist.''
      else ''This file is reachable only from non-production contexts.'')"

definition scanned_confidence :: "'c dead_code_input \<Rightarrow> node_id \<Rightarrow> source_file \<Rightarrow> finding_confidence" where
  "scanned_confidence i n file =
     (let base = file_confidence (di_graph i) (sf_project file) n
      in if n \<in> set (di_public i) then lower_confidence base else base)"

text \<open>The finding of one file, if it has one.\<close>

definition file_finding :: "'c dead_code_input \<Rightarrow> node_id \<times> 'c source_node \<Rightarrow> dead_code_finding option" where
  "file_finding i x =
     (case x of
        (n, SymbolNode _) \<Rightarrow> None
      | (n, FileNode file) \<Rightarrow>
          if contexts_of (di_reach i) n = [] then
            Some (build_finding (di_hash i) UnreachableFile
              (file_details i n file (scanned_confidence i n file) (file_message (n \<in> set (di_public i)))))
          else if Production \<notin> set (roles_of (di_reach i) n) \<and> n \<notin> set (di_roots i) then
            Some (build_finding (di_hash i) (context_only_kind (roles_of (di_reach i) n))
              (file_details i n file (scanned_confidence i n file)
                (context_file_message (n \<in> set (di_public i)))))
          else None)"

lemma scan_file_step:
  "fs_findings (scan_file i x s) = fs_findings s @ List.map_filter (file_finding i) [x]"
  "set (fs_unreachable (scan_file i x s)) = set (fs_unreachable s)
     \<union> {n. \<exists>file. x = (n, FileNode file) \<and> contexts_of (di_reach i) n = []}"
  "set (fs_non_production (scan_file i x s)) = set (fs_non_production s)
     \<union> {n. \<exists>file. x = (n, FileNode file) \<and> contexts_of (di_reach i) n \<noteq> []
          \<and> Production \<notin> set (roles_of (di_reach i) n)}"
proof -
  obtain n node where x: "x = (n, node)" by (cases x)
  show "fs_findings (scan_file i x s) = fs_findings s @ List.map_filter (file_finding i) [x]"
    by (cases node)
      (simp_all add: x scan_file_def file_finding_def Let_def map_filter_def file_message_def
        context_file_message_def scanned_confidence_def)
  show "set (fs_unreachable (scan_file i x s)) = set (fs_unreachable s)
      \<union> {n. \<exists>file. x = (n, FileNode file) \<and> contexts_of (di_reach i) n = []}"
    by (cases node) (auto simp: x scan_file_def Let_def)
  show "set (fs_non_production (scan_file i x s)) = set (fs_non_production s)
      \<union> {n. \<exists>file. x = (n, FileNode file) \<and> contexts_of (di_reach i) n \<noteq> []
          \<and> Production \<notin> set (roles_of (di_reach i) n)}"
    by (cases node) (auto simp: x scan_file_def Let_def)
qed

lemma map_filter_append: "List.map_filter f (xs @ ys) = List.map_filter f xs @ List.map_filter f ys"
  by (simp add: map_filter_def)

lemma scan_files_findings: "fs_findings (scan_files i) = List.map_filter (file_finding i) (sg_nodes (di_graph i))"
proof -
  have "fs_findings (fold (scan_file i) xs s) = fs_findings s @ List.map_filter (file_finding i) xs" for xs s
  proof (induction xs arbitrary: s)
    case (Cons x xs)
    show ?case
      using map_filter_append [of "file_finding i" "[x]" xs] by (simp add: Cons.IH scan_file_step)
  qed (simp add: map_filter_def)
  then show ?thesis by (simp add: scan_files_def)
qed

lemma scan_files_sets:
  "n \<in> set (fs_unreachable (scan_files i)) \<longleftrightarrow>
     (\<exists>file. (n, FileNode file) \<in> set (sg_nodes (di_graph i))) \<and> contexts_of (di_reach i) n = []"
  "n \<in> set (fs_non_production (scan_files i)) \<longleftrightarrow>
     (\<exists>file. (n, FileNode file) \<in> set (sg_nodes (di_graph i))) \<and> contexts_of (di_reach i) n \<noteq> []
     \<and> Production \<notin> set (roles_of (di_reach i) n)"
proof -
  have "set (fs_unreachable (fold (scan_file i) xs s)) = set (fs_unreachable s)
      \<union> {n. (\<exists>file. (n, FileNode file) \<in> set xs) \<and> contexts_of (di_reach i) n = []}" for xs s
    by (induction xs arbitrary: s) (auto simp: scan_file_step)
  then show "n \<in> set (fs_unreachable (scan_files i)) \<longleftrightarrow>
     (\<exists>file. (n, FileNode file) \<in> set (sg_nodes (di_graph i))) \<and> contexts_of (di_reach i) n = []"
    by (simp add: scan_files_def)
  have "set (fs_non_production (fold (scan_file i) xs s)) = set (fs_non_production s)
      \<union> {n. (\<exists>file. (n, FileNode file) \<in> set xs) \<and> contexts_of (di_reach i) n \<noteq> []
           \<and> Production \<notin> set (roles_of (di_reach i) n)}" for xs s
    by (induction xs arbitrary: s) (auto simp: scan_file_step)
  then show "n \<in> set (fs_non_production (scan_files i)) \<longleftrightarrow>
     (\<exists>file. (n, FileNode file) \<in> set (sg_nodes (di_graph i))) \<and> contexts_of (di_reach i) n \<noteq> []
     \<and> Production \<notin> set (roles_of (di_reach i) n)"
    by (simp add: scan_files_def)
qed

subsection \<open>The other loops\<close>

text \<open>What edges, boundaries and directives append is never about an unreached file or symbol.\<close>

definition about_nodes :: "dead_code_kind \<Rightarrow> bool" where
  "about_nodes kind \<longleftrightarrow>
     kind \<in> {UnreachableFile, UnusedPrivateSymbol, TestOnly, ToolingOnly, UnreferencedPublic}"

lemma edge_verdict_kind: "edge_verdict i p e = Some (kind, rest) \<Longrightarrow> \<not> about_nodes kind"
  by (auto simp: edge_verdict_def about_nodes_def Let_def split: edge_target.splits if_splits)

lemma scan_edge_kind:
  assumes "\<forall>f \<in> set (fst s). \<not> about_nodes (df_kind f)" and "f \<in> set (fst (scan_edge i e s))"
  shows "\<not> about_nodes (df_kind f)"
proof (cases "project_for_node (di_graph i) (se_from e)")
  case None
  with assms show ?thesis by (auto simp: scan_edge_def split: prod.splits)
next
  case (Some p)
  show ?thesis
  proof (cases "edge_verdict i p e")
    case None
    with Some assms show ?thesis by (auto simp: scan_edge_def split: prod.splits)
  next
    case verdict: (Some v)
    obtain kind rest where v: "v = (kind, rest)" by (cases v)
    from Some verdict assms show ?thesis
      using edge_verdict_kind [of i p e kind rest]
      by (cases rest) (auto simp: v scan_edge_def Let_def split: prod.splits if_splits)
  qed
qed

lemma edge_findings_kind: "f \<in> set (fst (fold (scan_edge i) es ([], {}))) \<Longrightarrow> \<not> about_nodes (df_kind f)"
proof -
  have "(\<forall>f \<in> set (fst s). \<not> about_nodes (df_kind f)) \<Longrightarrow>
      f \<in> set (fst (fold (scan_edge i) es s)) \<Longrightarrow> \<not> about_nodes (df_kind f)" for s
  proof (induction es arbitrary: s)
    case (Cons e es)
    from Cons.IH [of "scan_edge i e s"] Cons.prems scan_edge_kind [of s _ i e] show ?case by simp
  qed simp
  from this [of "([], {})"] show "f \<in> set (fst (fold (scan_edge i) es ([], {}))) \<Longrightarrow> ?thesis" by simp
qed

lemma boundary_finding_kind: "boundary_finding i r b = Some f \<Longrightarrow> \<not> about_nodes (df_kind f)"
  by (auto simp: boundary_finding_def boundary_finding_kind_def about_nodes_def Let_def split: if_splits)

lemma directive_finding_kind: "f \<in> set (directive_findings i x) \<Longrightarrow> \<not> about_nodes (df_kind f)"
  by (auto simp: directive_findings_def issue_finding_def about_nodes_def
      split: prod.splits source_node.splits option.splits)

lemma node_findings:
  assumes "about_nodes (df_kind f)"
  shows "f \<in> set (dr_findings (analyze_report hash debug version g reach policy)) \<longleftrightarrow>
    (let i = dead_code_input_of hash debug g reach
     in (\<exists>x \<in> set (sg_nodes g). file_finding i x = Some f \<or> symbol_finding i (scan_files i) x = Some f))"
proof -
  let ?i = "dead_code_input_of hash debug g reach"
  have graph: "di_graph ?i = g" by (simp add: dead_code_input_of_def)
  have edges: "f \<notin> set (fst (fold (scan_edge ?i) es ([], {})))" for es
    using assms edge_findings_kind by blast
  have boundaries: "boundary_finding ?i r b \<noteq> Some f" for r b
    using assms boundary_finding_kind by blast
  have directives: "f \<notin> set (directive_findings ?i x)" for x
    using assms directive_finding_kind by blast
  show ?thesis
    using edges [of "sg_edges g"] boundaries directives
    by (auto simp: analyze_report_def canonicalize_def all_findings_def Let_def split_beta
        symbol_findings_def scan_files_findings graph set_map_filter)
qed

subsection \<open>Reached nodes\<close>

lemma contexts_empty:
  "contexts_of (analyze_validated g) n = [] \<longleftrightarrow>
     (\<nexists>ctxt. ctxt \<in> snd ` set (sg_contexts g) \<and> context_reaches g ctxt n)"
proof -
  have "contexts_of (analyze_validated g) n = [] \<longleftrightarrow> (\<forall>cid. cid \<notin> set (contexts_of (analyze_validated g) n))"
    by (metis empty_iff list.set(1) set_empty subset_code(1) subset_empty)
  then show ?thesis unfolding analyze_validated_set by blast
qed

subsection \<open>High confidence\<close>

lemma confidence_High: "confidence_for_completeness c = High \<longleftrightarrow> c = Complete"
  by (cases c) simp_all

lemma lower_not_High: "lower_confidence c \<noteq> High"
  by (cases c) simp_all

lemma worst_Complete: "worst a b = Complete \<longleftrightarrow> a = Complete \<and> b = Complete"
  by (cases a; cases b) simp_all

lemma localized_High:
  assumes "localized_confidence g p P = High"
  shows "\<exists>project. bmap_get (sg_projects g) p = Some project \<and> sp_completeness project \<noteq> Unsupported"
    and "b \<in> set (sg_boundaries g) \<Longrightarrow> ab_project b = p \<Longrightarrow> ab_node b = None \<or> P b \<Longrightarrow> ab_effect b = Complete"
proof -
  have all: "fold (\<lambda>b c. if Q b then worst c (ab_effect b) else c) bs c = Complete \<Longrightarrow>
      c = Complete \<and> (\<forall>b \<in> set bs. Q b \<longrightarrow> ab_effect b = Complete)" for Q bs c
  proof (induction bs arbitrary: c)
    case (Cons b bs)
    from Cons.IH [OF Cons.prems [simplified]] show ?case
      by (cases "Q b") (simp_all add: worst_Complete)
  qed simp
  from assms show "\<exists>project. bmap_get (sg_projects g) p = Some project \<and> sp_completeness project \<noteq> Unsupported"
    by (auto simp: localized_confidence_def split: option.splits if_splits)
  from assms obtain c where "fold (\<lambda>b c. if ab_node b = None \<or> P b then worst c (ab_effect b) else c)
      (project_boundaries g p) c = Complete"
    by (auto simp: localized_confidence_def confidence_High Let_def split: option.splits if_splits)
  from all [OF this]
  show "b \<in> set (sg_boundaries g) \<Longrightarrow> ab_project b = p \<Longrightarrow> ab_node b = None \<or> P b \<Longrightarrow> ab_effect b = Complete"
    unfolding project_boundaries_def by simp blast
qed

lemma symbol_High:
  "symbol_confidence g p file n = High \<Longrightarrow> localized_confidence g p (symbol_boundary_applies g file n) = High"
  by (auto simp: symbol_confidence_def confidence_High split: if_splits)

subsection \<open>What public symbols depend on\<close>

definition dependency_edges :: "'c source_graph \<Rightarrow> (node_id \<times> node_id) set" where
  "dependency_edges g =
     {(a, b). \<exists>e \<in> set (sg_edges g). se_from e = a \<and> se_to e = ToNode b
        \<and> se_kind e \<noteq> Contains \<and> se_kind e \<noteq> ReExport}"

definition public_symbol :: "'c source_graph \<Rightarrow> node_id \<Rightarrow> bool" where
  "public_symbol g n \<longleftrightarrow> (\<exists>s. (n, SymbolNode s) \<in> set (sg_nodes g) \<and> ss_visibility s = VisPublic)"

lemma add_dependency_arcs:
  "succ_edges (add_dependency e adj) = succ_edges adj
     \<union> {(a, b). se_from e = a \<and> se_to e = ToNode b \<and> se_kind e \<noteq> Contains \<and> se_kind e \<noteq> ReExport}"
  by (cases "se_to e") (auto simp: add_dependency_def)

lemma public_dependency_nodes_set:
  "n \<in> set (public_dependency_nodes g) \<longleftrightarrow> (\<exists>p. public_symbol g p \<and> (p, n) \<in> (dependency_edges g)\<^sup>*)"
proof -
  have "succ_edges (fold add_dependency es adj) = succ_edges adj
      \<union> {(a, b). \<exists>e \<in> set es. se_from e = a \<and> se_to e = ToNode b
          \<and> se_kind e \<noteq> Contains \<and> se_kind e \<noteq> ReExport}" for es adj
    by (induction es arbitrary: adj) (auto simp: add_dependency_arcs)
  then have edges: "succ_edges (fold add_dependency (sg_edges g) []) = dependency_edges g"
    by (simp add: dependency_edges_def)
  have seeds: "fst ` set (map (\<lambda>(node_id, _). (node_id, ()))
      (filter (\<lambda>(_, node). is_public_symbol node) (sg_nodes g))) = Collect (public_symbol g)"
    by (force simp: public_symbol_def is_public_symbol_def split: source_node.splits)
  show ?thesis
    unfolding public_dependency_nodes_def Let_def set_bset_of set_map [of fst] traverse_reached edges seeds
    by blast
qed

end
