(* ===== verification/DeadCodeContract.thy ===== *)
theory DeadCodeContract
  imports DeadCodeProps
begin

text \<open>
  The properties of the dead-code report: what is reported, what a gating finding guarantees, when the
  check passes, and what identifies a finding.
\<close>

subsection \<open>What is reported\<close>

definition unreached :: "'c source_graph \<Rightarrow> node_id \<Rightarrow> bool" where
  "unreached g n \<longleftrightarrow> (\<nexists>ctxt. ctxt \<in> snd ` set (sg_contexts g) \<and> context_reaches g ctxt n)"

definition production_reaches :: "'c source_graph \<Rightarrow> node_id \<Rightarrow> bool" where
  "production_reaches g n \<longleftrightarrow>
     (\<exists>ctxt. ctxt \<in> snd ` set (sg_contexts g) \<and> sc_role ctxt = Production \<and> context_reaches g ctxt n)"

abbreviation input_of where
  "input_of hash debug g \<equiv> dead_code_input_of hash debug g (analyze_validated g)"

lemma input_sel [simp]:
  "di_graph (dead_code_input_of hash debug g reach) = g"
  "di_reach (dead_code_input_of hash debug g reach) = reach"
  "di_public (dead_code_input_of hash debug g reach) = public_dependency_nodes g"
  "di_hash (dead_code_input_of hash debug g reach) = hash"
  by (simp_all add: dead_code_input_of_def)

lemma production_role: "Production \<in> set (roles_of (analyze_validated g) n) \<longleftrightarrow> production_reaches g n"
  unfolding analyze_validated_set production_reaches_def by blast

lemma contexts_unreached: "contexts_of (analyze_validated g) n = [] \<longleftrightarrow> unreached g n"
  by (simp add: contexts_empty unreached_def)

lemma file_finding_unreachable:
  "(\<exists>f. file_finding (input_of hash debug g) x = Some f \<and> df_kind f = UnreachableFile \<and> df_node_id f = Some n)
     \<longleftrightarrow> (\<exists>file. x = (n, FileNode file)) \<and> unreached g n"
  by (cases x; cases "snd x") (auto simp: file_finding_def contexts_unreached)

lemma file_finding_kind: "file_finding i x = Some f \<Longrightarrow> df_kind f \<noteq> UnusedPrivateSymbol"
  by (auto simp: file_finding_def split: prod.splits source_node.splits if_splits)

lemma symbol_finding_kind: "symbol_finding i files x = Some f \<Longrightarrow> df_kind f \<noteq> UnreachableFile"
  by (auto simp: symbol_finding_def reached_symbol_def unreached_symbol_def unreached_verdict_def Let_def
      split: prod.splits source_node.splits if_splits)

lemma file_scanned:
  assumes "graph_wf g" and "(m, SymbolNode s) \<in> set (sg_nodes g)"
  shows "ss_file s \<notin> set (fs_unreachable (scan_files (input_of hash debug g)))
     \<and> ss_file s \<notin> set (fs_non_production (scan_files (input_of hash debug g)))
     \<longleftrightarrow> production_reaches g (ss_file s)"
proof -
  from assms have "\<exists>file. bmap_get (sg_nodes g) (ss_file s) = Some (FileNode file)"
    using wf_symbol_file by blast
  then have "\<exists>file. (ss_file s, FileNode file) \<in> set (sg_nodes g)" by (blast dest: bmap_get_SomeD)
  then show ?thesis
    unfolding scan_files_sets input_sel contexts_unreached production_role
    by (auto simp: unreached_def production_reaches_def)
qed

lemma unused_private_verdict:
  "(\<exists>c m. unreached_verdict v p base = Some (UnusedPrivateSymbol, c, m)) \<longleftrightarrow> v = VisPrivate \<or> v = VisInternal"
  by (cases v) (simp_all add: unreached_verdict_def)

lemma symbol_finding_unused:
  assumes "graph_wf g" and "(m, SymbolNode s) \<in> set (sg_nodes g)"
  shows "(\<exists>f. symbol_finding (input_of hash debug g) (scan_files (input_of hash debug g)) (m, SymbolNode s) = Some f
       \<and> df_kind f = UnusedPrivateSymbol \<and> df_node_id f = Some n)
     \<longleftrightarrow> m = n \<and> unreached g n \<and> production_reaches g (ss_file s)
       \<and> (ss_visibility s = VisPrivate \<or> ss_visibility s = VisInternal)"
proof (cases "production_reaches g (ss_file s) \<and> unreached g m")
  case True
  then show ?thesis
    using file_scanned [OF assms, of hash debug]
      unused_private_verdict [of "ss_visibility s" "m \<in> set (public_dependency_nodes g)"
        "symbol_confidence g (ss_project s) (ss_file s) m"]
    by (force simp: symbol_finding_def contexts_unreached unreached_symbol_def)
next
  case False
  then show ?thesis
    using file_scanned [OF assms, of hash debug]
    by (auto simp: symbol_finding_def contexts_unreached reached_symbol_def Let_def)
qed

text \<open>C10: The report is exact about dead code: a file is reported as unreachable if and only if no
  context reaches it, and a private or internal symbol as unused if and only if no context reaches it
  while a production context reaches its file (the other symbols go with their files).\<close>

theorem dead_code_is_reported_exactly:
  assumes "analyze g = Inr reach"
  shows "((\<exists>f \<in> set (dr_findings (analyze_with_reachability hash debug version g reach)).
        df_kind f = UnreachableFile \<and> df_node_id f = Some n)
      \<longleftrightarrow> (\<exists>file. (n, FileNode file) \<in> set (sg_nodes g)) \<and> unreached g n)
    \<and> ((\<exists>f \<in> set (dr_findings (analyze_with_reachability hash debug version g reach)).
        df_kind f = UnusedPrivateSymbol \<and> df_node_id f = Some n)
      \<longleftrightarrow> (\<exists>s. (n, SymbolNode s) \<in> set (sg_nodes g) \<and> unreached g n \<and> production_reaches g (ss_file s)
            \<and> (ss_visibility s = VisPrivate \<or> ss_visibility s = VisInternal)))"
proof -
  from assms have wf: "graph_wf g" and reach: "reach = analyze_validated g" by (simp_all add: analyze_Inr)
  let ?i = "input_of hash debug g"
  let ?R = "set (dr_findings (analyze_report hash debug version g reach False))"
  have nodes: "(\<exists>f \<in> ?R. df_kind f = kind \<and> df_node_id f = Some n) \<longleftrightarrow>
      (\<exists>x \<in> set (sg_nodes g). \<exists>f. (file_finding ?i x = Some f \<or> symbol_finding ?i (scan_files ?i) x = Some f)
        \<and> df_kind f = kind \<and> df_node_id f = Some n)" if "about_nodes kind" for kind
    using that node_findings [of _ hash debug version g reach False] unfolding Let_def reach by blast
  have files: "(\<exists>f \<in> ?R. df_kind f = UnreachableFile \<and> df_node_id f = Some n) \<longleftrightarrow>
      (\<exists>x \<in> set (sg_nodes g). (\<exists>file. x = (n, FileNode file)) \<and> unreached g n)"
    unfolding nodes [of UnreachableFile, unfolded about_nodes_def, simplified]
      file_finding_unreachable [symmetric, where hash = hash and debug = debug and g = g and n = n]
    using symbol_finding_kind by blast
  have "symbol_finding ?i files (m, FileNode fl) = None" for files m fl
    by (simp add: symbol_finding_def)
  then have "(\<exists>f \<in> ?R. df_kind f = UnusedPrivateSymbol \<and> df_node_id f = Some n) \<longleftrightarrow>
      (\<exists>m s. (m, SymbolNode s) \<in> set (sg_nodes g) \<and> (\<exists>f. symbol_finding ?i (scan_files ?i) (m, SymbolNode s) = Some f
        \<and> df_kind f = UnusedPrivateSymbol \<and> df_node_id f = Some n))"
    unfolding nodes [of UnusedPrivateSymbol, unfolded about_nodes_def, simplified]
    using file_finding_kind by (metis source_node.exhaust option.distinct(1) surj_pair)
  then have symbols: "(\<exists>f \<in> ?R. df_kind f = UnusedPrivateSymbol \<and> df_node_id f = Some n) \<longleftrightarrow>
      (\<exists>s. (n, SymbolNode s) \<in> set (sg_nodes g) \<and> unreached g n \<and> production_reaches g (ss_file s)
        \<and> (ss_visibility s = VisPrivate \<or> ss_visibility s = VisInternal))"
    using symbol_finding_unused [OF wf, of _ _ hash debug n] by blast
  show ?thesis
    using files symbols unfolding analyze_with_reachability_def by blast
qed

subsection \<open>What gates\<close>

lemma gates_High: "gates_at kind c \<Longrightarrow> c = High"
  by (simp add: gates_at_def)

lemma gating_confidence:
  assumes "(if n \<in> set (public_dependency_nodes g) then lower_confidence base else base) = High"
  shows "base = High \<and> (\<nexists>p. public_symbol g p \<and> (p, n) \<in> (dependency_edges g)\<^sup>*)"
  using assms by (auto simp: lower_not_High public_dependency_nodes_set split: if_splits)

text \<open>The part of a high confidence that a gating finding rests on.\<close>

lemma localized_certain:
  assumes "localized_confidence g p P = High" and "\<And>b. ab_node b = Some n \<Longrightarrow> P b"
  shows "(\<exists>project. bmap_get (sg_projects g) p = Some project \<and> sp_completeness project \<noteq> Unsupported)
    \<and> (\<nexists>b. b \<in> set (sg_boundaries g) \<and> ab_project b = p \<and> ab_effect b \<noteq> Complete
         \<and> (ab_node b = None \<or> ab_node b = Some n))"
  using localized_High [OF assms(1)] assms(2) by blast

text \<open>C23: A gating finding of dead code rests on complete evidence: its node is reached by no context and
  is no dependency of a public symbol (which external code might use), its project is known and not
  unsupported, and no boundary of the project or of the node itself limits the analysis.\<close>

theorem gating_findings_are_certain:
  assumes "analyze g = Inr reach"
    and "f \<in> set (dr_findings (analyze_with_reachability hash debug version g reach))"
    and "df_gates f" and "df_kind f = UnreachableFile \<or> df_kind f = UnusedPrivateSymbol"
  shows "\<exists>n. df_node_id f = Some n \<and> unreached g n
    \<and> (\<nexists>p. public_symbol g p \<and> (p, n) \<in> (dependency_edges g)\<^sup>*)
    \<and> (\<exists>project. bmap_get (sg_projects g) (df_project f) = Some project \<and> sp_completeness project \<noteq> Unsupported)
    \<and> (\<nexists>b. b \<in> set (sg_boundaries g) \<and> ab_project b = df_project f \<and> ab_effect b \<noteq> Complete
         \<and> (ab_node b = None \<or> ab_node b = Some n))"
proof -
  let ?i = "input_of hash debug g"
  from assms(1) have reach: "reach = analyze_validated g" by (simp add: analyze_Inr)
  from assms(4) have about: "about_nodes (df_kind f)" by (auto simp: about_nodes_def)
  from assms(2) obtain x where "x \<in> set (sg_nodes g)"
    and x: "file_finding ?i x = Some f \<or> symbol_finding ?i (scan_files ?i) x = Some f"
    unfolding analyze_with_reachability_def node_findings [OF about] Let_def reach by blast
  obtain n node where xn: "x = (n, node)" by (cases x)
  show ?thesis
  proof (cases node)
    case (FileNode fl)
    with x assms(4) have f: "file_finding ?i (n, FileNode fl) = Some f" and un: "unreached g n"
      by (auto simp: xn symbol_finding_def file_finding_def contexts_unreached split: if_splits)
    from f un have sel: "df_node_id f = Some n" "df_project f = sf_project fl"
      "df_gates f = gates_at UnreachableFile (scanned_confidence ?i n fl)"
      by (auto simp: file_finding_def contexts_unreached)
    from gates_High assms(3) sel have "scanned_confidence ?i n fl = High" by blast
    then have "(if n \<in> set (public_dependency_nodes g) then lower_confidence (file_confidence g (sf_project fl) n)
        else file_confidence g (sf_project fl) n) = High"
      by (simp only: scanned_confidence_def Let_def input_sel)
    from gating_confidence [OF this] have high: "file_confidence g (sf_project fl) n = High"
      and public: "\<nexists>p. public_symbol g p \<and> (p, n) \<in> (dependency_edges g)\<^sup>*" by simp_all
    have "ab_node b = Some n \<Longrightarrow> file_boundary_applies g n b" for b
      by (simp add: file_boundary_applies_def)
    from localized_certain [OF high [unfolded file_confidence_def] this] show ?thesis
      using un public unfolding sel by blast
  next
    case (SymbolNode s)
    with x assms(4) have f: "unreached_symbol ?i n s = Some f" and un: "unreached g n"
      by (auto simp: xn symbol_finding_def file_finding_def contexts_unreached reached_symbol_def Let_def
          split: if_splits)
    let ?base = "symbol_confidence g (ss_project s) (ss_file s) n"
    from f have sel: "df_node_id f = Some n" "df_project f = ss_project s" and gate: "gates_at (df_kind f)
        (if n \<in> set (public_dependency_nodes g) then lower_confidence ?base else ?base)"
      using assms(3,4)
      by (auto simp: unreached_symbol_def unreached_verdict_def split: if_splits)
    from gating_confidence [OF gates_High [OF gate]] have high: "?base = High"
      and public: "\<nexists>p. public_symbol g p \<and> (p, n) \<in> (dependency_edges g)\<^sup>*" by simp_all
    have "ab_node b = Some n \<Longrightarrow> symbol_boundary_applies g (ss_file s) n b" for b
      by (simp add: symbol_boundary_applies_def)
    from localized_certain [OF symbol_High [OF high] this] show ?thesis
      using un public unfolding sel by blast
  qed
qed

subsection \<open>The check\<close>

lemma filter_length_0: "length (filter P xs) = 0 \<longleftrightarrow> (\<nexists>x. x \<in> set xs \<and> P x)"
  by (auto simp: filter_empty_conv)

text \<open>The check of a graph passes exactly when no finding of it gates, policy findings included, and
  every project that is required to be complete is; the order in which findings are reported plays no
  part.\<close>

theorem check_passes_exactly:
  "check_failure_count (apply_completeness_requirements required
     (analyze_check_with_reachability hash debug version g reach)) = 0
   \<longleftrightarrow> (\<nexists>f. f \<in> set (all_findings (dead_code_input_of hash debug g reach) True) \<and> df_gates f)
     \<and> (\<nexists>p. p \<in> snd ` set (sg_projects g) \<and> sp_id p \<in> set required \<and> sp_completeness p \<noteq> Complete)"
proof -
  let ?report = "apply_completeness_requirements required
    (analyze_check_with_reachability hash debug version g reach)"
  have findings: "set (dr_findings ?report) = set (all_findings (dead_code_input_of hash debug g reach) True)"
    by (simp add: apply_completeness_requirements_def analyze_check_with_reachability_def
        analyze_report_def canonicalize_def)
  have projects: "set (dr_projects ?report) =
      (\<lambda>p. (project_summary_of g p)\<lparr>ps_require_complete := sp_id p \<in> set required\<rparr>) ` snd ` set (sg_projects g)"
    by (simp add: apply_completeness_requirements_def analyze_check_with_reachability_def
        analyze_report_def canonicalize_def image_image project_summary_of_def Let_def)
  have "check_failure_count ?report = 0 \<longleftrightarrow>
      (\<nexists>f. f \<in> set (dr_findings ?report) \<and> df_gates f)
      \<and> (\<nexists>p. p \<in> set (dr_projects ?report) \<and> ps_require_complete p \<and> ps_completeness p \<noteq> Complete)"
    unfolding check_failure_count_def gate_count_def completeness_gate_count_def add_is_0 filter_length_0 ..
  also have "\<dots> \<longleftrightarrow> (\<nexists>f. f \<in> set (all_findings (dead_code_input_of hash debug g reach) True) \<and> df_gates f)
      \<and> (\<nexists>p. p \<in> snd ` set (sg_projects g) \<and> sp_id p \<in> set required \<and> sp_completeness p \<noteq> Complete)"
    unfolding findings projects by (auto simp: project_summary_of_def Let_def)
  finally show ?thesis .
qed

subsection \<open>Identity of a finding\<close>

lemma length_le_bytes [simp]: "length (le_bytes k n) = k"
  by (induction k arbitrary: n) simp_all

lemma le_bytes_inj: "le_bytes k m = le_bytes k n \<Longrightarrow> m < 256 ^ k \<Longrightarrow> n < 256 ^ k \<Longrightarrow> m = n"
proof (induction k arbitrary: m n)
  case (Suc k)
  from Suc.prems(1) have "m mod 256 = n mod 256" and rest: "le_bytes k (m div 256) = le_bytes k (n div 256)"
    using char_of_eq_iff by fastforce+
  moreover have "m div 256 = n div 256"
    using Suc.IH [OF rest] Suc.prems(2,3) by (simp add: less_mult_imp_div_less mult.commute)
  ultimately show ?case by (metis div_mult_mod_eq)
qed simp

lemma le_block_inj:
  "le_bytes k m @ x = le_bytes k n @ y \<Longrightarrow> m < 256 ^ k \<Longrightarrow> n < 256 ^ k \<Longrightarrow> m = n \<and> x = y"
  by (metis append_eq_append_conv le_bytes_inj length_le_bytes)

lemma prefixed_values_inj:
  assumes "concat (map (\<lambda>v. le_bytes 8 (length v) @ v) vs) @ x = concat (map (\<lambda>v. le_bytes 8 (length v) @ v) ws) @ y"
    and "length vs = length ws" and "\<forall>v \<in> set vs \<union> set ws. length v < 256 ^ 8"
  shows "vs = ws \<and> x = y"
  using assms
proof (induction vs arbitrary: ws)
  case (Cons v vs)
  then obtain w ws' where ws: "ws = w # ws'" by (cases ws) auto
  with Cons.prems have "length v = length w \<and> v @ concat (map (\<lambda>v. le_bytes 8 (length v) @ v) vs) @ x
      = w @ concat (map (\<lambda>v. le_bytes 8 (length v) @ v) ws') @ y"
    by (intro le_block_inj) auto
  then have "v = w" and "concat (map (\<lambda>v. le_bytes 8 (length v) @ v) vs) @ x
      = concat (map (\<lambda>v. le_bytes 8 (length v) @ v) ws') @ y" by auto
  with Cons.IH [of ws'] Cons.prems ws show ?case by auto
qed simp

definition span_fits :: "span option \<Rightarrow> bool" where
  "span_fits s = (case s of None \<Rightarrow> True | Some s \<Rightarrow>
     start_line s < 256 ^ 4 \<and> start_col s < 256 ^ 4 \<and> end_line s < 256 ^ 4 \<and> end_col s < 256 ^ 4)"

lemma span_bytes_inj:
  assumes "span_bytes s = span_bytes t" and "span_fits s" and "span_fits t"
  shows "s = t"
proof (cases s; cases t)
  fix a b assume s: "s = Some a" and t: "t = Some b"
  from assms(1) have eq: "le_bytes 4 (start_line a) @ le_bytes 4 (start_col a) @ le_bytes 4 (end_line a) @ le_bytes 4 (end_col a)
      = le_bytes 4 (start_line b) @ le_bytes 4 (start_col b) @ le_bytes 4 (end_line b) @ le_bytes 4 (end_col b)"
    by (simp add: s t span_bytes_def)
  from assms(2,3) have fits: "start_line a < 256 ^ 4" "start_col a < 256 ^ 4" "end_line a < 256 ^ 4"
    "end_col a < 256 ^ 4" "start_line b < 256 ^ 4" "start_col b < 256 ^ 4" "end_line b < 256 ^ 4"
    "end_col b < 256 ^ 4" by (simp_all add: span_fits_def s t)
  from le_block_inj [OF eq fits(1,5)] have 1: "start_line a = start_line b" and
    eq2: "le_bytes 4 (start_col a) @ le_bytes 4 (end_line a) @ le_bytes 4 (end_col a)
      = le_bytes 4 (start_col b) @ le_bytes 4 (end_line b) @ le_bytes 4 (end_col b)" by simp_all
  from le_block_inj [OF eq2 fits(2,6)] have 2: "start_col a = start_col b" and
    eq3: "le_bytes 4 (end_line a) @ le_bytes 4 (end_col a) = le_bytes 4 (end_line b) @ le_bytes 4 (end_col b)"
    by simp_all
  from le_block_inj [OF eq3 fits(3,7)] have "end_line a = end_line b" "end_col a = end_col b"
    using le_bytes_inj [OF _ fits(4,8)] by simp_all
  with 1 2 show ?thesis by (cases a; cases b) (simp add: s t)
qed (use assms(1) in \<open>simp_all add: span_bytes_def\<close>)

definition encodable_details :: "dead_code_kind \<Rightarrow> finding_details \<Rightarrow> bool" where
  "encodable_details kind d \<longleftrightarrow>
     list_all (\<lambda>v. length v < 256 ^ 8) (identity_values kind d) \<and> span_fits (ev_span (det_evidence d))"

lemma kind_str_no_slash: "CHR ''/'' \<notin> set (kind_str kind)"
  by (cases kind) simp_all

text \<open>A finding's ID identifies what it is about: two findings whose texts and positions fit their
  length fields have the same ID only if they agree in kind, project, node, path, symbol, extractor,
  detail and span, unless the hash collides on the two encodings.\<close>

theorem finding_ids_identify:
  assumes "encodable_details k d" and "encodable_details k' d'"
    and "inj_on hash {finding_preimage k d, finding_preimage k' d'}"
    and "stable_finding_id hash k d = stable_finding_id hash k' d'"
  shows "identity_values k d = identity_values k' d' \<and> ev_span (det_evidence d) = ev_span (det_evidence d')"
proof -
  from assms(4) have "hash (finding_preimage k d) = hash (finding_preimage k' d')"
    by (simp add: stable_finding_id_def separated_inj [OF kind_str_no_slash kind_str_no_slash])
  with assms(3) have "finding_preimage k d = finding_preimage k' d'" by (auto dest: inj_onD)
  then have "identity_values k d = identity_values k' d' \<and>
      span_bytes (ev_span (det_evidence d)) = span_bytes (ev_span (det_evidence d'))"
    using assms(1,2)
    by (intro prefixed_values_inj)
      (auto simp: finding_preimage_def encodable_details_def list_all_iff identity_values_def)
  with assms(1,2) span_bytes_inj show ?thesis by (auto simp: encodable_details_def)
qed

theorem finding_ids_identify_witness:
  "\<exists>d :: finding_details. stable_finding_id id TestOnly d = stable_finding_id id TestOnly d
     \<and> identity_values TestOnly d = identity_values TestOnly d"
proof -
  define d :: finding_details where
    "d = \<lparr>det_project = ''p'', det_node_id = None, det_path = ''a.rs'', det_symbol = None,
          det_language = None, det_contexts = [], det_root_contexts = [], det_roles = [],
          det_confidence = High, det_evidence = SourceEvidence ''a.rs'' (Some (Span 1 0 1 0)) ''x'',
          det_message = [], det_identity_detail = None\<rparr>"
  have "encodable_details TestOnly d"
    by (simp add: d_def encodable_details_def identity_values_def or_empty_def span_fits_def)
  with finding_ids_identify [of TestOnly d TestOnly d id] show ?thesis by blast
qed

subsection \<open>A graph with dead code\<close>

text \<open>The sample graph with only its second file as a root: the first file and its edge stay unreached.\<close>

definition lonely_graph :: "unit source_graph" where
  "lonely_graph = sample_graph\<lparr>sg_contexts := [(''c'', sample_context\<lparr>sc_roots := [''b'']\<rparr>)]\<rparr>"

lemma lonely_run: "analyze lonely_graph = Inr (analyze_validated lonely_graph)"
proof -
  have "graph_wf lonely_graph"
    by (auto simp: graph_wf_def lonely_graph_def sample_graph_def sample_context_def sample_file_def
        sample_symbol_def project_exists_def node_exists_def bmap_get_def)
  then show ?thesis by (simp add: analyze_Inr)
qed

lemma lonely_unreached: "unreached lonely_graph ''a''"
proof -
  have "(''b'', n) \<in> (runtime_edges lonely_graph)\<^sup>* \<Longrightarrow> n = ''b''" for n
    by (induction rule: rtrancl_induct)
      (auto simp: runtime_edges_def lonely_graph_def sample_graph_def)
  then show ?thesis
    by (auto simp: unreached_def context_reaches_def root_starts_def lonely_graph_def sample_context_def)
qed

lemma lonely_file: "(''a'', FileNode (sample_file ''a.rs'')) \<in> set (sg_nodes lonely_graph)"
  by (simp add: lonely_graph_def sample_graph_def)

lemma lonely_certain: "scanned_confidence (input_of hash debug lonely_graph) ''a'' (sample_file ''a.rs'') = High"
proof -
  have "\<not> public_symbol lonely_graph p" for p
    by (auto simp: public_symbol_def lonely_graph_def sample_graph_def sample_symbol_def)
  then have "''a'' \<notin> set (public_dependency_nodes lonely_graph)"
    by (simp add: public_dependency_nodes_set)
  moreover have "file_confidence lonely_graph ''p'' ''a'' = High"
    by (simp add: file_confidence_def localized_confidence_def project_boundaries_def lonely_graph_def
        sample_graph_def bmap_get_def Let_def)
  ultimately show ?thesis by (simp add: scanned_confidence_def Let_def sample_file_def)
qed

theorem dead_code_is_reported_exactly_witness:
  "\<exists>reach. analyze lonely_graph = Inr reach
     \<and> (\<exists>f \<in> set (dr_findings (analyze_with_reachability id id ''1'' lonely_graph reach)).
          df_kind f = UnreachableFile \<and> df_node_id f = Some ''a'')"
proof -
  have "\<exists>f \<in> set (dr_findings (analyze_with_reachability id id ''1'' lonely_graph (analyze_validated lonely_graph))).
      df_kind f = UnreachableFile \<and> df_node_id f = Some ''a''"
    using dead_code_is_reported_exactly [OF lonely_run, of id id "''1''" "''a''"] lonely_unreached lonely_file
    by blast
  with lonely_run show ?thesis by blast
qed

theorem gating_findings_are_certain_witness:
  "\<exists>(f :: dead_code_finding) n. df_gates f \<and> df_node_id f = Some n \<and> unreached lonely_graph n"
proof -
  let ?i = "input_of id id lonely_graph"
  let ?f = "build_finding id UnreachableFile
    (file_details ?i ''a'' (sample_file ''a.rs'') High (file_message (''a'' \<in> set (di_public ?i))))"
  have found: "file_finding ?i (''a'', FileNode (sample_file ''a.rs'')) = Some ?f"
    using lonely_unreached lonely_certain [of id id] by (simp add: file_finding_def contexts_unreached)
  have "about_nodes (df_kind ?f)" by (simp add: about_nodes_def)
  from node_findings [OF this, of id id "''1''" lonely_graph "analyze_validated lonely_graph" False] found lonely_file
  have mem: "?f \<in> set (dr_findings (analyze_with_reachability id id ''1'' lonely_graph (analyze_validated lonely_graph)))"
    unfolding analyze_with_reachability_def Let_def by blast
  have gates: "df_gates ?f" by (simp add: gates_at_def)
  have kind: "df_kind ?f = UnreachableFile \<or> df_kind ?f = UnusedPrivateSymbol" by simp
  from gating_findings_are_certain [OF lonely_run mem gates kind] gates show ?thesis by blast
qed

end
