(* ===== verification/Inspection.thy ===== *)
theory Inspection
  imports BTree Utf8
begin

text \<open>
  Projections of a graph onto pages (\<open>src/inspection/projection.rs\<close>, \<open>src/inspection/model.rs\<close>): the
  nodes within a few hops of the requested roots, nearest first, cut into pages that a continuation
  cursor links. SHA-256, the JSON of a request and of a cursor (serde) and base64 are parameters.
  The subject strings of a request only appear in messages and are left out.
\<close>

datatype inspection_direction = Incoming | Outgoing | Both

record inspection_request =
  ir_targets :: "string list"
  ir_depth :: nat
  ir_max_nodes :: nat
  ir_direction :: inspection_direction
  ir_continuation :: "string option"

record projection_cursor =
  pcu_version :: nat
  pcu_graph_digest :: string
  pcu_request_digest :: string
  pcu_offset :: nat

record projection_env =
  pe_sha256 :: "bytes \<Rightarrow> string"
  pe_request_json :: "string list \<times> nat \<times> nat \<times> inspection_direction \<Rightarrow> bytes"
  pe_cursor_json :: "projection_cursor \<Rightarrow> bytes"
  pe_parse_cursor :: "bytes \<Rightarrow> projection_cursor option"
  pe_base64_encode :: "bytes \<Rightarrow> string"
  pe_base64_decode :: "string \<Rightarrow> bytes option"

datatype inspection_error =
    NoTargets
  | EmptyTarget
  | DepthExceeds nat
  | MaxNodesOutOfRange nat
  | CursorTooLong
  | CursorNotBase64
  | CursorNotJson
  | UnsupportedCursorVersion nat
  | StaleCursor
  | CursorOfOtherRequest
  | CursorBeyondSlice
  | SlicePanic

definition cursor_version :: nat where
  "cursor_version = 1"

definition max_cursor_bytes :: nat where
  "max_cursor_bytes = 4096"

definition max_depth :: nat where
  "max_depth = 16"

definition max_nodes_limit :: nat where
  "max_nodes_limit = 4096"

definition validate_request :: "inspection_request \<Rightarrow> inspection_error + unit" where
  "validate_request r =
     (if ir_targets r = [] then Inl NoTargets
      else if list_ex (\<lambda>t. trim t = []) (ir_targets r) then Inl EmptyTarget
      else if ir_depth r > max_depth then Inl (DepthExceeds (ir_depth r))
      else if ir_max_nodes r = 0 \<or> ir_max_nodes r > max_nodes_limit
      then Inl (MaxNodesOutOfRange (ir_max_nodes r))
      else Inr ())"

subsection \<open>The nodes within reach\<close>

definition looks_outgoing :: "inspection_direction \<Rightarrow> bool" where
  "looks_outgoing d \<longleftrightarrow> d = Outgoing \<or> d = Both"

definition looks_incoming :: "inspection_direction \<Rightarrow> bool" where
  "looks_incoming d \<longleftrightarrow> d = Incoming \<or> d = Both"

type_synonym 'n links = "('n, 'n bset) bmap"

definition linked :: "'n links \<Rightarrow> 'n \<Rightarrow> 'n list" where
  "linked m n = (case bmap_get m n of None \<Rightarrow> [] | Some targets \<Rightarrow> targets)"

definition add_link ::
    "inspection_direction \<Rightarrow> 'n::linorder \<times> 'n \<Rightarrow> 'n links \<times> 'n links \<Rightarrow> 'n links \<times> 'n links" where
  "add_link d edge maps =
     (case (edge, maps) of ((from, to), (outgoing, incoming)) \<Rightarrow>
        if from = to then maps
        else (if looks_outgoing d then bmap_entry from [] (bset_insert to) outgoing else outgoing,
              if looks_incoming d then bmap_entry to [] (bset_insert from) incoming else incoming))"

definition candidates_from ::
    "inspection_direction \<Rightarrow> 'n::linorder links \<Rightarrow> 'n links \<Rightarrow> 'n list \<Rightarrow> 'n bset" where
  "candidates_from d outgoing incoming frontier =
     fold (\<lambda>current candidates.
         let c = (if looks_outgoing d then bset_extend (linked outgoing current) candidates else candidates)
         in if looks_incoming d then bset_extend (linked incoming current) c else c)
       frontier []"

fun expand_levels ::
    "nat \<Rightarrow> inspection_direction \<Rightarrow> 'n::linorder links \<Rightarrow> 'n links \<Rightarrow> 'n bset \<Rightarrow> 'n list \<Rightarrow> 'n list \<Rightarrow> 'n list" where
  "expand_levels 0 d outgoing incoming included ordered frontier = ordered"
| "expand_levels (Suc depth) d outgoing incoming included ordered frontier =
     (let candidates = filter (\<lambda>c. c \<notin> set included) (candidates_from d outgoing incoming frontier)
      in if candidates = [] then ordered
         else expand_levels depth d outgoing incoming (bset_extend candidates included)
                (ordered @ candidates) candidates)"

definition expand ::
    "'n::linorder bset \<Rightarrow> ('n \<times> 'n) list \<Rightarrow> nat \<Rightarrow> inspection_direction \<Rightarrow> 'n list" where
  "expand roots edges depth d =
     (case fold (add_link d) edges ([], []) of (outgoing, incoming) \<Rightarrow>
        expand_levels depth d outgoing incoming roots roots roots)"

subsection \<open>Cursors\<close>

definition request_digest :: "projection_env \<Rightarrow> inspection_request \<Rightarrow> string" where
  "request_digest env r =
     ''sha256:'' @ pe_sha256 env
       (pe_request_json env (map trim (ir_targets r), ir_depth r, ir_max_nodes r, ir_direction r))"

definition encode_cursor :: "projection_env \<Rightarrow> string \<Rightarrow> string \<Rightarrow> nat \<Rightarrow> string" where
  "encode_cursor env gdigest rdigest offset =
     pe_base64_encode env (pe_cursor_json env
       \<lparr>pcu_version = cursor_version, pcu_graph_digest = gdigest,
        pcu_request_digest = rdigest, pcu_offset = offset\<rparr>)"

definition decode_cursor ::
    "projection_env \<Rightarrow> string \<Rightarrow> string \<Rightarrow> string \<Rightarrow> inspection_error + nat" where
  "decode_cursor env cursor gdigest rdigest =
     (if length cursor > max_cursor_bytes then Inl CursorTooLong
      else case pe_base64_decode env cursor of
        None \<Rightarrow> Inl CursorNotBase64
      | Some decoded \<Rightarrow>
          (case pe_parse_cursor env decoded of
             None \<Rightarrow> Inl CursorNotJson
           | Some payload \<Rightarrow>
               if pcu_version payload \<noteq> cursor_version
               then Inl (UnsupportedCursorVersion (pcu_version payload))
               else if pcu_graph_digest payload \<noteq> gdigest then Inl StaleCursor
               else if pcu_request_digest payload \<noteq> rdigest then Inl CursorOfOtherRequest
               else Inr (pcu_offset payload)))"

subsection \<open>Pages\<close>

record 'n projection_page =
  pp_graph_digest :: string
  pp_ordered_nodes :: "'n list"
  pp_included_nodes :: "'n bset"
  pp_page_nodes :: "'n bset"
  pp_page_offset :: nat
  pp_page_end :: nat
  pp_continuation :: "string option"

definition owns_node :: "('n, 'z) projection_page_scheme \<Rightarrow> 'n \<Rightarrow> bool" where
  "owns_node page node \<longleftrightarrow> node \<in> set (pp_page_nodes page)"

text \<open>The page that owns the first of some nodes, in the order of the slice, owns them together.\<close>

definition owns_first :: "('n, 'z) projection_page_scheme \<Rightarrow> ('n \<Rightarrow> bool) \<Rightarrow> bool" where
  "owns_first page P \<longleftrightarrow>
     (case find P (pp_ordered_nodes page) of None \<Rightarrow> False | Some node \<Rightarrow> owns_node page node)"

definition owns_any :: "('n, 'z) projection_page_scheme \<Rightarrow> 'n list \<Rightarrow> bool" where
  "owns_any page nodes \<longleftrightarrow>
     owns_first page (\<lambda>n. n \<in> set nodes \<and> n \<in> set (pp_included_nodes page))"

definition slice_range :: "nat \<Rightarrow> nat \<Rightarrow> 'a list \<Rightarrow> 'a list option" where
  "slice_range from to xs =
     (if from \<le> to \<and> to \<le> length xs then Some (take (to - from) (drop from xs)) else None)"

definition create_page ::
    "projection_env \<Rightarrow> string \<Rightarrow> inspection_request \<Rightarrow> 'n::linorder bset \<Rightarrow> ('n \<times> 'n) list
     \<Rightarrow> inspection_error + 'n projection_page" where
  "create_page env graph_digest r roots edges =
     and_then (validate_request r) (\<lambda>_.
       let rd = request_digest env r;
           ordered = expand roots edges (ir_depth r) (ir_direction r)
       in and_then (case ir_continuation r of
                      Some cursor \<Rightarrow> decode_cursor env cursor graph_digest rd
                    | None \<Rightarrow> Inr 0) (\<lambda>offset.
          if offset \<ge> length ordered \<and> ordered \<noteq> [] then Inl CursorBeyondSlice
          else
            let page_end = min (offset + ir_max_nodes r) (length ordered)
            in case slice_range offset page_end ordered of
                 None \<Rightarrow> Inl SlicePanic
               | Some nodes \<Rightarrow>
                   Inr \<lparr>pp_graph_digest = graph_digest, pp_ordered_nodes = ordered,
                        pp_included_nodes = bset_of ordered, pp_page_nodes = bset_of nodes,
                        pp_page_offset = offset, pp_page_end = page_end,
                        pp_continuation =
                          (if page_end < length ordered then Some (encode_cursor env graph_digest rd page_end)
                           else None)\<rparr>))"

subsection \<open>Projected graphs\<close>

record ('n, 'v, 'e) projected_graph =
  pg_page :: "'n projection_page"
  pg_nodes :: "('n, 'v) bmap"
  pg_edges :: "'e list"
  pg_omitted_nodes :: nat
  pg_omitted_edges :: nat

datatype project_error = InspectionFailed inspection_error | AbsentTarget

definition project_graph ::
    "projection_env \<Rightarrow> string \<Rightarrow> inspection_request \<Rightarrow> 'n::linorder bset \<Rightarrow> ('n, 'v) bmap \<Rightarrow> 'e bset
     \<Rightarrow> ('e \<Rightarrow> 'n \<times> 'n) \<Rightarrow> project_error + ('n, 'v, 'e) projected_graph" where
  "project_graph env graph_digest r roots nodes edges endpoints =
     (if list_ex (\<lambda>root. bmap_get nodes root = None) roots then Inl AbsentTarget
      else case create_page env graph_digest r roots (map endpoints edges) of
        Inl e \<Rightarrow> Inl (InspectionFailed e)
      | Inr page \<Rightarrow>
          let projected_nodes =
                List.map_filter (\<lambda>i. map_option (\<lambda>v. (i, v)) (bmap_get nodes i)) (pp_page_nodes page);
              all_edges = filter (\<lambda>e. fst (endpoints e) \<noteq> snd (endpoints e)
                  \<and> fst (endpoints e) \<in> set (pp_included_nodes page)
                  \<and> snd (endpoints e) \<in> set (pp_included_nodes page)) edges;
              projected_edges = filter (\<lambda>e. owns_node page (fst (endpoints e))) all_edges
          in Inr \<lparr>pg_page = page, pg_nodes = projected_nodes, pg_edges = projected_edges,
                  pg_omitted_nodes = length (pp_ordered_nodes page) - length projected_nodes,
                  pg_omitted_edges = length all_edges - length projected_edges\<rparr>)"

definition escape_segment :: "string \<Rightarrow> string" where
  "escape_segment value =
     concat (map (\<lambda>c. if c = CHR ''/'' then ''~1'' else [c])
       (concat (map (\<lambda>c. if c = CHR ''~'' then ''~0'' else [c]) value)))"

definition inspection_node_id :: "string \<Rightarrow> string list \<Rightarrow> string" where
  "inspection_node_id subject segments = subject @ ''/'' @ join ''/'' (map escape_segment segments)"

end
