(* ===== verification/ContextSlice.thy ===== *)
theory ContextSlice
  imports SourceGraph SourcePolicy Decimal Inspection
begin

text \<open>
  Slices of the source graph around targets (\<open>src/context_slice/targets.rs\<close>,
  \<open>src/context_slice/slice.rs\<close>): a target query is resolved to nodes, the nodes within a few hops of
  them are paged, and every project, edge, context and boundary of the slice goes to the page of one of
  its nodes. The JSON of a graph (serde) and the package version are parameters.
\<close>

subsection \<open>Targets\<close>

datatype slice_error =
    Inspection inspection_error
  | InvalidGraph string
  | UnknownTargetProject string string
  | AmbiguousTarget string "project_id list"
  | UnmatchedTarget string
  | MissingNodePanic

record target_resolution =
  tr_query :: string
  tr_nodes :: "node_id list"

definition normalize_query :: "string \<Rightarrow> string" where
  "normalize_query query =
     replace_char (CHR 0x5C) ''/'' (case strip_prefix ''./'' query of Some rest \<Rightarrow> rest | None \<Rightarrow> query)"

definition matching_files ::
    "'c source_graph \<Rightarrow> project_id option \<Rightarrow> string \<Rightarrow> bool \<Rightarrow> node_id bset" where
  "matching_files g project path repository_relative =
     map fst (filter (\<lambda>(i, node).
         case node of
           FileNode file \<Rightarrow>
             (project = None \<or> project = Some (sf_project file))
             \<and> (if repository_relative
                then (case bmap_get (sg_projects g) (sf_project file) of
                        None \<Rightarrow> False
                      | Some p \<Rightarrow> repository_path (sp_root p) (sf_path file) = path)
                else sf_path file = path)
         | SymbolNode _ \<Rightarrow> False) (sg_nodes g))"

definition projects_of_nodes :: "'c source_graph \<Rightarrow> node_id list \<Rightarrow> project_id bset" where
  "projects_of_nodes g nodes =
     bset_of (List.map_filter (\<lambda>i. map_option node_project (bmap_get (sg_nodes g) i)) nodes)"

definition resolve_files ::
    "'c source_graph \<Rightarrow> project_id option \<Rightarrow> string \<Rightarrow> string \<Rightarrow> slice_error + node_id bset" where
  "resolve_files g project path query =
     (if project \<noteq> None then Inr (matching_files g project path False)
      else if matching_files g project path True \<noteq> [] then Inr (matching_files g project path True)
      else
        let project_matches = matching_files g project path False;
            projects = projects_of_nodes g project_matches
        in if length projects > 1 then Inl (AmbiguousTarget query projects) else Inr project_matches)"

definition select_symbols :: "'c source_graph \<Rightarrow> node_id bset \<Rightarrow> string \<Rightarrow> node_id bset" where
  "select_symbols g files symbol_name =
     map fst (filter (\<lambda>(i, node).
         case node of
           SymbolNode symbol \<Rightarrow>
             ss_file symbol \<in> set files
             \<and> (ss_name symbol = symbol_name \<or> map_option snd (rsplit_once i ''#'') = Some symbol_name)
         | FileNode _ \<Rightarrow> False) (sg_nodes g))"

definition target_project ::
    "'c source_graph \<Rightarrow> string \<Rightarrow> string \<Rightarrow> slice_error + project_id option \<times> string" where
  "target_project g query normalized =
     (case split_once normalized ''::'' of
        None \<Rightarrow> Inr (None, normalized)
      | Some (project, selector) \<Rightarrow>
          if bmap_get (sg_projects g) project = None then Inl (UnknownTargetProject query project)
          else Inr (Some project, selector))"

definition resolve_target :: "'c source_graph \<Rightarrow> string \<Rightarrow> slice_error + target_resolution" where
  "resolve_target g raw =
     (let query = trim raw
      in if bmap_get (sg_nodes g) query \<noteq> None
         then Inr \<lparr>tr_query = query, tr_nodes = [query]\<rparr>
         else
           and_then (target_project g query (normalize_query query)) (\<lambda>(project, selector).
             let (path, symbol_name) =
                   (case split_once selector ''#'' of
                      None \<Rightarrow> (selector, None)
                    | Some (path, symbol) \<Rightarrow> (path, Some symbol))
             in and_then (resolve_files g project path query) (\<lambda>files.
                  let nodes = (case symbol_name of
                                 Some name \<Rightarrow> select_symbols g files name
                               | None \<Rightarrow> files)
                  in if nodes = [] then Inl (UnmatchedTarget query)
                     else Inr \<lparr>tr_query = query, tr_nodes = nodes\<rparr>)))"

subsection \<open>Slices\<close>

record context_slice_omitted =
  co_projects :: nat
  co_nodes :: nat
  co_edges :: nat
  co_contexts :: nat
  co_boundaries :: nat

record 'c context_slice_report =
  cs_schema_version :: nat
  cs_tool_version :: string
  cs_depth :: nat
  cs_max_nodes :: nat
  cs_direction :: inspection_direction
  cs_graph_digest :: string
  cs_page_offset :: nat
  cs_remaining_nodes :: nat
  cs_omitted :: context_slice_omitted
  cs_continuation :: "string option"
  cs_targets :: "target_resolution list"
  cs_projects :: "source_project list"
  cs_nodes :: "(node_id, 'c source_node) bmap"
  cs_edges :: "source_edge list"
  cs_contexts :: "source_context list"
  cs_boundaries :: "analysis_boundary list"

definition context_slice_schema_version :: nat where
  "context_slice_schema_version = 5"

definition node_in_project :: "'c source_graph \<Rightarrow> project_id \<Rightarrow> node_id \<Rightarrow> bool" where
  "node_in_project g project i \<longleftrightarrow>
     (case bmap_get (sg_nodes g) i of None \<Rightarrow> False | Some node \<Rightarrow> node_project node = project)"

definition owns_project :: "node_id projection_page \<Rightarrow> 'c source_graph \<Rightarrow> project_id \<Rightarrow> bool" where
  "owns_project page g project \<longleftrightarrow> owns_first page (node_in_project g project)"

definition slice_projects :: "'c source_graph \<Rightarrow> node_id bset \<Rightarrow> source_project list" where
  "slice_projects g included =
     filter (\<lambda>p. list_ex (node_in_project g (sp_id p)) included) (map snd (sg_projects g))"

definition slice_edges :: "'c source_graph \<Rightarrow> node_id bset \<Rightarrow> source_edge list" where
  "slice_edges g included =
     filter (\<lambda>edge. se_from edge \<in> set included
         \<and> (case se_to edge of
              ToNode target \<Rightarrow> target \<noteq> se_from edge \<and> target \<in> set included
            | _ \<Rightarrow> True)) (sg_edges g)"

definition slice_contexts :: "'c source_graph \<Rightarrow> node_id bset \<Rightarrow> source_context list" where
  "slice_contexts g included =
     map (\<lambda>ctxt. ctxt\<lparr>sc_roots := filter (\<lambda>root. root \<in> set included) (sc_roots ctxt)\<rparr>)
       (filter (\<lambda>ctxt. list_ex (\<lambda>root. root \<in> set included) (sc_roots ctxt)) (map snd (sg_contexts g)))"

definition slice_boundaries :: "'c source_graph \<Rightarrow> node_id bset \<Rightarrow> analysis_boundary list" where
  "slice_boundaries g included =
     filter (\<lambda>boundary.
         case ab_node boundary of
           None \<Rightarrow> ab_project boundary \<in> sp_id ` set (slice_projects g included)
         | Some i \<Rightarrow> i \<in> set included) (sg_boundaries g)"

definition owns_boundary :: "node_id projection_page \<Rightarrow> 'c source_graph \<Rightarrow> analysis_boundary \<Rightarrow> bool" where
  "owns_boundary page g boundary \<longleftrightarrow>
     (case ab_node boundary of
        None \<Rightarrow> owns_project page g (ab_project boundary)
      | Some node \<Rightarrow> owns_node page node)"

definition node_edges :: "'c source_graph \<Rightarrow> (node_id \<times> node_id) list" where
  "node_edges g =
     List.map_filter (\<lambda>edge. case se_to edge of ToNode target \<Rightarrow> Some (se_from edge, target) | _ \<Rightarrow> None)
       (sg_edges g)"

definition slice_report ::
    "string \<Rightarrow> 'c source_graph \<Rightarrow> inspection_request \<Rightarrow> target_resolution list
     \<Rightarrow> node_id projection_page \<Rightarrow> 'c context_slice_report" where
  "slice_report version g r targets page =
     (let included = pp_included_nodes page;
          all_projects = slice_projects g included;
          projects = filter (\<lambda>p. owns_project page g (sp_id p)) all_projects;
          nodes = map (\<lambda>i. (i, the (bmap_get (sg_nodes g) i))) (pp_page_nodes page);
          all_edges = slice_edges g included;
          edges = filter (\<lambda>edge. owns_node page (se_from edge)) all_edges;
          all_contexts = slice_contexts g included;
          contexts = filter (\<lambda>ctxt. owns_any page (sc_roots ctxt)) all_contexts;
          all_boundaries = slice_boundaries g included;
          boundaries = filter (owns_boundary page g) all_boundaries;
          ordered = pp_ordered_nodes page
      in \<lparr>cs_schema_version = context_slice_schema_version, cs_tool_version = version,
          cs_depth = ir_depth r, cs_max_nodes = ir_max_nodes r, cs_direction = ir_direction r,
          cs_graph_digest = pp_graph_digest page, cs_page_offset = pp_page_offset page,
          cs_remaining_nodes = length ordered - pp_page_end page,
          cs_omitted = \<lparr>co_projects = length all_projects - length projects,
             co_nodes = length ordered - length nodes, co_edges = length all_edges - length edges,
             co_contexts = length all_contexts - length contexts,
             co_boundaries = length all_boundaries - length boundaries\<rparr>,
          cs_continuation = pp_continuation page, cs_targets = targets, cs_projects = projects,
          cs_nodes = nodes, cs_edges = edges, cs_contexts = contexts, cs_boundaries = boundaries\<rparr>)"

definition create_slice ::
    "projection_env \<Rightarrow> ('c source_graph \<Rightarrow> bytes) \<Rightarrow> string \<Rightarrow> 'c source_graph \<Rightarrow> inspection_request
     \<Rightarrow> slice_error + 'c context_slice_report" where
  "create_slice env graph_json version g r =
     (case validate_request r of
        Inl e \<Rightarrow> Inl (Inspection e)
      | Inr _ \<Rightarrow>
          (case graph_validate g of
             Inl diagnostics \<Rightarrow>
               Inl (InvalidGraph (join ''; '' (map (\<lambda>(code, message). code @ '': '' @ message) diagnostics)))
           | Inr _ \<Rightarrow>
               and_then (map_result (resolve_target g) (ir_targets r)) (\<lambda>targets.
                 let roots = bset_of (concat (map tr_nodes targets));
                     digest = ''sha256:'' @ pe_sha256 env (graph_json g)
                 in case create_page env digest r roots (node_edges g) of
                      Inl e \<Rightarrow> Inl (Inspection e)
                    | Inr page \<Rightarrow>
                        if list_ex (\<lambda>i. bmap_get (sg_nodes g) i = None) (pp_page_nodes page)
                        then Inl MissingNodePanic
                        else Inr (slice_report version g r targets page))))"

end
