(* ===== verification/InspectionProps.thy ===== *)
theory InspectionProps
  imports Inspection "HOL-Library.Multiset"
begin

text \<open>
  What the pages of a projection are: the nodes within the requested number of hops, nearest first and
  each once, and page by page the whole of them.
\<close>

subsection \<open>The slice is what is within reach\<close>

definition link_rel :: "('n \<times> 'n) list \<Rightarrow> inspection_direction \<Rightarrow> ('n \<times> 'n) set" where
  "link_rel edges d =
     {(a, b). a \<noteq> b \<and> (looks_outgoing d \<and> (a, b) \<in> set edges \<or> looks_incoming d \<and> (b, a) \<in> set edges)}"

definition within :: "('n \<times> 'n) set \<Rightarrow> 'n set \<Rightarrow> nat \<Rightarrow> 'n set" where
  "within E R k = {n. \<exists>r \<in> R. \<exists>j \<le> k. (r, n) \<in> E ^^ j}"

lemma within_0 [simp]: "within E R 0 = R"
  by (auto simp: within_def)

lemma within_Suc: "within E R (Suc k) = within E R k \<union> E `` within E R k"
proof (intro equalityI subsetI)
  fix n
  assume "n \<in> within E R (Suc k)"
  then obtain r j where r: "r \<in> R" "j \<le> Suc k" "(r, n) \<in> E ^^ j" by (auto simp: within_def)
  show "n \<in> within E R k \<union> E `` within E R k"
  proof (cases "j \<le> k")
    case False
    then have "j = Suc k" using r(2) by simp
    then obtain m where "(r, m) \<in> E ^^ k" "(m, n) \<in> E" using r(3) by auto
    moreover have "m \<in> within E R k" using r(1) \<open>(r, m) \<in> E ^^ k\<close> unfolding within_def by blast
    ultimately show ?thesis by blast
  qed (use r in \<open>auto simp: within_def\<close>)
next
  fix n
  assume "n \<in> within E R k \<union> E `` within E R k"
  then show "n \<in> within E R (Suc k)"
  proof
    assume "n \<in> within E R k"
    then show ?thesis unfolding within_def using le_SucI by blast
  next
    assume "n \<in> E `` within E R k"
    then obtain m r j where m: "(m, n) \<in> E" "r \<in> R" "j \<le> k" "(r, m) \<in> E ^^ j"
      by (auto simp: within_def)
    then have "(r, n) \<in> E ^^ Suc j" "Suc j \<le> Suc k" by auto
    with m(2) show ?thesis unfolding within_def by blast
  qed
qed

lemma within_stable:
  assumes "E `` within E R k \<subseteq> within E R k"
  shows "within E R (k + d) = within E R k"
  by (induction d) (use assms in \<open>auto simp: within_Suc\<close>)

lemma within_mono: "j \<le> k \<Longrightarrow> within E R j \<subseteq> within E R k"
  unfolding within_def by (blast intro: le_trans)

definition map_links :: "'n links \<Rightarrow> ('n \<times> 'n) set" where
  "map_links m = {(a, b). b \<in> set (linked m a)}"

lemma map_links_entry: "map_links (bmap_entry a [] (bset_insert b) m) = insert (a, b) (map_links m)"
  by (auto simp: map_links_def linked_def split: option.splits if_splits)

lemma add_link_maps:
  "map_links (fst (add_link d e ms)) =
     map_links (fst ms) \<union> (if looks_outgoing d \<and> fst e \<noteq> snd e then {e} else {})"
  "map_links (snd (add_link d e ms)) =
     map_links (snd ms) \<union> (if looks_incoming d \<and> fst e \<noteq> snd e then {(snd e, fst e)} else {})"
  by (auto simp: add_link_def map_links_entry split: prod.splits)

lemma fold_add_link:
  "map_links (fst (fold (add_link d) es ms)) =
     map_links (fst ms) \<union> {(a, b). looks_outgoing d \<and> a \<noteq> b \<and> (a, b) \<in> set es}"
  "map_links (snd (fold (add_link d) es ms)) =
     map_links (snd ms) \<union> {(a, b). looks_incoming d \<and> a \<noteq> b \<and> (b, a) \<in> set es}"
  by (induction es arbitrary: ms) (auto simp: add_link_maps split: if_splits)

lemma candidates_from_set:
  "set (candidates_from d outgoing incoming fr) =
     {b. \<exists>a \<in> set fr. looks_outgoing d \<and> (a, b) \<in> map_links outgoing
        \<or> looks_incoming d \<and> (a, b) \<in> map_links incoming}"
proof -
  have "set (fold (\<lambda>current candidates.
         let c = (if looks_outgoing d then bset_extend (linked outgoing current) candidates else candidates)
         in if looks_incoming d then bset_extend (linked incoming current) c else c) fr cs) =
     set cs \<union> {b. \<exists>a \<in> set fr. looks_outgoing d \<and> (a, b) \<in> map_links outgoing
        \<or> looks_incoming d \<and> (a, b) \<in> map_links incoming}" for cs
    by (induction fr arbitrary: cs) (auto simp: map_links_def Let_def split: if_splits)
  then show ?thesis by (simp add: candidates_from_def)
qed

lemma candidates_from_wf: "bset_wf (candidates_from d outgoing incoming fr)"
proof -
  have "bset_wf cs \<Longrightarrow> bset_wf (fold (\<lambda>current candidates.
         let c = (if looks_outgoing d then bset_extend (linked outgoing current) candidates else candidates)
         in if looks_incoming d then bset_extend (linked incoming current) c else c) fr cs)" for cs
    by (induction fr arbitrary: cs) (auto simp: Let_def bset_wf_extend)
  then show ?thesis by (simp add: candidates_from_def)
qed

text \<open>The nodes within every smaller number of hops are a prefix of the list.\<close>

definition nearest_first :: "('n \<times> 'n) set \<Rightarrow> 'n set \<Rightarrow> nat \<Rightarrow> 'n list \<Rightarrow> bool" where
  "nearest_first E R k xs \<longleftrightarrow>
     distinct xs \<and> set xs = within E R k \<and> (\<forall>j \<le> k. \<exists>m. set (take m xs) = within E R j)"

lemma nearest_first_extend:
  assumes near: "nearest_first E R k xs" and cs: "distinct cs" "set cs = within E R (Suc k) - within E R k"
  shows "nearest_first E R (Suc k) (xs @ cs)"
proof -
  have all: "set (xs @ cs) = within E R (Suc k)"
    using near cs within_mono [of k "Suc k" E R] by (auto simp: nearest_first_def)
  have "\<exists>m. set (take m (xs @ cs)) = within E R j" if "j \<le> Suc k" for j
  proof (cases "j = Suc k")
    case True
    then show ?thesis using all by (metis take_all_iff order_refl)
  next
    case False
    then have "j \<le> k" using that by simp
    then obtain m where "set (take m xs) = within E R j"
      using near unfolding nearest_first_def by blast
    then have "set (take (min m (length xs)) (xs @ cs)) = within E R j"
      by (cases "m \<le> length xs") simp_all
    then show ?thesis by blast
  qed
  then show ?thesis using near cs all by (auto simp: nearest_first_def)
qed


lemma expand_levels_nearest:
  assumes "nearest_first E R k ordered" and "set included = within E R k"
    and "set frontier \<subseteq> within E R k" and "E `` (within E R k - set frontier) \<subseteq> within E R k"
    and cands: "\<And>fr. set (candidates_from d outgoing incoming fr) = E `` set fr"
  shows "nearest_first E R (k + n) (expand_levels n d outgoing incoming included ordered frontier)"
  using assms(1-4)
proof (induction n arbitrary: k included ordered frontier)
  case (Suc n)
  let ?c = "filter (\<lambda>c. c \<notin> set included) (candidates_from d outgoing incoming frontier)"
  have c: "set ?c = E `` set frontier - within E R k"
    using Suc.prems(2) by (auto simp: cands)
  have "E `` within E R k \<subseteq> within E R k \<union> E `` set frontier"
    using Suc.prems(4) by blast
  then have level: "within E R (Suc k) = within E R k \<union> set ?c"
    using Suc.prems(3) unfolding within_Suc c by blast
  show ?case
  proof (cases "?c = []")
    case True
    then have "E `` within E R k \<subseteq> within E R k" using level unfolding within_Suc by auto
    then have stable: "within E R (k + m) = within E R k" for m by (rule within_stable)
    have "\<exists>m. set (take m ordered) = within E R j" if "j \<le> k + Suc n" for j
    proof (cases "j \<le> k")
      case False
      then have "within E R j = within E R k" using stable [of "j - k"] by simp
      then show ?thesis using Suc.prems(1) unfolding nearest_first_def by (metis order_refl)
    qed (use Suc.prems(1) in \<open>auto simp: nearest_first_def\<close>)
    with True Suc.prems(1) stable [of "Suc n"] show ?thesis by (simp add: nearest_first_def)
  next
    case False
    have near: "nearest_first E R (Suc k) (ordered @ ?c)"
      by (rule nearest_first_extend [OF Suc.prems(1)])
        (use level c bset_wf_distinct [OF candidates_from_wf, of d outgoing incoming frontier] in auto)
    have "within E R (Suc k) - set ?c = within E R k" using level c by blast
    then have closed: "E `` (within E R (Suc k) - set ?c) \<subseteq> within E R (Suc k)"
      unfolding within_Suc by auto
    have "nearest_first E R (Suc k + n) (expand_levels n d outgoing incoming (bset_extend ?c included)
        (ordered @ ?c) ?c)"
      by (rule Suc.IH [OF near _ _ closed]) (use level Suc.prems(2) in auto)
    with False show ?thesis by (simp add: Let_def)
  qed
qed simp


lemma expand_nearest:
  assumes "bset_wf roots"
  shows "nearest_first (link_rel edges d) (set roots) depth (expand roots edges depth d)"
proof -
  obtain outgoing incoming where maps: "fold (add_link d) edges ([], []) = (outgoing, incoming)"
    by fastforce
  have empty: "map_links [] = {}" by (simp add: map_links_def linked_def)
  have links: "map_links outgoing = {(a, b). looks_outgoing d \<and> a \<noteq> b \<and> (a, b) \<in> set edges}"
    "map_links incoming = {(a, b). looks_incoming d \<and> a \<noteq> b \<and> (b, a) \<in> set edges}"
    using fold_add_link [of d edges "([], [])"] maps empty by auto
  have cands: "set (candidates_from d outgoing incoming fr) = link_rel edges d `` set fr" for fr
    by (auto simp: candidates_from_set links link_rel_def)
  have start: "nearest_first (link_rel edges d) (set roots) 0 roots"
    using assms by (auto simp: nearest_first_def bset_wf_distinct intro: exI [of _ "length roots"])
  have "nearest_first (link_rel edges d) (set roots) (0 + depth)
      (expand_levels depth d outgoing incoming roots roots roots)"
    by (rule expand_levels_nearest [OF start _ _ _ cands]) simp_all
  then show ?thesis by (simp add: expand_def maps)
qed

subsection \<open>Following the continuations\<close>

text \<open>A client that asks for page after page until one has no continuation; the fuel is a bound on
  the number of pages.\<close>

fun follow_pages ::
    "nat \<Rightarrow> (string option \<Rightarrow> 'e + 'p) \<Rightarrow> ('p \<Rightarrow> string option) \<Rightarrow> string option \<Rightarrow> ('e + 'p list) option" where
  "follow_pages 0 get next_of cursor = None"
| "follow_pages (Suc n) get next_of cursor =
     (case get cursor of
        Inl e \<Rightarrow> Some (Inl e)
      | Inr page \<Rightarrow>
          (case next_of page of
             None \<Rightarrow> Some (Inr [page])
           | Some c \<Rightarrow>
               (case follow_pages n get next_of (Some c) of
                  Some (Inr pages) \<Rightarrow> Some (Inr (page # pages))
                | other \<Rightarrow> other)))"

text \<open>What is relied on of the codec: the cursors of one slice survive JSON and base64, and are short.\<close>

definition codec_ok :: "projection_env \<Rightarrow> string \<Rightarrow> string \<Rightarrow> nat \<Rightarrow> bool" where
  "codec_ok env gdigest rdigest n \<longleftrightarrow>
     (\<forall>offset \<le> n.
        let c = \<lparr>pcu_version = cursor_version, pcu_graph_digest = gdigest, pcu_request_digest = rdigest,
                 pcu_offset = offset\<rparr>;
            json = pe_cursor_json env c
        in pe_base64_decode env (pe_base64_encode env json) = Some json \<and> pe_parse_cursor env json = Some c
           \<and> length (pe_base64_encode env json) \<le> max_cursor_bytes)"

lemma decode_encode:
  "codec_ok env g rd n \<Longrightarrow> offset \<le> n \<Longrightarrow> decode_cursor env (encode_cursor env g rd offset) g rd = Inr offset"
  unfolding codec_ok_def decode_cursor_def encode_cursor_def Let_def
  by (drule spec [of _ offset], drule (1) mp) simp

definition page_slice :: "'n projection_page \<Rightarrow> 'n list" where
  "page_slice page =
     take (pp_page_end page - pp_page_offset page) (drop (pp_page_offset page) (pp_ordered_nodes page))"

definition page_of :: "'n::linorder list \<Rightarrow> nat \<Rightarrow> 'n projection_page \<Rightarrow> bool" where
  "page_of ordered bound page \<longleftrightarrow>
     pp_ordered_nodes page = ordered \<and> pp_included_nodes page = bset_of ordered
     \<and> pp_page_nodes page = bset_of (page_slice page) \<and> length (page_slice page) \<le> bound
     \<and> page_slice page \<noteq> []"

lemma request_digest_continuation [simp]:
  "request_digest env (r\<lparr>ir_continuation := c\<rparr>) = request_digest env r"
  by (simp add: request_digest_def)

lemma validate_continuation [simp]:
  "validate_request (r\<lparr>ir_continuation := c\<rparr>) = validate_request r"
  by (simp add: validate_request_def)

lemma create_page_at:
  assumes valid: "validate_request r = Inr ()"
    and offset: "c = None \<and> k = 0 \<or> (\<exists>cursor. c = Some cursor
      \<and> decode_cursor env cursor g (request_digest env r) = Inr k)"
    and ordered: "ordered = expand roots edges (ir_depth r) (ir_direction r)" and k: "k < length ordered"
  shows "\<exists>page. create_page env g (r\<lparr>ir_continuation := c\<rparr>) roots edges = Inr page
     \<and> page_of ordered (ir_max_nodes r) page \<and> pp_graph_digest page = g
     \<and> pp_page_offset page = k \<and> pp_page_end page = min (k + ir_max_nodes r) (length ordered)
     \<and> pp_continuation page =
         (if k + ir_max_nodes r < length ordered
          then Some (encode_cursor env g (request_digest env r) (k + ir_max_nodes r)) else None)"
proof -
  have pos: "0 < ir_max_nodes r"
    using valid by (auto simp: validate_request_def split: if_splits)
  have start: "(case c of Some cursor \<Rightarrow> decode_cursor env cursor g (request_digest env r) | None \<Rightarrow> Inr 0) = Inr k"
    using offset by auto
  show ?thesis
    using k pos
    by (auto simp: create_page_def valid start ordered [symmetric] slice_range_def page_of_def
        page_slice_def Let_def min_def)
qed

lemma pages_cover:
  assumes valid: "validate_request r = Inr ()"
    and ordered: "ordered = expand roots edges (ir_depth r) (ir_direction r)"
    and codec: "codec_ok env g (request_digest env r) (length ordered)"
  shows "k < length ordered \<Longrightarrow> length ordered - k \<le> n \<Longrightarrow>
     c = None \<and> k = 0 \<or> (\<exists>cursor. c = Some cursor
      \<and> decode_cursor env cursor g (request_digest env r) = Inr k) \<Longrightarrow>
     \<exists>pages. follow_pages n (\<lambda>c. create_page env g (r\<lparr>ir_continuation := c\<rparr>) roots edges) pp_continuation c
         = Some (Inr pages)
       \<and> concat (map page_slice pages) = drop k ordered \<and> list_all (page_of ordered (ir_max_nodes r)) pages"
proof (induction n arbitrary: k c)
  case (Suc n)
  from create_page_at [OF valid Suc.prems(3) ordered Suc.prems(1)]
  obtain page where page: "create_page env g (r\<lparr>ir_continuation := c\<rparr>) roots edges = Inr page"
    "page_of ordered (ir_max_nodes r) page" "pp_page_offset page = k"
    "pp_page_end page = min (k + ir_max_nodes r) (length ordered)"
    "pp_continuation page =
         (if k + ir_max_nodes r < length ordered
          then Some (encode_cursor env g (request_digest env r) (k + ir_max_nodes r)) else None)"
    by blast
  have pos: "0 < ir_max_nodes r"
    using valid by (auto simp: validate_request_def split: if_splits)
  have slice: "page_slice page = take (ir_max_nodes r) (drop k ordered)"
    using page(2-4) by (auto simp: page_slice_def page_of_def min_def)
  show ?case
  proof (cases "k + ir_max_nodes r < length ordered")
    case False
    then have "page_slice page = drop k ordered" using slice by simp
    with False page(1,2,5) show ?thesis by simp
  next
    case True
    let ?k = "k + ir_max_nodes r"
    have "decode_cursor env (encode_cursor env g (request_digest env r) ?k) g (request_digest env r) = Inr ?k"
      using decode_encode [OF codec] True by simp
    moreover have "length ordered - ?k \<le> n" using True pos Suc.prems(2) by linarith
    ultimately obtain pages where pages: "follow_pages n (\<lambda>c. create_page env g (r\<lparr>ir_continuation := c\<rparr>) roots edges)
        pp_continuation (Some (encode_cursor env g (request_digest env r) ?k)) = Some (Inr pages)"
      "concat (map page_slice pages) = drop ?k ordered" "list_all (page_of ordered (ir_max_nodes r)) pages"
      using Suc.IH [OF True, of "Some (encode_cursor env g (request_digest env r) ?k)"] by auto
    have "take (ir_max_nodes r) (drop k ordered) @ drop ?k ordered = drop k ordered"
      by (metis add.commute append_take_drop_id drop_drop)
    with True page(1,2,5) pages slice show ?thesis by simp
  qed
qed simp

text \<open>Whatever belongs to the page that holds its owner is on exactly one page.\<close>

lemma owned_once:
  assumes "distinct (concat xss)"
  shows "mset (concat (map (\<lambda>xs. filter (\<lambda>x. w x \<in> set xs) ys) xss))
     = filter_mset (\<lambda>x. w x \<in> set (concat xss)) (mset ys)"
  using assms
proof (induction xss)
  case (Cons xs xss)
  have disjoint: "set xs \<inter> set (concat xss) = {}" using Cons.prems by simp
  have split: "filter_mset (\<lambda>x. w x \<in> A \<or> w x \<in> B) M = filter_mset (\<lambda>x. w x \<in> A) M + filter_mset (\<lambda>x. w x \<in> B) M"
    if "A \<inter> B = {}" for A B and M
    using that by (induction M) auto
  show ?case using Cons split [OF disjoint, of "mset ys"] by simp
qed simp

lemma owned_exactly_once:
  assumes "distinct (concat xss)" and "\<forall>y \<in> set ys. w y \<in> set (concat xss)"
  shows "mset (concat (map (\<lambda>xs. filter (\<lambda>x. w x \<in> set xs) ys) xss)) = mset ys"
proof -
  have "filter_mset (\<lambda>x. w x \<in> set (concat xss)) (mset ys) = mset ys"
    using assms(2) by (simp add: filter_mset_eq_conv)
  with owned_once [OF assms(1), of w ys] show ?thesis by simp
qed

lemma owns_node_page: "page_of ordered b page \<Longrightarrow> owns_node page n \<longleftrightarrow> n \<in> set (page_slice page)"
  by (simp add: owns_node_def page_of_def)

lemma owns_first_page:
  "page_of ordered b page \<Longrightarrow> \<exists>n \<in> set ordered. P n \<Longrightarrow>
     owns_first page P \<longleftrightarrow> the (find P ordered) \<in> set (page_slice page)"
  using find_None_iff [of P ordered]
  by (auto simp: owns_first_def owns_node_page page_of_def split: option.split)

lemma find_mem: "\<exists>n \<in> set xs. P n \<Longrightarrow> the (find P xs) \<in> set xs \<and> P (the (find P xs))"
  by (induction xs) auto

subsection \<open>Properties\<close>

text \<open>C36: A projection holds exactly the nodes that its roots reach within the requested number of hops,
  over links in the requested direction (self-links aside), each of them once, and nearest first:
  for every smaller number of hops the nodes within it come before the others.\<close>

theorem projection_is_nearest_first:
  assumes "bset_wf roots"
  shows "distinct (expand roots edges depth d)
     \<and> set (expand roots edges depth d) = {n. \<exists>root \<in> set roots. \<exists>j \<le> depth. (root, n) \<in> link_rel edges d ^^ j}
     \<and> (\<forall>k \<le> depth. \<exists>m. set (take m (expand roots edges depth d))
          = {n. \<exists>root \<in> set roots. \<exists>j \<le> k. (root, n) \<in> link_rel edges d ^^ j})"
  using expand_nearest [OF assms, of edges d depth] by (simp add: nearest_first_def within_def)

theorem projection_is_nearest_first_witness:
  "distinct (expand [''b''] [(''a'', ''b''), (''b'', ''c''), (''b'', ''b'')] 1 Both)
     \<and> expand [''b''] [(''a'', ''b''), (''b'', ''c''), (''b'', ''b'')] 1 Both = [''b'', ''a'', ''c'']"
proof -
  have "bset_wf [''b'']" by (simp add: bset_wf_def)
  then have "distinct (expand [''b''] [(''a'', ''b''), (''b'', ''c''), (''b'', ''b'')] 1 Both)"
    using projection_is_nearest_first by blast
  moreover have "expand [''b''] [(''a'', ''b''), (''b'', ''c''), (''b'', ''b'')] 1 Both = [''b'', ''a'', ''c'']"
    by code_simp
  ultimately show ?thesis by blast
qed

text \<open>A continuation cursor is only good for the graph and the request it was made for: with a cursor
  of another state of the graph, or of a request with other targets, depth, page size or direction, the
  page is refused with the error that says so.\<close>

theorem foreign_cursors_are_refused:
  assumes "codec_ok env gdigest rdigest n" and "offset \<le> n" and "validate_request r = Inr ()"
    and "ir_continuation r = Some (encode_cursor env gdigest rdigest offset)"
    and "gdigest \<noteq> current \<or> rdigest \<noteq> request_digest env r"
  shows "create_page env current r roots edges =
     Inl (if gdigest \<noteq> current then StaleCursor else CursorOfOtherRequest)"
proof -
  let ?c = "\<lparr>pcu_version = cursor_version, pcu_graph_digest = gdigest, pcu_request_digest = rdigest,
                 pcu_offset = offset\<rparr>"
  have codec: "pe_base64_decode env (encode_cursor env gdigest rdigest offset) = Some (pe_cursor_json env ?c)"
    "pe_parse_cursor env (pe_cursor_json env ?c) = Some ?c"
    "length (encode_cursor env gdigest rdigest offset) \<le> max_cursor_bytes"
    using assms(1,2) by (auto simp: codec_ok_def encode_cursor_def Let_def)
  then have "decode_cursor env (encode_cursor env gdigest rdigest offset) current (request_digest env r)
      = Inl (if gdigest \<noteq> current then StaleCursor else CursorOfOtherRequest)"
    using assms(5) by (simp add: decode_cursor_def)
  then show ?thesis using assms(3,4) by (simp add: create_page_def)
qed

text \<open>A codec for the samples: the digests are constants and the cursor is its offset in unary.\<close>

definition sample_env :: projection_env where
  "sample_env =
     \<lparr>pe_sha256 = (\<lambda>_. ''0''), pe_request_json = (\<lambda>_. []),
      pe_cursor_json = (\<lambda>c. replicate (pcu_offset c) (CHR ''x'')),
      pe_parse_cursor = (\<lambda>bs. Some \<lparr>pcu_version = 1, pcu_graph_digest = ''sha256:0'',
        pcu_request_digest = ''sha256:0'', pcu_offset = length bs\<rparr>),
      pe_base64_encode = (\<lambda>bs. bs), pe_base64_decode = Some\<rparr>"

definition sample_request :: "string option \<Rightarrow> inspection_request" where
  "sample_request c =
     \<lparr>ir_targets = [''a''], ir_depth = 1, ir_max_nodes = 1, ir_direction = Outgoing, ir_continuation = c\<rparr>"

lemma sample_codec: "n \<le> 4096 \<Longrightarrow> codec_ok sample_env ''sha256:0'' ''sha256:0'' n"
  by (simp add: codec_ok_def sample_env_def cursor_version_def max_cursor_bytes_def Let_def)

lemma sample_request_valid: "validate_request (sample_request c) = Inr ()"
proof -
  have "trim ''a'' = ''a''" by code_simp
  then show ?thesis
    by (simp add: validate_request_def sample_request_def max_depth_def max_nodes_limit_def)
qed

theorem foreign_cursors_are_refused_witness:
  "create_page sample_env ''sha256:1'' (sample_request (Some (encode_cursor sample_env ''sha256:0'' ''sha256:0'' 1)))
     [''a''] [(''a'', ''b'')] = Inl StaleCursor"
  using foreign_cursors_are_refused [OF sample_codec [of 1] _ sample_request_valid,
      of 1 "Some (encode_cursor sample_env ''sha256:0'' ''sha256:0'' 1)" "''sha256:1''"]
  by (simp add: sample_request_def)

end
