(* ===== verification/ContextSliceProps.thy ===== *)
theory ContextSliceProps
  imports ContextSlice InspectionProps ReachContract
begin

text \<open>
  What the slices of a source graph are: targets resolve to existing nodes, a slice holds exactly the
  nodes within the requested number of hops, and its pages, followed by their continuations,
  reconstruct the whole slice with nothing lost and nothing repeated.
\<close>

subsection \<open>Targets\<close>

lemma matching_files_mem:
  "i \<in> set (matching_files g project path rel) \<Longrightarrow> \<exists>file. (i, FileNode file) \<in> set (sg_nodes g)"
  by (auto simp: matching_files_def split: source_node.splits)

lemma select_symbols_mem:
  "i \<in> set (select_symbols g files name) \<Longrightarrow>
     \<exists>s. (i, SymbolNode s) \<in> set (sg_nodes g) \<and> ss_file s \<in> set files"
  by (auto simp: select_symbols_def split: source_node.splits)

lemma resolve_files_mem:
  "resolve_files g project path query = Inr files \<Longrightarrow> i \<in> set files \<Longrightarrow>
     \<exists>file. (i, FileNode file) \<in> set (sg_nodes g)"
  by (auto simp: resolve_files_def Let_def split: if_splits dest: matching_files_mem)

lemma node_listed: "(i, node) \<in> set (sg_nodes g) \<Longrightarrow> node_exists g i"
  unfolding node_exists_def bmap_get_None by force

lemma resolve_target_nodes:
  assumes "resolve_target g raw = Inr t"
  shows "tr_nodes t \<noteq> [] \<and> (\<forall>i \<in> set (tr_nodes t). node_exists g i)"
proof (cases "bmap_get (sg_nodes g) (trim raw) \<noteq> None")
  case True
  with assms show ?thesis by (auto simp: resolve_target_def Let_def node_exists_def)
next
  case False
  with assms obtain project selector
    where "target_project g (trim raw) (normalize_query (trim raw)) = Inr (project, selector)"
    by (auto simp: resolve_target_def Let_def and_then_Inr)
  obtain path symbol where parts: "(case split_once selector ''#'' of None \<Rightarrow> (selector, None)
      | Some (path, symbol) \<Rightarrow> (path, Some symbol)) = (path, symbol)"
    by fastforce
  from assms False \<open>target_project g _ _ = _\<close> parts obtain files
    where files: "resolve_files g project path (trim raw) = Inr files"
      and t: "tr_nodes t = (case symbol of Some name \<Rightarrow> select_symbols g files name | None \<Rightarrow> files)"
        "tr_nodes t \<noteq> []"
    by (auto simp: resolve_target_def Let_def and_then_Inr split: if_splits)
  have "node_exists g i" if "i \<in> set (tr_nodes t)" for i
  proof (cases symbol)
    case None
    then have "i \<in> set files" using that t(1) by simp
    then show ?thesis using resolve_files_mem [OF files] node_listed by blast
  next
    case (Some name)
    then have "i \<in> set (select_symbols g files name)" using that t(1) by simp
    then show ?thesis using select_symbols_mem node_listed by blast
  qed
  with t(2) show ?thesis by simp
qed

definition target_roots :: "target_resolution list \<Rightarrow> node_id bset" where
  "target_roots targets = bset_of (concat (map tr_nodes targets))"

lemma target_roots_exist:
  assumes "map_result (resolve_target g) queries = Inr targets"
  shows "\<forall>i \<in> set (target_roots targets). node_exists g i"
    and "queries \<noteq> [] \<Longrightarrow> target_roots targets \<noteq> []"
proof -
  have each: "\<exists>q. resolve_target g q = Inr t" if "t \<in> set targets" for t
    using map_result_Inr [OF assms] that by blast
  have "node_exists g i" if "t \<in> set targets" and "i \<in> set (tr_nodes t)" for t i
    using each [OF that(1)] resolve_target_nodes [of g _ t] that(2) by blast
  then show "\<forall>i \<in> set (target_roots targets). node_exists g i"
    by (auto simp: target_roots_def)
  show "target_roots targets \<noteq> []" if "queries \<noteq> []"
  proof -
    from that obtain t where "t \<in> set targets" using map_result_Inr [OF assms] by (cases targets) auto
    then have "tr_nodes t \<noteq> []" using each resolve_target_nodes [of g _ t] by blast
    then obtain i where "i \<in> set (tr_nodes t)" by (cases "tr_nodes t") auto
    with \<open>t \<in> set targets\<close> have "i \<in> set (target_roots targets)" by (auto simp: target_roots_def)
    then show ?thesis by auto
  qed
qed

subsection \<open>The slice as a whole\<close>

text \<open>The nodes of a slice in their order, and their distance in hops over the edges between nodes.\<close>

definition slice_order :: "'c source_graph \<Rightarrow> inspection_request \<Rightarrow> target_resolution list \<Rightarrow> node_id list" where
  "slice_order g r targets = expand (target_roots targets) (node_edges g) (ir_depth r) (ir_direction r)"

lemma node_edge_iff:
  "(a, b) \<in> set (node_edges g) \<longleftrightarrow> (\<exists>e \<in> set (sg_edges g). se_from e = a \<and> se_to e = ToNode b)"
proof -
  have "(case se_to e of ToNode target \<Rightarrow> Some (se_from e, target) | _ \<Rightarrow> None) = Some (a, b)
      \<longleftrightarrow> se_from e = a \<and> se_to e = ToNode b" for e
    by (cases "se_to e") auto
  then show ?thesis by (simp add: node_edges_def set_map_filter)
qed

lemma slice_order_nearest:
  "nearest_first (link_rel (node_edges g) (ir_direction r)) (set (target_roots targets)) (ir_depth r)
     (slice_order g r targets)"
  unfolding slice_order_def target_roots_def by (rule expand_nearest) simp

lemma slice_order_exists:
  assumes wf: "graph_wf g" and targets: "map_result (resolve_target g) queries = Inr targets"
  shows "\<forall>i \<in> set (slice_order g r targets). node_exists g i"
proof -
  let ?E = "link_rel (node_edges g) (ir_direction r)"
  have step: "(a, b) \<in> ?E \<Longrightarrow> node_exists g b" for a b
    using wf by (auto simp: link_rel_def node_edge_iff graph_wf_def)
  have "node_exists g n" if "(a, n) \<in> ?E ^^ k" and "node_exists g a" for a n k
    using that by (cases k) (auto dest: step)
  then show ?thesis
    using slice_order_nearest [of g r targets] target_roots_exist(1) [OF targets]
    by (auto simp: nearest_first_def within_def)
qed

subsection \<open>Following the pages of a slice\<close>

definition slice_digest :: "projection_env \<Rightarrow> ('c source_graph \<Rightarrow> bytes) \<Rightarrow> 'c source_graph \<Rightarrow> string" where
  "slice_digest env graph_json g = ''sha256:'' @ pe_sha256 env (graph_json g)"

definition slice_page ::
    "projection_env \<Rightarrow> ('c source_graph \<Rightarrow> bytes) \<Rightarrow> 'c source_graph \<Rightarrow> inspection_request
     \<Rightarrow> target_resolution list \<Rightarrow> inspection_error + node_id projection_page" where
  "slice_page env graph_json g r targets =
     create_page env (slice_digest env graph_json g) r (target_roots targets) (node_edges g)"

lemma create_page_nodes:
  assumes "create_page env d r roots edges = Inr page"
  shows "set (pp_page_nodes page) \<subseteq> set (expand roots edges (ir_depth r) (ir_direction r))"
proof -
  from assms have "\<exists>from to nodes. slice_range from to (expand roots edges (ir_depth r) (ir_direction r)) = Some nodes
      \<and> pp_page_nodes page = bset_of nodes"
    by (fastforce simp: create_page_def and_then_Inr Let_def split: if_splits option.splits)
  then show ?thesis
    by (auto simp: slice_range_def split: if_splits dest: in_set_takeD in_set_dropD)
qed

lemma create_slice_pages:
  assumes valid: "validate_request r = Inr ()" and wf: "graph_wf g"
    and targets: "map_result (resolve_target g) (ir_targets r) = Inr targets"
  shows "create_slice env graph_json version g r =
     map_sum Inspection (slice_report version g r targets) (slice_page env graph_json g r targets)"
proof -
  have graph: "graph_validate g = Inr ()" using wf by (simp only: graph_validate_wf)
  have "\<not> list_ex (\<lambda>i. bmap_get (sg_nodes g) i = None) (pp_page_nodes page)"
    if "slice_page env graph_json g r targets = Inr page" for page
    using create_page_nodes [OF that [unfolded slice_page_def]] slice_order_exists [OF wf targets, of r]
    unfolding slice_order_def node_exists_def list_ex_iff by blast
  then show ?thesis
    by (auto simp: create_slice_def valid graph targets slice_page_def slice_digest_def target_roots_def
        Let_def split: sum.split)
qed

lemma follow_pages_map:
  assumes "\<And>c. get' c = map_sum e h (get c)" and "\<And>p. next' (h p) = next_of p"
  shows "follow_pages n get' next' c = map_option (map_sum e (map h)) (follow_pages n get next_of c)"
proof (induction n arbitrary: c)
  case (Suc n)
  then show ?case
    by (simp add: assms split: sum.split option.split)
qed simp

lemma slice_report_continuation [simp]:
  "slice_report version g (r\<lparr>ir_continuation := c\<rparr>) targets = slice_report version g r targets"
  by (rule ext) (simp add: slice_report_def Let_def)

lemma slice_pages_cover:
  assumes valid: "validate_request r = Inr ()" and wf: "graph_wf g"
    and targets: "map_result (resolve_target g) (ir_targets r) = Inr targets"
    and codec: "codec_ok env (slice_digest env graph_json g) (request_digest env r) (length (slice_order g r targets))"
    and n: "length (slice_order g r targets) \<le> n"
  shows "\<exists>pages. follow_pages n (\<lambda>c. create_slice env graph_json version g (r\<lparr>ir_continuation := c\<rparr>))
         cs_continuation None = Some (Inr (map (slice_report version g r targets) pages))
     \<and> concat (map page_slice pages) = slice_order g r targets
     \<and> list_all (page_of (slice_order g r targets) (ir_max_nodes r)) pages"
proof -
  let ?get = "\<lambda>c. slice_page env graph_json g (r\<lparr>ir_continuation := c\<rparr>) targets"
  have "ir_targets r \<noteq> []" using valid by (auto simp: validate_request_def split: if_splits)
  then have "target_roots targets \<noteq> []" by (rule target_roots_exist(2) [OF targets])
  moreover have "set (target_roots targets) \<subseteq> set (slice_order g r targets)"
    using slice_order_nearest [of g r targets]
      within_mono [of 0 "ir_depth r" "link_rel (node_edges g) (ir_direction r)" "set (target_roots targets)"]
    by (simp add: nearest_first_def)
  ultimately have "0 < length (slice_order g r targets)" by (cases "target_roots targets") auto
  then obtain pages where pages: "follow_pages n ?get pp_continuation None = Some (Inr pages)"
      "concat (map page_slice pages) = slice_order g r targets"
      "list_all (page_of (slice_order g r targets) (ir_max_nodes r)) pages"
    using pages_cover [OF valid slice_order_def codec, of 0 n None] n
    by (auto simp: slice_page_def)
  have "follow_pages n (\<lambda>c. create_slice env graph_json version g (r\<lparr>ir_continuation := c\<rparr>)) cs_continuation None
      = map_option (map_sum Inspection (map (slice_report version g r targets)))
          (follow_pages n ?get pp_continuation None)"
    by (rule follow_pages_map)
      (use create_slice_pages [of "r\<lparr>ir_continuation := c\<rparr>" for c, OF _ wf] valid targets
        in \<open>simp_all add: slice_report_def Let_def\<close>)
  with pages show ?thesis by auto
qed

lemma page_members: "page_of ordered b page \<Longrightarrow> set (pp_included_nodes page) = set ordered"
  by (simp add: page_of_def)

text \<open>Every element of a slice has an owner among its nodes, and a page holds the elements whose
  owner is on it.\<close>

lemma report_elements:
  assumes page: "page_of ordered b page" and g: "included = bset_of ordered"
  shows "cs_edges (slice_report version g r targets page) =
      filter (\<lambda>e. se_from e \<in> set (page_slice page)) (slice_edges g included)"
    and "cs_projects (slice_report version g r targets page) =
      filter (\<lambda>p. the (find (node_in_project g (sp_id p)) ordered) \<in> set (page_slice page))
        (slice_projects g included)"
    and "cs_contexts (slice_report version g r targets page) =
      filter (\<lambda>ctxt. the (find (\<lambda>n. n \<in> set (sc_roots ctxt)) ordered) \<in> set (page_slice page))
        (slice_contexts g included)"
    and "cs_boundaries (slice_report version g r targets page) =
      filter (\<lambda>bd. (case ab_node bd of None \<Rightarrow> the (find (node_in_project g (ab_project bd)) ordered) | Some n \<Rightarrow> n)
          \<in> set (page_slice page)) (slice_boundaries g included)"
proof -
  have inc: "pp_included_nodes page = included" using page g by (simp add: page_of_def)
  have project: "owns_project page g p \<longleftrightarrow> the (find (node_in_project g p) ordered) \<in> set (page_slice page)"
    if "p \<in> sp_id ` set (slice_projects g included)" for p
    using that owns_first_page [OF page, of "node_in_project g p"] g
    by (auto simp: slice_projects_def list_ex_iff owns_project_def)
  have any: "owns_any page (sc_roots ctxt) \<longleftrightarrow>
      the (find (\<lambda>n. n \<in> set (sc_roots ctxt)) ordered) \<in> set (page_slice page)"
    if "ctxt \<in> set (slice_contexts g included)" for ctxt
  proof -
    have same: "(\<lambda>n. n \<in> set (sc_roots ctxt) \<and> n \<in> set (pp_included_nodes page)) = (\<lambda>n. n \<in> set (sc_roots ctxt))"
      using that inc by (auto simp: slice_contexts_def)
    have "\<exists>n \<in> set ordered. n \<in> set (sc_roots ctxt)"
      using that g by (auto simp: slice_contexts_def list_ex_iff)
    then show ?thesis unfolding owns_any_def same by (rule owns_first_page [OF page])
  qed
  show "cs_edges (slice_report version g r targets page) =
      filter (\<lambda>e. se_from e \<in> set (page_slice page)) (slice_edges g included)"
    by (simp add: slice_report_def Let_def inc owns_node_page [OF page])
  show "cs_projects (slice_report version g r targets page) =
      filter (\<lambda>p. the (find (node_in_project g (sp_id p)) ordered) \<in> set (page_slice page))
        (slice_projects g included)"
    using project by (auto simp: slice_report_def Let_def inc intro: filter_cong)
  show "cs_contexts (slice_report version g r targets page) =
      filter (\<lambda>ctxt. the (find (\<lambda>n. n \<in> set (sc_roots ctxt)) ordered) \<in> set (page_slice page))
        (slice_contexts g included)"
    using any by (auto simp: slice_report_def Let_def inc intro: filter_cong)
  have "owns_boundary page g bd \<longleftrightarrow>
      (case ab_node bd of None \<Rightarrow> the (find (node_in_project g (ab_project bd)) ordered) | Some n \<Rightarrow> n)
        \<in> set (page_slice page)" if "bd \<in> set (slice_boundaries g included)" for bd
    using that project [of "ab_project bd"]
    by (auto simp: owns_boundary_def slice_boundaries_def owns_node_page [OF page] split: option.splits)
  then show "cs_boundaries (slice_report version g r targets page) =
      filter (\<lambda>bd. (case ab_node bd of None \<Rightarrow> the (find (node_in_project g (ab_project bd)) ordered) | Some n \<Rightarrow> n)
          \<in> set (page_slice page)) (slice_boundaries g included)"
    by (auto simp: slice_report_def Let_def inc intro: filter_cong)
qed

lemma concat_reports:
  assumes "list_all (page_of ordered b) pages" and "distinct ordered"
    and "concat (map page_slice pages) = ordered"
    and field: "\<And>page. page_of ordered b page \<Longrightarrow> f page = filter (\<lambda>x. w x \<in> set (page_slice page)) ys"
    and owner: "\<forall>y \<in> set ys. w y \<in> set ordered"
  shows "mset (concat (map f pages)) = mset ys"
proof -
  have eq: "map f pages = map (\<lambda>xs. filter (\<lambda>x. w x \<in> set xs) ys) (map page_slice pages)"
    using assms(1) field by (auto simp: list_all_iff)
  show ?thesis
    unfolding eq by (rule owned_exactly_once) (use assms(2,3) owner in simp_all)
qed

lemma first_member:
  assumes "\<exists>n \<in> set (bset_of ordered). P n"
  shows "the (find P ordered) \<in> set ordered"
  using find_mem [of ordered P] assms by simp

lemma slice_owners:
  assumes g: "included = bset_of ordered"
  shows "\<forall>e \<in> set (slice_edges g included). se_from e \<in> set ordered"
    and "\<forall>p \<in> set (slice_projects g included). the (find (node_in_project g (sp_id p)) ordered) \<in> set ordered"
    and "\<forall>ctxt \<in> set (slice_contexts g included). the (find (\<lambda>n. n \<in> set (sc_roots ctxt)) ordered) \<in> set ordered"
    and "\<forall>bd \<in> set (slice_boundaries g included).
      (case ab_node bd of None \<Rightarrow> the (find (node_in_project g (ab_project bd)) ordered) | Some n \<Rightarrow> n) \<in> set ordered"
proof -
  show "\<forall>e \<in> set (slice_edges g included). se_from e \<in> set ordered"
    using g by (simp add: slice_edges_def)
  show projects: "\<forall>p \<in> set (slice_projects g included). the (find (node_in_project g (sp_id p)) ordered) \<in> set ordered"
    using g by (auto simp: slice_projects_def list_ex_iff intro!: first_member)
  show "\<forall>ctxt \<in> set (slice_contexts g included). the (find (\<lambda>n. n \<in> set (sc_roots ctxt)) ordered) \<in> set ordered"
    using g by (auto simp: slice_contexts_def list_ex_iff intro!: first_member)
  show "\<forall>bd \<in> set (slice_boundaries g included).
      (case ab_node bd of None \<Rightarrow> the (find (node_in_project g (ab_project bd)) ordered) | Some n \<Rightarrow> n) \<in> set ordered"
    using g projects by (auto simp: slice_boundaries_def split: option.splits)
qed

lemma mset_page_nodes:
  assumes "list_all (page_of ordered b) pages" and "distinct ordered"
    and "concat (map page_slice pages) = ordered"
  shows "mset (concat (map (\<lambda>p. map f (pp_page_nodes p)) pages)) = mset (map f ordered)"
proof -
  have "mset (pp_page_nodes p) = mset (page_slice p)" if "p \<in> set pages" for p
  proof -
    from that have page: "page_of ordered b p" using assms(1) by (simp add: list_all_iff)
    have "distinct (page_slice p)"
      using assms(2) page by (simp add: page_slice_def page_of_def)
    with page show ?thesis
      by (metis bset_wf_distinct bset_wf_of page_of_def set_bset_of set_eq_iff_mset_eq_distinct)
  qed
  then have "mset (concat (map (\<lambda>p. map f (pp_page_nodes p)) pages)) = mset (concat (map (\<lambda>p. map f (page_slice p)) pages))"
    by (induction pages) auto
  also have "\<dots> = mset (map f (concat (map page_slice pages)))"
    by (simp add: map_concat comp_def)
  finally show ?thesis using assms(3) by simp
qed

text \<open>C17: Following the continuations of a slice ends and loses nothing. From the first page on, with
  enough fuel for one page per node, every page is produced, no cursor is refused, and the pages
  together hold every node within the requested number of hops of the targets exactly once, and
  every edge, project, context and boundary of the slice exactly once.\<close>

theorem resumed_pages_reconstruct_slice:
  assumes "validate_request r = Inr ()" and "graph_wf g"
    and targets: "map_result (resolve_target g) (ir_targets r) = Inr targets"
    and "codec_ok env (slice_digest env graph_json g) (request_digest env r) (length (slice_order g r targets))"
  shows "\<exists>reports. follow_pages (length (slice_order g r targets))
         (\<lambda>c. create_slice env graph_json version g (r\<lparr>ir_continuation := c\<rparr>)) cs_continuation None
         = Some (Inr reports)
     \<and> mset (concat (map cs_nodes reports))
         = mset (map (\<lambda>i. (i, the (bmap_get (sg_nodes g) i))) (slice_order g r targets))
     \<and> mset (concat (map cs_edges reports)) = mset (slice_edges g (bset_of (slice_order g r targets)))
     \<and> mset (concat (map cs_projects reports)) = mset (slice_projects g (bset_of (slice_order g r targets)))
     \<and> mset (concat (map cs_contexts reports)) = mset (slice_contexts g (bset_of (slice_order g r targets)))
     \<and> mset (concat (map cs_boundaries reports))
         = mset (slice_boundaries g (bset_of (slice_order g r targets)))"
proof -
  let ?o = "slice_order g r targets" and ?report = "slice_report version g r targets"
  obtain pages where pages: "follow_pages (length ?o) (\<lambda>c. create_slice env graph_json version g
      (r\<lparr>ir_continuation := c\<rparr>)) cs_continuation None = Some (Inr (map ?report pages))"
    and cover: "concat (map page_slice pages) = ?o" and each: "list_all (page_of ?o (ir_max_nodes r)) pages"
    using slice_pages_cover [OF assms order_refl] by blast
  have dist: "distinct ?o" using slice_order_nearest [of g r targets] by (simp add: nearest_first_def)
  note all = concat_reports [OF each dist cover] and elements = report_elements [OF _ refl]
    and owners = slice_owners [OF refl]
  have "mset (concat (map (\<lambda>p. cs_edges (?report p)) pages)) = mset (slice_edges g (bset_of ?o))"
    by (rule all [OF elements(1) owners(1)])
  moreover have "mset (concat (map (\<lambda>p. cs_projects (?report p)) pages)) = mset (slice_projects g (bset_of ?o))"
    by (rule all [OF elements(2) owners(2)])
  moreover have "mset (concat (map (\<lambda>p. cs_contexts (?report p)) pages)) = mset (slice_contexts g (bset_of ?o))"
    by (rule all [OF elements(3) owners(3)])
  moreover have "mset (concat (map (\<lambda>p. cs_boundaries (?report p)) pages)) = mset (slice_boundaries g (bset_of ?o))"
    by (rule all [OF elements(4) owners(4)])
  moreover have "mset (concat (map (\<lambda>p. cs_nodes (?report p)) pages))
      = mset (map (\<lambda>i. (i, the (bmap_get (sg_nodes g) i))) ?o)"
    using mset_page_nodes [OF each dist cover] by (simp add: slice_report_def Let_def)
  ultimately show ?thesis using pages by (intro exI [of _ "map ?report pages"]) (simp add: comp_def)
qed

lemma sample_targets:
  "map_result (resolve_target sample_graph) (ir_targets (sample_request None))
     = Inr [\<lparr>tr_query = ''a'', tr_nodes = [''a'']\<rparr>]"
proof -
  have "trim ''a'' = ''a''" by code_simp
  then show ?thesis
    by (simp add: resolve_target_def sample_request_def sample_graph_def bmap_get_def Let_def)
qed

lemma sample_order:
  "slice_order sample_graph (sample_request None) [\<lparr>tr_query = ''a'', tr_nodes = [''a'']\<rparr>] = [''a'', ''s'']"
  by code_simp

theorem resumed_pages_reconstruct_slice_witness:
  "\<exists>reports. follow_pages 2 (\<lambda>c. create_slice sample_env (\<lambda>_. []) ''1'' sample_graph (sample_request c))
         cs_continuation None = Some (Inr reports)
     \<and> mset (map fst (concat (map cs_nodes reports))) = {#''a'', ''s''#}"
proof -
  let ?t = "[\<lparr>tr_query = ''a'', tr_nodes = [''a'']\<rparr>]"
  have codec: "codec_ok sample_env (slice_digest sample_env (\<lambda>_. []) sample_graph)
      (request_digest sample_env (sample_request None)) (length (slice_order sample_graph (sample_request None) ?t))"
  proof -
    have "slice_digest sample_env (\<lambda>_. []) sample_graph = ''sha256:0''"
      and "request_digest sample_env (sample_request None) = ''sha256:0''"
      by (simp_all add: slice_digest_def request_digest_def sample_env_def)
    then show ?thesis unfolding sample_order by (simp only:) (rule sample_codec, simp)
  qed
  have cursor: "sample_request None\<lparr>ir_continuation := c\<rparr> = sample_request c" for c
    by (simp add: sample_request_def)
  obtain reports where reports: "follow_pages 2 (\<lambda>c. create_slice sample_env (\<lambda>_. []) ''1'' sample_graph
      (sample_request c)) cs_continuation None = Some (Inr reports)"
    and nodes: "mset (concat (map cs_nodes reports))
      = mset (map (\<lambda>i. (i, the (bmap_get (sg_nodes sample_graph) i))) [''a'', ''s''])"
    using resumed_pages_reconstruct_slice [OF sample_request_valid sample_graph_wf sample_targets codec, of "''1''"]
    unfolding sample_order cursor by (auto simp: eval_nat_numeral)
  have "mset (map fst (concat (map cs_nodes reports))) = image_mset fst (mset (concat (map cs_nodes reports)))"
    by simp
  then have "mset (map fst (concat (map cs_nodes reports))) = {#''a'', ''s''#}"
    unfolding nodes by simp
  with reports show ?thesis by blast
qed

end
