(* ===== verification/TestingModel.thy ===== *)
theory TestingModel
  imports Reachability SourcePolicy
begin

text \<open>
  What the testing analyses share (\<open>src/testing/mod.rs\<close>, \<open>src/testing/model.rs\<close>, and the resolved
  project of \<open>src/config/analysis.rs\<close>): the subjects a test context declares, the glob of a subject
  (the globset crate, a parameter), the display of a node, and the evidence of a selection. Of a
  resolved project only the fields that the testing analyses read are kept.
\<close>

datatype test_subject = SubjectProject string | SubjectSource string

record analysis_context_config =
  acc_role :: context_role
  acc_scope :: context_scope
  acc_entrypoints :: "string list"
  acc_subjects :: "test_subject list"

definition analysis_context_config_default :: analysis_context_config where
  "analysis_context_config_default =
     \<lparr>acc_role = Production, acc_scope = Runtime, acc_entrypoints = [], acc_subjects = []\<rparr>"

record resolved_project =
  rp_id :: project_id
  rp_root :: string
  rp_report_root :: string
  rp_contexts :: "(string, analysis_context_config) bmap"

text \<open>What is outside: the glob compiler, the scripts of a package manifest, path differences.\<close>

record testing_env =
  tv_version :: string
  tv_glob :: "string \<Rightarrow> (string \<Rightarrow> bool) option"
  tv_read_scripts :: "string \<Rightarrow> (string \<times> string) list option"
  tv_diff_paths :: "string \<Rightarrow> string \<Rightarrow> string option"

datatype testing_error =
    NoChangedPath
  | InvalidSubject string string
  | InvalidTestGraph string
  | UnreadableScripts string
  | UnreachableNode node_id

definition configured_subjects :: "resolved_project list \<Rightarrow> source_context \<Rightarrow> test_subject list" where
  "configured_subjects projects ctxt =
     (case find (\<lambda>p. rp_id p = sc_project ctxt) projects of
        None \<Rightarrow> []
      | Some p \<Rightarrow>
          (case bmap_get (rp_contexts p) (sc_name ctxt) of
             None \<Rightarrow> []
           | Some configured \<Rightarrow> acc_subjects configured))"

definition compile_subject :: "testing_env \<Rightarrow> string \<Rightarrow> string \<Rightarrow> testing_error + (string \<Rightarrow> bool)" where
  "compile_subject env pattern owner =
     (let normalized =
            replace_char (CHR 0x5C) ''/''
              (case strip_prefix ''./'' pattern of Some rest \<Rightarrow> rest | None \<Rightarrow> pattern)
      in case tv_glob env normalized of
           None \<Rightarrow> Inl (InvalidSubject pattern owner)
         | Some matcher \<Rightarrow> Inr matcher)"

definition display_file :: "'c source_graph \<Rightarrow> source_file \<Rightarrow> string" where
  "display_file g file =
     repository_path
       (case bmap_get (sg_projects g) (sf_project file) of None \<Rightarrow> ''.'' | Some p \<Rightarrow> sp_root p)
       (sf_path file)"

definition display_node :: "'c source_graph \<Rightarrow> node_id \<Rightarrow> string" where
  "display_node g node =
     (case bmap_get (sg_nodes g) node of
        Some (FileNode file) \<Rightarrow> display_file g file
      | Some (SymbolNode symbol) \<Rightarrow>
          (case bmap_get (sg_nodes g) (ss_file symbol) of
             Some (FileNode file) \<Rightarrow> display_file g file
           | _ \<Rightarrow> ss_file symbol) @ ''#'' @ ss_name symbol
      | None \<Rightarrow> node)"

definition subject_display :: "test_subject \<Rightarrow> string" where
  "subject_display subject =
     (case subject of
        SubjectProject project \<Rightarrow> ''project:'' @ project
      | SubjectSource pattern \<Rightarrow> ''source:'' @ pattern)"

definition test_contexts_of :: "'c source_graph \<Rightarrow> source_context list" where
  "test_contexts_of g = filter (\<lambda>ctxt. sc_role ctxt = Test) (map snd (sg_contexts g))"

subsection \<open>Evidence, in the derived order\<close>

datatype evidence_kind =
  ObservedDependency | DeclaredProject | DeclaredSource | ProjectFallback | WorkspaceFallback

fun evidence_kind_rank :: "evidence_kind \<Rightarrow> nat" where
  "evidence_kind_rank ObservedDependency = 0"
| "evidence_kind_rank DeclaredProject = 1"
| "evidence_kind_rank DeclaredSource = 2"
| "evidence_kind_rank ProjectFallback = 3"
| "evidence_kind_rank WorkspaceFallback = 4"

datatype test_impact_evidence =
  TestImpactEvidence
    (tie_changed_path: string)
    (tie_kind: evidence_kind)
    (tie_witness_root: "string option")
    (tie_subject: "string option")

definition evidence_key :: "test_impact_evidence \<Rightarrow> string \<times> nat \<times> string option \<times> string option" where
  "evidence_key x =
     (tie_changed_path x, evidence_kind_rank (tie_kind x), tie_witness_root x, tie_subject x)"

lemma evidence_kind_rank_inj: "evidence_kind_rank a = evidence_kind_rank b \<Longrightarrow> a = b"
  by (cases a; cases b) simp_all

lemma evidence_key_inj: "evidence_key a = evidence_key b \<Longrightarrow> a = b"
  by (cases a; cases b) (auto simp: evidence_key_def dest: evidence_kind_rank_inj)

instantiation test_impact_evidence :: linorder
begin

definition less_eq_test_impact_evidence :: "test_impact_evidence \<Rightarrow> test_impact_evidence \<Rightarrow> bool" where
  "less_eq_test_impact_evidence a b \<longleftrightarrow> evidence_key a \<le> evidence_key b"

definition less_test_impact_evidence :: "test_impact_evidence \<Rightarrow> test_impact_evidence \<Rightarrow> bool" where
  "less_test_impact_evidence a b \<longleftrightarrow> evidence_key a < evidence_key b"

instance
  by standard
    (auto simp: less_eq_test_impact_evidence_def less_test_impact_evidence_def dest: evidence_key_inj)

end

subsection \<open>Test runners, in the derived order\<close>

datatype test_runner =
  Ava | Bun | Cargo | Cypress | Deno | Jest | Mocha | Node | Playwright | Pytest | Schemathesis
| Unittest | Vitest | OtherRunner

fun test_runner_rank :: "test_runner \<Rightarrow> nat" where
  "test_runner_rank Ava = 0"
| "test_runner_rank Bun = 1"
| "test_runner_rank Cargo = 2"
| "test_runner_rank Cypress = 3"
| "test_runner_rank Deno = 4"
| "test_runner_rank Jest = 5"
| "test_runner_rank Mocha = 6"
| "test_runner_rank Node = 7"
| "test_runner_rank Playwright = 8"
| "test_runner_rank Pytest = 9"
| "test_runner_rank Schemathesis = 10"
| "test_runner_rank Unittest = 11"
| "test_runner_rank Vitest = 12"
| "test_runner_rank OtherRunner = 13"

fun test_runner_str :: "test_runner \<Rightarrow> string" where
  "test_runner_str Ava = ''ava''"
| "test_runner_str Bun = ''bun''"
| "test_runner_str Cargo = ''cargo''"
| "test_runner_str Cypress = ''cypress''"
| "test_runner_str Deno = ''deno''"
| "test_runner_str Jest = ''jest''"
| "test_runner_str Mocha = ''mocha''"
| "test_runner_str Node = ''node''"
| "test_runner_str Playwright = ''playwright''"
| "test_runner_str Pytest = ''pytest''"
| "test_runner_str Schemathesis = ''schemathesis''"
| "test_runner_str Unittest = ''unittest''"
| "test_runner_str Vitest = ''vitest''"
| "test_runner_str OtherRunner = ''other''"

lemma test_runner_rank_inj: "test_runner_rank a = test_runner_rank b \<Longrightarrow> a = b"
  by (cases a; cases b) simp_all

instantiation test_runner :: linorder
begin

definition less_eq_test_runner :: "test_runner \<Rightarrow> test_runner \<Rightarrow> bool" where
  "less_eq_test_runner a b \<longleftrightarrow> test_runner_rank a \<le> test_runner_rank b"

definition less_test_runner :: "test_runner \<Rightarrow> test_runner \<Rightarrow> bool" where
  "less_test_runner a b \<longleftrightarrow> test_runner_rank a < test_runner_rank b"

instance
  by standard (auto simp: less_eq_test_runner_def less_test_runner_def dest: test_runner_rank_inj)

end

end
