(* ===== verification/TestInventory.thy ===== *)
theory TestInventory
  imports TestingModel Utf8
begin

text \<open>
  The inventory of tests (\<open>src/testing/inventory.rs\<close>): the test contexts of every project with the
  subjects they declare, and the scripts of its manifest with the runners they start.
\<close>

datatype declared_subject =
    InventoryProject string bool
  | InventorySource string "string list"

record test_context_inventory =
  tci_id :: string
  tci_name :: string
  tci_roots :: "string list"
  tci_declared_subjects :: "declared_subject list"

record test_script_inventory =
  tsi_name :: string
  tsi_command :: string
  tsi_runners :: "test_runner list"
  tsi_no_op :: bool
  tsi_allows_empty :: bool

record testing_project_inventory =
  tpi_project :: string
  tpi_root :: string
  tpi_completeness :: analysis_completeness
  tpi_contexts :: "test_context_inventory list"
  tpi_scripts :: "test_script_inventory list"

type_synonym script_location = "string \<times> string"

record duplicate_script =
  ds_command :: string
  ds_locations :: "script_location list"

record testing_inventory_report =
  tir_schema_version :: nat
  tir_tool_version :: string
  tir_projects :: "testing_project_inventory list"
  tir_duplicate_scripts :: "duplicate_script list"

definition testing_inventory_schema_version :: nat where
  "testing_inventory_schema_version = 1"

subsection \<open>Scripts\<close>

definition split_ascii_whitespace :: "string \<Rightarrow> string list" where
  "split_ascii_whitespace s = filter (\<lambda>w. w \<noteq> []) (split_on is_ascii_whitespace s)"

definition is_test_script :: "string \<Rightarrow> bool" where
  "is_test_script name \<longleftrightarrow>
     name \<in> {''test'', ''pretest'', ''posttest''} \<or> starts_with ''test:'' name \<or> ends_with '':test'' name"

definition runner_needles :: "(string \<times> test_runner) list" where
  "runner_needles =
     [(''schemathesis'', Schemathesis), (''playwright'', Playwright), (''vitest'', Vitest),
      (''cypress'', Cypress), (''pytest'', Pytest), (''unittest'', Unittest), (''cargo test'', Cargo),
      (''deno test'', Deno), (''bun test'', Bun), (''node --test'', Node), (''jest'', Jest),
      (''mocha'', Mocha), ('' ava'', Ava)]"

definition detect_runners :: "string \<Rightarrow> test_runner bset" where
  "detect_runners raw =
     (let command = to_ascii_lowercase raw
      in bset_of (map snd (filter (\<lambda>(needle, _). contains_str command needle) runner_needles)
           @ (if command = ''ava'' \<or> starts_with ''ava '' command then [Ava] else [])))"

definition is_no_op :: "string \<Rightarrow> bool" where
  "is_no_op raw \<longleftrightarrow>
     (let command = trim raw
      in command \<in> {'''', '':'', ''true'', ''exit 0''}
         \<or> (starts_with ''echo '' command \<or> starts_with ''printf '' command)
           \<and> \<not> contains_str command ''&&'' \<and> \<not> contains_str command ''||''
           \<and> \<not> contains_str command '';'' \<and> \<not> contains_str command ''|'')"

definition allows_empty_run :: "string \<Rightarrow> bool" where
  "allows_empty_run raw \<longleftrightarrow>
     list_ex (\<lambda>token. token \<in> {''--allow-no-tests'', ''--pass-with-no-tests'', ''--passwithnotests'',
         ''--suppress-no-test-exit-code''})
       (split_ascii_whitespace (to_ascii_lowercase raw))"

definition script_inventory :: "string \<times> string \<Rightarrow> test_script_inventory option" where
  "script_inventory x =
     (case x of (name, command) \<Rightarrow>
        let runners = detect_runners command
        in if \<not> is_test_script name \<and> runners = [] then None
           else Some \<lparr>tsi_name = name, tsi_command = command,
                      tsi_runners = (if runners = [] then [OtherRunner] else runners),
                      tsi_no_op = is_no_op command, tsi_allows_empty = allows_empty_run command\<rparr>)"

definition script_key :: "test_script_inventory \<Rightarrow> string \<times> string \<times> test_runner list \<times> bool \<times> bool" where
  "script_key s = (tsi_name s, tsi_command s, tsi_runners s, tsi_no_op s, tsi_allows_empty s)"

definition scripts_for_project ::
    "testing_env \<Rightarrow> resolved_project \<Rightarrow> testing_error + test_script_inventory list" where
  "scripts_for_project env project =
     (case tv_read_scripts env (rp_root project) of
        None \<Rightarrow> Inl (UnreadableScripts (rp_root project))
      | Some scripts \<Rightarrow> Inr (sort_key script_key (List.map_filter script_inventory scripts)))"

definition normalize_command :: "string \<Rightarrow> string" where
  "normalize_command command = join '' '' (split_ascii_whitespace command)"

definition duplicate_scripts :: "testing_project_inventory list \<Rightarrow> duplicate_script list" where
  "duplicate_scripts projects =
     List.map_filter (\<lambda>(command, locations).
         if length locations > 1 then Some \<lparr>ds_command = command, ds_locations = sort locations\<rparr> else None)
       (fold (\<lambda>project by_command.
           fold (\<lambda>script by_command.
               bmap_entry (normalize_command (tsi_command script)) []
                 (\<lambda>locations. locations @ [(tpi_project project, tsi_name script)]) by_command)
             (tpi_scripts project) by_command)
         projects [])"

subsection \<open>Subjects and the report\<close>

definition resolve_subject ::
    "testing_env \<Rightarrow> 'c source_graph \<Rightarrow> source_context \<Rightarrow> test_subject \<Rightarrow> testing_error + declared_subject" where
  "resolve_subject env g ctxt subject =
     (case subject of
        SubjectProject project \<Rightarrow>
          Inr (InventoryProject project (bmap_get (sg_projects g) project \<noteq> None))
      | SubjectSource pattern \<Rightarrow>
          and_then (compile_subject env pattern (sc_id ctxt)) (\<lambda>matches.
            Inr (InventorySource pattern
              (List.map_filter (\<lambda>(i, node).
                  case node of
                    FileNode file \<Rightarrow>
                      if sf_project file = sc_project ctxt \<and> matches (sf_path file)
                      then Some (display_node g i) else None
                  | SymbolNode _ \<Rightarrow> None) (sg_nodes g)))))"

definition context_inventory ::
    "testing_env \<Rightarrow> 'c source_graph \<Rightarrow> resolved_project list \<Rightarrow> source_context
     \<Rightarrow> testing_error + test_context_inventory" where
  "context_inventory env g projects ctxt =
     and_then (map_result (resolve_subject env g ctxt) (configured_subjects projects ctxt)) (\<lambda>subjects.
       Inr \<lparr>tci_id = sc_id ctxt, tci_name = sc_name ctxt,
            tci_roots = map (display_node g) (sc_roots ctxt), tci_declared_subjects = subjects\<rparr>)"

definition project_inventory ::
    "testing_env \<Rightarrow> 'c source_graph \<Rightarrow> resolved_project list \<Rightarrow> resolved_project
     \<Rightarrow> testing_error + testing_project_inventory" where
  "project_inventory env g projects project =
     and_then (map_result (context_inventory env g projects)
         (filter (\<lambda>ctxt. sc_project ctxt = rp_id project \<and> sc_role ctxt = Test) (map snd (sg_contexts g))))
       (\<lambda>contexts.
         and_then (scripts_for_project env project) (\<lambda>scripts.
           Inr \<lparr>tpi_project = rp_id project, tpi_root = rp_report_root project,
                tpi_completeness = (case bmap_get (sg_projects g) (rp_id project) of
                   None \<Rightarrow> Unsupported | Some source \<Rightarrow> sp_completeness source),
                tpi_contexts = contexts, tpi_scripts = scripts\<rparr>))"

definition analyze_inventory ::
    "testing_env \<Rightarrow> 'c source_graph \<Rightarrow> resolved_project list \<Rightarrow> testing_error + testing_inventory_report" where
  "analyze_inventory env g projects =
     and_then (map_result (project_inventory env g projects) projects) (\<lambda>inventories.
       let sorted_projects = sort_key (\<lambda>p. (tpi_root p, tpi_project p)) inventories
       in Inr \<lparr>tir_schema_version = testing_inventory_schema_version, tir_tool_version = tv_version env,
               tir_projects = sorted_projects,
               tir_duplicate_scripts = duplicate_scripts sorted_projects\<rparr>)"

end
