(* ===== verification/TestWitnesses.thy ===== *)
theory TestWitnesses
  imports TestInventory
begin

text \<open>
  The witnesses of a public API (\<open>src/testing/witnesses.rs\<close>): for every public symbol that a production
  public surface reaches, the test contexts observed to reach it, the contexts that declare it, and a
  status; then the test contexts that reach no such symbol. An observed or declared witness is the
  triple of its fields, in the derived order.
\<close>

type_synonym test_witness = "string \<times> string \<times> string"

datatype test_witness_status = Witnessed | DeclaredOnly | Unwitnessed | UnknownWitness

record 'c public_api_test_witness =
  paw_node_id :: node_id
  paw_project :: string
  paw_path :: string
  paw_symbol :: string
  paw_symbol_kind :: source_symbol_kind
  paw_callable :: "'c option"
  paw_confidence :: finding_confidence
  paw_status :: test_witness_status
  paw_observed :: "test_witness list"
  paw_declared :: "test_witness list"

record detached_test_context =
  dtc_project :: string
  dtc_context :: string
  dtc_roots :: "string list"
  dtc_declared_subjects :: "string list"

record testing_witness_summary =
  tws_public_symbols :: nat
  tws_witnessed :: nat
  tws_declared_only :: nat
  tws_unwitnessed :: nat
  tws_unknown :: nat
  tws_detached_contexts :: nat

record 'c testing_witness_report =
  twr_schema_version :: nat
  twr_tool_version :: string
  twr_summary :: testing_witness_summary
  twr_public_api :: "'c public_api_test_witness list"
  twr_detached_contexts :: "detached_test_context list"

definition testing_witness_schema_version :: nat where
  "testing_witness_schema_version = 2"

subsection \<open>Declared matchers\<close>

datatype declared_target = DeclaredProjectTarget project_id | DeclaredSourceTarget "string \<Rightarrow> bool"

record declared_matcher =
  dm_test_project :: project_id
  dm_context :: string
  dm_display :: string
  dm_target :: declared_target

definition matcher_matches :: "declared_matcher \<Rightarrow> project_id \<Rightarrow> string \<Rightarrow> bool" where
  "matcher_matches matcher project source \<longleftrightarrow>
     (case dm_target matcher of
        DeclaredProjectTarget target \<Rightarrow> target = project
      | DeclaredSourceTarget glob \<Rightarrow> dm_test_project matcher = project \<and> glob source)"

definition compile_declared_matcher ::
    "testing_env \<Rightarrow> source_context \<Rightarrow> test_subject \<Rightarrow> testing_error + declared_matcher" where
  "compile_declared_matcher env ctxt subject =
     and_then
       (case subject of
          SubjectProject project \<Rightarrow> Inr (''project:'' @ project, DeclaredProjectTarget project)
        | SubjectSource pattern \<Rightarrow>
            and_then (compile_subject env pattern (sc_id ctxt)) (\<lambda>glob.
              Inr (''source:'' @ pattern, DeclaredSourceTarget glob)))
       (\<lambda>(display, target). Inr
          \<lparr>dm_test_project = sc_project ctxt, dm_context = sc_name ctxt, dm_display = display,
           dm_target = target\<rparr>)"

definition compile_declared_matchers ::
    "testing_env \<Rightarrow> resolved_project list \<Rightarrow> source_context list \<Rightarrow> testing_error + declared_matcher list" where
  "compile_declared_matchers env projects contexts =
     map_result (\<lambda>(ctxt, subject). compile_declared_matcher env ctxt subject)
       (concat (map (\<lambda>ctxt. map (Pair ctxt) (configured_subjects projects ctxt)) contexts))"

subsection \<open>Public symbols\<close>

definition public_surface_contexts :: "'c source_graph \<Rightarrow> context_id bset" where
  "public_surface_contexts g =
     bset_of (map sc_id (filter (\<lambda>ctxt. sc_role ctxt = Production \<and> sc_scope ctxt = PublicSurface)
       (map snd (sg_contexts g))))"

text \<open>The witness roots of a node that belong to test contexts.\<close>

definition test_roots :: "'c source_graph \<Rightarrow> reachability \<Rightarrow> node_id \<Rightarrow> (source_context \<times> node_id) list" where
  "test_roots g r node =
     List.map_filter (\<lambda>(context_id, root).
         case bmap_get (sg_contexts g) context_id of
           None \<Rightarrow> None
         | Some ctxt \<Rightarrow> if sc_role ctxt \<noteq> Test then None else Some (ctxt, root))
       (roots_of r node)"

text \<open>\<open>sort\<close> followed by \<open>dedup\<close>.\<close>

definition observed_witnesses :: "'c source_graph \<Rightarrow> reachability \<Rightarrow> node_id \<Rightarrow> test_witness list" where
  "observed_witnesses g r node =
     remdups_adj (sort (map (\<lambda>(ctxt, root). (sc_project ctxt, sc_name ctxt, display_node g root))
       (test_roots g r node)))"

definition declared_witnesses :: "declared_matcher list \<Rightarrow> project_id \<Rightarrow> string \<Rightarrow> test_witness list" where
  "declared_witnesses matchers project source =
     remdups_adj (sort (map (\<lambda>m. (dm_test_project m, dm_context m, dm_display m))
       (filter (\<lambda>m. matcher_matches m project source) matchers)))"

definition witness_status :: "test_witness list \<Rightarrow> test_witness list \<Rightarrow> finding_confidence \<Rightarrow> test_witness_status" where
  "witness_status observed declared confidence =
     (if observed \<noteq> [] then Witnessed
      else if declared \<noteq> [] then DeclaredOnly
      else if confidence = High then Unwitnessed
      else UnknownWitness)"

text \<open>The file of a symbol that is reported: the symbol is public, a public surface reaches it, and its
  file is a file node.\<close>

definition surface_symbol ::
    "'c source_graph \<Rightarrow> reachability \<Rightarrow> node_id \<times> 'c source_node \<Rightarrow> ('c source_symbol \<times> source_file) option" where
  "surface_symbol g r x =
     (case x of (node_id, node) \<Rightarrow>
        case node of
          FileNode _ \<Rightarrow> None
        | SymbolNode symbol \<Rightarrow>
            if ss_visibility symbol \<noteq> VisPublic then None
            else if list_all (\<lambda>c. c \<notin> set (public_surface_contexts g)) (contexts_of r node_id) then None
            else (case bmap_get (sg_nodes g) (ss_file symbol) of
                    Some (FileNode f) \<Rightarrow> Some (symbol, f)
                  | _ \<Rightarrow> None))"

definition symbol_witness ::
    "'c source_graph \<Rightarrow> reachability \<Rightarrow> declared_matcher list \<Rightarrow> node_id \<Rightarrow> 'c source_symbol \<Rightarrow> source_file
     \<Rightarrow> 'c public_api_test_witness" where
  "symbol_witness g r matchers node_id symbol f =
     (let observed = observed_witnesses g r node_id;
          declared = declared_witnesses matchers (ss_project symbol) (sf_path f);
          confidence = symbol_confidence g (ss_project symbol) (ss_file symbol) node_id
      in \<lparr>paw_node_id = node_id, paw_project = ss_project symbol,
          paw_path = repository_path
            (case bmap_get (sg_projects g) (ss_project symbol) of None \<Rightarrow> ''.'' | Some p \<Rightarrow> sp_root p) (sf_path f),
          paw_symbol = ss_name symbol, paw_symbol_kind = ss_kind symbol, paw_callable = ss_callable symbol,
          paw_confidence = confidence, paw_status = witness_status observed declared confidence,
          paw_observed = observed, paw_declared = declared\<rparr>)"

definition witness_symbol ::
    "'c source_graph \<Rightarrow> reachability \<Rightarrow> declared_matcher list \<Rightarrow> node_id \<times> 'c source_node
     \<Rightarrow> 'c public_api_test_witness list \<times> context_id bset \<Rightarrow> 'c public_api_test_witness list \<times> context_id bset" where
  "witness_symbol g r matchers x st =
     (case surface_symbol g r x of
        None \<Rightarrow> st
      | Some (symbol, f) \<Rightarrow>
          (fst st @ [symbol_witness g r matchers (fst x) symbol f],
           bset_extend (map (\<lambda>(ctxt, _). sc_id ctxt) (test_roots g r (fst x))) (snd st)))"

subsection \<open>The report\<close>

definition detached_context :: "'c source_graph \<Rightarrow> resolved_project list \<Rightarrow> source_context \<Rightarrow> detached_test_context" where
  "detached_context g projects ctxt =
     \<lparr>dtc_project = sc_project ctxt, dtc_context = sc_name ctxt,
      dtc_roots = map (display_node g) (sc_roots ctxt),
      dtc_declared_subjects = map subject_display (configured_subjects projects ctxt)\<rparr>"

definition count_witness :: "test_witness_status \<Rightarrow> testing_witness_summary \<Rightarrow> testing_witness_summary" where
  "count_witness status summary =
     (case status of
        Witnessed \<Rightarrow> summary\<lparr>tws_witnessed := tws_witnessed summary + 1\<rparr>
      | DeclaredOnly \<Rightarrow> summary\<lparr>tws_declared_only := tws_declared_only summary + 1\<rparr>
      | Unwitnessed \<Rightarrow> summary\<lparr>tws_unwitnessed := tws_unwitnessed summary + 1\<rparr>
      | UnknownWitness \<Rightarrow> summary\<lparr>tws_unknown := tws_unknown summary + 1\<rparr>)"

definition summarize_witnesses ::
    "'c public_api_test_witness list \<Rightarrow> detached_test_context list \<Rightarrow> testing_witness_summary" where
  "summarize_witnesses public_api detached =
     (fold (\<lambda>witness. count_witness (paw_status witness)) public_api
        \<lparr>tws_public_symbols = length public_api, tws_witnessed = 0, tws_declared_only = 0,
         tws_unwitnessed = 0, tws_unknown = 0, tws_detached_contexts = 0\<rparr>)
        \<lparr>tws_detached_contexts := length detached\<rparr>"

definition analyze_witnesses ::
    "testing_env \<Rightarrow> 'c source_graph \<Rightarrow> resolved_project list \<Rightarrow> testing_error + 'c testing_witness_report" where
  "analyze_witnesses env g projects =
     (case analyze g of
        Inl diagnostics \<Rightarrow> Inl (InvalidTestGraph (render_diagnostics diagnostics))
      | Inr r \<Rightarrow>
          and_then (compile_declared_matchers env projects (test_contexts_of g)) (\<lambda>matchers.
            let (public_api, observed_contexts) = fold (witness_symbol g r matchers) (sg_nodes g) ([], []);
                sorted_api = sort_key (\<lambda>w. (paw_project w, paw_path w, paw_symbol w, paw_node_id w)) public_api;
                detached = sort_key (\<lambda>d. (dtc_project d, dtc_context d))
                  (map (detached_context g projects)
                    (filter (\<lambda>ctxt. sc_id ctxt \<notin> set observed_contexts) (test_contexts_of g)))
            in Inr \<lparr>twr_schema_version = testing_witness_schema_version, twr_tool_version = tv_version env,
                    twr_summary = summarize_witnesses sorted_api detached, twr_public_api = sorted_api,
                    twr_detached_contexts = detached\<rparr>))"

end
