(* ===== verification/TestImpact.thy ===== *)
theory TestImpact
  imports TestInventory
begin

text \<open>
  The impact of changed paths on the tests (\<open>src/testing/impact.rs\<close>): a path is resolved to a source
  file, the test contexts that reach the file or declare it are selected with their evidence, and where
  the file or its analysis is uncertain the selection falls back to a project or to the workspace. The
  map of selected contexts and the growing report are one state, threaded through the changed paths.
\<close>

datatype changed_path_resolution = ExactSource | ProjectPathFallback | WorkspacePathFallback

record changed_path_impact =
  cpi_path :: string
  cpi_project :: "string option"
  cpi_source :: "string option"
  cpi_resolution :: changed_path_resolution

record impacted_test_context =
  itc_id :: string
  itc_name :: string
  itc_roots :: "string list"
  itc_evidence :: "test_impact_evidence list"

record impacted_test_project =
  itp_project :: string
  itp_root :: string
  itp_confidence :: finding_confidence
  itp_contexts :: "impacted_test_context list"
  itp_scripts :: "test_script_inventory list"

record testing_impact_report =
  tim_schema_version :: nat
  tim_tool_version :: string
  tim_selection_complete :: bool
  tim_changed :: "changed_path_impact list"
  tim_projects :: "impacted_test_project list"

definition testing_impact_schema_version :: nat where
  "testing_impact_schema_version = 1"

definition testing_impact_report_new :: "testing_env \<Rightarrow> testing_impact_report" where
  "testing_impact_report_new env =
     \<lparr>tim_schema_version = testing_impact_schema_version, tim_tool_version = tv_version env,
      tim_selection_complete = True, tim_changed = [], tim_projects = []\<rparr>"

type_synonym test_selection = "(context_id, test_impact_evidence bset) bmap"

definition insert_evidence :: "source_context \<Rightarrow> test_impact_evidence \<Rightarrow> test_selection \<Rightarrow> test_selection" where
  "insert_evidence ctxt evidence selected = bmap_entry (sc_id ctxt) [] (bset_insert evidence) selected"

subsection \<open>Selections\<close>

definition select_observed ::
    "'c source_graph \<Rightarrow> reachability \<Rightarrow> source_context list \<Rightarrow> node_id \<Rightarrow> string
     \<Rightarrow> test_selection \<Rightarrow> test_selection" where
  "select_observed g r tests changed_node changed_path selected =
     fold (\<lambda>ctxt selected.
         let roots = filter (\<lambda>(context_id, _). context_id = sc_id ctxt) (roots_of r changed_node)
         in if roots = []
            then insert_evidence ctxt
                   (TestImpactEvidence changed_path ObservedDependency None None) selected
            else fold (\<lambda>(_, root).
                   insert_evidence ctxt
                     (TestImpactEvidence changed_path ObservedDependency (Some (display_node g root)) None))
                 roots selected)
       (filter (\<lambda>ctxt. sc_id ctxt \<in> set (contexts_of r changed_node)) tests) selected"

definition subject_selects ::
    "testing_env \<Rightarrow> source_context \<Rightarrow> project_id \<Rightarrow> string \<Rightarrow> test_subject
     \<Rightarrow> testing_error + bool \<times> evidence_kind \<times> string" where
  "subject_selects env ctxt changed_project changed_source subject =
     (case subject of
        SubjectProject project \<Rightarrow>
          Inr (project = changed_project, DeclaredProject, ''project:'' @ project)
      | SubjectSource pattern \<Rightarrow>
          if sc_project ctxt = changed_project
          then and_then (compile_subject env pattern (sc_id ctxt)) (\<lambda>matcher.
                 Inr (matcher changed_source, DeclaredSource, ''source:'' @ pattern))
          else Inr (False, DeclaredSource, ''source:'' @ pattern))"

definition select_subject ::
    "testing_env \<Rightarrow> source_context \<Rightarrow> project_id \<Rightarrow> string \<Rightarrow> string \<Rightarrow> test_subject
     \<Rightarrow> test_selection \<Rightarrow> testing_error + test_selection" where
  "select_subject env ctxt changed_project changed_source changed_path subject selected =
     and_then (subject_selects env ctxt changed_project changed_source subject)
       (\<lambda>(matches, kind, display).
         Inr (if matches
              then insert_evidence ctxt (TestImpactEvidence changed_path kind None (Some display)) selected
              else selected))"

definition select_declared ::
    "testing_env \<Rightarrow> resolved_project list \<Rightarrow> source_context list \<Rightarrow> project_id \<Rightarrow> string \<Rightarrow> string
     \<Rightarrow> test_selection \<Rightarrow> testing_error + test_selection" where
  "select_declared env projects tests changed_project changed_source changed_path selected =
     fold_result (\<lambda>ctxt.
         fold_result (select_subject env ctxt changed_project changed_source changed_path)
           (configured_subjects projects ctxt))
       tests selected"

definition select_project_fallback ::
    "source_context list \<Rightarrow> project_id \<Rightarrow> string \<Rightarrow> evidence_kind \<Rightarrow> test_selection \<Rightarrow> test_selection" where
  "select_project_fallback tests project changed_path kind selected =
     fold (\<lambda>ctxt. insert_evidence ctxt (TestImpactEvidence changed_path kind None None))
       (filter (\<lambda>ctxt. sc_project ctxt = project) tests) selected"

definition select_workspace_fallback ::
    "source_context list \<Rightarrow> string \<Rightarrow> test_selection \<Rightarrow> test_selection" where
  "select_workspace_fallback tests changed_path selected =
     fold (\<lambda>ctxt. insert_evidence ctxt (TestImpactEvidence changed_path WorkspaceFallback None None))
       tests selected"

subsection \<open>Paths\<close>

definition normalize_changed_path :: "testing_env \<Rightarrow> string \<Rightarrow> string \<Rightarrow> string" where
  "normalize_changed_path env path repository_root =
     (if is_absolute path then normalize_relative_path (tv_diff_paths env) path repository_root
      else normalize_path path)"

definition files_where :: "'c source_graph \<Rightarrow> (source_file \<Rightarrow> bool) \<Rightarrow> node_id bset" where
  "files_where g p =
     bset_of (List.map_filter (\<lambda>(i, node).
         case node of
           FileNode file \<Rightarrow> if p file then Some i else None
         | SymbolNode _ \<Rightarrow> None) (sg_nodes g))"

definition at_repository_path :: "'c source_graph \<Rightarrow> string \<Rightarrow> source_file \<Rightarrow> bool" where
  "at_repository_path g path file \<longleftrightarrow>
     (case bmap_get (sg_projects g) (sf_project file) of
        None \<Rightarrow> False
      | Some project \<Rightarrow> repository_path (sp_root project) (sf_path file) = path)"

definition resolve_changed_files :: "'c source_graph \<Rightarrow> string \<Rightarrow> node_id bset" where
  "resolve_changed_files g path =
     (let repository_matches = files_where g (at_repository_path g path)
      in if repository_matches \<noteq> [] then repository_matches
         else
           let project_matches = files_where g (\<lambda>file. sf_path file = path);
               projects = bset_of (List.map_filter (\<lambda>i. map_option node_project (bmap_get (sg_nodes g) i))
                 project_matches)
           in if length projects = 1 then project_matches else [])"

text \<open>\<open>Iterator::max_by_key\<close> returns the last of several maximal elements.\<close>

definition max_by_key :: "('a \<Rightarrow> 'k::linorder) \<Rightarrow> 'a list \<Rightarrow> 'a option" where
  "max_by_key key xs =
     (case xs of
        [] \<Rightarrow> None
      | x # ys \<Rightarrow> Some (fold (\<lambda>y best. if key best \<le> key y then y else best) ys x))"

definition owned_source :: "resolved_project \<Rightarrow> string \<Rightarrow> string option" where
  "owned_source project path =
     (let root = trim_slashes (rp_report_root project)
      in if root = [] \<or> root = ''.'' then Some path
         else if path = root then Some []
         else strip_prefix (root @ ''/'') path)"

definition root_depth :: "resolved_project \<Rightarrow> nat" where
  "root_depth project = length (segments (trim_slashes (rp_report_root project)))"

definition owning_project :: "resolved_project list \<Rightarrow> string \<Rightarrow> (resolved_project \<times> string) option" where
  "owning_project projects path =
     map_option (\<lambda>(_, project, source). (project, source))
       (max_by_key (\<lambda>(depth, _, _). depth)
         (List.map_filter (\<lambda>project.
             map_option (\<lambda>source. (root_depth project, project, source)) (owned_source project path))
           projects))"

definition is_ambiguous_project_path :: "'c source_graph \<Rightarrow> string \<Rightarrow> bool" where
  "is_ambiguous_project_path g path \<longleftrightarrow>
     length (bset_of (List.map_filter (\<lambda>node.
         case node of
           FileNode file \<Rightarrow> if sf_path file = path then Some (sf_project file) else None
         | SymbolNode _ \<Rightarrow> None) (map snd (sg_nodes g)))) > 1"

definition workspace_control_files :: "string list" where
  "workspace_control_files =
     [''Cargo.lock'', ''Cargo.toml'', ''codeatlas.json'', ''deno.json'', ''deno.jsonc'',
      ''package-lock.json'', ''package.json'', ''Pipfile.lock'', ''poetry.lock'', ''pnpm-lock.yaml'',
      ''pnpm-workspace.yaml'', ''pyproject.toml'', ''rust-toolchain'', ''rust-toolchain.toml'',
      ''tsconfig.json'', ''uv.lock'', ''yarn.lock'']"

definition is_workspace_control_path :: "string \<Rightarrow> bool" where
  "is_workspace_control_path path \<longleftrightarrow>
     CHR ''/'' \<notin> set path
     \<and> (path \<in> set workspace_control_files
        \<or> starts_with ''tsconfig.'' path \<and> ends_with ''.json'' path
        \<or> starts_with ''requirements'' path \<and> ends_with ''.txt'' path)"

subsection \<open>The report\<close>

definition impacted_context :: "'c source_graph \<Rightarrow> source_context \<Rightarrow> test_impact_evidence bset \<Rightarrow> impacted_test_context" where
  "impacted_context g ctxt evidence =
     \<lparr>itc_id = sc_id ctxt, itc_name = sc_name ctxt,
      itc_roots = map (display_node g) (sc_roots ctxt), itc_evidence = evidence\<rparr>"

definition group_selected ::
    "'c source_graph \<Rightarrow> test_selection \<Rightarrow> (project_id, impacted_test_context list) bmap" where
  "group_selected g selected =
     fold (\<lambda>(context_id, evidence) by_project.
         case bmap_get (sg_contexts g) context_id of
           None \<Rightarrow> by_project
         | Some ctxt \<Rightarrow>
             bmap_entry (sc_project ctxt) [] (\<lambda>contexts. contexts @ [impacted_context g ctxt evidence])
               by_project)
       selected []"

definition impacted_project ::
    "testing_env \<Rightarrow> 'c source_graph \<Rightarrow> resolved_project list \<Rightarrow> project_id \<times> impacted_test_context list
     \<Rightarrow> impacted_test_project list \<Rightarrow> testing_error + impacted_test_project list" where
  "impacted_project env g projects x impacted =
     (case x of (project_id, contexts) \<Rightarrow>
        case find (\<lambda>p. rp_id p = project_id) projects of
          None \<Rightarrow> Inr impacted
        | Some project \<Rightarrow>
            and_then (scripts_for_project env project) (\<lambda>scripts.
              Inr (impacted @
                [\<lparr>itp_project = rp_id project, itp_root = rp_report_root project,
                  itp_confidence = project_confidence g (rp_id project),
                  itp_contexts = sort_key itc_name contexts, itp_scripts = scripts\<rparr>])))"

definition impacted_projects ::
    "testing_env \<Rightarrow> 'c source_graph \<Rightarrow> resolved_project list \<Rightarrow> test_selection
     \<Rightarrow> testing_error + impacted_test_project list" where
  "impacted_projects env g projects selected =
     and_then (fold_result (impacted_project env g projects) (group_selected g selected) [])
       (\<lambda>impacted. Inr (sort_key (\<lambda>p. (itp_root p, itp_project p)) impacted))"

type_synonym impact_state = "testing_impact_report \<times> test_selection"

definition push_changed :: "changed_path_impact \<Rightarrow> testing_impact_report \<Rightarrow> testing_impact_report" where
  "push_changed changed report = report\<lparr>tim_changed := tim_changed report @ [changed]\<rparr>"

definition impact_file ::
    "testing_env \<Rightarrow> 'c source_graph \<Rightarrow> resolved_project list \<Rightarrow> source_context list \<Rightarrow> reachability
     \<Rightarrow> string \<Rightarrow> node_id \<Rightarrow> source_file \<Rightarrow> impact_state \<Rightarrow> testing_error + impact_state" where
  "impact_file env g projects tests r path file_id file st =
     (case st of (report, selected) \<Rightarrow>
        and_then
          (select_declared env projects tests (sf_project file) (sf_path file) path
             (select_observed g r tests file_id path selected))
          (\<lambda>selected.
            let (complete, selected) =
                  (case project_confidence g (sf_project file) of
                     High \<Rightarrow> (tim_selection_complete report, selected)
                   | Medium \<Rightarrow>
                       (False, select_project_fallback tests (sf_project file) path ProjectFallback selected)
                   | Low \<Rightarrow> (False, select_workspace_fallback tests path selected))
            in Inr (push_changed
                 \<lparr>cpi_path = path, cpi_project = Some (sf_project file), cpi_source = Some (sf_path file),
                  cpi_resolution = ExactSource\<rparr> (report\<lparr>tim_selection_complete := complete\<rparr>),
                 selected)))"

definition impact_unresolved ::
    "testing_env \<Rightarrow> 'c source_graph \<Rightarrow> resolved_project list \<Rightarrow> source_context list
     \<Rightarrow> string \<Rightarrow> impact_state \<Rightarrow> testing_error + impact_state" where
  "impact_unresolved env g projects tests path st =
     (case st of (report0, selected) \<Rightarrow>
        let report = report0\<lparr>tim_selection_complete := False\<rparr>;
            workspace = (push_changed
              \<lparr>cpi_path = path, cpi_project = None, cpi_source = None,
               cpi_resolution = WorkspacePathFallback\<rparr> report,
              select_workspace_fallback tests path selected)
        in if is_workspace_control_path path \<or> is_ambiguous_project_path g path then Inr workspace
           else (case owning_project projects path of
                   None \<Rightarrow> Inr workspace
                 | Some (project, source) \<Rightarrow>
                     and_then (select_declared env projects tests (rp_id project) source path selected)
                       (\<lambda>selected. Inr
                         (push_changed
                            \<lparr>cpi_path = path, cpi_project = Some (rp_id project), cpi_source = Some source,
                             cpi_resolution = ProjectPathFallback\<rparr> report,
                          select_project_fallback tests (rp_id project) path ProjectFallback selected))))"

text \<open>\<open>UnreachableNode\<close> stands for the panics of \<open>graph.nodes[\<dots>]\<close> and \<open>unreachable!\<close>.\<close>

definition impact_path ::
    "testing_env \<Rightarrow> 'c source_graph \<Rightarrow> resolved_project list \<Rightarrow> source_context list \<Rightarrow> reachability
     \<Rightarrow> string \<times> node_id bset \<Rightarrow> impact_state \<Rightarrow> testing_error + impact_state" where
  "impact_path env g projects tests r x st =
     (case x of (path, files) \<Rightarrow>
        case files of
          [file_id] \<Rightarrow>
            (case bmap_get (sg_nodes g) file_id of
               Some (FileNode file) \<Rightarrow> impact_file env g projects tests r path file_id file st
             | _ \<Rightarrow> Inl (UnreachableNode file_id))
        | _ \<Rightarrow> impact_unresolved env g projects tests path st)"

definition changed_paths :: "testing_env \<Rightarrow> string \<Rightarrow> string list \<Rightarrow> string bset" where
  "changed_paths env repository_root changed =
     bset_of (map (\<lambda>path. normalize_changed_path env path repository_root) changed)"

definition impact_targets :: "(string \<times> node_id bset) list \<Rightarrow> node_id bset" where
  "impact_targets resolved =
     bset_of (concat (map snd (filter (\<lambda>(_, files). length files = 1) resolved)))"

definition analyze_impact ::
    "testing_env \<Rightarrow> 'c source_graph \<Rightarrow> resolved_project list \<Rightarrow> string \<Rightarrow> string list
     \<Rightarrow> testing_error + testing_impact_report" where
  "analyze_impact env g projects repository_root changed =
     (if changed = [] then Inl NoChangedPath
      else
        let tests = test_contexts_of g;
            resolved = map (\<lambda>path. (path, resolve_changed_files g path))
              (changed_paths env repository_root changed)
        in case analyze_targets g (impact_targets resolved) of
             Inl diagnostics \<Rightarrow> Inl (InvalidTestGraph (render_diagnostics diagnostics))
           | Inr r \<Rightarrow>
               and_then (fold_result (impact_path env g projects tests r) resolved
                   (testing_impact_report_new env, []))
                 (\<lambda>(report, selected).
                   and_then (impacted_projects env g projects selected) (\<lambda>impacted.
                     Inr (report\<lparr>tim_projects := impacted\<rparr>))))"

end
