(* ===== verification/TestImpactProps.thy ===== *)
theory TestImpactProps
  imports TestImpact ReachContract
begin

text \<open>
  What the impact report says: the evidence of a reported test context is exactly what the changed
  paths justify, read declaratively from the source graph. Every step of the selection grows the map
  of selected contexts by a known set of evidence, so the loops compose by union.
\<close>

subsection \<open>Steps that grow a selection\<close>

definition evidence_for :: "test_selection \<Rightarrow> context_id \<Rightarrow> test_impact_evidence set" where
  "evidence_for selected context_id = set (get_or_default selected context_id)"

definition grows :: "(context_id \<Rightarrow> test_impact_evidence set) \<Rightarrow> test_selection \<Rightarrow> test_selection \<Rightarrow> bool" where
  "grows added s t \<longleftrightarrow>
     (bmap_wf s \<longrightarrow> bmap_wf t) \<and> (\<forall>cid. evidence_for t cid = added cid \<union> evidence_for s cid)"

lemma grows_refl: "grows (\<lambda>_. {}) s s"
  by (simp add: grows_def)

lemma grows_trans: "grows A s t \<Longrightarrow> grows B t u \<Longrightarrow> grows (\<lambda>cid. A cid \<union> B cid) s u"
  by (auto simp: grows_def)

lemma grows_cong: "grows A s t \<Longrightarrow> (\<And>cid. A cid = B cid) \<Longrightarrow> grows B s t"
  by (simp add: grows_def)

lemma grows_insert:
  "grows (\<lambda>cid. if cid = sc_id ctxt then {e} else {}) s (insert_evidence ctxt e s)"
  by (auto simp: grows_def evidence_for_def insert_evidence_def get_or_default_def bmap_wf_entry
      split: option.splits)

lemma grows_fold:
  assumes "\<And>x s. x \<in> set xs \<Longrightarrow> grows (A x) s (f x s)"
  shows "grows (\<lambda>cid. \<Union>x \<in> set xs. A x cid) s (fold f xs s)"
  using assms
proof (induction xs arbitrary: s)
  case (Cons x xs)
  then have "grows (A x) s (f x s)" and "grows (\<lambda>cid. \<Union>x \<in> set xs. A x cid) (f x s) (fold f xs (f x s))"
    by simp_all
  then show ?case by (auto dest: grows_trans)
qed (simp add: grows_refl)

lemma grows_fold_result:
  assumes "\<And>x s t. x \<in> set xs \<Longrightarrow> f x s = Inr t \<Longrightarrow> grows (A x) (sel s) (sel t)"
    and "fold_result f xs s = Inr t"
  shows "grows (\<lambda>cid. \<Union>x \<in> set xs. A x cid) (sel s) (sel t)"
  using assms
proof (induction xs arbitrary: s)
  case (Cons x xs)
  then obtain u where u: "f x s = Inr u" "fold_result f xs u = Inr t"
    by (auto split: sum.splits)
  from Cons.prems(1) [OF _ u(1)] have "grows (A x) (sel s) (sel u)" by simp
  moreover from Cons.IH [OF Cons.prems(1) u(2)]
  have "grows (\<lambda>cid. \<Union>x \<in> set xs. A x cid) (sel u) (sel t)" by simp
  ultimately show ?case by (auto dest: grows_trans)
qed (simp add: grows_refl)

lemmas grows_steps = grows_insert grows_fold grows_trans

subsection \<open>The evidence that a changed path justifies\<close>

definition declared_evidence ::
    "testing_env \<Rightarrow> resolved_project list \<Rightarrow> source_context \<Rightarrow> project_id \<Rightarrow> string \<Rightarrow> string
     \<Rightarrow> test_impact_evidence set" where
  "declared_evidence env projects ctxt changed_project changed_source path =
     {TestImpactEvidence path DeclaredProject None (Some (''project:'' @ project)) | project.
        SubjectProject project \<in> set (configured_subjects projects ctxt) \<and> project = changed_project}
     \<union> {TestImpactEvidence path DeclaredSource None (Some (''source:'' @ pattern)) | pattern.
        SubjectSource pattern \<in> set (configured_subjects projects ctxt) \<and> sc_project ctxt = changed_project
        \<and> (\<exists>matcher. compile_subject env pattern (sc_id ctxt) = Inr matcher \<and> matcher changed_source)}"

definition fallback_evidence :: "string \<Rightarrow> evidence_kind \<Rightarrow> test_impact_evidence set" where
  "fallback_evidence path kind = {TestImpactEvidence path kind None None}"

definition observed_evidence ::
    "'c source_graph \<Rightarrow> source_context \<Rightarrow> node_id \<Rightarrow> string \<Rightarrow> test_impact_evidence set" where
  "observed_evidence g ctxt node path =
     {TestImpactEvidence path ObservedDependency (Some (display_node g (sc_roots ctxt ! i))) None | i.
        nearest_root g ctxt node i}"

definition file_evidence ::
    "testing_env \<Rightarrow> 'c source_graph \<Rightarrow> resolved_project list \<Rightarrow> source_context \<Rightarrow> string \<Rightarrow> node_id
     \<Rightarrow> source_file \<Rightarrow> test_impact_evidence set" where
  "file_evidence env g projects ctxt path node file =
     observed_evidence g ctxt node path
     \<union> declared_evidence env projects ctxt (sf_project file) (sf_path file) path
     \<union> (case project_confidence g (sf_project file) of
          High \<Rightarrow> {}
        | Medium \<Rightarrow>
            if sc_project ctxt = sf_project file then fallback_evidence path ProjectFallback else {}
        | Low \<Rightarrow> fallback_evidence path WorkspaceFallback)"

definition unresolved_evidence ::
    "testing_env \<Rightarrow> 'c source_graph \<Rightarrow> resolved_project list \<Rightarrow> source_context \<Rightarrow> string
     \<Rightarrow> test_impact_evidence set" where
  "unresolved_evidence env g projects ctxt path =
     (if is_workspace_control_path path \<or> is_ambiguous_project_path g path
         \<or> owning_project projects path = None
      then fallback_evidence path WorkspaceFallback
      else (case owning_project projects path of
              None \<Rightarrow> {}
            | Some (project, source) \<Rightarrow>
                declared_evidence env projects ctxt (rp_id project) source path
                \<union> (if sc_project ctxt = rp_id project then fallback_evidence path ProjectFallback else {})))"

definition path_evidence ::
    "testing_env \<Rightarrow> 'c source_graph \<Rightarrow> resolved_project list \<Rightarrow> source_context \<Rightarrow> string
     \<Rightarrow> test_impact_evidence set" where
  "path_evidence env g projects ctxt path =
     (case resolve_changed_files g path of
        [node] \<Rightarrow>
          (case bmap_get (sg_nodes g) node of
             Some (FileNode file) \<Rightarrow> file_evidence env g projects ctxt path node file
           | _ \<Rightarrow> {})
      | _ \<Rightarrow> unresolved_evidence env g projects ctxt path)"

text \<open>The evidence a set of tests gets, by context id.\<close>

definition by_context :: "source_context list \<Rightarrow> (source_context \<Rightarrow> test_impact_evidence set)
    \<Rightarrow> context_id \<Rightarrow> test_impact_evidence set" where
  "by_context tests A cid = (\<Union>ctxt \<in> {c \<in> set tests. sc_id c = cid}. A ctxt)"

lemma by_context_Un: "by_context tests A cid \<union> by_context tests B cid = by_context tests (\<lambda>c. A c \<union> B c) cid"
  by (auto simp: by_context_def)

lemma by_context_UN:
  "(\<Union>c \<in> set tests. \<Union>x \<in> X c. if cid = sc_id c then B c x else {}) =
     by_context tests (\<lambda>c. \<Union>x \<in> X c. B c x) cid"
proof -
  have "(\<Union>x \<in> X c. if cid = sc_id c then B c x else {}) =
      (if sc_id c = cid then \<Union>x \<in> X c. B c x else {})" for c
    by simp
  then show ?thesis unfolding by_context_def by auto
qed

lemma grows_none: "grows (by_context tests (\<lambda>_. {})) s s"
  by (simp add: grows_def by_context_def)

lemma grows_by_context:
  assumes "grows (\<lambda>cid. \<Union>c \<in> set tests. if cid = sc_id c then A c else {}) s t"
  shows "grows (by_context tests A) s t"
  by (rule grows_cong [OF assms]) (auto simp: by_context_def)

lemma grows_by_context_Un:
  "grows (by_context tests A) s t \<Longrightarrow> grows (by_context tests B) t u \<Longrightarrow>
     grows (by_context tests (\<lambda>c. A c \<union> B c)) s u"
  by (drule (1) grows_trans) (simp add: by_context_Un)

lemma grows_fallback:
  "grows (by_context tests (\<lambda>c. if P c then {e} else {})) s
     (fold (\<lambda>ctxt. insert_evidence ctxt e) (filter P tests) s)"
  by (rule grows_cong [OF grows_fold [where A = "\<lambda>c cid. if cid = sc_id c then {e} else {}"]])
    (auto simp: by_context_def grows_insert split: if_splits)

lemma grows_project_fallback:
  "grows (by_context tests (\<lambda>c. if sc_project c = project then fallback_evidence path kind else {})) s
     (select_project_fallback tests project path kind s)"
  unfolding select_project_fallback_def fallback_evidence_def by (rule grows_fallback)

lemma grows_workspace_fallback:
  "grows (by_context tests (\<lambda>c. fallback_evidence path WorkspaceFallback)) s
     (select_workspace_fallback tests path s)"
  using grows_fallback [of tests "\<lambda>_. True"]
  by (simp add: select_workspace_fallback_def fallback_evidence_def)

subsection \<open>What the selections add\<close>

definition contexts_keyed :: "'c source_graph \<Rightarrow> bool" where
  "contexts_keyed g \<longleftrightarrow>
     bmap_wf (sg_contexts g) \<and> (\<forall>(k, ctxt) \<in> set (sg_contexts g). k = sc_id ctxt)"

lemma contexts_keyed_get:
  "contexts_keyed g \<Longrightarrow> ctxt \<in> snd ` set (sg_contexts g) \<Longrightarrow> bmap_get (sg_contexts g) (sc_id ctxt) = Some ctxt"
  by (auto simp: contexts_keyed_def bmap_get_iff)

lemma contexts_keyed_unique:
  "contexts_keyed g \<Longrightarrow> c \<in> snd ` set (sg_contexts g) \<Longrightarrow> d \<in> snd ` set (sg_contexts g) \<Longrightarrow>
     sc_id c = sc_id d \<Longrightarrow> c = d"
  by (metis contexts_keyed_get option.inject)

lemma tests_are_contexts: "c \<in> set (test_contexts_of g) \<Longrightarrow> c \<in> snd ` set (sg_contexts g) \<and> sc_role c = Test"
  by (auto simp: test_contexts_of_def)

lemma target_reach:
  assumes "analyze_targets g targets = Inr r" and "t \<in> set targets" and "contexts_keyed g"
    and "ctxt \<in> snd ` set (sg_contexts g)"
  shows "(sc_id ctxt, root) \<in> set (roots_of r t) \<longleftrightarrow> (\<exists>i. nearest_root g ctxt t i \<and> sc_roots ctxt ! i = root)"
    and "sc_id ctxt \<in> set (contexts_of r t) \<longleftrightarrow> (\<exists>i. nearest_root g ctxt t i)"
proof -
  from assms(1) have full: "analyze g = Inr (analyze_validated g)"
    by (auto simp: analyze_targets_def analyze_def and_then_Inr)
  note unique = contexts_keyed_unique [OF assms(3) _ assms(4)]
  from targets_agree [OF full assms(1,2)]
  show "(sc_id ctxt, root) \<in> set (roots_of r t) \<longleftrightarrow> (\<exists>i. nearest_root g ctxt t i \<and> sc_roots ctxt ! i = root)"
    unfolding analyze_validated_set(3) [symmetric] using assms(4) unique
    by (metis analyze_validated_set(3))
  from targets_agree [OF full assms(1,2)]
  show "sc_id ctxt \<in> set (contexts_of r t) \<longleftrightarrow> (\<exists>i. nearest_root g ctxt t i)"
    unfolding nearest_root_exists using assms(4) unique by (metis analyze_validated_set(1))
qed

lemma grows_observed:
  assumes "analyze_targets g targets = Inr r" and "t \<in> set targets" and "contexts_keyed g"
    and tests: "set tests \<subseteq> snd ` set (sg_contexts g)"
  shows "grows (by_context tests (\<lambda>c. observed_evidence g c t path)) s (select_observed g r tests t path s)"
proof -
  let ?tests = "filter (\<lambda>c. sc_id c \<in> set (contexts_of r t)) tests"
  let ?e = "\<lambda>root. TestImpactEvidence path ObservedDependency (Some (display_node g root)) None"
  let ?roots = "\<lambda>c. filter (\<lambda>(context_id, _). context_id = sc_id c) (roots_of r t)"
  let ?A = "\<lambda>c cid. \<Union>x \<in> set (?roots c). if cid = sc_id c then {?e (snd x)} else {}"
  have reach: "(sc_id c, root) \<in> set (roots_of r t) \<longleftrightarrow> (\<exists>i. nearest_root g c t i \<and> sc_roots c ! i = root)"
      "sc_id c \<in> set (contexts_of r t) \<longleftrightarrow> (\<exists>i. nearest_root g c t i)" if "c \<in> set tests" for c root
    using target_reach [OF assms(1-3), of c] tests that by blast+
  have nonempty: "?roots c \<noteq> []" if "c \<in> set ?tests" for c
  proof -
    from that reach(2) obtain i where "nearest_root g c t i" by auto
    with that reach(1) [of c "sc_roots c ! i"] have "(sc_id c, sc_roots c ! i) \<in> set (?roots c)" by auto
    then show ?thesis by (metis empty_iff list.set(1))
  qed
  have inner: "grows (?A c) s (fold (\<lambda>(_, root). insert_evidence c (?e root)) (?roots c) s)" for c s
    by (rule grows_fold) (simp add: grows_insert split_beta)
  have "grows (\<lambda>cid. \<Union>c \<in> set ?tests. ?A c cid) s (select_observed g r tests t path s)"
    unfolding select_observed_def by (rule grows_fold) (use nonempty inner in \<open>simp add: Let_def\<close>)
  moreover have "(\<Union>c \<in> set ?tests. ?A c cid) = by_context tests (\<lambda>c. observed_evidence g c t path) cid" for cid
    using reach by (fastforce simp: by_context_def observed_evidence_def split: if_splits)
  ultimately show ?thesis by (rule grows_cong)
qed

lemma subject_selects_evidence:
  "subject_selects env c p source subject = Inr (True, kind, display) \<Longrightarrow>
     subject \<in> set (configured_subjects projects c) \<Longrightarrow>
     TestImpactEvidence path kind None (Some display) \<in> declared_evidence env projects c p source path"
  by (auto simp: subject_selects_def declared_evidence_def and_then_Inr split: test_subject.splits if_splits)

lemma grows_subject:
  assumes "select_subject env c p source path subject s = Inr t"
  shows "grows (\<lambda>cid. if cid = sc_id c then {e. \<exists>kind display. e = TestImpactEvidence path kind None (Some display)
      \<and> subject_selects env c p source subject = Inr (True, kind, display)} else {}) s t"
proof -
  from assms obtain b kind display where sel: "subject_selects env c p source subject = Inr (b, kind, display)"
    and t: "t = (if b then insert_evidence c (TestImpactEvidence path kind None (Some display)) s else s)"
    by (auto simp: select_subject_def and_then_Inr)
  show ?thesis
  proof (cases b)
    case True
    with grows_insert [of c "TestImpactEvidence path kind None (Some display)" s] show ?thesis
      unfolding t sel by (auto simp: grows_def split: if_splits)
  next
    case False
    with grows_refl [of s] show ?thesis unfolding t sel by (auto simp: grows_def split: if_splits)
  qed
qed

lemma grows_declared:
  assumes "select_declared env projects tests p source path s = Inr t"
  shows "grows (by_context tests (\<lambda>c. declared_evidence env projects c p source path)) s t"
proof -
  let ?one = "\<lambda>c subject. {e. \<exists>kind display. e = TestImpactEvidence path kind None (Some display)
      \<and> subject_selects env c p source subject = Inr (True, kind, display)}"
  let ?A = "\<lambda>c cid. \<Union>subject \<in> set (configured_subjects projects c).
      if cid = sc_id c then ?one c subject else {}"
  have inner: "grows (?A c) s t"
    if "fold_result (select_subject env c p source path) (configured_subjects projects c) s = Inr t" for c s t
    by (rule grows_fold_result [where sel = "\<lambda>s. s", OF _ that]) (rule grows_subject)
  have "grows (\<lambda>cid. \<Union>c \<in> set tests. ?A c cid) s t"
    by (rule grows_fold_result [where sel = "\<lambda>s. s", OF _ assms [unfolded select_declared_def]]) (rule inner)
  moreover have "(\<Union>subject \<in> set (configured_subjects projects c). ?one c subject)
      = declared_evidence env projects c p source path" for c
    by (auto simp: subject_selects_def declared_evidence_def and_then_Inr
        split: test_subject.splits if_splits)
  then have "(\<Union>c \<in> set tests. ?A c cid)
      = by_context tests (\<lambda>c. declared_evidence env projects c p source path) cid" for cid
    unfolding by_context_UN by simp
  ultimately show ?thesis by (rule grows_cong)
qed

lemma files_where_file:
  assumes "bmap_wf (sg_nodes g)" and "i \<in> set (files_where g p)"
  shows "\<exists>f. bmap_get (sg_nodes g) i = Some (FileNode f) \<and> p f"
  using assms by (auto simp: files_where_def set_map_filter bmap_get_iff split: source_node.splits if_splits)

lemma resolved_file:
  assumes "bmap_wf (sg_nodes g)" and "i \<in> set (resolve_changed_files g path)"
  shows "\<exists>f. bmap_get (sg_nodes g) i = Some (FileNode f)"
  using assms(2) files_where_file [OF assms(1)]
  by (auto simp: resolve_changed_files_def Let_def split: if_splits)

lemma grows_file:
  assumes "analyze_targets g targets = Inr r" and "node \<in> set targets" and "contexts_keyed g"
    and "set tests \<subseteq> snd ` set (sg_contexts g)"
    and "impact_file env g projects tests r path node file st = Inr st'"
  shows "grows (by_context tests (\<lambda>c. file_evidence env g projects c path node file)) (snd st) (snd st')"
proof -
  obtain report s where st: "st = (report, s)" by (cases st)
  note observed = grows_observed [OF assms(1-4), of path s]
  from assms(5) obtain u where u: "select_declared env projects tests (sf_project file) (sf_path file) path
        (select_observed g r tests node path s) = Inr u"
    and st': "snd st' = (case project_confidence g (sf_project file) of
        High \<Rightarrow> u
      | Medium \<Rightarrow> select_project_fallback tests (sf_project file) path ProjectFallback u
      | Low \<Rightarrow> select_workspace_fallback tests path u)"
    by (cases "project_confidence g (sf_project file)") (auto simp: impact_file_def st and_then_Inr)
  note declared = grows_by_context_Un [OF observed grows_declared [OF u]]
  have "grows (by_context tests (\<lambda>c. case project_confidence g (sf_project file) of
      High \<Rightarrow> {}
    | Medium \<Rightarrow> if sc_project c = sf_project file then fallback_evidence path ProjectFallback else {}
    | Low \<Rightarrow> fallback_evidence path WorkspaceFallback)) u (snd st')"
    unfolding st'
    by (cases "project_confidence g (sf_project file)")
      (simp_all only: finding_confidence.case grows_project_fallback grows_workspace_fallback grows_none)
  from grows_by_context_Un [OF declared this] show ?thesis
    by (simp add: st file_evidence_def)
qed

lemma grows_unresolved:
  assumes "impact_unresolved env g projects tests path st = Inr st'"
  shows "grows (by_context tests (\<lambda>c. unresolved_evidence env g projects c path)) (snd st) (snd st')"
proof -
  obtain report s where st: "st = (report, s)" by (cases st)
  show ?thesis
  proof (cases "is_workspace_control_path path \<or> is_ambiguous_project_path g path
      \<or> owning_project projects path = None")
    case True
    with assms have "snd st' = select_workspace_fallback tests path s"
      by (auto simp: impact_unresolved_def st Let_def split: if_splits)
    with True show ?thesis
      using grows_workspace_fallback [of tests path s] by (simp add: st unresolved_evidence_def)
  next
    case False
    then obtain project source where own: "owning_project projects path = Some (project, source)" by auto
    with False assms obtain u where u: "select_declared env projects tests (rp_id project) source path s = Inr u"
      and st': "snd st' = select_project_fallback tests (rp_id project) path ProjectFallback u"
      by (auto simp: impact_unresolved_def st Let_def and_then_Inr split: if_splits)
    from grows_by_context_Un [OF grows_declared [OF u] grows_project_fallback]
    show ?thesis using False by (simp add: st st' own unresolved_evidence_def)
  qed
qed

lemma grows_path:
  assumes "analyze_targets g targets = Inr r" and "\<And>node. files = [node] \<Longrightarrow> node \<in> set targets"
    and "contexts_keyed g" and "set tests \<subseteq> snd ` set (sg_contexts g)"
    and files: "files = resolve_changed_files g path"
    and step: "impact_path env g projects tests r (path, files) st = Inr st'"
  shows "grows (by_context tests (\<lambda>c. path_evidence env g projects c path)) (snd st) (snd st')"
proof (cases "\<exists>node. files = [node]")
  case True
  then obtain node where node: "files = [node]" ..
  with step obtain f where "bmap_get (sg_nodes g) node = Some (FileNode f)"
    and "impact_file env g projects tests r path node f st = Inr st'"
    by (auto simp: impact_path_def split: option.splits source_node.splits)
  with grows_file [OF assms(1) assms(2) [OF node] assms(3,4)] show ?thesis
    using node by (simp add: path_evidence_def files)
next
  case False
  with step have "impact_unresolved env g projects tests path st = Inr st'"
    by (auto simp: impact_path_def split: list.splits)
  moreover from False have "path_evidence env g projects c path = unresolved_evidence env g projects c path" for c
    by (auto simp: path_evidence_def files split: list.splits)
  ultimately show ?thesis using grows_unresolved by simp
qed

subsection \<open>The report\<close>

lemma group_selected_set:
  "c \<in> set (get_or_default (group_selected g selected) project) \<longleftrightarrow>
     (\<exists>(context_id, evidence) \<in> set selected. \<exists>ctxt. bmap_get (sg_contexts g) context_id = Some ctxt
        \<and> sc_project ctxt = project \<and> c = impacted_context g ctxt evidence)"
proof -
  let ?f = "\<lambda>(context_id, evidence) by_project.
      case bmap_get (sg_contexts g) context_id of
        None \<Rightarrow> by_project
      | Some ctxt \<Rightarrow> bmap_entry (sc_project ctxt) [] (\<lambda>contexts. contexts @ [impacted_context g ctxt evidence]) by_project"
  have "c \<in> set (get_or_default (fold ?f xs m) project) \<longleftrightarrow>
     c \<in> set (get_or_default m project)
     \<or> (\<exists>(context_id, evidence) \<in> set xs. \<exists>ctxt. bmap_get (sg_contexts g) context_id = Some ctxt
        \<and> sc_project ctxt = project \<and> c = impacted_context g ctxt evidence)" for xs m
    by (induction xs arbitrary: m)
      (auto simp: get_or_default_def split: prod.splits option.splits if_splits)
  from this [of selected "[]"] show ?thesis
    unfolding group_selected_def by (simp add: get_or_default_def)
qed

lemma group_selected_wf: "bmap_wf (group_selected g selected)"
proof -
  have "bmap_wf m \<Longrightarrow> bmap_wf (fold (\<lambda>(context_id, evidence) by_project.
      case bmap_get (sg_contexts g) context_id of
        None \<Rightarrow> by_project
      | Some ctxt \<Rightarrow> bmap_entry (sc_project ctxt) [] (\<lambda>contexts. contexts @ [impacted_context g ctxt evidence]) by_project)
      xs m)" for xs m
    by (induction xs arbitrary: m) (auto simp: bmap_wf_entry split: option.split)
  then show ?thesis by (simp add: group_selected_def)
qed

lemma fold_impacted_project:
  assumes "fold_result (impacted_project env g projects) groups impacted = Inr result"
  shows "p \<in> set result \<longleftrightarrow> p \<in> set impacted
    \<or> (\<exists>(project_id, contexts) \<in> set groups. \<exists>project scripts.
        find (\<lambda>p. rp_id p = project_id) projects = Some project
        \<and> scripts_for_project env project = Inr scripts
        \<and> p = \<lparr>itp_project = rp_id project, itp_root = rp_report_root project,
               itp_confidence = project_confidence g (rp_id project),
               itp_contexts = sort_key itc_name contexts, itp_scripts = scripts\<rparr>)"
  using assms
proof (induction groups arbitrary: impacted)
  case (Cons x groups)
  obtain project_id contexts where x: "x = (project_id, contexts)" by (cases x)
  from Cons.prems obtain u where u: "impacted_project env g projects x impacted = Inr u"
    and rest: "fold_result (impacted_project env g projects) groups u = Inr result"
    by (auto split: sum.splits)
  show ?case unfolding Cons.IH [OF rest] using u
    by (auto simp: x impacted_project_def and_then_Inr split: option.splits)
qed simp

lemma completeness_step:
  assumes "impact_path env g projects tests r (path, files) st = Inr st'"
  shows "tim_selection_complete (fst st') \<longleftrightarrow> tim_selection_complete (fst st)
    \<and> (\<exists>node f. files = [node] \<and> bmap_get (sg_nodes g) node = Some (FileNode f)
         \<and> project_confidence g (sf_project f) = High)"
proof -
  obtain report s where st: "st = (report, s)" by (cases st)
  show ?thesis
  proof (cases "\<exists>node. files = [node]")
    case True
    with assms show ?thesis
      by (auto simp: impact_path_def impact_file_def push_changed_def st and_then_Inr Let_def
          split: option.splits source_node.splits prod.splits finding_confidence.splits)
  next
    case False
    with assms have "impact_unresolved env g projects tests path st = Inr st'"
      by (auto simp: impact_path_def split: list.splits)
    with False show ?thesis
      by (auto simp: impact_unresolved_def push_changed_def st and_then_Inr Let_def
          split: if_splits option.splits)
  qed
qed

lemma completeness_fold:
  assumes "fold_result (impact_path env g projects tests r) resolved st = Inr st'"
  shows "tim_selection_complete (fst st') \<longleftrightarrow> tim_selection_complete (fst st)
    \<and> (\<forall>(path, files) \<in> set resolved. \<exists>node f. files = [node]
         \<and> bmap_get (sg_nodes g) node = Some (FileNode f) \<and> project_confidence g (sf_project f) = High)"
  using assms
proof (induction resolved arbitrary: st)
  case (Cons x resolved)
  obtain path files where x: "x = (path, files)" by (cases x)
  from Cons.prems obtain u where u: "impact_path env g projects tests r (path, files) st = Inr u"
    and rest: "fold_result (impact_path env g projects tests r) resolved u = Inr st'"
    by (auto simp: x split: sum.splits)
  show ?case unfolding Cons.IH [OF rest] completeness_step [OF u] x by auto
qed simp

definition reported :: "testing_impact_report \<Rightarrow> source_context \<Rightarrow> test_impact_evidence \<Rightarrow> bool" where
  "reported report ctxt e \<longleftrightarrow>
     (\<exists>p \<in> set (tim_projects report). itp_project p = sc_project ctxt
        \<and> (\<exists>c \<in> set (itp_contexts p). itc_id c = sc_id ctxt \<and> e \<in> set (itc_evidence c)))"

lemma analyze_impact_parts:
  assumes "analyze_impact env g projects root changed = Inr report"
  obtains r report0 selected impacted where
    "analyze_targets g (impact_targets (map (\<lambda>path. (path, resolve_changed_files g path))
       (changed_paths env root changed))) = Inr r"
    "fold_result (impact_path env g projects (test_contexts_of g) r)
       (map (\<lambda>path. (path, resolve_changed_files g path)) (changed_paths env root changed))
       (testing_impact_report_new env, []) = Inr (report0, selected)"
    "impacted_projects env g projects selected = Inr impacted"
    "report = report0\<lparr>tim_projects := impacted\<rparr>"
  using assms by (auto simp: analyze_impact_def and_then_Inr Let_def split: if_splits sum.splits)

lemma reported_selected:
  assumes "impacted_projects env g projects selected = Inr impacted" and "bmap_wf selected"
    and keyed: "contexts_keyed g" and ctxt: "ctxt \<in> snd ` set (sg_contexts g)"
    and project: "find (\<lambda>p. rp_id p = sc_project ctxt) projects = Some project"
  shows "reported (report\<lparr>tim_projects := impacted\<rparr>) ctxt e \<longleftrightarrow> e \<in> evidence_for selected (sc_id ctxt)"
proof -
  from assms(1) obtain result where result:
      "fold_result (impacted_project env g projects) (group_selected g selected) [] = Inr result"
    and impacted: "set impacted = set result"
    by (auto simp: impacted_projects_def and_then_Inr)
  have scripts: "\<exists>scripts. scripts_for_project env project = Inr scripts"
    if "(sc_project ctxt, contexts) \<in> set (group_selected g selected)" for contexts
  proof -
    have "\<exists>s t. impacted_project env g projects x s = Inr t"
      if "fold_result (impacted_project env g projects) xs s = Inr t" "x \<in> set xs" for xs x s t
      using that by (induction xs arbitrary: s) (auto split: sum.splits)
    from this [OF result that] project show ?thesis
      by (auto simp: impacted_project_def and_then_Inr)
  qed
  have id: "rp_id project = sc_project ctxt"
    using project by (metis (mono_tags, lifting) find_Some_iff)
  have "reported (report\<lparr>tim_projects := impacted\<rparr>) ctxt e \<longleftrightarrow>
      (\<exists>c \<in> set (get_or_default (group_selected g selected) (sc_project ctxt)).
         itc_id c = sc_id ctxt \<and> e \<in> set (itc_evidence c))"
    (is "?reported \<longleftrightarrow> ?grouped")
  proof
    assume ?reported
    then obtain contexts c where "(sc_project ctxt, contexts) \<in> set (group_selected g selected)"
      and "c \<in> set contexts" "itc_id c = sc_id ctxt" "e \<in> set (itc_evidence c)"
      unfolding reported_def using fold_impacted_project [OF result]
      by (auto simp: impacted find_Some_iff)
    then show ?grouped using group_selected_wf [of g selected]
      by (auto simp: get_or_default_def bmap_get_iff [symmetric])
  next
    assume ?grouped
    then obtain contexts c where group: "(sc_project ctxt, contexts) \<in> set (group_selected g selected)"
      and c: "c \<in> set contexts" "itc_id c = sc_id ctxt" "e \<in> set (itc_evidence c)"
      by (cases "bmap_get (group_selected g selected) (sc_project ctxt)")
        (auto simp: get_or_default_def dest: bmap_get_SomeD)
    from scripts [OF group] obtain scripts where "scripts_for_project env project = Inr scripts" ..
    with group project have "\<lparr>itp_project = rp_id project, itp_root = rp_report_root project,
        itp_confidence = project_confidence g (rp_id project),
        itp_contexts = sort_key itc_name contexts, itp_scripts = scripts\<rparr> \<in> set impacted"
      unfolding impacted fold_impacted_project [OF result] by blast
    with c id show ?reported unfolding reported_def by force
  qed
  also have "\<dots> \<longleftrightarrow> (\<exists>evidence. (sc_id ctxt, evidence) \<in> set selected \<and> e \<in> set evidence)"
  proof -
    have id: "bmap_get (sg_contexts g) k = Some d \<Longrightarrow> k = sc_id d" for k d
      using keyed by (auto simp: contexts_keyed_def dest: bmap_get_SomeD)
    have itself: "bmap_get (sg_contexts g) (sc_id ctxt) = Some ctxt"
      by (rule contexts_keyed_get [OF keyed ctxt])
    show ?thesis
    proof
      assume ?grouped
      then obtain c where "c \<in> set (get_or_default (group_selected g selected) (sc_project ctxt))"
        and "itc_id c = sc_id ctxt" "e \<in> set (itc_evidence c)" by blast
      then obtain k ev d where "(k, ev) \<in> set selected" "bmap_get (sg_contexts g) k = Some d"
        and "sc_id d = sc_id ctxt" "e \<in> set ev"
        unfolding group_selected_set by (auto simp: impacted_context_def)
      with id [of k d] show "\<exists>ev. (sc_id ctxt, ev) \<in> set selected \<and> e \<in> set ev" by auto
    next
      assume "\<exists>ev. (sc_id ctxt, ev) \<in> set selected \<and> e \<in> set ev"
      then obtain ev where "(sc_id ctxt, ev) \<in> set selected" and "e \<in> set ev" by blast
      moreover from this itself have "impacted_context g ctxt ev
          \<in> set (get_or_default (group_selected g selected) (sc_project ctxt))"
        unfolding group_selected_set by (intro bexI [of _ "(sc_id ctxt, ev)"]) auto
      ultimately show ?grouped by (force simp: impacted_context_def)
    qed
  qed
  also have "\<dots> \<longleftrightarrow> e \<in> evidence_for selected (sc_id ctxt)"
    by (cases "bmap_get selected (sc_id ctxt)")
      (auto simp: evidence_for_def get_or_default_def bmap_get_iff [OF assms(2), symmetric])
  finally show ?thesis .
qed

lemma resolved_targets:
  "(path, [node]) \<in> set resolved \<Longrightarrow> node \<in> set (impact_targets resolved)"
  by (force simp: impact_targets_def)

lemma impact_evidence:
  assumes "analyze_impact env g projects root changed = Inr report"
    and "contexts_keyed g" and "ctxt \<in> set (test_contexts_of g)"
    and "find (\<lambda>p. rp_id p = sc_project ctxt) projects = Some project"
  shows "reported report ctxt e \<longleftrightarrow>
    (\<exists>path \<in> set (changed_paths env root changed). e \<in> path_evidence env g projects ctxt path)"
proof -
  let ?resolved = "map (\<lambda>path. (path, resolve_changed_files g path)) (changed_paths env root changed)"
  let ?tests = "test_contexts_of g"
  obtain r report0 selected impacted where targets: "analyze_targets g (impact_targets ?resolved) = Inr r"
    and run: "fold_result (impact_path env g projects ?tests r) ?resolved
        (testing_impact_report_new env, []) = Inr (report0, selected)"
    and impacted: "impacted_projects env g projects selected = Inr impacted"
    and report: "report = report0\<lparr>tim_projects := impacted\<rparr>"
    by (rule analyze_impact_parts [OF assms(1)])
  have tests: "set ?tests \<subseteq> snd ` set (sg_contexts g)"
    using tests_are_contexts by blast
  have step: "grows (by_context ?tests (\<lambda>c. path_evidence env g projects c (fst x))) (snd st) (snd st')"
    if "x \<in> set ?resolved" and "impact_path env g projects ?tests r x st = Inr st'" for x st st'
  proof -
    from that(1) obtain path where x: "x = (path, resolve_changed_files g path)" by auto
    have "node \<in> set (impact_targets ?resolved)" if "resolve_changed_files g path = [node]" for node
      using resolved_targets [of path node ?resolved] \<open>x \<in> set ?resolved\<close> that by (simp add: x)
    from grows_path [OF targets this assms(2) tests refl that(2) [unfolded x]] show ?thesis
      by (simp add: x)
  qed
  have all: "grows (\<lambda>cid. \<Union>x \<in> set ?resolved. by_context ?tests (\<lambda>c. path_evidence env g projects c (fst x)) cid)
      [] selected"
    using grows_fold_result [where sel = snd and A = "\<lambda>x. by_context ?tests (\<lambda>c. path_evidence env g projects c (fst x))",
        OF _ run] step
    by (simp only: snd_conv)
  have ctxt: "ctxt \<in> snd ` set (sg_contexts g)" using tests assms(3) by blast
  have "by_context ?tests A (sc_id ctxt) = A ctxt" for A
    using assms(3) tests contexts_keyed_unique [OF assms(2) _ ctxt] by (auto simp: by_context_def)
  with all have "evidence_for selected (sc_id ctxt) =
      (\<Union>path \<in> set (changed_paths env root changed). path_evidence env g projects ctxt path)"
    by (simp add: grows_def evidence_for_def get_or_default_def)
  moreover from all have "bmap_wf selected" by (simp add: grows_def)
  ultimately show ?thesis
    by (simp add: report reported_selected [OF impacted _ assms(2) ctxt assms(4)])
qed

text \<open>C18: The evidence an impact report gives for a test context is exactly what the changed paths
  justify: for a path that is one source file, the context's nearest root that reaches the file, the
  subjects it declares that cover it, and the fallback of its project's confidence; for any other path
  the declared subjects and the fallback of the project that owns it, or else of the workspace.\<close>

theorem impact_evidence_is_exact:
  assumes "analyze_impact env g projects root changed = Inr report"
    and "contexts_keyed g" and "ctxt \<in> set (test_contexts_of g)"
    and "find (\<lambda>p. rp_id p = sc_project ctxt) projects = Some project"
  shows "reported report ctxt e \<longleftrightarrow>
    (\<exists>path \<in> set (changed_paths env root changed). e \<in> path_evidence env g projects ctxt path)"
  by (rule impact_evidence [OF assms])

lemma evidence_paths:
  "e \<in> fallback_evidence path kind \<Longrightarrow> tie_changed_path e = path"
  "e \<in> observed_evidence g ctxt node path \<Longrightarrow> tie_changed_path e = path"
  "e \<in> declared_evidence env projects ctxt project source path \<Longrightarrow> tie_changed_path e = path"
  by (auto simp: fallback_evidence_def observed_evidence_def declared_evidence_def)

lemma path_evidence_path:
  assumes "e \<in> path_evidence env g projects ctxt path"
  shows "tie_changed_path e = path"
proof -
  have unresolved: "e \<in> unresolved_evidence env g projects ctxt path \<Longrightarrow> tie_changed_path e = path"
    unfolding unresolved_evidence_def by (auto split: if_splits dest: evidence_paths)
  have "e \<in> file_evidence env g projects ctxt path node f \<Longrightarrow> tie_changed_path e = path" for node f
    unfolding file_evidence_def
    by (cases "project_confidence g (sf_project f)") (auto split: if_splits dest: evidence_paths)
  with unresolved assms show ?thesis
    unfolding path_evidence_def by (auto split: list.splits option.splits source_node.splits)
qed

text \<open>C19: When the report says its selection is complete, every changed path is one source file of a
  project analysed with high confidence, and every test context that reaches the file is reported with
  a root from which the file is observed.\<close>

theorem complete_selection_misses_no_test:
  assumes "analyze_impact env g projects root changed = Inr report" and "tim_selection_complete report"
    and "contexts_keyed g" and "path \<in> set (changed_paths env root changed)"
    and "ctxt \<in> set (test_contexts_of g)"
    and "find (\<lambda>p. rp_id p = sc_project ctxt) projects = Some project"
  shows "\<exists>node f. resolve_changed_files g path = [node] \<and> bmap_get (sg_nodes g) node = Some (FileNode f)
    \<and> project_confidence g (sf_project f) = High
    \<and> ((\<exists>witness. reported report ctxt (TestImpactEvidence path ObservedDependency (Some witness) None))
       \<longleftrightarrow> context_reaches g ctxt node)"
proof -
  obtain r report0 selected impacted where
      run: "fold_result (impact_path env g projects (test_contexts_of g) r)
        (map (\<lambda>path. (path, resolve_changed_files g path)) (changed_paths env root changed))
        (testing_impact_report_new env, []) = Inr (report0, selected)"
    and report: "report = report0\<lparr>tim_projects := impacted\<rparr>"
    by (rule analyze_impact_parts [OF assms(1)])
  from completeness_fold [OF run] assms(2,4) obtain node f where node: "resolve_changed_files g path = [node]"
    and f: "bmap_get (sg_nodes g) node = Some (FileNode f)" "project_confidence g (sf_project f) = High"
    by (auto simp: report)
  have changed: "tie_changed_path e = q" if "e \<in> path_evidence env g projects ctxt q" for e q
    using that by (rule path_evidence_path)
  have exact: "reported report ctxt (TestImpactEvidence path kind witness subject) \<longleftrightarrow>
      TestImpactEvidence path kind witness subject \<in> path_evidence env g projects ctxt path"
    for kind witness subject
    using impact_evidence [OF assms(1,3,5,6)] changed assms(4) by fastforce
  have "TestImpactEvidence path ObservedDependency (Some witness) None \<in> path_evidence env g projects ctxt path
      \<longleftrightarrow> (\<exists>i. nearest_root g ctxt node i \<and> witness = display_node g (sc_roots ctxt ! i))" for witness
    by (auto simp: path_evidence_def node f file_evidence_def observed_evidence_def declared_evidence_def)
  then show ?thesis
    unfolding exact using node f nearest_root_exists [of g ctxt node] by blast
qed

subsection \<open>A repository on which the properties are used\<close>

definition sample_testing_env :: testing_env where
  "sample_testing_env =
     \<lparr>tv_version = ''1'', tv_glob = (\<lambda>pattern. Some (\<lambda>path. path = pattern)),
      tv_read_scripts = (\<lambda>root. Some [(''test'', ''vitest run'')]), tv_diff_paths = (\<lambda>_ _. None)\<rparr>"

definition sample_project :: "string \<Rightarrow> string \<Rightarrow> resolved_project" where
  "sample_project i root = \<lparr>rp_id = i, rp_root = root, rp_report_root = root, rp_contexts = []\<rparr>"

definition tested_graph :: "unit source_graph" where
  "tested_graph = sample_graph\<lparr>sg_contexts := [(''c'', sample_context\<lparr>sc_role := Test\<rparr>)]\<rparr>"

definition tested_report :: testing_impact_report where
  "tested_report =
     \<lparr>tim_schema_version = 1, tim_tool_version = ''1'', tim_selection_complete = True,
      tim_changed = [\<lparr>cpi_path = ''b.rs'', cpi_project = Some ''p'', cpi_source = Some ''b.rs'',
                       cpi_resolution = ExactSource\<rparr>],
      tim_projects =
        [\<lparr>itp_project = ''p'', itp_root = ''.'', itp_confidence = High,
          itp_contexts = [\<lparr>itc_id = ''c'', itc_name = ''main'', itc_roots = [''a.rs''],
            itc_evidence = [TestImpactEvidence ''b.rs'' ObservedDependency (Some ''a.rs'') None]\<rparr>],
          itp_scripts = [\<lparr>tsi_name = ''test'', tsi_command = ''vitest run'', tsi_runners = [Vitest],
                          tsi_no_op = False, tsi_allows_empty = False\<rparr>]\<rparr>]\<rparr>"

lemma tested_run:
  "analyze_impact sample_testing_env tested_graph [sample_project ''p'' ''.''] ''/repo'' [''./b.rs''] = Inr tested_report"
  by code_simp

lemma tested_facts:
  "contexts_keyed tested_graph"
  "sample_context\<lparr>sc_role := Test\<rparr> \<in> set (test_contexts_of tested_graph)"
  "changed_paths sample_testing_env ''/repo'' [''./b.rs''] = [''b.rs'']"
  "find (\<lambda>p. rp_id p = sc_project (sample_context\<lparr>sc_role := Test\<rparr>)) [sample_project ''p'' ''.'']
     = Some (sample_project ''p'' ''.'')"
  by (simp_all add: contexts_keyed_def tested_graph_def sample_context_def test_contexts_of_def bmap_wf_def
      sample_project_def) code_simp

theorem impact_evidence_is_exact_witness:
  "TestImpactEvidence ''b.rs'' ObservedDependency (Some ''a.rs'') None
     \<in> path_evidence sample_testing_env tested_graph [sample_project ''p'' ''.'']
         (sample_context\<lparr>sc_role := Test\<rparr>) ''b.rs''"
proof -
  have "reported tested_report (sample_context\<lparr>sc_role := Test\<rparr>)
      (TestImpactEvidence ''b.rs'' ObservedDependency (Some ''a.rs'') None)"
    by (simp add: reported_def tested_report_def sample_context_def)
  with impact_evidence_is_exact [OF tested_run tested_facts(1,2,4)] show ?thesis
    by (simp add: tested_facts(3))
qed

theorem complete_selection_misses_no_test_witness:
  "context_reaches tested_graph (sample_context\<lparr>sc_role := Test\<rparr>) ''b''"
proof -
  have "reported tested_report (sample_context\<lparr>sc_role := Test\<rparr>)
      (TestImpactEvidence ''b.rs'' ObservedDependency (Some ''a.rs'') None)"
    by (simp add: reported_def tested_report_def sample_context_def)
  moreover have "resolve_changed_files tested_graph ''b.rs'' = [''b'']" by code_simp
  moreover have "tim_selection_complete tested_report" by (simp add: tested_report_def)
  ultimately show ?thesis
    using complete_selection_misses_no_test [OF tested_run _ tested_facts(1) _ tested_facts(2,4), of "''b.rs''"]
    by (auto simp: tested_facts(3))
qed

text \<open>A file of a one-segment project is attributed to the repository root when that one is configured
  later: both roots have depth one, and the last of equally deep projects is taken.\<close>

theorem root_project_can_own_a_member_path:
  "owning_project [sample_project ''app'' ''app'', sample_project ''root'' ''.''] ''app/new.ts''
     = Some (sample_project ''root'' ''.'', ''app/new.ts'')
   \<and> owning_project [sample_project ''root'' ''.'', sample_project ''app'' ''app''] ''app/new.ts''
     = Some (sample_project ''app'' ''app'', ''new.ts'')"
  by code_simp

end
