(* ===== verification/TestWitnessProps.thy ===== *)
theory TestWitnessProps
  imports TestWitnesses TestImpactProps
begin

text \<open>
  What the witness report says, read declaratively from the source graph: which symbols it lists, what
  the status of one means, and which test contexts are detached.
\<close>

definition surface_symbol_at :: "'c source_graph \<Rightarrow> node_id \<Rightarrow> 'c source_symbol \<Rightarrow> source_file \<Rightarrow> bool" where
  "surface_symbol_at g n symbol f \<longleftrightarrow>
     bmap_get (sg_nodes g) n = Some (SymbolNode symbol) \<and> ss_visibility symbol = VisPublic
     \<and> bmap_get (sg_nodes g) (ss_file symbol) = Some (FileNode f)
     \<and> (\<exists>ctxt \<in> snd ` set (sg_contexts g). sc_role ctxt = Production \<and> sc_scope ctxt = PublicSurface
          \<and> context_reaches g ctxt n)"

definition test_reaches :: "'c source_graph \<Rightarrow> source_context \<Rightarrow> node_id \<Rightarrow> bool" where
  "test_reaches g ctxt n \<longleftrightarrow> ctxt \<in> set (test_contexts_of g) \<and> context_reaches g ctxt n"

definition subject_covers ::
    "testing_env \<Rightarrow> source_context \<Rightarrow> test_subject \<Rightarrow> project_id \<Rightarrow> string \<Rightarrow> bool" where
  "subject_covers env ctxt subject project source \<longleftrightarrow>
     (case subject of
        SubjectProject p \<Rightarrow> p = project
      | SubjectSource pattern \<Rightarrow> sc_project ctxt = project
          \<and> (\<exists>glob. compile_subject env pattern (sc_id ctxt) = Inr glob \<and> glob source))"

definition declared_covers ::
    "testing_env \<Rightarrow> 'c source_graph \<Rightarrow> resolved_project list \<Rightarrow> project_id \<Rightarrow> string \<Rightarrow> bool" where
  "declared_covers env g projects project source \<longleftrightarrow>
     (\<exists>ctxt \<in> set (test_contexts_of g). \<exists>subject \<in> set (configured_subjects projects ctxt).
        subject_covers env ctxt subject project source)"

lemma full_reach:
  assumes "contexts_keyed g" and "ctxt \<in> snd ` set (sg_contexts g)"
  shows "sc_id ctxt \<in> set (contexts_of (analyze_validated g) n) \<longleftrightarrow> context_reaches g ctxt n"
    and "(sc_id ctxt, root) \<in> set (roots_of (analyze_validated g) n) \<longleftrightarrow>
      (\<exists>i. nearest_root g ctxt n i \<and> sc_roots ctxt ! i = root)"
  using assms contexts_keyed_unique [OF assms(1) _ assms(2)] unfolding analyze_validated_set by metis+

lemma surface_symbol_iff:
  assumes "contexts_keyed g" and "bmap_wf (sg_nodes g)" and "(n, node) \<in> set (sg_nodes g)"
  shows "surface_symbol g (analyze_validated g) (n, node) = Some (symbol, f) \<longleftrightarrow>
    node = SymbolNode symbol \<and> surface_symbol_at g n symbol f"
proof -
  have node: "bmap_get (sg_nodes g) n = Some node" using assms(2,3) by (simp add: bmap_get_iff)
  have surface: "list_ex (\<lambda>c. c \<in> set (public_surface_contexts g)) (contexts_of (analyze_validated g) n) \<longleftrightarrow>
      (\<exists>ctxt \<in> snd ` set (sg_contexts g). sc_role ctxt = Production \<and> sc_scope ctxt = PublicSurface
          \<and> context_reaches g ctxt n)"
  proof -
    have "list_ex (\<lambda>c. c \<in> set (public_surface_contexts g)) (contexts_of (analyze_validated g) n) \<longleftrightarrow>
        (\<exists>ctxt \<in> snd ` set (sg_contexts g). sc_role ctxt = Production \<and> sc_scope ctxt = PublicSurface
          \<and> sc_id ctxt \<in> set (contexts_of (analyze_validated g) n))"
      by (auto simp: list_ex_iff public_surface_contexts_def)
    then show ?thesis using full_reach(1) [OF assms(1)] by blast
  qed
  have "list_all (\<lambda>c. c \<notin> set (public_surface_contexts g)) (contexts_of (analyze_validated g) n) \<longleftrightarrow>
      \<not> list_ex (\<lambda>c. c \<in> set (public_surface_contexts g)) (contexts_of (analyze_validated g) n)"
    by (auto simp: list_all_iff list_ex_iff)
  then show ?thesis
    unfolding surface_symbol_def surface_symbol_at_def surface [symmetric]
    by (auto simp: node split: source_node.splits option.splits if_splits)
qed

lemma test_roots_set:
  assumes "contexts_keyed g"
  shows "(ctxt, root) \<in> set (test_roots g (analyze_validated g) n) \<longleftrightarrow>
    ctxt \<in> set (test_contexts_of g) \<and> (\<exists>i. nearest_root g ctxt n i \<and> sc_roots ctxt ! i = root)"
proof -
  have get: "bmap_get (sg_contexts g) cid = Some ctxt \<longleftrightarrow> ctxt \<in> snd ` set (sg_contexts g) \<and> cid = sc_id ctxt" for cid
    using assms contexts_keyed_get [OF assms, of ctxt]
    by (auto simp: contexts_keyed_def dest!: bmap_get_SomeD intro: rev_image_eqI)
  have "(ctxt, root) \<in> set (test_roots g (analyze_validated g) n) \<longleftrightarrow>
      (\<exists>cid. (cid, root) \<in> set (roots_of (analyze_validated g) n)
         \<and> bmap_get (sg_contexts g) cid = Some ctxt \<and> sc_role ctxt = Test)"
    by (force simp: test_roots_def set_map_filter split: option.splits if_splits)
  also have "\<dots> \<longleftrightarrow> ctxt \<in> set (test_contexts_of g) \<and> (sc_id ctxt, root) \<in> set (roots_of (analyze_validated g) n)"
    unfolding get by (auto simp: test_contexts_of_def)
  finally show ?thesis
    using full_reach(2) [OF assms, of ctxt root n] tests_are_contexts [of ctxt g] by blast
qed

lemma observed_iff:
  assumes "contexts_keyed g"
  shows "observed_witnesses g (analyze_validated g) n \<noteq> [] \<longleftrightarrow> (\<exists>ctxt. test_reaches g ctxt n)"
proof -
  have "observed_witnesses g (analyze_validated g) n \<noteq> [] \<longleftrightarrow> test_roots g (analyze_validated g) n \<noteq> []"
    by (simp add: observed_witnesses_def sort_Nil_iff)
  also have "\<dots> \<longleftrightarrow> (\<exists>ctxt root. (ctxt, root) \<in> set (test_roots g (analyze_validated g) n))"
    by (cases "test_roots g (analyze_validated g) n") auto
  finally show ?thesis
    unfolding test_roots_set [OF assms] test_reaches_def nearest_root_exists [symmetric] by blast
qed

lemma compile_matcher_covers:
  assumes "compile_declared_matcher env ctxt subject = Inr m"
  shows "matcher_matches m project source \<longleftrightarrow> subject_covers env ctxt subject project source"
  using assms
  by (cases subject) (auto simp: compile_declared_matcher_def matcher_matches_def subject_covers_def and_then_Inr)

lemma declared_iff:
  assumes "compile_declared_matchers env projects (test_contexts_of g) = Inr matchers"
  shows "declared_witnesses matchers project source \<noteq> [] \<longleftrightarrow> declared_covers env g projects project source"
proof -
  let ?pairs = "concat (map (\<lambda>ctxt. map (Pair ctxt) (configured_subjects projects ctxt)) (test_contexts_of g))"
  note compiled = assms [unfolded compile_declared_matchers_def]
  have "declared_witnesses matchers project source \<noteq> [] \<longleftrightarrow> (\<exists>m \<in> set matchers. matcher_matches m project source)"
    by (auto simp: declared_witnesses_def sort_Nil_iff filter_empty_conv)
  also have "\<dots> \<longleftrightarrow> (\<exists>(ctxt, subject) \<in> set ?pairs. subject_covers env ctxt subject project source)"
  proof
    assume "\<exists>m \<in> set matchers. matcher_matches m project source"
    then obtain m where "m \<in> set matchers" "matcher_matches m project source" by blast
    with map_result_Inr [OF compiled] compile_matcher_covers [of env _ _ m]
    show "\<exists>(ctxt, subject) \<in> set ?pairs. subject_covers env ctxt subject project source" by fastforce
  next
    assume "\<exists>(ctxt, subject) \<in> set ?pairs. subject_covers env ctxt subject project source"
    then obtain x where "x \<in> set ?pairs" and "subject_covers env (fst x) (snd x) project source"
      unfolding split_beta by blast
    with map_result_all [OF compiled, of x] compile_matcher_covers [of env "fst x" "snd x"]
    show "\<exists>m \<in> set matchers. matcher_matches m project source" by (auto simp: split_beta)
  qed
  also have "\<dots> \<longleftrightarrow> declared_covers env g projects project source"
    by (auto simp: declared_covers_def)
  finally show ?thesis .
qed

lemma fold_witness_symbol:
  "fold (witness_symbol g r matchers) xs st =
     (fst st @ List.map_filter (\<lambda>x. map_option (\<lambda>(s, f). symbol_witness g r matchers (fst x) s f)
        (surface_symbol g r x)) xs,
      bset_extend (concat (map (\<lambda>x. map (\<lambda>(ctxt, _). sc_id ctxt) (test_roots g r (fst x)))
        (filter (\<lambda>x. surface_symbol g r x \<noteq> None) xs))) (snd st))"
  by (induction xs arbitrary: st)
    (auto simp: witness_symbol_def bset_extend_def List.map_filter_simps split: option.split)

lemma surface_nodes:
  assumes "contexts_keyed g" and "bmap_wf (sg_nodes g)"
  shows "(\<exists>x \<in> set (sg_nodes g). fst x = n \<and> surface_symbol g (analyze_validated g) x = Some (s, f)) \<longleftrightarrow>
    surface_symbol_at g n s f"
proof
  assume "\<exists>x \<in> set (sg_nodes g). fst x = n \<and> surface_symbol g (analyze_validated g) x = Some (s, f)"
  then obtain node where "(n, node) \<in> set (sg_nodes g)"
    and "surface_symbol g (analyze_validated g) (n, node) = Some (s, f)" by force
  with surface_symbol_iff [OF assms] show "surface_symbol_at g n s f" by blast
next
  assume at: "surface_symbol_at g n s f"
  then have "(n, SymbolNode s) \<in> set (sg_nodes g)"
    by (simp add: surface_symbol_at_def bmap_get_iff [OF assms(2)])
  with surface_symbol_iff [OF assms this] at
  show "\<exists>x \<in> set (sg_nodes g). fst x = n \<and> surface_symbol g (analyze_validated g) x = Some (s, f)"
    by force
qed

lemma test_root_contexts:
  assumes "contexts_keyed g" and "ctxt \<in> set (test_contexts_of g)"
  shows "sc_id ctxt \<in> set (map (\<lambda>(c, _). sc_id c) (test_roots g (analyze_validated g) n)) \<longleftrightarrow>
    context_reaches g ctxt n"
proof
  assume "sc_id ctxt \<in> set (map (\<lambda>(c, _). sc_id c) (test_roots g (analyze_validated g) n))"
  then obtain c root where c: "(c, root) \<in> set (test_roots g (analyze_validated g) n)" "sc_id c = sc_id ctxt"
    by auto
  then have test: "c \<in> set (test_contexts_of g)" and reach: "\<exists>i. nearest_root g c n i"
    unfolding test_roots_set [OF assms(1)] by blast+
  from contexts_keyed_unique [OF assms(1) _ _ c(2)] tests_are_contexts [OF test] tests_are_contexts [OF assms(2)]
  have "c = ctxt" by blast
  with reach show "context_reaches g ctxt n" by (simp add: nearest_root_exists)
next
  assume "context_reaches g ctxt n"
  then obtain i where "nearest_root g ctxt n i" by (auto simp: nearest_root_exists [symmetric])
  with assms(2) have "(ctxt, sc_roots ctxt ! i) \<in> set (test_roots g (analyze_validated g) n)"
    unfolding test_roots_set [OF assms(1)] by blast
  then show "sc_id ctxt \<in> set (map (\<lambda>(c, _). sc_id c) (test_roots g (analyze_validated g) n))" by force
qed

lemma analyze_witnesses_parts:
  assumes "analyze_witnesses env g projects = Inr report"
    and keyed: "contexts_keyed g" and wf: "bmap_wf (sg_nodes g)"
  obtains matchers where "compile_declared_matchers env projects (test_contexts_of g) = Inr matchers"
    and "set (twr_public_api report) =
      {symbol_witness g (analyze_validated g) matchers n s f | n s f. surface_symbol_at g n s f}"
    and "set (twr_detached_contexts report) = detached_context g projects `
      {ctxt \<in> set (test_contexts_of g). \<nexists>n s f. surface_symbol_at g n s f \<and> context_reaches g ctxt n}"
proof -
  let ?r = "analyze_validated g"
  from assms(1) obtain matchers where m: "compile_declared_matchers env projects (test_contexts_of g) = Inr matchers"
    and run: "analyze g = Inr ?r"
    by (auto simp: analyze_witnesses_def and_then_Inr analyze_Inr split: sum.splits)
  note unfolded = assms(1) [unfolded analyze_witnesses_def run m fold_witness_symbol Let_def]
  have api: "set (twr_public_api report) =
      {symbol_witness g ?r matchers n s f | n s f. surface_symbol_at g n s f}"
  proof -
    from unfolded have "set (twr_public_api report) =
        set (List.map_filter (\<lambda>x. map_option (\<lambda>(s, f). symbol_witness g ?r matchers (fst x) s f)
          (surface_symbol g ?r x)) (sg_nodes g))"
      by auto
    also have "\<dots> = {w. \<exists>x \<in> set (sg_nodes g). \<exists>s f. surface_symbol g ?r x = Some (s, f)
        \<and> symbol_witness g ?r matchers (fst x) s f = w}"
      unfolding set_map_filter by (simp add: map_option_case split_beta split: option.split) fastforce
    finally show ?thesis unfolding surface_nodes [OF keyed wf, symmetric] by fastforce
  qed
  have observed: "sc_id ctxt \<in> set (concat (map (\<lambda>x. map (\<lambda>(c, _). sc_id c) (test_roots g ?r (fst x)))
        (filter (\<lambda>x. surface_symbol g ?r x \<noteq> None) (sg_nodes g)))) \<longleftrightarrow>
      (\<exists>n s f. surface_symbol_at g n s f \<and> context_reaches g ctxt n)"
    (is "?member \<longleftrightarrow> ?reaches") if "ctxt \<in> set (test_contexts_of g)" for ctxt
  proof -
    have "?member \<longleftrightarrow> (\<exists>x \<in> set (sg_nodes g). surface_symbol g ?r x \<noteq> None
        \<and> sc_id ctxt \<in> set (map (\<lambda>(c, _). sc_id c) (test_roots g ?r (fst x))))"
      by (simp only: set_concat set_map set_filter UN_iff image_image mem_Collect_eq) blast
    also have "\<dots> \<longleftrightarrow> (\<exists>x \<in> set (sg_nodes g). surface_symbol g ?r x \<noteq> None \<and> context_reaches g ctxt (fst x))"
      unfolding test_root_contexts [OF keyed that] ..
    also have "\<dots> \<longleftrightarrow> ?reaches"
      unfolding surface_nodes [OF keyed wf, symmetric] not_None_eq by fastforce
    finally show ?thesis .
  qed
  have detached: "set (twr_detached_contexts report) = detached_context g projects `
      {ctxt \<in> set (test_contexts_of g). \<nexists>n s f. surface_symbol_at g n s f \<and> context_reaches g ctxt n}"
  proof -
    from unfolded have "set (twr_detached_contexts report) = detached_context g projects `
        {ctxt \<in> set (test_contexts_of g).
          sc_id ctxt \<notin> set (concat (map (\<lambda>x. map (\<lambda>(c, _). sc_id c) (test_roots g ?r (fst x)))
            (filter (\<lambda>x. surface_symbol g ?r x \<noteq> None) (sg_nodes g))))}"
      by auto
    then show ?thesis using observed by blast
  qed
  show ?thesis by (rule that [OF m api detached])
qed

text \<open>C20: The witness report lists exactly the public symbols that a production public surface reaches,
  and the status of one is exact: witnessed when some test context reaches it, declared only when none
  does but a declared subject covers it, unwitnessed when neither holds and the analysis of the symbol
  has high confidence, and unknown otherwise.\<close>

theorem witness_status_is_exact:
  assumes "analyze_witnesses env g projects = Inr report"
    and "contexts_keyed g" and "bmap_wf (sg_nodes g)"
  shows "(n, status) \<in> (\<lambda>w. (paw_node_id w, paw_status w)) ` set (twr_public_api report) \<longleftrightarrow>
    (\<exists>symbol f. surface_symbol_at g n symbol f \<and> status =
       (if \<exists>ctxt. test_reaches g ctxt n then Witnessed
        else if declared_covers env g projects (ss_project symbol) (sf_path f) then DeclaredOnly
        else if symbol_confidence g (ss_project symbol) (ss_file symbol) n = High then Unwitnessed
        else UnknownWitness))"
proof -
  obtain matchers where m: "compile_declared_matchers env projects (test_contexts_of g) = Inr matchers"
    and api: "set (twr_public_api report) =
      {symbol_witness g (analyze_validated g) matchers n s f | n s f. surface_symbol_at g n s f}"
    by (rule analyze_witnesses_parts [OF assms])
  let ?w = "symbol_witness g (analyze_validated g) matchers"
  have node: "paw_node_id (?w m s f) = m" for m s f
    by (simp add: symbol_witness_def Let_def)
  have status: "paw_status (?w m s f) =
      (if \<exists>ctxt. test_reaches g ctxt m then Witnessed
       else if declared_covers env g projects (ss_project s) (sf_path f) then DeclaredOnly
       else if symbol_confidence g (ss_project s) (ss_file s) m = High then Unwitnessed
       else UnknownWitness)" for m s f
    unfolding observed_iff [OF assms(2), symmetric] declared_iff [OF m, symmetric]
    by (simp add: symbol_witness_def witness_status_def Let_def)
  have "(n, status) \<in> (\<lambda>w. (paw_node_id w, paw_status w)) ` set (twr_public_api report) \<longleftrightarrow>
      (\<exists>m s f. surface_symbol_at g m s f \<and> n = paw_node_id (?w m s f) \<and> status = paw_status (?w m s f))"
    unfolding api by blast
  also have "\<dots> \<longleftrightarrow> (\<exists>s f. surface_symbol_at g n s f \<and> status = paw_status (?w n s f))"
    unfolding node by blast
  finally show ?thesis unfolding status .
qed

text \<open>A test context is reported as detached exactly when it reaches none of the public symbols that
  a production public surface reaches.\<close>

theorem detached_contexts_reach_no_surface:
  assumes "analyze_witnesses env g projects = Inr report"
    and "contexts_keyed g" and "bmap_wf (sg_nodes g)"
  shows "set (twr_detached_contexts report) = detached_context g projects `
    {ctxt \<in> set (test_contexts_of g). \<nexists>n s f. surface_symbol_at g n s f \<and> context_reaches g ctxt n}"
  by (rule analyze_witnesses_parts [OF assms])

subsection \<open>A public symbol that a test reaches\<close>

definition surface_graph :: "unit source_graph" where
  "surface_graph = sample_graph\<lparr>
     sg_nodes := [(''a'', FileNode (sample_file ''a.rs'')), (''b'', FileNode (sample_file ''b.rs'')),
                  (''s'', SymbolNode (sample_symbol\<lparr>ss_visibility := VisPublic\<rparr>))],
     sg_contexts := [(''c'', sample_context\<lparr>sc_role := Test\<rparr>),
                     (''d'', sample_context\<lparr>sc_id := ''d'', sc_scope := PublicSurface\<rparr>)]\<rparr>"

definition surface_report :: "unit testing_witness_report" where
  "surface_report =
     \<lparr>twr_schema_version = 2, twr_tool_version = ''1'',
      twr_summary = \<lparr>tws_public_symbols = 1, tws_witnessed = 1, tws_declared_only = 0, tws_unwitnessed = 0,
                     tws_unknown = 0, tws_detached_contexts = 0\<rparr>,
      twr_public_api =
        [\<lparr>paw_node_id = ''s'', paw_project = ''p'', paw_path = ''b.rs'', paw_symbol = ''run'',
          paw_symbol_kind = SymFunction, paw_callable = None, paw_confidence = High, paw_status = Witnessed,
          paw_observed = [(''p'', ''main'', ''a.rs'')], paw_declared = []\<rparr>],
      twr_detached_contexts = []\<rparr>"

lemma surface_run:
  "analyze_witnesses sample_testing_env surface_graph [sample_project ''p'' ''.''] = Inr surface_report"
  by code_simp

lemma surface_facts: "contexts_keyed surface_graph" "bmap_wf (sg_nodes surface_graph)"
  by (simp_all add: contexts_keyed_def surface_graph_def sample_context_def bmap_wf_def)

theorem witness_status_is_exact_witness:
  "\<exists>ctxt. test_reaches surface_graph ctxt ''s''"
proof -
  have "(''s'', Witnessed) \<in> (\<lambda>w. (paw_node_id w, paw_status w)) ` set (twr_public_api surface_report)"
    by (simp add: surface_report_def)
  then show ?thesis
    unfolding witness_status_is_exact [OF surface_run surface_facts] by (auto split: if_splits)
qed

theorem detached_contexts_reach_no_surface_witness:
  "\<exists>n s f. surface_symbol_at surface_graph n s f
     \<and> context_reaches surface_graph (sample_context\<lparr>sc_role := Test\<rparr>) n"
proof -
  have "sample_context\<lparr>sc_role := Test\<rparr> \<in> set (test_contexts_of surface_graph)"
    by (simp add: test_contexts_of_def surface_graph_def)
  with detached_contexts_reach_no_surface [OF surface_run surface_facts] show ?thesis
    by (auto simp: surface_report_def)
qed

end
