(* ===== verification/ArchModel.thy ===== *)
theory ArchModel
  imports Json Decimal BTree
begin

text \<open>
  What the architecture analyses share (\<open>src/architecture/diagnostic.rs\<close>, \<open>digest.rs\<close>, \<open>model.rs\<close>): the
  access to JSON values, diagnostics, typed digests, and the outcome of a function that may refuse its
  input with diagnostics or panic. The documents are \<open>serde_json\<close> values; an \<open>expect\<close> on one that has not
  the shape its schema promises is the outcome \<open>ArchPanic\<close>. The JSON printer, SHA-256 and the JSON
  schema validator are third-party code and fields of \<open>arch_env\<close>.
\<close>

subsection \<open>Access to JSON values\<close>

definition json_get :: "json \<Rightarrow> string \<Rightarrow> json option" where
  "json_get v key = (case v of JObject fields \<Rightarrow> map_of fields key | _ \<Rightarrow> None)"

text \<open>Indexing a \<open>Value\<close> by a string yields null where there is no such field.\<close>

definition json_at :: "json \<Rightarrow> string \<Rightarrow> json" where
  "json_at v key = (case json_get v key of None \<Rightarrow> JNull | Some x \<Rightarrow> x)"

definition json_str :: "json \<Rightarrow> string option" where
  "json_str v = (case v of JString s \<Rightarrow> Some s | _ \<Rightarrow> None)"

definition json_array :: "json \<Rightarrow> json list option" where
  "json_array v = (case v of JArray xs \<Rightarrow> Some xs | _ \<Rightarrow> None)"

definition json_object :: "json \<Rightarrow> (string \<times> json) list option" where
  "json_object v = (case v of JObject fields \<Rightarrow> Some fields | _ \<Rightarrow> None)"

definition json_bool :: "json \<Rightarrow> bool option" where
  "json_bool v = (case v of JBool b \<Rightarrow> Some b | _ \<Rightarrow> None)"

definition json_u64 :: "json \<Rightarrow> nat option" where
  "json_u64 v = (case v of JNumber n \<Rightarrow> as_u64 n | _ \<Rightarrow> None)"

definition json_i64 :: "json \<Rightarrow> int option" where
  "json_i64 v = (case v of JNumber n \<Rightarrow> as_i64 n | _ \<Rightarrow> None)"

abbreviation str_at :: "json \<Rightarrow> string \<Rightarrow> string option" where
  "str_at v key \<equiv> json_str (json_at v key)"

abbreviation array_at :: "json \<Rightarrow> string \<Rightarrow> json list option" where
  "array_at v key \<equiv> json_array (json_at v key)"

text \<open>\<open>is_some_and(Vec::is_empty)\<close>, \<open>is_none_or(Vec::is_empty)\<close>, and the elements of an optional array.\<close>

definition some_empty :: "'a list option \<Rightarrow> bool" where
  "some_empty xs \<longleftrightarrow> xs = Some []"

definition none_or_empty :: "'a list option \<Rightarrow> bool" where
  "none_or_empty xs \<longleftrightarrow> xs = None \<or> xs = Some []"

definition elements :: "'a list option \<Rightarrow> 'a list" where
  "elements xs = (case xs of None \<Rightarrow> [] | Some ys \<Rightarrow> ys)"

subsection \<open>Diagnostics\<close>

datatype arch_severity = SevError | SevWarning | SevAdvisory

record arch_diagnostic =
  ad_code :: string
  ad_severity :: arch_severity
  ad_message :: string
  ad_document_id :: "string option"
  ad_source_path :: "string option"
  ad_related_ids :: "string list"

definition error_diagnostic :: "string \<Rightarrow> string \<Rightarrow> arch_diagnostic" where
  "error_diagnostic code message =
     \<lparr>ad_code = code, ad_severity = SevError, ad_message = message, ad_document_id = None,
      ad_source_path = None, ad_related_ids = []\<rparr>"

definition diagnostic_at_path :: "string \<Rightarrow> arch_diagnostic \<Rightarrow> arch_diagnostic" where
  "diagnostic_at_path path d = d\<lparr>ad_source_path := Some path\<rparr>"

definition sort_diagnostics :: "arch_diagnostic list \<Rightarrow> arch_diagnostic list" where
  "sort_diagnostics = sort_key (\<lambda>d. (ad_source_path d, ad_code d, ad_related_ids d, ad_message d))"

datatype arch_failure = ArchPanic string | ArchRefused "arch_diagnostic list"

type_synonym 'a arch = "arch_failure + 'a"

definition expects :: "'a option \<Rightarrow> string \<Rightarrow> 'a arch" where
  "expects x message = (case x of None \<Rightarrow> Inl (ArchPanic message) | Some y \<Rightarrow> Inr y)"

text \<open>A loop that extends a list of diagnostics.\<close>

definition diagnose :: "('a \<Rightarrow> arch_diagnostic list arch) \<Rightarrow> 'a list \<Rightarrow> arch_diagnostic list arch" where
  "diagnose f xs = and_then (map_result f xs) (\<lambda>dss. Inr (concat dss))"

lemma expects_Inr [simp]: "expects x message = Inr y \<longleftrightarrow> x = Some y"
  by (cases x) (simp_all add: expects_def)

lemma diagnose_Nil: "diagnose f [] = Inr []"
  by (simp add: diagnose_def)

lemma diagnose_Cons:
  "diagnose f (x # xs) = and_then (f x) (\<lambda>ds. and_then (diagnose f xs) (\<lambda>es. Inr (ds @ es)))"
  by (cases "f x"; cases "map_result f xs") (simp_all add: diagnose_def)

lemma diagnose_empty: "diagnose f xs = Inr [] \<longleftrightarrow> (\<forall>x \<in> set xs. f x = Inr [])"
  by (induction xs) (auto simp: diagnose_Nil diagnose_Cons and_then_Inr)

subsection \<open>Identifiers, timestamps and digests\<close>

definition is_hex_digit :: "char \<Rightarrow> bool" where
  "is_hex_digit c \<longleftrightarrow> is_ascii_digit c \<or> (let n = byte c in 97 \<le> n \<and> n \<le> 102)"

definition valid_digest :: "string \<Rightarrow> bool" where
  "valid_digest value \<longleftrightarrow>
     (case strip_prefix ''sha256:'' value of
        None \<Rightarrow> False
      | Some hex \<Rightarrow> length hex = 64 \<and> list_all is_hex_digit hex)"

definition digest_from_str :: "string \<Rightarrow> arch_diagnostic + string" where
  "digest_from_str value =
     (case strip_prefix ''sha256:'' value of
        None \<Rightarrow> Inl (error_diagnostic ''digest.invalid-format'' ''digest must start with sha256:'')
      | Some hex \<Rightarrow>
          if length hex \<noteq> 64 \<or> \<not> list_all is_hex_digit hex
          then Inl (error_diagnostic ''digest.invalid-format''
                 ''digest must contain 64 lowercase hexadecimal characters'')
          else Inr value)"

definition is_identifier_byte :: "char \<Rightarrow> bool" where
  "is_identifier_byte c \<longleftrightarrow> is_ascii_lowercase c \<or> is_ascii_digit c"

definition is_qualified_identifier :: "string \<Rightarrow> bool" where
  "is_qualified_identifier value \<longleftrightarrow>
     (let segments = split_on (\<lambda>c. c = CHR ''.'') value
      in length value \<le> 200 \<and> length segments \<ge> 3
         \<and> list_all (\<lambda>s. s \<noteq> [] \<and> is_identifier_byte (hd s)) segments
         \<and> list_all (list_all (\<lambda>c. is_identifier_byte c \<or> c = CHR ''-'')) segments)"

definition valid_timestamp :: "string \<Rightarrow> bool" where
  "valid_timestamp value \<longleftrightarrow>
     length value = 20 \<and> value ! 4 = CHR ''-'' \<and> value ! 7 = CHR ''-'' \<and> value ! 10 = CHR ''T''
     \<and> value ! 13 = CHR '':'' \<and> value ! 16 = CHR '':'' \<and> value ! 19 = CHR ''Z''
     \<and> list_all (\<lambda>(index, c). index \<in> {4, 7, 10, 13, 16, 19} \<or> is_ascii_digit c) (enumerate 0 value)"

definition valid_source_commit :: "string \<Rightarrow> bool" where
  "valid_source_commit value \<longleftrightarrow> 7 \<le> length value \<and> length value \<le> 64 \<and> list_all is_hex_digit value"

datatype digest_kind =
  SourceDocument | CanonicalModule | ImportClosure | ArchitectureClosure | GoverningGraph
| PolicyClosure | ReviewGraph | ObservationContent | ObservationEnvelope | ConformanceDigest

fun digest_kind_name :: "digest_kind \<Rightarrow> string" where
  "digest_kind_name SourceDocument = ''source-document''"
| "digest_kind_name CanonicalModule = ''canonical-module''"
| "digest_kind_name ImportClosure = ''import-closure''"
| "digest_kind_name ArchitectureClosure = ''architecture-closure''"
| "digest_kind_name GoverningGraph = ''governing-graph''"
| "digest_kind_name PolicyClosure = ''policy-closure''"
| "digest_kind_name ReviewGraph = ''review-graph''"
| "digest_kind_name ObservationContent = ''observation-content''"
| "digest_kind_name ObservationEnvelope = ''observation-envelope''"
| "digest_kind_name ConformanceDigest = ''conformance-result''"

record arch_env =
  ae_schema :: "json \<Rightarrow> arch_diagnostic list"
  ae_to_vec :: "json \<Rightarrow> bytes"
  ae_sha256_hex :: "bytes \<Rightarrow> string"

definition arch_digest_preimage :: "digest_kind \<Rightarrow> bytes \<Rightarrow> bytes" where
  "arch_digest_preimage kind payload =
     ''atlas.codeatlas.dev/'' @ digest_kind_name kind @ ''/v0.1'' @ [CHR 0x0A] @ payload"

definition arch_digest_bytes :: "arch_env \<Rightarrow> digest_kind \<Rightarrow> bytes \<Rightarrow> string" where
  "arch_digest_bytes env kind payload = ''sha256:'' @ ae_sha256_hex env (arch_digest_preimage kind payload)"

text \<open>Canonical JSON: integers only, and the fields of every object sorted by name.\<close>

fun normalize_value :: "json \<Rightarrow> arch_diagnostic + json"
  and normalize_values :: "json list \<Rightarrow> arch_diagnostic + json list"
  and normalize_fields :: "(string \<times> json) list \<Rightarrow> arch_diagnostic + (string \<times> json) list" where
  "normalize_value (JNumber n) =
     (if as_i64 n = None
      then Inl (error_diagnostic ''canonicalization.non-integer-number''
             ''canonical values support signed 64-bit integers only'')
      else Inr (JNumber n))"
| "normalize_value (JArray values) = and_then (normalize_values values) (\<lambda>ys. Inr (JArray ys))"
| "normalize_value (JObject entries) =
     and_then (normalize_fields entries) (\<lambda>ys. Inr (JObject (sort_key fst ys)))"
| "normalize_value JNull = Inr JNull"
| "normalize_value (JBool b) = Inr (JBool b)"
| "normalize_value (JString s) = Inr (JString s)"
| "normalize_values [] = Inr []"
| "normalize_values (v # vs) =
     and_then (normalize_value v) (\<lambda>y. and_then (normalize_values vs) (\<lambda>ys. Inr (y # ys)))"
| "normalize_fields [] = Inr []"
| "normalize_fields ((key, v) # entries) =
     and_then (normalize_value v) (\<lambda>y. and_then (normalize_fields entries) (\<lambda>ys. Inr ((key, y) # ys)))"

definition canonical_json_bytes :: "arch_env \<Rightarrow> json \<Rightarrow> arch_diagnostic + bytes" where
  "canonical_json_bytes env value = and_then (normalize_value value) (\<lambda>v. Inr (ae_to_vec env v))"

definition arch_digest_value :: "arch_env \<Rightarrow> digest_kind \<Rightarrow> json \<Rightarrow> arch_diagnostic + string" where
  "arch_digest_value env kind value =
     and_then (canonical_json_bytes env value) (\<lambda>payload. Inr (arch_digest_bytes env kind payload))"

subsection \<open>The shared identities\<close>

record vocabulary_identity =
  vi_id :: string
  vi_version :: nat
  vi_digest :: string

record generator_identity =
  gi_id :: string
  gi_version :: string

record generated_metadata =
  gm_id :: string
  gm_name :: string
  gm_architecture_version :: nat
  gm_generated :: bool
  gm_generator :: generator_identity
  gm_generated_at :: string
  gm_source_inputs :: "string list"
  gm_generation_command :: string
  gm_manual_editing :: string

definition architecture_api_version :: string where
  "architecture_api_version = ''atlas.codeatlas.dev/v0.1''"

definition architecture_schema_version :: nat where
  "architecture_schema_version = 1"

end
