(* ===== verification/ArchVocabulary.thy ===== *)
theory ArchVocabulary
  imports ArchModel
begin

text \<open>
  The vocabulary of architecture documents (\<open>src/architecture/vocabulary.rs\<close>): the kinds, predicates,
  rules and adapters a document may use, and the validation of a document against them. The bundled
  vocabulary is a YAML file that the code parses; here a vocabulary is an argument.
\<close>

datatype value_type =
  TypeString | TypeInteger | TypeBoolean | TypeIdentifier | TypeDigest | TypeStringList | TypeIdentifierList

fun value_type_debug :: "value_type \<Rightarrow> string" where
  "value_type_debug TypeString = ''String''"
| "value_type_debug TypeInteger = ''Integer''"
| "value_type_debug TypeBoolean = ''Boolean''"
| "value_type_debug TypeIdentifier = ''Identifier''"
| "value_type_debug TypeDigest = ''Digest''"
| "value_type_debug TypeStringList = ''StringList''"
| "value_type_debug TypeIdentifierList = ''IdentifierList''"

type_synonym typed_fields = "(string, value_type) bmap"

record object_kind_definition =
  ok_required_attributes :: typed_fields
  ok_optional_attributes :: typed_fields

datatype cycle_policy = CyclesAllowed | CyclesForbidden

record predicate_definition =
  pd_subject_kinds :: "string bset"
  pd_object_kinds :: "string bset"
  pd_cycles :: cycle_policy
  pd_inverse :: "string option"

record constraint_rule_definition =
  cr_version :: nat
  cr_required_arguments :: typed_fields
  cr_optional_arguments :: typed_fields

record binding_adapter_version =
  ba_required_selector :: typed_fields
  ba_optional_selector :: typed_fields

record vocabulary =
  vo_id :: string
  vo_version :: nat
  vo_digest :: string
  vo_authority_kinds :: "string bset"
  vo_object_kinds :: "(string, object_kind_definition) bmap"
  vo_predicates :: "(string, predicate_definition) bmap"
  vo_constraint_rules :: "(string, constraint_rule_definition) bmap"
  vo_binding_adapters :: "(string, (string, binding_adapter_version) bmap) bmap"

definition vocabulary_identity_of :: "vocabulary \<Rightarrow> vocabulary_identity" where
  "vocabulary_identity_of v = \<lparr>vi_id = vo_id v, vi_version = vo_version v, vi_digest = vo_digest v\<rparr>"

definition has_object_kind :: "vocabulary \<Rightarrow> string \<Rightarrow> bool" where
  "has_object_kind v kind \<longleftrightarrow> bmap_get (vo_object_kinds v) kind \<noteq> None"

definition has_predicate :: "vocabulary \<Rightarrow> string \<Rightarrow> bool" where
  "has_predicate v predicate \<longleftrightarrow> bmap_get (vo_predicates v) predicate \<noteq> None"

subsection \<open>Typed fields\<close>

definition is_string_value :: "json \<Rightarrow> bool" where
  "is_string_value v \<longleftrightarrow> json_str v \<noteq> None"

definition is_identifier_value :: "json \<Rightarrow> bool" where
  "is_identifier_value v \<longleftrightarrow> (case json_str v of None \<Rightarrow> False | Some s \<Rightarrow> is_qualified_identifier s)"

fun matches_value_type :: "json \<Rightarrow> value_type \<Rightarrow> bool" where
  "matches_value_type v TypeString = is_string_value v"
| "matches_value_type v TypeInteger = (json_i64 v \<noteq> None)"
| "matches_value_type v TypeBoolean = (json_bool v \<noteq> None)"
| "matches_value_type v TypeIdentifier = is_identifier_value v"
| "matches_value_type v TypeDigest = (case json_str v of None \<Rightarrow> False | Some s \<Rightarrow> valid_digest s)"
| "matches_value_type v TypeStringList =
     (case json_array v of None \<Rightarrow> False | Some xs \<Rightarrow> list_all is_string_value xs)"
| "matches_value_type v TypeIdentifierList =
     (case json_array v of None \<Rightarrow> False | Some xs \<Rightarrow> list_all is_identifier_value xs)"

definition type_mismatch :: "string \<Rightarrow> string \<Rightarrow> string \<Rightarrow> value_type \<Rightarrow> arch_diagnostic" where
  "type_mismatch category i name expected =
     error_diagnostic (category @ ''.field-type-mismatch'')
       (i @ '' field '' @ name @ '' does not match '' @ value_type_debug expected)"

definition check_typed :: "string \<Rightarrow> string \<Rightarrow> string \<Rightarrow> value_type \<Rightarrow> json \<Rightarrow> arch_diagnostic list" where
  "check_typed category i name expected v =
     (if matches_value_type v expected then [] else [type_mismatch category i name expected])"

text \<open>The lookup in the required and then in the optional fields.\<close>

definition typed_field :: "typed_fields \<Rightarrow> typed_fields \<Rightarrow> string \<Rightarrow> value_type option" where
  "typed_field required optional name =
     (case bmap_get required name of None \<Rightarrow> bmap_get optional name | Some t \<Rightarrow> Some t)"

definition validate_typed_map ::
    "string \<Rightarrow> string \<Rightarrow> (string \<times> json) list \<Rightarrow> typed_fields \<Rightarrow> typed_fields \<Rightarrow> arch_diagnostic list" where
  "validate_typed_map category i values required optional =
     concat (map (\<lambda>(name, expected).
         case map_of values name of
           Some v \<Rightarrow> check_typed category i name expected v
         | None \<Rightarrow> [error_diagnostic (category @ ''.required-field-missing'')
             (i @ '' is missing required '' @ category @ '' field '' @ name)]) required)
     @ concat (map (\<lambda>(name, v).
         case typed_field required optional name of
           Some expected \<Rightarrow> check_typed category i name expected v
         | None \<Rightarrow> [error_diagnostic (category @ ''.unknown-field'')
             (i @ '' has unknown '' @ category @ '' field '' @ name)]) values)"

subsection \<open>Lifecycle\<close>

definition authority_diagnostics ::
    "vocabulary \<Rightarrow> string \<Rightarrow> json \<Rightarrow> arch_diagnostic list arch" where
  "authority_diagnostics v i authority =
     and_then (expects (str_at authority ''kind'') ''schema validated authority kind'') (\<lambda>kind.
       Inr (if kind \<in> set (vo_authority_kinds v) then []
            else [error_diagnostic ''authority.kind-unknown'' (i @ '' uses unknown authority kind '' @ kind)]))"

definition approved :: "string option \<Rightarrow> bool" where
  "approved status \<longleftrightarrow> status \<in> {Some ''granted'', Some ''not_required''}"

definition validate_lifecycle :: "vocabulary \<Rightarrow> json \<Rightarrow> string \<Rightarrow> arch_diagnostic list arch" where
  "validate_lifecycle v value i =
     (case json_get value ''decision'' of
        None \<Rightarrow> Inr []
      | Some decision \<Rightarrow>
          and_then (expects (str_at decision ''status'') ''schema validated decision status'') (\<lambda>status.
            let authority = json_at decision ''authority''
            in and_then (diagnose (authority_diagnostics v i)
                 (elements (array_at authority ''governing'') @ elements (array_at authority ''supporting'')))
               (\<lambda>unknown_kinds.
                 let approval = Option.bind (json_get value ''approval'') (\<lambda>a. str_at a ''status'');
                     change_control = Option.bind (json_get value ''changeControl'') (\<lambda>c. str_at c ''policy'')
                 in Inr (unknown_kinds
                   @ (if status = ''accepted'' \<and> some_empty (array_at authority ''governing'')
                      then [error_diagnostic ''authority.governing-required''
                              (i @ '' is accepted without governing authority'')] else [])
                   @ (if status = ''accepted'' \<and> change_control \<noteq> Some ''open_review'' \<and> \<not> approved approval
                      then [error_diagnostic ''approval.required-for-accepted''
                              (i @ '' is accepted without required approval'')] else [])))))"

subsection \<open>Declarations\<close>

definition validate_object :: "vocabulary \<Rightarrow> string \<Rightarrow> json \<Rightarrow> arch_diagnostic list arch" where
  "validate_object v i declaration =
     (case Option.bind (json_get declaration ''kind'') json_str of
        None \<Rightarrow> Inr [error_diagnostic ''object.kind-missing'' (i @ '' has no object kind'')]
      | Some kind \<Rightarrow>
          (case bmap_get (vo_object_kinds v) kind of
             None \<Rightarrow> Inr [error_diagnostic ''vocabulary.unknown-object-kind''
                       (i @ '' uses unknown object kind '' @ kind)]
           | Some ok \<Rightarrow>
               and_then (expects (Option.bind (json_get declaration ''attributes'') json_object)
                   ''schema validated object attributes'') (\<lambda>attributes.
                 let required = concat (map (\<lambda>(name, expected).
                       case map_of attributes name of
                         Some x \<Rightarrow> check_typed ''object'' i name expected x
                       | None \<Rightarrow> [error_diagnostic ''object.required-attribute-missing''
                           (i @ '' is missing required attribute '' @ name)]) (ok_required_attributes ok));
                     given = concat (map (\<lambda>(name, x).
                       case typed_field (ok_required_attributes ok) (ok_optional_attributes ok) name of
                         Some expected \<Rightarrow> check_typed ''object'' i name expected x
                       | None \<Rightarrow> [error_diagnostic ''object.unknown-attribute''
                           (i @ '' has unknown '' @ kind @ '' attribute '' @ name)]) attributes)
                 in and_then (validate_lifecycle v declaration i) (\<lambda>lifecycle.
                      Inr (required @ given @ lifecycle)))))"

definition validate_binding :: "vocabulary \<Rightarrow> string \<Rightarrow> json \<Rightarrow> arch_diagnostic list arch" where
  "validate_binding v i declaration =
     (let adapter_value = json_at declaration ''adapter''
      in and_then (expects (str_at adapter_value ''kind'') ''schema validated adapter kind'') (\<lambda>kind.
         and_then (expects (json_u64 (json_at adapter_value ''version'')) ''schema validated adapter version'') (\<lambda>n.
           case bmap_get (vo_binding_adapters v) kind of
             None \<Rightarrow> Inr [error_diagnostic ''vocabulary.unknown-binding-adapter''
                       (i @ '' uses unknown adapter '' @ kind)]
           | Some versions \<Rightarrow>
               (case bmap_get versions (decimal n) of
                  None \<Rightarrow> Inr [error_diagnostic ''binding.unsupported-adapter-version''
                            (i @ '' uses unsupported adapter '' @ kind @ '' version '' @ decimal n)]
                | Some ba \<Rightarrow>
                    and_then (expects (json_object (json_at declaration ''selector'')) ''schema validated selector'')
                      (\<lambda>selector.
                        and_then (validate_lifecycle v declaration i) (\<lambda>lifecycle.
                          Inr (validate_typed_map ''binding'' i selector
                                 (ba_required_selector ba) (ba_optional_selector ba) @ lifecycle)))))))"

definition validate_constraint :: "vocabulary \<Rightarrow> string \<Rightarrow> json \<Rightarrow> arch_diagnostic list arch" where
  "validate_constraint v i declaration =
     and_then (expects (str_at declaration ''rule'') ''schema validated rule'') (\<lambda>rule.
       case bmap_get (vo_constraint_rules v) rule of
         None \<Rightarrow> Inr [error_diagnostic ''vocabulary.unknown-constraint-rule''
                   (i @ '' uses unknown constraint rule '' @ rule)]
       | Some cr \<Rightarrow>
           and_then (expects (json_object (json_at declaration ''arguments'')) ''schema validated arguments'')
             (\<lambda>arguments.
               and_then (validate_lifecycle v declaration i) (\<lambda>lifecycle.
                 Inr (validate_typed_map ''constraint'' i arguments
                        (cr_required_arguments cr) (cr_optional_arguments cr) @ lifecycle))))"

definition kind_diagnostics ::
    "string \<Rightarrow> string \<Rightarrow> string \<Rightarrow> string \<Rightarrow> string \<Rightarrow> string bset \<Rightarrow> string option \<Rightarrow> arch_diagnostic list" where
  "kind_diagnostics role i predicate reference unresolved_code allowed found =
     (case found of
        Some kind \<Rightarrow>
          if kind \<in> set allowed then []
          else [error_diagnostic (''relation.invalid-'' @ role @ ''-kind'')
                  (i @ '' predicate '' @ predicate @ '' does not allow '' @ role @ '' kind '' @ kind)]
      | None \<Rightarrow> [error_diagnostic unresolved_code (i @ '' references unknown '' @ role @ '' '' @ reference)])"

definition validate_relation ::
    "vocabulary \<Rightarrow> string \<Rightarrow> json \<Rightarrow> (string, string) bmap \<Rightarrow> arch_diagnostic list arch" where
  "validate_relation v i declaration kinds =
     and_then (expects (str_at declaration ''predicate'') ''schema validated predicate'') (\<lambda>predicate.
     and_then (expects (str_at declaration ''subject'') ''schema validated subject'') (\<lambda>subject.
     and_then (expects (str_at declaration ''object'') ''schema validated object'') (\<lambda>object.
       case bmap_get (vo_predicates v) predicate of
         None \<Rightarrow> Inr [error_diagnostic ''vocabulary.unknown-predicate''
                   (i @ '' uses unknown predicate '' @ predicate)]
       | Some pd \<Rightarrow>
           and_then (validate_lifecycle v declaration i) (\<lambda>lifecycle.
             Inr (kind_diagnostics ''subject'' i predicate subject ''relation.subject-unresolved''
                    (pd_subject_kinds pd) (bmap_get kinds subject)
               @ kind_diagnostics ''object'' i predicate object ''relation.object-unresolved''
                    (pd_object_kinds pd) (bmap_get kinds object)
               @ (if pd_cycles pd = CyclesForbidden \<and> subject = object
                  then [error_diagnostic ''relation.self-cycle-forbidden''
                          (i @ '' creates a forbidden self-cycle'')] else [])
               @ lifecycle)))))"

definition attribute_references :: "value_type \<Rightarrow> json \<Rightarrow> string list" where
  "attribute_references t v =
     (case t of
        TypeIdentifier \<Rightarrow> (case json_str v of None \<Rightarrow> [] | Some s \<Rightarrow> [s])
      | TypeIdentifierList \<Rightarrow> List.map_filter json_str (elements (json_array v))
      | _ \<Rightarrow> [])"

definition object_reference_ids :: "vocabulary \<Rightarrow> json \<Rightarrow> string list" where
  "object_reference_ids v declaration =
     (case str_at declaration ''kind'' of
        None \<Rightarrow> []
      | Some kind \<Rightarrow>
          (case bmap_get (vo_object_kinds v) kind of
             None \<Rightarrow> []
           | Some ok \<Rightarrow>
               (case json_object (json_at declaration ''attributes'') of
                  None \<Rightarrow> []
                | Some attributes \<Rightarrow>
                    remdups_adj (sort (concat (map (\<lambda>(name, t).
                        case map_of attributes name of
                          None \<Rightarrow> []
                        | Some x \<Rightarrow> attribute_references t x)
                      (ok_required_attributes ok @ ok_optional_attributes ok)))))))"

subsection \<open>Documents\<close>

definition declaration_map :: "json \<Rightarrow> string \<Rightarrow> (string \<times> json) list arch" where
  "declaration_map document field =
     expects (json_object (json_at document field)) ''schema validated mapping''"

definition validate_module :: "vocabulary \<Rightarrow> json \<Rightarrow> arch_diagnostic list arch" where
  "validate_module v document =
     and_then (declaration_map document ''objects'') (\<lambda>objects.
     and_then (diagnose (\<lambda>(i, d). validate_object v i d) objects) (\<lambda>ds1.
     and_then (declaration_map document ''bindings'') (\<lambda>bindings.
     and_then (diagnose (\<lambda>(i, d). validate_binding v i d) bindings) (\<lambda>ds2.
     and_then (declaration_map document ''constraints'') (\<lambda>constraints.
     and_then (diagnose (\<lambda>(i, d). validate_constraint v i d) constraints) (\<lambda>ds3.
       Inr (ds1 @ ds2 @ ds3)))))))"

definition validate_exception :: "vocabulary \<Rightarrow> string \<Rightarrow> json \<Rightarrow> arch_diagnostic list arch" where
  "validate_exception v i e =
     and_then (validate_lifecycle v e i) (\<lambda>lifecycle.
       Inr (lifecycle
         @ (if str_at (json_at e ''scope'') ''module'' = Some ''*''
            then [error_diagnostic ''policy.wildcard-scope'' (i @ '' uses a prohibited wildcard scope'')] else [])
         @ (if some_empty (array_at e ''affectedIds'')
            then [error_diagnostic ''policy.affected-ids-empty''
                    (i @ '' must identify at least one affected ID'')] else [])
         @ (if some_empty (array_at e ''removalPlan'')
            then [error_diagnostic ''policy.removal-plan-missing''
                    (i @ '' must include a removal plan'')] else [])))"

definition validate_policy :: "vocabulary \<Rightarrow> json \<Rightarrow> arch_diagnostic list arch" where
  "validate_policy v document =
     and_then (declaration_map document ''rules'') (\<lambda>rules.
     and_then (diagnose (\<lambda>(i, d). validate_constraint v i d) rules) (\<lambda>ds1.
     and_then (declaration_map document ''exceptions'') (\<lambda>exceptions.
     and_then (diagnose (\<lambda>(i, d). validate_exception v i d) exceptions) (\<lambda>ds2.
       Inr (ds1 @ ds2)))))"

definition validate_change :: "json \<Rightarrow> arch_diagnostic list" where
  "validate_change document =
     (if str_at (json_at document ''change'') ''type'' = Some ''REPLACE''
         \<and> some_empty (array_at document ''removalPlan'')
      then [error_diagnostic ''change.removal-plan-missing'' ''REPLACE requires a non-empty removal plan'']
      else [])"

definition generated_required :: "string \<Rightarrow> json \<Rightarrow> arch_diagnostic list" where
  "generated_required kind document =
     (if json_bool (json_at (json_at document ''metadata'') ''generated'') = Some True then []
      else [error_diagnostic ''generated.metadata-required'' (kind @ '' metadata.generated must be true'')])"

definition validate_observation :: "json \<Rightarrow> arch_diagnostic list arch" where
  "validate_observation document =
     and_then (declaration_map document ''facts'') (\<lambda>facts.
       Inr (generated_required ''ArchitectureObservation'' document
         @ concat (map (\<lambda>(i, fact).
             if str_at fact ''mode'' = Some ''inferred'' \<and> json_get fact ''confidenceBasisPoints'' = None
             then [error_diagnostic ''observation.inferred-confidence-missing''
                     (i @ '' is inferred but has no confidenceBasisPoints'')] else []) facts)))"

definition validate_vocabulary_reference :: "vocabulary \<Rightarrow> json \<Rightarrow> arch_diagnostic list" where
  "validate_vocabulary_reference v document =
     (let reference = json_at document ''vocabulary''
      in (if str_at reference ''id'' \<noteq> Some (vo_id v)
          then [error_diagnostic ''vocabulary.identity-mismatch''
                  (''document does not reference vocabulary '' @ vo_id v)] else [])
       @ (if json_u64 (json_at reference ''version'') \<noteq> Some (vo_version v)
          then [error_diagnostic ''vocabulary.version-mismatch''
                  (''document does not reference vocabulary version '' @ decimal (vo_version v))] else [])
       @ (if str_at reference ''digest'' \<noteq> Some (vo_digest v)
          then [error_diagnostic ''vocabulary.digest-mismatch''
                  (''document does not pin vocabulary digest '' @ vo_digest v)] else []))"

definition document_kind :: "json \<Rightarrow> string option" where
  "document_kind document = Option.bind (json_get document ''kind'') json_str"

definition document_id :: "json \<Rightarrow> string option" where
  "document_id document = str_at (json_at document ''metadata'') ''id''"

definition validate_kind :: "vocabulary \<Rightarrow> json \<Rightarrow> arch_diagnostic list arch" where
  "validate_kind v document =
     (let kind = document_kind document
      in if kind = Some ''ArchitectureModule'' then validate_module v document
         else if kind = Some ''ArchitecturePolicy'' then validate_policy v document
         else if kind = Some ''ArchitectureChange'' then Inr (validate_change document)
         else if kind = Some ''ArchitectureObservation'' then validate_observation document
         else if kind = Some ''ArchitectureConformance''
         then Inr (generated_required ''ArchitectureConformance'' document)
         else Inr [])"

definition validate_document :: "arch_env \<Rightarrow> vocabulary \<Rightarrow> json \<Rightarrow> arch_diagnostic list arch" where
  "validate_document env v document =
     (if ae_schema env document \<noteq> [] then Inr (ae_schema env document)
      else
        let reference = (if document_kind document \<noteq> Some ''ArchitectureVocabulary''
                         then validate_vocabulary_reference v document else [])
        in and_then (validate_lifecycle v document
               (case document_id document of None \<Rightarrow> ''<unknown-document>'' | Some i \<Rightarrow> i)) (\<lambda>lifecycle.
             and_then (validate_kind v document) (\<lambda>ds.
               Inr (sort_key (\<lambda>d. (ad_code d, ad_message d)) (reference @ lifecycle @ ds)))))"

definition validate_definitions :: "vocabulary \<Rightarrow> arch_diagnostic list" where
  "validate_definitions v =
     concat (map (\<lambda>(predicate, pd).
         concat (map (\<lambda>kind.
             if has_object_kind v kind then []
             else [error_diagnostic ''vocabulary.predicate-kind-unknown''
                     (predicate @ '' references unknown object kind '' @ kind)])
           (pd_subject_kinds pd @ pd_object_kinds pd))
         @ (case pd_inverse pd of
              None \<Rightarrow> []
            | Some opposite \<Rightarrow>
                if has_predicate v opposite then []
                else [error_diagnostic ''vocabulary.inverse-predicate-unknown''
                        (predicate @ '' names unknown inverse '' @ opposite)])) (vo_predicates v))"

end
