(* ===== verification/ArchGraph.thy ===== *)
theory ArchGraph
  imports ArchVocabulary
begin

text \<open>
  Compilation of architecture modules into one graph (\<open>src/architecture/graph.rs\<close>): imports, ownership,
  exports and references are validated, the eligible declarations collected, and the constraints and
  cycle policies evaluated. The two loops over explicit stacks carry fuel: the import search pushes at
  most two entries per module and one per import, the path search one per edge, and the fuel given by
  the callers covers them (\<open>ArchGraphProps\<close> shows that it is never exhausted).
\<close>

datatype compile_mode = Governing | Review

fun compile_mode_debug :: "compile_mode \<Rightarrow> string" where
  "compile_mode_debug Governing = ''Governing''"
| "compile_mode_debug Review = ''Review''"

record graph_declaration =
  gd_module :: string
  gd_declaration :: json

type_synonym declarations = "(string, graph_declaration) bmap"

record compiled_graph =
  cg_mode :: compile_mode
  cg_objects :: declarations
  cg_relations :: declarations
  cg_bindings :: declarations
  cg_constraints :: declarations

record declaration_owner =
  do_module :: string
  do_category :: string

type_synonym modules = "(string, json) bmap"

definition categories :: "string list" where
  "categories = [''objects'', ''relations'', ''bindings'', ''constraints'']"

subsection \<open>Modules\<close>

definition collect_module ::
    "arch_env \<Rightarrow> vocabulary \<Rightarrow> json \<Rightarrow> arch_diagnostic list \<times> modules
     \<Rightarrow> (arch_diagnostic list \<times> modules) arch" where
  "collect_module env v document st =
     (case st of (diagnostics, modules) \<Rightarrow>
        and_then (validate_document env v document) (\<lambda>ds.
          if document_kind document \<noteq> Some ''ArchitectureModule''
          then Inr (diagnostics @ ds @ [error_diagnostic ''graph.non-module-input''
                 ''architecture graph compilation accepts ArchitectureModule documents only''], modules)
          else (case document_id document of
                  None \<Rightarrow> Inr (diagnostics @ ds, modules)
                | Some i \<Rightarrow> Inr (diagnostics @ ds
                    @ (if bmap_get modules i \<noteq> None
                       then [error_diagnostic ''module.duplicate-id'' (''duplicate module ID '' @ i)] else []),
                    bmap_insert i document modules))))"

definition module_imports :: "json \<Rightarrow> json list arch" where
  "module_imports document = expects (array_at document ''imports'') ''schema validated imports''"

definition validate_import ::
    "arch_env \<Rightarrow> modules \<Rightarrow> string \<Rightarrow> json \<Rightarrow> arch_diagnostic list arch" where
  "validate_import env modules module_id imp =
     and_then (expects (str_at imp ''module'') ''schema validated import module'') (\<lambda>imported_id.
       case bmap_get modules imported_id of
         None \<Rightarrow> Inr [error_diagnostic ''import.module-unresolved''
                   (module_id @ '' imports missing module '' @ imported_id)]
       | Some imported \<Rightarrow>
           Inr ((if json_u64 (json_at imp ''architectureVersion'')
                    \<noteq> json_u64 (json_at (json_at imported ''metadata'') ''architectureVersion'')
                 then [error_diagnostic ''import.architecture-version-mismatch''
                         (module_id @ '' pins the wrong architecture version for '' @ imported_id)] else [])
             @ (case arch_digest_value env CanonicalModule imported of
                  Inr digest \<Rightarrow>
                    if str_at imp ''digest'' = Some digest then []
                    else [error_diagnostic ''import.digest-mismatch''
                            (module_id @ '' pins the wrong digest for '' @ imported_id)]
                | Inl error \<Rightarrow> [error])))"

definition validate_imports :: "arch_env \<Rightarrow> modules \<Rightarrow> arch_diagnostic list arch" where
  "validate_imports env modules =
     diagnose (\<lambda>(module_id, document).
       and_then (module_imports document) (diagnose (validate_import env modules module_id))) modules"

subsection \<open>Import cycles\<close>

record cycle_state =
  cy_visiting :: "string bset"
  cy_visited :: "string bset"
  cy_path :: "string list"

definition import_successors :: "modules \<Rightarrow> string \<Rightarrow> string list arch" where
  "import_successors modules i =
     (case bmap_get modules i of
        None \<Rightarrow> Inr []
      | Some document \<Rightarrow>
          and_then (module_imports document) (\<lambda>imports.
            Inr (List.map_filter (\<lambda>imp. str_at imp ''module'') imports)))"

text \<open>The stack of \<open>pending\<close> is a list whose head is its top, so pushing the reversed imports one by one
  puts the first of them on top. A cycle is the value \<open>Inl\<close> of its path.\<close>

fun cycle_loop ::
    "nat \<Rightarrow> modules \<Rightarrow> (string \<times> bool) list \<Rightarrow> cycle_state \<Rightarrow> (string list + cycle_state) option arch" where
  "cycle_loop fuel modules [] st = Inr (Some (Inr st))"
| "cycle_loop 0 modules (x # pending) st = Inr None"
| "cycle_loop (Suc fuel) modules ((current, exiting) # pending) st =
     (if exiting then
        cycle_loop fuel modules pending
          \<lparr>cy_visiting = filter (\<lambda>i. i \<noteq> current) (cy_visiting st),
           cy_visited = bset_insert current (cy_visited st),
           cy_path = butlast (cy_path st)\<rparr>
      else if current \<in> set (cy_visited st) then cycle_loop fuel modules pending st
      else if current \<in> set (cy_visiting st) then Inr (Some (Inl (cy_path st @ [current])))
      else and_then (import_successors modules current) (\<lambda>succs.
        cycle_loop fuel modules (map (\<lambda>i. (i, False)) succs @ (current, True) # pending)
          (st\<lparr>cy_visiting := bset_insert current (cy_visiting st), cy_path := cy_path st @ [current]\<rparr>)))"

definition import_count :: "modules \<Rightarrow> nat" where
  "import_count modules =
     sum_list (map (\<lambda>(_, document). length (elements (array_at document ''imports''))) modules)"

definition cycle_fuel :: "modules \<Rightarrow> nat" where
  "cycle_fuel modules = 2 * length modules + 2 * import_count modules + 3"

fun cycles_from :: "modules \<Rightarrow> string list \<Rightarrow> string bset \<Rightarrow> arch_diagnostic list option arch" where
  "cycles_from modules [] visited = Inr (Some [])"
| "cycles_from modules (i # is) visited =
     and_then (cycle_loop (cycle_fuel modules) modules [(i, False)]
         \<lparr>cy_visiting = [], cy_visited = visited, cy_path = []\<rparr>)
       (\<lambda>result. case result of
          None \<Rightarrow> Inr None
        | Some (Inl path) \<Rightarrow>
            Inr (Some [error_diagnostic ''import.cycle'' (''module import cycle: '' @ join '' -> '' path)])
        | Some (Inr st) \<Rightarrow> cycles_from modules is (cy_visited st))"

definition validate_import_cycles :: "modules \<Rightarrow> arch_diagnostic list option arch" where
  "validate_import_cycles modules = cycles_from modules (map fst modules) []"

subsection \<open>Ownership and exports\<close>

type_synonym owner_state =
  "arch_diagnostic list \<times> (string, declaration_owner) bmap \<times> string bset"

definition own_declaration :: "string \<Rightarrow> string \<Rightarrow> string \<Rightarrow> owner_state \<Rightarrow> owner_state" where
  "own_declaration module_id category i st =
     (case st of (diagnostics, owners, reserved) \<Rightarrow>
        (diagnostics @ (case bmap_get owners i of
             None \<Rightarrow> []
           | Some previous \<Rightarrow> [error_diagnostic ''declaration.duplicate-id''
               (i @ '' is declared by both '' @ do_module previous @ '' '' @ do_category previous
                @ '' and '' @ module_id @ '' '' @ category)]),
         bmap_insert i \<lparr>do_module = module_id, do_category = category\<rparr> owners, reserved))"

definition own_category :: "string \<Rightarrow> json \<Rightarrow> string \<Rightarrow> owner_state \<Rightarrow> owner_state arch" where
  "own_category module_id document category st =
     and_then (expects (json_object (json_at document category)) ''schema validated declaration map'')
       (\<lambda>decls. Inr (fold (\<lambda>(i, _). own_declaration module_id category i) decls st))"

definition reserve_id :: "string \<Rightarrow> owner_state \<Rightarrow> owner_state" where
  "reserve_id i st =
     (case st of (diagnostics, owners, reserved) \<Rightarrow>
        (diagnostics @ (if i \<in> set reserved
           then [error_diagnostic ''retired.duplicate-id''
                   (''retired ID '' @ i @ '' appears in more than one module'')] else []),
         owners, bset_insert i reserved))"

definition own_module :: "string \<times> json \<Rightarrow> owner_state \<Rightarrow> owner_state arch" where
  "own_module x st =
     (case x of (module_id, document) \<Rightarrow>
        and_then (fold_result (own_category module_id document) categories st) (\<lambda>st.
          and_then (expects (json_object (json_at document ''retired'')) ''schema validated retired map'')
            (\<lambda>retired. Inr (fold (\<lambda>(i, _). reserve_id i) retired st))))"

definition reused_ids :: "(string, declaration_owner) bmap \<Rightarrow> string bset \<Rightarrow> arch_diagnostic list" where
  "reused_ids owners reserved =
     concat (map (\<lambda>i. if bmap_get owners i \<noteq> None
         then [error_diagnostic ''retired.id-reused''
                 (''retired ID '' @ i @ '' is reused by an active declaration'')] else []) reserved)"

definition validate_export ::
    "(string, declaration_owner) bmap \<Rightarrow> string \<Rightarrow> string \<Rightarrow> json \<Rightarrow> arch_diagnostic list arch" where
  "validate_export owners module_id category exported =
     and_then (expects (json_str exported) ''schema validated export ID'') (\<lambda>i.
       Inr (case bmap_get owners i of
              Some owner \<Rightarrow>
                if do_module owner = module_id \<and> do_category owner = category then []
                else [error_diagnostic ''export.not-owned''
                        (module_id @ '' cannot export declaration '' @ i @ '' it does not own'')]
            | None \<Rightarrow> [error_diagnostic ''export.declaration-unresolved''
                (module_id @ '' exports unknown declaration '' @ i)]))"

definition validate_exports ::
    "modules \<Rightarrow> (string, declaration_owner) bmap \<Rightarrow> arch_diagnostic list arch" where
  "validate_exports modules owners =
     diagnose (\<lambda>(module_id, document).
       diagnose (\<lambda>category.
         and_then (expects (array_at (json_at document ''exports'') category) ''schema validated export set'')
           (diagnose (validate_export owners module_id category))) categories) modules"

subsection \<open>Eligible declarations\<close>

definition eligible :: "json \<Rightarrow> compile_mode \<Rightarrow> bool" where
  "eligible value mode \<longleftrightarrow>
     (let decision = json_at value ''decision''; status = str_at decision ''status''
      in case mode of
           Governing \<Rightarrow>
             status = Some ''accepted''
             \<and> \<not> none_or_empty (array_at (json_at decision ''authority'') ''governing'')
             \<and> approved (str_at (json_at value ''approval'') ''status'')
         | Review \<Rightarrow> status \<in> {Some ''accepted'', Some ''proposed'', Some ''unresolved''})"

definition collect_eligible ::
    "string \<Rightarrow> json \<Rightarrow> compile_mode \<Rightarrow> declarations \<Rightarrow> declarations arch" where
  "collect_eligible module_id decls mode output =
     and_then (expects (json_object decls) ''schema validated declaration map'') (\<lambda>entries.
       Inr (fold (\<lambda>(i, d) output.
           if eligible d mode then bmap_insert i \<lparr>gd_module = module_id, gd_declaration = d\<rparr> output
           else output) entries output))"

definition collect_graph :: "string \<times> json \<Rightarrow> compiled_graph \<Rightarrow> compiled_graph arch" where
  "collect_graph x g =
     (case x of (module_id, document) \<Rightarrow>
        if \<not> eligible document (cg_mode g) then Inr g
        else
          and_then (collect_eligible module_id (json_at document ''objects'') (cg_mode g) (cg_objects g)) (\<lambda>objects.
          and_then (collect_eligible module_id (json_at document ''relations'') (cg_mode g) (cg_relations g)) (\<lambda>relations.
          and_then (collect_eligible module_id (json_at document ''bindings'') (cg_mode g) (cg_bindings g)) (\<lambda>bindings.
          and_then (collect_eligible module_id (json_at document ''constraints'') (cg_mode g) (cg_constraints g)) (\<lambda>constraints.
            Inr (g\<lparr>cg_objects := objects, cg_relations := relations, cg_bindings := bindings,
                   cg_constraints := constraints\<rparr>))))))"

subsection \<open>References\<close>

definition validate_declaration_reference ::
    "modules \<Rightarrow> (string, declaration_owner) bmap \<Rightarrow> string \<Rightarrow> graph_declaration \<Rightarrow> json
     \<Rightarrow> arch_diagnostic list arch" where
  "validate_declaration_reference modules owners declaration_id declaration reference =
     (case json_str reference of
        None \<Rightarrow> Inr [error_diagnostic ''reference.invalid''
                  (declaration_id @ '' contains a non-string reference'')]
      | Some reference_id \<Rightarrow>
          (case bmap_get owners reference_id of
             None \<Rightarrow> Inr [error_diagnostic ''reference.unresolved''
                       (declaration_id @ '' references unknown ID '' @ reference_id)]
           | Some owner \<Rightarrow>
               if do_module owner = gd_module declaration then Inr []
               else
                 and_then (expects (bmap_get modules (gd_module declaration)) ''declaring module exists'') (\<lambda>declaring.
                 and_then (module_imports declaring) (\<lambda>imports.
                   if \<not> list_ex (\<lambda>imp. str_at imp ''module'' = Some (do_module owner)) imports
                   then Inr [error_diagnostic ''reference.module-not-imported''
                          (gd_module declaration @ '' references '' @ reference_id @ '' without importing ''
                           @ do_module owner)]
                   else
                     and_then (expects (bmap_get modules (do_module owner)) ''owner module exists'') (\<lambda>owner_module.
                     and_then (expects (array_at (json_at owner_module ''exports'') (do_category owner))
                         ''schema validated exports'') (\<lambda>exports.
                       Inr (if list_ex (\<lambda>i. json_str i = Some reference_id) exports then []
                            else [error_diagnostic ''reference.private-cross-module''
                                    (gd_module declaration @ '' references private declaration '' @ reference_id
                                     @ '' from '' @ do_module owner)])))))))"

subsection \<open>Paths over relations\<close>

text \<open>A pending entry is a node and whether an edge led to it.\<close>

fun path_loop ::
    "nat \<Rightarrow> (string \<times> string) list \<Rightarrow> string \<Rightarrow> bool \<Rightarrow> (string \<times> bool) list \<Rightarrow> string bset \<Rightarrow> bool option" where
  "path_loop fuel edges target require_edge [] visited = Some False"
| "path_loop 0 edges target require_edge (x # pending) visited = None"
| "path_loop (Suc fuel) edges target require_edge ((current, traversed) # pending) visited =
     (if current = target \<and> (\<not> require_edge \<or> traversed) then Some True
      else if current \<in> set visited then path_loop fuel edges target require_edge pending visited
      else path_loop fuel edges target require_edge
             (rev (map (\<lambda>(_, next). (next, True)) (filter (\<lambda>(source, _). source = current) edges)) @ pending)
             (bset_insert current visited))"

definition edge_path_exists :: "(string \<times> string) list \<Rightarrow> string \<Rightarrow> string \<Rightarrow> bool \<Rightarrow> bool option" where
  "edge_path_exists edges source target require_edge =
     path_loop (length edges + 1) edges target require_edge [(source, False)] []"

definition relation_ends :: "graph_declaration \<Rightarrow> (string \<times> string) arch" where
  "relation_ends relation =
     and_then (expects (str_at (gd_declaration relation) ''subject'') ''validated subject'') (\<lambda>subject.
     and_then (expects (str_at (gd_declaration relation) ''object'') ''validated object'') (\<lambda>object.
       Inr (subject, object)))"

definition relation_edges :: "compiled_graph \<Rightarrow> (string \<Rightarrow> bool) \<Rightarrow> (string \<times> string) list arch" where
  "relation_edges g chosen =
     map_result relation_ends
       (filter (\<lambda>relation. case str_at (gd_declaration relation) ''predicate'' of
           None \<Rightarrow> False | Some predicate \<Rightarrow> chosen predicate) (map snd (cg_relations g)))"

text \<open>\<open>None\<close> would be the exhaustion of the fuel.\<close>

definition path_exists :: "compiled_graph \<Rightarrow> string \<Rightarrow> string \<Rightarrow> string bset \<Rightarrow> bool option arch" where
  "path_exists g source target predicates =
     and_then (relation_edges g (\<lambda>p. p \<in> set predicates)) (\<lambda>edges.
       Inr (edge_path_exists edges source target False))"

subsection \<open>Constraints\<close>

definition constraint_failed :: "string \<Rightarrow> string \<Rightarrow> arch_diagnostic" where
  "constraint_failed i message = error_diagnostic ''constraint.failed'' (i @ '': '' @ message)"

definition predicate_unknown :: "string \<Rightarrow> string \<Rightarrow> arch_diagnostic" where
  "predicate_unknown i predicate =
     error_diagnostic ''constraint.predicate-unknown'' (i @ '' references unknown predicate '' @ predicate)"

definition requires_object :: "compiled_graph \<Rightarrow> string \<Rightarrow> json \<Rightarrow> arch_diagnostic list arch" where
  "requires_object g i arguments =
     and_then (expects (str_at arguments ''target'') ''validated target'') (\<lambda>target.
       Inr (if bmap_get (cg_objects g) target = None
            then [constraint_failed i (''required object '' @ target @ '' is absent'')] else []))"

definition exactly_one_incoming :: "compiled_graph \<Rightarrow> vocabulary \<Rightarrow> string \<Rightarrow> json \<Rightarrow> arch_diagnostic list arch" where
  "exactly_one_incoming g v i arguments =
     and_then (expects (str_at arguments ''target'') ''validated target'') (\<lambda>target.
     and_then (expects (str_at arguments ''predicate'') ''validated predicate'') (\<lambda>predicate.
       if \<not> has_predicate v predicate then Inr [predicate_unknown i predicate]
       else
         let count = length (filter (\<lambda>relation.
               str_at (gd_declaration relation) ''predicate'' = Some predicate
               \<and> str_at (gd_declaration relation) ''object'' = Some target) (map snd (cg_relations g)))
         in Inr (if count \<noteq> 1
              then [constraint_failed i (''expected exactly one incoming '' @ predicate @ '' relation to ''
                      @ target @ '', found '' @ decimal count)] else [])))"

definition forbids_relation :: "compiled_graph \<Rightarrow> vocabulary \<Rightarrow> string \<Rightarrow> json \<Rightarrow> arch_diagnostic list arch" where
  "forbids_relation g v i arguments =
     and_then (expects (str_at arguments ''predicate'') ''validated predicate'') (\<lambda>predicate.
       if \<not> has_predicate v predicate then Inr [predicate_unknown i predicate]
       else Inr (if list_ex (\<lambda>relation.
                   str_at (gd_declaration relation) ''predicate'' = Some predicate
                   \<and> str_at (gd_declaration relation) ''subject'' = str_at arguments ''subject''
                   \<and> str_at (gd_declaration relation) ''object'' = str_at arguments ''object'')
                 (map snd (cg_relations g))
            then [constraint_failed i ''forbidden relation is present''] else []))"

definition no_path :: "compiled_graph \<Rightarrow> vocabulary \<Rightarrow> string \<Rightarrow> json \<Rightarrow> arch_diagnostic list option arch" where
  "no_path g v i arguments =
     and_then (expects (array_at arguments ''via'') ''validated path predicates'') (\<lambda>via.
       let predicates = bset_of (List.map_filter json_str via);
           unknown = map (predicate_unknown i) (filter (\<lambda>p. \<not> has_predicate v p) predicates)
       in if unknown \<noteq> [] then Inr (Some unknown)
          else
            and_then (expects (str_at arguments ''from'') ''validated from'') (\<lambda>source.
            and_then (expects (str_at arguments ''to'') ''validated to'') (\<lambda>target.
            and_then (path_exists g source target predicates) (\<lambda>found.
              Inr (map_option (\<lambda>b. if b then [constraint_failed i ''a prohibited dependency path exists'']
                                   else []) found)))))"

definition must_reference_contract ::
    "compiled_graph \<Rightarrow> vocabulary \<Rightarrow> string \<Rightarrow> json \<Rightarrow> arch_diagnostic list arch" where
  "must_reference_contract g v i arguments =
     and_then (expects (str_at arguments ''objectKind'') ''validated object kind'') (\<lambda>kind.
       if \<not> has_object_kind v kind
       then Inr [error_diagnostic ''constraint.object-kind-unknown''
              (i @ '' references unknown object kind '' @ kind)]
       else
         let visibility = Option.bind (json_get arguments ''visibility'') json_str
         in Inr (concat (map (\<lambda>(object_id, object).
              let d = gd_declaration object; attributes = json_at d ''attributes''
              in if str_at d ''kind'' \<noteq> Some kind
                    \<or> visibility \<noteq> None \<and> str_at attributes ''visibility'' \<noteq> visibility then []
                 else if json_get attributes ''contract'' = None
                 then [constraint_failed i (object_id @ '' does not reference a contract'')] else [])
              (cg_objects g))))"

definition found :: "'a arch \<Rightarrow> 'a option arch" where
  "found m = and_then m (\<lambda>x. Inr (Some x))"

definition evaluate_constraint ::
    "compiled_graph \<Rightarrow> vocabulary \<Rightarrow> string \<times> graph_declaration \<Rightarrow> arch_diagnostic list option arch" where
  "evaluate_constraint g v x =
     (case x of (i, entry) \<Rightarrow>
        let declaration = gd_declaration entry; arguments = json_at declaration ''arguments''
        in and_then (expects (str_at declaration ''rule'') ''schema validated constraint rule'') (\<lambda>rule.
             if rule = ''requires_object'' then found (requires_object g i arguments)
             else if rule = ''exactly_one_incoming'' then found (exactly_one_incoming g v i arguments)
             else if rule = ''forbids_relation'' then found (forbids_relation g v i arguments)
             else if rule = ''no_path'' then no_path g v i arguments
             else if rule = ''must_reference_contract'' then found (must_reference_contract g v i arguments)
             else Inr (Some [])))"

definition join_found :: "'a list option list \<Rightarrow> 'a list option" where
  "join_found xs = (if None \<in> set xs then None else Some (concat (map the xs)))"

definition evaluate_constraints :: "compiled_graph \<Rightarrow> vocabulary \<Rightarrow> arch_diagnostic list option arch" where
  "evaluate_constraints g v =
     and_then (map_result (evaluate_constraint g v) (cg_constraints g)) (\<lambda>results. Inr (join_found results))"

text \<open>The first source of an edge that lies on a cycle.\<close>

fun cycle_source :: "(string \<times> string) list \<Rightarrow> (string \<times> string) list \<Rightarrow> string option option" where
  "cycle_source edges [] = Some None"
| "cycle_source edges ((source, _) # rest) =
     (case edge_path_exists edges source source True of
        None \<Rightarrow> None
      | Some True \<Rightarrow> Some (Some source)
      | Some False \<Rightarrow> cycle_source edges rest)"

fun predicate_cycles ::
    "compiled_graph \<Rightarrow> (string \<times> predicate_definition) list \<Rightarrow> arch_diagnostic list option arch" where
  "predicate_cycles g [] = Inr (Some [])"
| "predicate_cycles g ((predicate, pd) # predicates) =
     (if pd_cycles pd \<noteq> CyclesForbidden then predicate_cycles g predicates
      else and_then (relation_edges g (\<lambda>p. p = predicate)) (\<lambda>edges.
        case cycle_source edges edges of
          None \<Rightarrow> Inr None
        | Some (Some source) \<Rightarrow>
            Inr (Some [error_diagnostic ''relation.cycle-forbidden''
              (''predicate '' @ predicate @ '' contains a forbidden cycle at '' @ source)])
        | Some None \<Rightarrow> predicate_cycles g predicates))"

definition validate_predicate_cycles :: "compiled_graph \<Rightarrow> vocabulary \<Rightarrow> arch_diagnostic list option arch" where
  "validate_predicate_cycles g v = predicate_cycles g (vo_predicates v)"

subsection \<open>Compilation\<close>

definition reference_diagnostics ::
    "vocabulary \<Rightarrow> modules \<Rightarrow> (string, declaration_owner) bmap \<Rightarrow> compiled_graph
     \<Rightarrow> string \<times> graph_declaration \<Rightarrow> arch_diagnostic list arch" where
  "reference_diagnostics v modules owners g x =
     (case x of (i, entry) \<Rightarrow>
        diagnose (\<lambda>reference.
          and_then (validate_declaration_reference modules owners i entry (JString reference)) (\<lambda>ds.
            Inr (ds @ (if ds = [] \<and> bmap_get (cg_objects g) reference = None
                 then [error_diagnostic ''object.reference-not-active''
                         (i @ '' references '' @ reference @ '', which is absent from the ''
                          @ compile_mode_debug (cg_mode g) @ '' graph'')] else []))))
          (object_reference_ids v (gd_declaration entry)))"

definition relation_diagnostics ::
    "vocabulary \<Rightarrow> modules \<Rightarrow> (string, declaration_owner) bmap \<Rightarrow> (string, string) bmap
     \<Rightarrow> string \<times> graph_declaration \<Rightarrow> arch_diagnostic list arch" where
  "relation_diagnostics v modules owners kinds x =
     (case x of (i, entry) \<Rightarrow>
        and_then (validate_relation v i (gd_declaration entry) kinds) (\<lambda>ds1.
        and_then (validate_declaration_reference modules owners i entry
            (json_at (gd_declaration entry) ''subject'')) (\<lambda>ds2.
        and_then (validate_declaration_reference modules owners i entry
            (json_at (gd_declaration entry) ''object'')) (\<lambda>ds3.
          Inr (ds1 @ ds2 @ ds3)))))"

definition binding_diagnostics ::
    "modules \<Rightarrow> (string, declaration_owner) bmap \<Rightarrow> compiled_graph
     \<Rightarrow> string \<times> graph_declaration \<Rightarrow> arch_diagnostic list arch" where
  "binding_diagnostics modules owners g x =
     (case x of (i, entry) \<Rightarrow>
        let target_value = json_at (gd_declaration entry) ''target''
        in and_then (validate_declaration_reference modules owners i entry target_value) (\<lambda>ds.
             Inr (ds @ (case json_str target_value of
                None \<Rightarrow> []
              | Some target \<Rightarrow>
                  if bmap_get (cg_objects g) target = None
                  then [error_diagnostic ''binding.target-not-active''
                          (i @ '' targets a declaration absent from the '' @ compile_mode_debug (cg_mode g)
                           @ '' graph'')] else []))))"

definition object_kinds_of :: "compiled_graph \<Rightarrow> (string, string) bmap arch" where
  "object_kinds_of g =
     map_result (\<lambda>(i, entry).
       and_then (expects (str_at (gd_declaration entry) ''kind'') ''schema validated object kind'') (\<lambda>kind.
         Inr (i, kind))) (cg_objects g)"

definition graph_diagnostics ::
    "vocabulary \<Rightarrow> modules \<Rightarrow> (string, declaration_owner) bmap \<Rightarrow> compiled_graph
     \<Rightarrow> arch_diagnostic list option arch" where
  "graph_diagnostics v modules owners g =
     and_then (object_kinds_of g) (\<lambda>kinds.
     and_then (diagnose (reference_diagnostics v modules owners g) (cg_objects g)) (\<lambda>ds1.
     and_then (diagnose (relation_diagnostics v modules owners kinds) (cg_relations g)) (\<lambda>ds2.
     and_then (diagnose (binding_diagnostics modules owners g) (cg_bindings g)) (\<lambda>ds3.
     and_then (evaluate_constraints g v) (\<lambda>ds4.
     and_then (validate_predicate_cycles g v) (\<lambda>ds5.
       Inr (join_found [Some ds1, Some ds2, Some ds3, ds4, ds5])))))))"

definition refuse :: "arch_diagnostic list \<Rightarrow> unit arch" where
  "refuse ds = (if ds = [] then Inr () else Inl (ArchRefused (sort_diagnostics ds)))"

text \<open>The fuel of a search is never exhausted; a compilation that exhausted it would be a panic here.\<close>

definition searched :: "'a option \<Rightarrow> 'a arch" where
  "searched x = expects x ''fuel''"

definition validate_modules ::
    "arch_env \<Rightarrow> modules \<Rightarrow> (string, declaration_owner) bmap arch" where
  "validate_modules env modules =
     and_then (validate_imports env modules) (\<lambda>ds1.
     and_then (validate_import_cycles modules) (\<lambda>cycles.
     and_then (searched cycles) (\<lambda>ds2.
     and_then (fold_result own_module modules ([], [], [])) (\<lambda>(ds3, owners, reserved).
     and_then (validate_exports modules owners) (\<lambda>ds4.
     and_then (refuse (ds1 @ ds2 @ ds3 @ reused_ids owners reserved @ ds4)) (\<lambda>_.
       Inr owners))))))"

definition load_modules :: "arch_env \<Rightarrow> vocabulary \<Rightarrow> json list \<Rightarrow> modules arch" where
  "load_modules env v documents =
     and_then (fold_result (collect_module env v) documents ([], [])) (\<lambda>(ds, modules).
     and_then (refuse ds) (\<lambda>_. Inr modules))"

definition compile_graph ::
    "arch_env \<Rightarrow> json list \<Rightarrow> vocabulary \<Rightarrow> compile_mode \<Rightarrow> compiled_graph arch" where
  "compile_graph env documents v mode =
     and_then (load_modules env v documents) (\<lambda>modules.
     and_then (validate_modules env modules) (\<lambda>owners.
     and_then (fold_result collect_graph modules
         \<lparr>cg_mode = mode, cg_objects = [], cg_relations = [], cg_bindings = [], cg_constraints = []\<rparr>) (\<lambda>g.
     and_then (graph_diagnostics v modules owners g) (\<lambda>result.
     and_then (searched result) (\<lambda>ds.
     and_then (refuse ds) (\<lambda>_. Inr g))))))"

end
