(* ===== verification/ArchObservation.thy ===== *)
theory ArchObservation
  imports ArchGraph
begin

text \<open>
  Observation of a repository against a compiled graph (\<open>src/architecture/observation/mod.rs\<close>): the facts
  the manifests give for every binding, their coverage, and the digests of the observation. The index of
  the manifests (a walk of the file system and two parsers) is an argument, as are the environment and
  the vocabulary.
\<close>

record source_position =
  sp_line :: nat
  sp_column :: nat

record arch_source_span =
  ss_start :: source_position
  ss_end :: source_position

record arch_source_location =
  sl_path :: string
  sl_span :: arch_source_span

datatype coverage_status = CoverageComplete | CoveragePartial | CoverageUnsupported | CoverageUnknown

record coverage =
  cov_repository_scope :: string
  cov_language :: "string option"
  cov_feature :: string
  cov_status :: coverage_status
  cov_included_roots :: "string list"
  cov_excluded_roots :: "string list"
  cov_limitations :: "string list"

datatype observation_mode = Deterministic | Inferred

record observation_fact =
  of_target :: string
  of_observed_kind :: string
  of_attributes :: json
  of_extractor :: generator_identity
  of_mode :: observation_mode
  of_confidence_basis_points :: "nat option"
  of_source_locations :: "arch_source_location list"
  of_coverage_ids :: "string list"

record architecture_observation =
  ao_api_version :: string
  ao_kind :: string
  ao_metadata :: generated_metadata
  ao_vocabulary :: vocabulary_identity
  ao_repository :: string
  ao_source_commit :: string
  ao_coverage :: "(string, coverage) bmap"
  ao_facts :: "(string, observation_fact) bmap"
  ao_content_digest :: string
  ao_envelope_digest :: string

record observe_request =
  or_repository_id :: string
  or_observation_id :: string
  or_source_commit :: string
  or_observed_at :: string
  or_source_inputs :: "string list"

record manifest_match =
  mm_name :: string
  mm_version :: "string option"
  mm_location :: arch_source_location

record manifest_index =
  mx_npm :: "(string, manifest_match list) bmap"
  mx_rust :: "(string, manifest_match list) bmap"

definition manifests_npm :: "manifest_index \<Rightarrow> string \<Rightarrow> manifest_match list" where
  "manifests_npm index name = elements (bmap_get (mx_npm index) name)"

definition manifests_rust :: "manifest_index \<Rightarrow> string \<Rightarrow> manifest_match list" where
  "manifests_rust index name = elements (bmap_get (mx_rust index) name)"

subsection \<open>Serialization\<close>

text \<open>The JSON values of the records; an object of \<open>serde_json\<close> keeps its fields sorted by name.\<close>

definition json_map :: "(string \<times> json) list \<Rightarrow> json" where
  "json_map entries = JObject (sort_key fst entries)"

definition json_string_array :: "string list \<Rightarrow> json" where
  "json_string_array xs = JArray (map JString xs)"

definition json_nat :: "nat \<Rightarrow> json" where
  "json_nat n = JNumber (PosInt n)"

definition json_option :: "string option \<Rightarrow> json" where
  "json_option x = (case x of None \<Rightarrow> JNull | Some s \<Rightarrow> JString s)"

text \<open>\<open>skip_serializing_if\<close>: a field that is left out when it is empty.\<close>

definition unless_empty :: "string \<Rightarrow> string list \<Rightarrow> (string \<times> json) list" where
  "unless_empty name xs = (if xs = [] then [] else [(name, json_string_array xs)])"

fun coverage_status_name :: "coverage_status \<Rightarrow> string" where
  "coverage_status_name CoverageComplete = ''complete''"
| "coverage_status_name CoveragePartial = ''partial''"
| "coverage_status_name CoverageUnsupported = ''unsupported''"
| "coverage_status_name CoverageUnknown = ''unknown''"

fun observation_mode_name :: "observation_mode \<Rightarrow> string" where
  "observation_mode_name Deterministic = ''deterministic''"
| "observation_mode_name Inferred = ''inferred''"

definition coverage_json :: "coverage \<Rightarrow> json" where
  "coverage_json c =
     json_map ([(''repositoryScope'', JString (cov_repository_scope c))]
       @ (case cov_language c of None \<Rightarrow> [] | Some l \<Rightarrow> [(''language'', JString l)])
       @ [(''feature'', JString (cov_feature c)), (''status'', JString (coverage_status_name (cov_status c)))]
       @ unless_empty ''includedRoots'' (cov_included_roots c)
       @ unless_empty ''excludedRoots'' (cov_excluded_roots c)
       @ unless_empty ''limitations'' (cov_limitations c))"

definition position_json :: "source_position \<Rightarrow> json" where
  "position_json p = json_map [(''line'', json_nat (sp_line p)), (''column'', json_nat (sp_column p))]"

definition location_json :: "arch_source_location \<Rightarrow> json" where
  "location_json l =
     json_map [(''path'', JString (sl_path l)),
       (''span'', json_map [(''start'', position_json (ss_start (sl_span l))),
                           (''end'', position_json (ss_end (sl_span l)))])]"

definition generator_json :: "generator_identity \<Rightarrow> json" where
  "generator_json g = json_map [(''id'', JString (gi_id g)), (''version'', JString (gi_version g))]"

definition fact_json :: "observation_fact \<Rightarrow> json" where
  "fact_json f =
     json_map ([(''target'', JString (of_target f)), (''observedKind'', JString (of_observed_kind f)),
         (''attributes'', of_attributes f), (''extractor'', generator_json (of_extractor f)),
         (''mode'', JString (observation_mode_name (of_mode f)))]
       @ (case of_confidence_basis_points f of None \<Rightarrow> [] | Some n \<Rightarrow> [(''confidenceBasisPoints'', json_nat n)])
       @ [(''sourceLocations'', JArray (map location_json (of_source_locations f))),
          (''coverageIds'', json_string_array (of_coverage_ids f))])"

definition vocabulary_identity_json :: "vocabulary_identity \<Rightarrow> json" where
  "vocabulary_identity_json v =
     json_map [(''id'', JString (vi_id v)), (''version'', json_nat (vi_version v)),
       (''digest'', JString (vi_digest v))]"

definition metadata_json :: "generated_metadata \<Rightarrow> json" where
  "metadata_json m =
     json_map [(''id'', JString (gm_id m)), (''name'', JString (gm_name m)),
       (''architectureVersion'', json_nat (gm_architecture_version m)), (''generated'', JBool (gm_generated m)),
       (''generator'', generator_json (gm_generator m)), (''generatedAt'', JString (gm_generated_at m)),
       (''sourceInputs'', json_string_array (gm_source_inputs m)),
       (''generationCommand'', JString (gm_generation_command m)),
       (''manualEditing'', JString (gm_manual_editing m))]"

definition coverages_json :: "(string, coverage) bmap \<Rightarrow> json" where
  "coverages_json cs = JObject (map (\<lambda>(i, c). (i, coverage_json c)) cs)"

definition facts_json :: "(string, observation_fact) bmap \<Rightarrow> json" where
  "facts_json fs = JObject (map (\<lambda>(i, f). (i, fact_json f)) fs)"

definition observation_json :: "architecture_observation \<Rightarrow> json" where
  "observation_json ob =
     json_map [(''apiVersion'', JString (ao_api_version ob)), (''kind'', JString (ao_kind ob)),
       (''metadata'', metadata_json (ao_metadata ob)),
       (''vocabulary'', vocabulary_identity_json (ao_vocabulary ob)),
       (''repository'', json_map [(''id'', JString (ao_repository ob))]),
       (''sourceCommit'', JString (ao_source_commit ob)),
       (''coverage'', coverages_json (ao_coverage ob)), (''facts'', facts_json (ao_facts ob)),
       (''digests'', json_map [(''observationContentDigest'', JString (ao_content_digest ob)),
          (''observationEnvelopeDigest'', JString (ao_envelope_digest ob))])]"

subsection \<open>Digests and validation\<close>

definition content_payload :: "json \<Rightarrow> json \<Rightarrow> json" where
  "content_payload cov facts = json_map [(''coverage'', cov), (''facts'', facts)]"

definition envelope_payload :: "json \<Rightarrow> json \<Rightarrow> json \<Rightarrow> json \<Rightarrow> json \<Rightarrow> json \<Rightarrow> json \<Rightarrow> json" where
  "envelope_payload repository commit content generator at inputs command =
     json_map [(''repository'', repository), (''sourceCommit'', commit),
       (''observationContentDigest'', content), (''generator'', generator), (''generatedAt'', at),
       (''sourceInputs'', inputs), (''generationCommand'', command)]"

definition digest_diagnostics ::
    "arch_env \<Rightarrow> digest_kind \<Rightarrow> json \<Rightarrow> string option \<Rightarrow> arch_diagnostic \<Rightarrow> arch_diagnostic list" where
  "digest_diagnostics env kind payload recorded mismatch =
     (case arch_digest_value env kind payload of
        Inr digest \<Rightarrow> if recorded \<noteq> Some digest then [mismatch] else []
      | Inl error \<Rightarrow> [error])"

definition validate_observation_document :: "arch_env \<Rightarrow> vocabulary \<Rightarrow> json \<Rightarrow> arch_diagnostic list arch" where
  "validate_observation_document env v document =
     and_then (validate_document env v document) (\<lambda>ds.
       if ds \<noteq> [] then Inr ds
       else
         let digests = json_at document ''digests''; metadata = json_at document ''metadata''
         in Inr (digest_diagnostics env ObservationContent
                (content_payload (json_at document ''coverage'') (json_at document ''facts''))
                (str_at digests ''observationContentDigest'')
                (error_diagnostic ''observation.content-digest-mismatch''
                   ''observationContentDigest does not match the semantic facts and coverage'')
            @ digest_diagnostics env ObservationEnvelope
                (envelope_payload (json_at document ''repository'') (json_at document ''sourceCommit'')
                   (json_at digests ''observationContentDigest'') (json_at metadata ''generator'')
                   (json_at metadata ''generatedAt'') (json_at metadata ''sourceInputs'')
                   (json_at metadata ''generationCommand''))
                (str_at digests ''observationEnvelopeDigest'')
                (error_diagnostic ''observation.envelope-digest-mismatch''
                   ''observationEnvelopeDigest does not match its provenance envelope'')))"

definition validate_semantics :: "architecture_observation \<Rightarrow> arch_diagnostic list" where
  "validate_semantics ob =
     (if \<not> is_qualified_identifier (gm_id (ao_metadata ob)) \<or> \<not> is_qualified_identifier (ao_repository ob)
      then [error_diagnostic ''observation.identifier-invalid''
              ''observation and repository IDs must be qualified architecture identifiers''] else [])
     @ (if \<not> valid_source_commit (ao_source_commit ob)
        then [error_diagnostic ''observation.source-commit-invalid''
                ''sourceCommit must contain 7 to 64 lowercase hexadecimal characters''] else [])
     @ (if \<not> valid_timestamp (gm_generated_at (ao_metadata ob))
        then [error_diagnostic ''observation.timestamp-invalid''
                ''generatedAt must use RFC 3339 UTC seconds''] else [])"

definition arch_reject :: "arch_diagnostic list \<Rightarrow> unit arch" where
  "arch_reject ds = (if ds = [] then Inr () else Inl (ArchRefused ds))"

definition validate_generated :: "arch_env \<Rightarrow> vocabulary \<Rightarrow> architecture_observation \<Rightarrow> unit arch" where
  "validate_generated env v ob =
     and_then (validate_observation_document env v (observation_json ob)) (\<lambda>ds.
       arch_reject (ds @ validate_semantics ob))"

text \<open>What \<open>load\<close> does with a parsed document; \<open>decode\<close> is the derived deserializer.\<close>

definition load_observation ::
    "arch_env \<Rightarrow> vocabulary \<Rightarrow> (json \<Rightarrow> string + architecture_observation) \<Rightarrow> json \<Rightarrow> architecture_observation arch" where
  "load_observation env v decode document =
     and_then (validate_observation_document env v document) (\<lambda>ds.
     and_then (arch_reject ds) (\<lambda>_.
       case decode document of
         Inl message \<Rightarrow> Inl (ArchRefused [error_diagnostic ''observation.decode-failed'' message])
       | Inr ob \<Rightarrow> and_then (arch_reject (validate_semantics ob)) (\<lambda>_. Inr ob)))"

definition validate_observe_request :: "observe_request \<Rightarrow> arch_diagnostic list" where
  "validate_observe_request request =
     concat (map (\<lambda>(name, value). if is_qualified_identifier value then []
         else [error_diagnostic ''observation.identifier-invalid''
                 (name @ '' is not a qualified architecture identifier: '' @ value)])
       [(''repository ID'', or_repository_id request), (''observation ID'', or_observation_id request)])
     @ (if \<not> valid_source_commit (or_source_commit request)
        then [error_diagnostic ''observation.source-commit-invalid''
                ''source commit must contain 7 to 64 lowercase hexadecimal characters''] else [])
     @ (if \<not> valid_timestamp (or_observed_at request)
        then [error_diagnostic ''observation.timestamp-invalid''
                ''observed-at must use RFC 3339 UTC seconds, for example 2026-07-23T00:00:00Z''] else [])"

subsection \<open>Facts\<close>

definition manifest_coverage :: "string \<Rightarrow> string \<Rightarrow> coverage" where
  "manifest_coverage adapter language =
     \<lparr>cov_repository_scope = ''.'', cov_language = Some language, cov_feature = adapter,
      cov_status = CoverageComplete, cov_included_roots = [''.''],
      cov_excluded_roots = [''.git'', ''build'', ''coverage'', ''dist'', ''node_modules'', ''target'', ''tests''],
      cov_limitations = [''Generated, dependency, build, and test-fixture directories are outside maintained manifest coverage.'']\<rparr>"

record manifest_fact_context =
  mc_binding_id :: string
  mc_target :: string
  mc_observed_kind :: string
  mc_adapter :: string
  mc_selector_name :: string
  mc_coverage_id :: string
  mc_extractor_id :: string

definition manifest_fact :: "manifest_fact_context \<Rightarrow> manifest_match \<Rightarrow> observation_fact" where
  "manifest_fact context m =
     \<lparr>of_target = mc_target context, of_observed_kind = mc_observed_kind context,
      of_attributes = json_map
        [(''adapter'', JString (mc_adapter context)), (''bindingId'', JString (mc_binding_id context)),
         (''matchedPath'', JString (sl_path (mm_location m))), (''name'', JString (mm_name m)),
         (''selector'', JString (mc_selector_name context)), (''version'', json_option (mm_version m))],
      of_extractor = \<lparr>gi_id = mc_extractor_id context, gi_version = ''1''\<rparr>,
      of_mode = Deterministic, of_confidence_basis_points = None,
      of_source_locations = [mm_location m], of_coverage_ids = [mc_coverage_id context]\<rparr>"

definition fact_id :: "string \<Rightarrow> nat \<Rightarrow> string" where
  "fact_id binding_id index = binding_id @ ''.fact-'' @ decimal (index + 1)"

definition add_manifest_facts ::
    "manifest_fact_context \<Rightarrow> manifest_match list \<Rightarrow> (string, observation_fact) bmap
     \<Rightarrow> (string, observation_fact) bmap" where
  "add_manifest_facts context matches facts =
     fold (\<lambda>(index, m). bmap_insert (fact_id (mc_binding_id context) index) (manifest_fact context m))
       (enumerate 0 matches) facts"

text \<open>The coverage, extractor and language of an adapter, and the manifests it looks in.\<close>

definition observation_adapter ::
    "manifest_index \<Rightarrow> string \<Rightarrow> string \<Rightarrow> (string \<times> manifest_match list \<times> string \<times> string) option" where
  "observation_adapter index adapter name =
     (if adapter = ''npm.package''
      then Some (''codeatlas.coverage.npm-package-v1'', manifests_npm index name,
             ''codeatlas.extractor.npm-package'', ''package-json'')
      else if adapter = ''rust.crate''
      then Some (''codeatlas.coverage.rust-crate-v1'', manifests_rust index name,
             ''codeatlas.extractor.rust-crate'', ''toml'')
      else None)"

type_synonym observe_state =
  "arch_diagnostic list \<times> (string, coverage) bmap \<times> (string, observation_fact) bmap"

definition observe_binding ::
    "manifest_index \<Rightarrow> compiled_graph \<Rightarrow> string \<times> graph_declaration \<Rightarrow> observe_state \<Rightarrow> observe_state arch" where
  "observe_binding index g x st =
     (case x of (binding_id, binding) \<Rightarrow> case st of (ds, cov, facts) \<Rightarrow>
        let declaration = gd_declaration binding
        in and_then (expects (str_at (json_at declaration ''adapter'') ''kind'') ''validated adapter'') (\<lambda>adapter.
           and_then (expects (str_at (json_at declaration ''selector'') ''name'') ''validated manifest selector'')
             (\<lambda>name.
               case observation_adapter index adapter name of
                 None \<Rightarrow> Inr (ds @ [error_diagnostic ''observation.adapter-unsupported''
                          (binding_id @ '' uses unsupported observation adapter '' @ adapter)], cov, facts)
               | Some (coverage_id, matches, extractor_id, language) \<Rightarrow>
                   let cov' = (if bmap_get cov coverage_id = None
                               then bmap_insert coverage_id (manifest_coverage adapter language) cov else cov)
                   in and_then (expects (str_at declaration ''target'') ''validated binding target'') (\<lambda>target.
                        case bmap_get (cg_objects g) target of
                          None \<Rightarrow> Inr (ds @ [error_diagnostic ''observation.binding-target-missing''
                                   (binding_id @ '' targets missing object '' @ target)], cov', facts)
                        | Some target_object \<Rightarrow>
                            and_then (expects (str_at (gd_declaration target_object) ''kind'') ''validated object kind'')
                              (\<lambda>kind.
                                Inr (ds, cov', add_manifest_facts
                                  \<lparr>mc_binding_id = binding_id, mc_target = target, mc_observed_kind = kind,
                                   mc_adapter = adapter, mc_selector_name = name, mc_coverage_id = coverage_id,
                                   mc_extractor_id = extractor_id\<rparr> matches facts))))))"

definition digested :: "arch_env \<Rightarrow> digest_kind \<Rightarrow> json \<Rightarrow> string arch" where
  "digested env kind payload =
     (case arch_digest_value env kind payload of
        Inl error \<Rightarrow> Inl (ArchRefused [error]) | Inr digest \<Rightarrow> Inr digest)"

definition observer :: generator_identity where
  "observer = \<lparr>gi_id = ''codeatlas.tool.architecture-observer'', gi_version = ''0.1''\<rparr>"

definition observe ::
    "arch_env \<Rightarrow> vocabulary \<Rightarrow> (arch_diagnostic list + manifest_index) \<Rightarrow> compiled_graph \<Rightarrow> observe_request
     \<Rightarrow> architecture_observation arch" where
  "observe env v scanned g request =
     and_then (arch_reject (validate_observe_request request)) (\<lambda>_.
     and_then (case scanned of Inl ds \<Rightarrow> Inl (ArchRefused ds) | Inr index \<Rightarrow> Inr index) (\<lambda>index.
     and_then (fold_result (observe_binding index g) (cg_bindings g) ([], [], [])) (\<lambda>(ds, cov, facts).
     and_then (arch_reject (sort_key (\<lambda>d. (ad_code d, ad_message d)) ds)) (\<lambda>_.
       let inputs = remdups_adj (sort (or_source_inputs request));
           command = ''codeatlas scan architecture''
       in and_then (digested env ObservationContent (content_payload (coverages_json cov) (facts_json facts)))
            (\<lambda>content.
          and_then (digested env ObservationEnvelope
              (envelope_payload (json_map [(''id'', JString (or_repository_id request))])
                 (JString (or_source_commit request)) (JString content) (generator_json observer)
                 (JString (or_observed_at request)) (json_string_array inputs) (JString command)))
            (\<lambda>envelope.
              let ob = \<lparr>ao_api_version = architecture_api_version, ao_kind = ''ArchitectureObservation'',
                    ao_metadata = \<lparr>gm_id = or_observation_id request,
                      gm_name = or_repository_id request @ '' architecture observation'',
                      gm_architecture_version = 1, gm_generated = True, gm_generator = observer,
                      gm_generated_at = or_observed_at request, gm_source_inputs = inputs,
                      gm_generation_command = command, gm_manual_editing = ''prohibited''\<rparr>,
                    ao_vocabulary = vocabulary_identity_of v, ao_repository = or_repository_id request,
                    ao_source_commit = or_source_commit request, ao_coverage = cov, ao_facts = facts,
                    ao_content_digest = content, ao_envelope_digest = envelope\<rparr>
              in and_then (validate_generated env v ob) (\<lambda>_. Inr ob)))))))"

end
