(* ===== verification/ArchConformance.thy ===== *)
theory ArchConformance
  imports ArchObservation
begin

text \<open>
  Conformance of an observation to a compiled architecture (\<open>src/architecture/conformance.rs\<close> and the
  exceptions of \<open>policy.rs\<close>): every binding, unbound object, constraint and undeclared fact gets a result,
  policy exceptions are attached to the results of constraints, and a last check refuses errors that do
  not rest on complete deterministic evidence.
\<close>

record lock_document =
  ld_module_id :: string
  ld_architecture_version :: nat
  ld_source :: string
  ld_source_document_digest :: string
  ld_canonical_module_digest :: string
  ld_import_closure_digest :: string

record compilation_report =
  rp_schema_version :: nat
  rp_api_version :: string
  rp_tool_version :: string
  rp_compiler_version :: string
  rp_mode :: compile_mode
  rp_architecture_closure_digest :: string
  rp_graph_digest :: string
  rp_vocabulary :: vocabulary_identity
  rp_roots :: "string list"
  rp_graph :: compiled_graph

record architecture_lockfile =
  lf_schema_version :: nat
  lf_api_version :: string
  lf_generated :: bool
  lf_manual_editing :: string
  lf_generator :: generator_identity
  lf_roots :: "string list"
  lf_vocabulary :: vocabulary_identity
  lf_documents :: "lock_document list"

record compile_result =
  co_report :: compilation_report
  co_lockfile :: architecture_lockfile

record conformance_request =
  rq_conformance_id :: string
  rq_as_of :: string
  rq_source_inputs :: "string list"

record conformance_inputs =
  ci_governing_graph_digest :: string
  ci_architecture_closure_digest :: string
  ci_policy_closure_digest :: string
  ci_observation_content_digest :: string
  ci_vocabulary_digest :: string
  ci_validator_version :: string
  ci_as_of :: string

datatype conformance_state =
  Matched | Partial | Absent | Conflicting | Unexpected | Unobserved | Ambiguous

record conformance_evidence =
  ce_fact_ids :: "string list"
  ce_coverage_ids :: "string list"

record exception_dispositions =
  xd_applied :: "string list"
  xd_stale :: "string list"
  xd_expired :: "string list"
  xd_irrelevant :: "string list"
  xd_rejected :: "string list"

record conformance_result =
  rs_declaration_id :: string
  rs_state :: conformance_state
  rs_severity :: arch_severity
  rs_reason_code :: string
  rs_evidence :: conformance_evidence
  rs_exceptions :: exception_dispositions
  rs_explanation :: string

record architecture_conformance =
  ac_api_version :: string
  ac_kind :: string
  ac_metadata :: generated_metadata
  ac_vocabulary :: vocabulary_identity
  ac_inputs :: conformance_inputs
  ac_results :: "(string, conformance_result) bmap"
  ac_result_digest :: string

definition has_errors :: "architecture_conformance \<Rightarrow> bool" where
  "has_errors c \<longleftrightarrow> list_ex (\<lambda>(_, r). rs_severity r = SevError) (ac_results c)"

type_synonym results = "(string, conformance_result) bmap"
type_synonym named_facts = "(string \<times> observation_fact) list"
type_synonym named_coverage = "(string \<times> coverage) list"

definition evidence :: "named_facts \<Rightarrow> named_coverage \<Rightarrow> conformance_evidence" where
  "evidence facts cov = \<lparr>ce_fact_ids = map fst facts, ce_coverage_ids = map fst cov\<rparr>"

definition no_exceptions :: exception_dispositions where
  "no_exceptions = \<lparr>xd_applied = [], xd_stale = [], xd_expired = [], xd_irrelevant = [], xd_rejected = []\<rparr>"

definition conformance_result_of ::
    "string \<Rightarrow> conformance_state \<Rightarrow> arch_severity \<Rightarrow> string \<Rightarrow> conformance_evidence \<Rightarrow> string \<Rightarrow> conformance_result" where
  "conformance_result_of declaration_id state severity reason ev explanation =
     \<lparr>rs_declaration_id = declaration_id, rs_state = state, rs_severity = severity, rs_reason_code = reason,
      rs_evidence = ev, rs_exceptions = no_exceptions, rs_explanation = explanation\<rparr>"

subsection \<open>Bindings\<close>

text \<open>The facts of a binding, the coverage of its adapter, and the cardinalities.\<close>

definition binding_facts :: "architecture_observation \<Rightarrow> string \<Rightarrow> string \<Rightarrow> named_facts" where
  "binding_facts ob binding_id target =
     filter (\<lambda>(_, fact). of_target fact = target
       \<and> (case str_at (of_attributes fact) ''bindingId'' of None \<Rightarrow> True | Some i \<Rightarrow> i = binding_id))
       (ao_facts ob)"

definition adapter_coverage :: "architecture_observation \<Rightarrow> string \<Rightarrow> named_coverage" where
  "adapter_coverage ob adapter = filter (\<lambda>(_, c). cov_feature c = adapter) (ao_coverage ob)"

definition all_complete :: "named_coverage \<Rightarrow> bool" where
  "all_complete cov \<longleftrightarrow> cov \<noteq> [] \<and> list_all (\<lambda>(_, c). cov_status c = CoverageComplete) cov"

definition cardinality_matches :: "string \<Rightarrow> nat \<Rightarrow> bool arch" where
  "cardinality_matches cardinality count =
     (if cardinality = ''exactly_one'' then Inr (count = 1)
      else if cardinality = ''at_most_one'' then Inr (count \<le> 1)
      else if cardinality = ''one_or_more'' then Inr (count \<ge> 1)
      else if cardinality = ''any'' then Inr True
      else Inl (ArchPanic ''validated cardinality''))"

definition judge_binding ::
    "string \<Rightarrow> string \<Rightarrow> string \<Rightarrow> bool \<Rightarrow> named_facts \<Rightarrow> named_coverage \<Rightarrow> conformance_result" where
  "judge_binding target expected_kind cardinality cardinality_ok facts cov =
     (let result = (\<lambda>state severity reason. conformance_result_of target state severity reason (evidence facts cov));
          deterministic = list_all (\<lambda>(_, f). of_mode f = Deterministic) facts;
          partial = list_ex (\<lambda>(_, c). cov_status c = CoveragePartial) cov;
          kind_conflict = list_ex (\<lambda>(_, f). of_observed_kind f \<noteq> expected_kind) facts;
          required = cardinality \<in> {''exactly_one'', ''one_or_more''}
      in if list_ex (\<lambda>(_, f). of_mode f = Inferred) facts
         then result Ambiguous SevAdvisory ''evidence.inferred-review-only''
                ''Inferred evidence cannot establish an accepted deterministic binding.''
         else if cov = [] \<or> list_ex (\<lambda>(_, c). cov_status c \<in> {CoverageUnsupported, CoverageUnknown}) cov
         then result Unobserved SevAdvisory ''coverage.unsupported''
                ''No supported complete extractor coverage evaluates this binding.''
         else if partial
         then result (if facts = [] then Unobserved else Partial) SevAdvisory ''coverage.partial''
                ''Partial extractor coverage cannot establish the complete binding.''
         else if all_complete cov \<and> deterministic \<and> kind_conflict
         then result Conflicting SevError ''binding.kind-conflict''
                ''Deterministic evidence reports a construct with the wrong declared kind.''
         else if all_complete cov \<and> deterministic \<and> \<not> cardinality_ok
         then (if required \<and> facts = []
               then result Absent SevError ''binding.required-absent''
                      ''Complete deterministic coverage found no required construct.''
               else result Conflicting SevError ''binding.cardinality-conflict''
                      ''Complete deterministic evidence violates the declared binding cardinality.'')
         else result Matched SevAdvisory ''binding.exact-match''
                ''The accepted binding matched deterministic implementation evidence.'')"

definition evaluate_binding ::
    "string \<Rightarrow> graph_declaration \<Rightarrow> string \<Rightarrow> string \<Rightarrow> architecture_observation \<Rightarrow> conformance_result arch" where
  "evaluate_binding binding_id binding target expected_kind ob =
     and_then (expects (str_at (json_at (gd_declaration binding) ''adapter'') ''kind'') ''validated adapter'') (\<lambda>adapter.
     and_then (expects (str_at (gd_declaration binding) ''cardinality'') ''validated cardinality'') (\<lambda>cardinality.
       let facts = binding_facts ob binding_id target
       in and_then (cardinality_matches cardinality (length facts)) (\<lambda>ok.
            Inr (judge_binding target expected_kind cardinality ok facts (adapter_coverage ob adapter)))))"

subsection \<open>Unbound objects, constraints and unexpected facts\<close>

definition coverage_for_facts :: "named_facts \<Rightarrow> architecture_observation \<Rightarrow> named_coverage" where
  "coverage_for_facts facts ob =
     List.map_filter (\<lambda>i. map_option (Pair i) (bmap_get (ao_coverage ob) i))
       (bset_of (concat (map (\<lambda>(_, f). of_coverage_ids f) facts)))"

definition evaluate_unbound_object :: "string \<Rightarrow> architecture_observation \<Rightarrow> conformance_result" where
  "evaluate_unbound_object declaration_id ob =
     (let facts = filter (\<lambda>(_, f). of_target f = declaration_id) (ao_facts ob);
          ev = evidence facts (coverage_for_facts facts ob)
      in if facts = []
         then conformance_result_of declaration_id Unobserved SevAdvisory ''binding.missing'' ev
                ''No accepted binding maps this declaration to observable implementation.''
         else conformance_result_of declaration_id Ambiguous SevAdvisory ''binding.missing-for-evidence'' ev
                ''Implementation evidence exists, but no accepted binding establishes its mapping.'')"

definition evaluate_unobserved_constraint :: "string \<Rightarrow> conformance_result" where
  "evaluate_unobserved_constraint declaration_id =
     conformance_result_of declaration_id Unobserved SevAdvisory ''coverage.unsupported''
       \<lparr>ce_fact_ids = [], ce_coverage_ids = []\<rparr>
       ''No observed source-graph coverage evaluates this architecture constraint.''"

definition evaluate_unexpected :: "string \<Rightarrow> observation_fact \<Rightarrow> architecture_observation \<Rightarrow> conformance_result" where
  "evaluate_unexpected i f ob =
     (let facts = [(i, f)]; cov = coverage_for_facts facts ob
      in if of_mode f = Deterministic \<and> all_complete cov
         then conformance_result_of (of_target f) Unexpected SevError ''declaration.unexpected''
                (evidence facts cov)
                ''Complete deterministic evidence found a governed construct with no declaration.''
         else conformance_result_of (of_target f) Ambiguous SevAdvisory ''declaration.possibly-unexpected''
                (evidence facts cov)
                ''Incomplete or inferred evidence cannot establish an unexpected construct.'')"

definition result_id :: "string \<Rightarrow> string" where
  "result_id i = i @ ''.conformance''"

definition evaluate_one_binding ::
    "compiled_graph \<Rightarrow> architecture_observation \<Rightarrow> string \<times> graph_declaration \<Rightarrow> string bset \<times> results
     \<Rightarrow> (string bset \<times> results) arch" where
  "evaluate_one_binding g ob x st =
     (case x of (binding_id, binding) \<Rightarrow> case st of (targets, results) \<Rightarrow>
        and_then (expects (str_at (gd_declaration binding) ''target'') ''validated binding target'') (\<lambda>target.
        and_then (expects (bmap_get (cg_objects g) target) ''no entry found for key'') (\<lambda>object.
        and_then (expects (str_at (gd_declaration object) ''kind'') ''validated target kind'') (\<lambda>kind.
        and_then (evaluate_binding binding_id binding target kind ob) (\<lambda>r.
          Inr (bset_insert target targets, bmap_insert (result_id binding_id) r results))))))"

definition evaluate_objects :: "compiled_graph \<Rightarrow> architecture_observation \<Rightarrow> string bset \<Rightarrow> results \<Rightarrow> results" where
  "evaluate_objects g ob targets =
     fold (\<lambda>(i, _) results. if i \<in> set targets then results
         else bmap_insert (result_id i) (evaluate_unbound_object i ob) results) (cg_objects g)"

definition evaluate_constraint_results :: "compiled_graph \<Rightarrow> results \<Rightarrow> results" where
  "evaluate_constraint_results g =
     fold (\<lambda>(i, _). bmap_insert (result_id i) (evaluate_unobserved_constraint i)) (cg_constraints g)"

definition declared_ids :: "compiled_graph \<Rightarrow> string set" where
  "declared_ids g = fst ` set (cg_objects g) \<union> fst ` set (cg_relations g) \<union> fst ` set (cg_constraints g)"

definition evaluate_facts :: "compiled_graph \<Rightarrow> architecture_observation \<Rightarrow> results \<Rightarrow> results" where
  "evaluate_facts g ob =
     fold (\<lambda>(i, f) results. if of_target f \<in> declared_ids g then results
         else bmap_insert (result_id i) (evaluate_unexpected i f ob) results) (ao_facts ob)"

definition evaluate :: "compiled_graph \<Rightarrow> architecture_observation \<Rightarrow> results arch" where
  "evaluate g ob =
     and_then (fold_result (evaluate_one_binding g ob) (cg_bindings g) ([], [])) (\<lambda>(targets, results).
       Inr (evaluate_facts g ob (evaluate_constraint_results g (evaluate_objects g ob targets results))))"

subsection \<open>Exceptions\<close>

datatype exception_disposition = Applied | Stale | Expired | Irrelevant | Rejected

record policy_exception =
  px_id :: string
  px_declaration :: json

record policy_set =
  ps_digest :: string
  ps_exceptions :: "policy_exception list"

record exception_context =
  xc_constraint_id :: string
  xc_constraint_version :: nat
  xc_declaration_id :: string
  xc_declaring_module :: string
  xc_affected_closure_digest :: string
  xc_as_of :: string

definition evaluate_exception ::
    "policy_exception \<Rightarrow> exception_context \<Rightarrow> exception_disposition option arch" where
  "evaluate_exception e context =
     (let d = px_declaration e
      in and_then (expects (array_at d ''affectedIds'') ''validated affected IDs'') (\<lambda>ids.
         let affected = JString (xc_declaration_id context) \<in> set ids;
             scoped = str_at (json_at d ''scope'') ''module'' = Some (xc_declaring_module context);
             constraint_matches =
               str_at (json_at d ''constraint'') ''id'' = Some (xc_constraint_id context)
               \<and> json_u64 (json_at (json_at d ''constraint'') ''version'') = Some (xc_constraint_version context)
         in if \<not> affected \<and> \<not> scoped \<and> \<not> constraint_matches then Inr None
            else if \<not> affected \<or> \<not> scoped \<or> \<not> constraint_matches then Inr (Some Irrelevant)
            else if str_at (json_at d ''decision'') ''status'' \<noteq> Some ''accepted''
                    \<or> \<not> approved (str_at (json_at d ''approval'') ''status'')
                    \<or> none_or_empty (array_at (json_at (json_at d ''decision'') ''authority'') ''governing'')
            then Inr (Some Rejected)
            else if str_at d ''baseClosureDigest'' \<noteq> Some (xc_affected_closure_digest context)
            then Inr (Some Stale)
            else
              and_then (expects (str_at d ''expiresAt'') ''validated expiration'') (\<lambda>expires_at.
                Inr (Some (if \<not> valid_timestamp (xc_as_of context) \<or> \<not> valid_timestamp expires_at then Rejected
                           else if expires_at \<le> xc_as_of context then Expired else Applied)))))"

definition record_disposition ::
    "string \<Rightarrow> exception_disposition \<Rightarrow> conformance_result \<Rightarrow> conformance_result" where
  "record_disposition i disposition r =
     (let x = rs_exceptions r
      in case disposition of
           Applied \<Rightarrow>
             if rs_severity r = SevAdvisory
             then r\<lparr>rs_exceptions := x\<lparr>xd_irrelevant := xd_irrelevant x @ [i]\<rparr>\<rparr>
             else r\<lparr>rs_severity := SevAdvisory, rs_exceptions := x\<lparr>xd_applied := xd_applied x @ [i]\<rparr>\<rparr>
         | Stale \<Rightarrow> r\<lparr>rs_exceptions := x\<lparr>xd_stale := xd_stale x @ [i]\<rparr>\<rparr>
         | Expired \<Rightarrow> r\<lparr>rs_exceptions := x\<lparr>xd_expired := xd_expired x @ [i]\<rparr>\<rparr>
         | Irrelevant \<Rightarrow> r\<lparr>rs_exceptions := x\<lparr>xd_irrelevant := xd_irrelevant x @ [i]\<rparr>\<rparr>
         | Rejected \<Rightarrow> r\<lparr>rs_exceptions := x\<lparr>xd_rejected := xd_rejected x @ [i]\<rparr>\<rparr>)"

definition except_result ::
    "exception_context \<Rightarrow> policy_exception \<Rightarrow> conformance_result \<Rightarrow> conformance_result arch" where
  "except_result context e r =
     and_then (evaluate_exception e context) (\<lambda>disposition.
       Inr (case disposition of None \<Rightarrow> r | Some d \<Rightarrow> record_disposition (px_id e) d r))"

definition declaring_constraint_module :: "compiled_graph \<Rightarrow> string \<Rightarrow> string option" where
  "declaring_constraint_module g i = map_option gd_module (bmap_get (cg_constraints g) i)"

definition apply_exceptions_to ::
    "compile_result \<Rightarrow> policy_set \<Rightarrow> string \<Rightarrow> conformance_result \<Rightarrow> conformance_result arch" where
  "apply_exceptions_to compilation policies as_of r =
     (case declaring_constraint_module (rp_graph (co_report compilation)) (rs_declaration_id r) of
        None \<Rightarrow> Inr r
      | Some declaring_module \<Rightarrow>
          (case find (\<lambda>d. ld_module_id d = declaring_module) (lf_documents (co_lockfile compilation)) of
             None \<Rightarrow> Inr r
           | Some document \<Rightarrow>
               fold_result (except_result
                   \<lparr>xc_constraint_id = rs_declaration_id r, xc_constraint_version = 1,
                    xc_declaration_id = rs_declaration_id r, xc_declaring_module = declaring_module,
                    xc_affected_closure_digest = ld_import_closure_digest document, xc_as_of = as_of\<rparr>)
                 (ps_exceptions policies) r))"

definition apply_exceptions :: "results \<Rightarrow> compile_result \<Rightarrow> policy_set \<Rightarrow> string \<Rightarrow> results arch" where
  "apply_exceptions results compilation policies as_of =
     map_result (\<lambda>(i, r). and_then (apply_exceptions_to compilation policies as_of r) (\<lambda>s. Inr (i, s))) results"

subsection \<open>The final check\<close>

definition validate_evidence :: "results \<Rightarrow> architecture_observation \<Rightarrow> arch_diagnostic list" where
  "validate_evidence results ob =
     concat (map (\<lambda>(i, r).
       let deterministic = list_all (\<lambda>j. case bmap_get (ao_facts ob) j of
             None \<Rightarrow> False | Some f \<Rightarrow> of_mode f = Deterministic) (ce_fact_ids (rs_evidence r));
           complete = ce_coverage_ids (rs_evidence r) \<noteq> []
             \<and> list_all (\<lambda>j. case bmap_get (ao_coverage ob) j of
                 None \<Rightarrow> False | Some c \<Rightarrow> cov_status c = CoverageComplete) (ce_coverage_ids (rs_evidence r))
       in (if rs_severity r = SevError \<and> rs_state r \<in> {Absent, Conflicting, Unexpected}
              \<and> (\<not> complete \<or> rs_state r \<in> {Conflicting, Unexpected} \<and> \<not> deterministic)
           then [error_diagnostic ''conformance.hard-gate-without-complete-deterministic-evidence''
                   (i @ '' cannot be an error without complete deterministic evidence'')] else [])
        @ (if rs_state r = Matched
              \<and> list_ex (\<lambda>j. case bmap_get (ao_facts ob) j of
                    None \<Rightarrow> False | Some f \<Rightarrow> of_mode f = Inferred) (ce_fact_ids (rs_evidence r))
           then [error_diagnostic ''conformance.inferred-evidence-cannot-match''
                   (i @ '' reports inferred evidence as matched'')] else [])) results)"

definition validate_conformance_request :: "compile_result \<Rightarrow> conformance_request \<Rightarrow> arch_diagnostic list" where
  "validate_conformance_request compilation request =
     (if rp_mode (co_report compilation) \<noteq> Governing
      then [error_diagnostic ''conformance.governing-graph-required''
              ''conformance can evaluate only a governing graph''] else [])
     @ (if \<not> is_qualified_identifier (rq_conformance_id request)
        then [error_diagnostic ''conformance.identifier-invalid''
                ''conformance ID must be a qualified architecture identifier''] else [])
     @ (if \<not> valid_timestamp (rq_as_of request)
        then [error_diagnostic ''conformance.timestamp-invalid'' ''as-of must use RFC 3339 UTC seconds''] else [])"

definition validator_id :: string where
  "validator_id = ''codeatlas.tool.architecture-conformance''"

definition validator_version :: string where
  "validator_version = ''0.1''"

text \<open>
  The whole of \<open>conform\<close>, given the loaded observation and policies; \<open>result_payload\<close> and \<open>to_value\<close> are
  the derived serializers of its inputs and results and of the document.
\<close>

definition conform ::
    "arch_env \<Rightarrow> vocabulary \<Rightarrow> (conformance_inputs \<Rightarrow> results \<Rightarrow> json) \<Rightarrow> (architecture_conformance \<Rightarrow> json)
     \<Rightarrow> compile_result \<Rightarrow> conformance_request \<Rightarrow> architecture_observation arch \<Rightarrow> policy_set arch
     \<Rightarrow> architecture_conformance arch" where
  "conform env v result_payload to_value compilation request loaded_observation loaded_policies =
     and_then (arch_reject (validate_conformance_request compilation request)) (\<lambda>_.
     and_then loaded_observation (\<lambda>ob.
     and_then (if ao_vocabulary ob \<noteq> rp_vocabulary (co_report compilation)
               then Inl (ArchRefused [error_diagnostic ''conformance.vocabulary-mismatch''
                      ''the observation and governing graph use different vocabularies''])
               else Inr ()) (\<lambda>_.
     and_then loaded_policies (\<lambda>policies.
     and_then (evaluate (rp_graph (co_report compilation)) ob) (\<lambda>evaluated.
     and_then (apply_exceptions evaluated compilation policies (rq_as_of request)) (\<lambda>results.
     and_then (arch_reject (validate_evidence results ob)) (\<lambda>_.
       let inputs = \<lparr>ci_governing_graph_digest = rp_graph_digest (co_report compilation),
             ci_architecture_closure_digest = rp_architecture_closure_digest (co_report compilation),
             ci_policy_closure_digest = ps_digest policies,
             ci_observation_content_digest = ao_content_digest ob,
             ci_vocabulary_digest = vi_digest (vocabulary_identity_of v),
             ci_validator_version = validator_id @ ''/'' @ validator_version, ci_as_of = rq_as_of request\<rparr>
       in and_then (digested env ConformanceDigest (result_payload inputs results)) (\<lambda>digest.
            let c = \<lparr>ac_api_version = architecture_api_version, ac_kind = ''ArchitectureConformance'',
                  ac_metadata = \<lparr>gm_id = rq_conformance_id request,
                    gm_name = ao_repository ob @ '' architecture conformance'',
                    gm_architecture_version = 1, gm_generated = True,
                    gm_generator = \<lparr>gi_id = validator_id, gi_version = validator_version\<rparr>,
                    gm_generated_at = rq_as_of request,
                    gm_source_inputs = remdups_adj (sort (rq_source_inputs request)),
                    gm_generation_command = ''codeatlas diff architecture'',
                    gm_manual_editing = ''prohibited''\<rparr>,
                  ac_vocabulary = vocabulary_identity_of v, ac_inputs = inputs, ac_results = results,
                  ac_result_digest = digest\<rparr>
            in and_then (validate_document env v (to_value c)) (\<lambda>ds.
               and_then (arch_reject ds) (\<lambda>_. Inr c))))))))))"

end
