(* ===== verification/ArchGraphProps.thy ===== *)
theory ArchGraphProps
  imports ArchGraph
begin

text \<open>
  What a compiled architecture graph satisfies. The two stack searches are shown to be exact and never
  to exhaust their fuel: the path search decides the (reflexive) transitive closure of the relations, the
  import search accepts exactly the acyclic import graphs.
\<close>

subsection \<open>The path search\<close>

abbreviation arcs_of :: "(string \<times> string) list \<Rightarrow> (string \<times> string) set" where
  "arcs_of edges \<equiv> set edges"

definition path_measure :: "(string \<times> string) list \<Rightarrow> (string \<times> bool) list \<Rightarrow> string bset \<Rightarrow> nat" where
  "path_measure edges pending visited =
     length pending + length (filter (\<lambda>(a, _). a \<notin> set visited) edges)"

lemma filter_split_length:
  "c \<notin> V \<Longrightarrow> length (filter (\<lambda>(a, _). a \<notin> V) edges) =
     length (filter (\<lambda>(a, _). a = c) edges) + length (filter (\<lambda>(a, _). a \<notin> insert c V) edges)"
  by (induction edges) auto

lemma path_loop_returns:
  "path_measure edges pending visited \<le> fuel \<Longrightarrow>
     path_loop fuel edges target require_edge pending visited \<noteq> None"
proof (induction fuel edges target require_edge pending visited rule: path_loop.induct)
  case (3 fuel edges target require_edge current traversed pending visited)
  have "path_measure edges
      (rev (map (\<lambda>(_, next). (next, True)) (filter (\<lambda>(source, _). source = current) edges)) @ pending)
      (bset_insert current visited) \<le> fuel" if "current \<notin> set visited"
    using 3(3) filter_split_length [OF that, of edges] by (simp add: path_measure_def)
  with 3 show ?case by (auto simp: path_measure_def)
qed (auto simp: path_measure_def)

lemma path_loop_steps:
  "current = target \<and> (\<not> require_edge \<or> traversed) \<Longrightarrow>
     path_loop (Suc fuel) edges target require_edge ((current, traversed) # pending) visited = Some True"
  "\<not> (current = target \<and> (\<not> require_edge \<or> traversed)) \<Longrightarrow> current \<in> set visited \<Longrightarrow>
     path_loop (Suc fuel) edges target require_edge ((current, traversed) # pending) visited =
     path_loop fuel edges target require_edge pending visited"
  "\<not> (current = target \<and> (\<not> require_edge \<or> traversed)) \<Longrightarrow> current \<notin> set visited \<Longrightarrow>
     path_loop (Suc fuel) edges target require_edge ((current, traversed) # pending) visited =
     path_loop fuel edges target require_edge
       (rev (map (\<lambda>(_, next). (next, True)) (filter (\<lambda>(source, _). source = current) edges)) @ pending)
       (bset_insert current visited)"
  by auto

definition pending_reached :: "(string \<times> string) list \<Rightarrow> string \<Rightarrow> (string \<times> bool) list \<Rightarrow> bool" where
  "pending_reached edges s pending \<longleftrightarrow>
     (\<forall>(c, t) \<in> set pending. (s, c) \<in> (arcs_of edges)\<^sup>* \<and> (t \<longrightarrow> (s, c) \<in> (arcs_of edges)\<^sup>+))"

definition arcs_pursued ::
    "(string \<times> string) list \<Rightarrow> string \<Rightarrow> (string \<times> bool) list \<Rightarrow> string bset \<Rightarrow> bool" where
  "arcs_pursued edges target pending visited \<longleftrightarrow>
     (\<forall>(a, b) \<in> arcs_of edges. a \<in> set visited \<longrightarrow>
        b \<in> set visited \<and> b \<noteq> target \<or> (b, True) \<in> set pending)"

definition search_closed ::
    "(string \<times> string) list \<Rightarrow> string \<Rightarrow> bool \<Rightarrow> (string \<times> bool) list \<Rightarrow> string bset \<Rightarrow> bool" where
  "search_closed edges target require_edge pending visited \<longleftrightarrow>
     (\<exists>closed. set visited \<union> fst ` set pending \<subseteq> closed
        \<and> (\<forall>(a, b) \<in> arcs_of edges. a \<in> closed \<longrightarrow> b \<in> closed \<and> b \<noteq> target)
        \<and> (\<not> require_edge \<longrightarrow> target \<notin> fst ` set pending))"

abbreviation pushed :: "(string \<times> string) list \<Rightarrow> string \<Rightarrow> (string \<times> bool) list \<Rightarrow> (string \<times> bool) list" where
  "pushed edges current pending \<equiv>
     rev (map (\<lambda>(_, next). (next, True)) (filter (\<lambda>(source, _). source = current) edges)) @ pending"

lemma pending_reached_push:
  assumes "pending_reached edges s ((current, traversed) # pending)"
  shows "pending_reached edges s (pushed edges current pending)"
proof -
  have "(s, c) \<in> (arcs_of edges)\<^sup>+" if "(current, c) \<in> arcs_of edges" for c
    using assms that by (auto simp: pending_reached_def intro: rtrancl_into_trancl1)
  with assms show ?thesis by (auto simp: pending_reached_def)
qed

lemma path_loop_found:
  "pending_reached edges s pending \<Longrightarrow>
     path_loop fuel edges target require_edge pending visited = Some True \<Longrightarrow>
     (s, target) \<in> (arcs_of edges)\<^sup>* \<and> (require_edge \<longrightarrow> (s, target) \<in> (arcs_of edges)\<^sup>+)"
proof (induction fuel edges target require_edge pending visited rule: path_loop.induct)
  case (3 fuel edges target require_edge current traversed pending visited)
  show ?case
  proof (cases "current = target \<and> (\<not> require_edge \<or> traversed)")
    case True
    with 3(3) show ?thesis by (auto simp: pending_reached_def)
  next
    case False
    have rest: "pending_reached edges s pending" using 3(3) by (simp add: pending_reached_def)
    show ?thesis
    proof (cases "current \<in> set visited")
      case True
      from 3(1) [OF False True rest 3(4) [unfolded path_loop_steps(2) [OF False True]]] show ?thesis .
    next
      case fresh: False
      from 3(2) [OF False fresh pending_reached_push [OF 3(3)] 3(4) [unfolded path_loop_steps(3) [OF False fresh]]]
      show ?thesis .
    qed
  qed
qed auto

lemma arcs_pursued_skip:
  assumes "arcs_pursued edges target ((current, traversed) # pending) visited" and "current \<in> set visited"
    and "\<not> (current = target \<and> (\<not> require_edge \<or> traversed))"
  shows "arcs_pursued edges target pending visited"
  unfolding arcs_pursued_def
proof (intro ballI, clarify)
  fix a b assume "(a, b) \<in> arcs_of edges" "a \<in> set visited" and lost: "(b, True) \<notin> set pending"
  with assms(1) have "b \<in> set visited \<and> b \<noteq> target \<or> (b, True) = (current, traversed)"
    by (auto simp: arcs_pursued_def)
  with assms(2,3) show "b \<in> set visited \<and> b \<noteq> target" by auto
qed

lemma arcs_pursued_push:
  assumes "arcs_pursued edges target ((current, traversed) # pending) visited"
    and "\<not> (current = target \<and> (\<not> require_edge \<or> traversed))"
  shows "arcs_pursued edges target (pushed edges current pending) (bset_insert current visited)"
  unfolding arcs_pursued_def
proof (intro ballI, clarify)
  fix a b assume ab: "(a, b) \<in> arcs_of edges" "a \<in> set (bset_insert current visited)"
    and lost: "(b, True) \<notin> set (pushed edges current pending)"
  have "a \<noteq> current" using ab(1) lost by force
  with ab have "a \<in> set visited" by simp
  with assms(1) ab(1) lost have "b \<in> set visited \<and> b \<noteq> target \<or> (b, True) = (current, traversed)"
    by (auto simp: arcs_pursued_def)
  with assms(2) show "b \<in> set (bset_insert current visited) \<and> b \<noteq> target" by auto
qed

lemma path_loop_missed:
  "arcs_pursued edges target pending visited \<Longrightarrow>
     path_loop fuel edges target require_edge pending visited = Some False \<Longrightarrow>
     search_closed edges target require_edge pending visited"
proof (induction fuel edges target require_edge pending visited rule: path_loop.induct)
  case (1 fuel edges target require_edge visited)
  then show ?case by (auto simp: search_closed_def arcs_pursued_def intro!: exI [of _ "set visited"])
next
  case (3 fuel edges target require_edge current traversed pending visited)
  have missed: "\<not> (current = target \<and> (\<not> require_edge \<or> traversed))"
  proof
    assume "current = target \<and> (\<not> require_edge \<or> traversed)"
    from path_loop_steps(1) [OF this] 3(4) show False by simp
  qed
  show ?case
  proof (cases "current \<in> set visited")
    case True
    from 3(1) [OF missed True arcs_pursued_skip [OF 3(3) True missed] 3(4) [unfolded path_loop_steps(2) [OF missed True]]]
    show ?thesis using True missed unfolding search_closed_def by (elim exE conjE, intro exI conjI) auto
  next
    case fresh: False
    from 3(2) [OF missed fresh arcs_pursued_push [OF 3(3) missed] 3(4) [unfolded path_loop_steps(3) [OF missed fresh]]]
    show ?thesis using missed unfolding search_closed_def by (elim exE conjE, intro exI conjI) auto
  qed
qed auto

text \<open>The search decides the closure.\<close>

lemma edge_path_exists_iff:
  "edge_path_exists edges s t require_edge =
     Some (if require_edge then (s, t) \<in> (arcs_of edges)\<^sup>+ else (s, t) \<in> (arcs_of edges)\<^sup>*)"
proof -
  have "edge_path_exists edges s t require_edge \<noteq> None"
    unfolding edge_path_exists_def by (rule path_loop_returns) (simp add: path_measure_def)
  then consider (found) "edge_path_exists edges s t require_edge = Some True"
    | (missed) "edge_path_exists edges s t require_edge = Some False"
    by (metis (full_types) not_None_eq)
  then show ?thesis
  proof cases
    case found
    have "pending_reached edges s [(s, False)]" by (simp add: pending_reached_def)
    from path_loop_found [OF this found [unfolded edge_path_exists_def]] found show ?thesis
      by (simp del: path_loop.simps)
  next
    case missed
    have "arcs_pursued edges t [(s, False)] []" by (simp add: arcs_pursued_def)
    from path_loop_missed [OF this missed [unfolded edge_path_exists_def]]
    obtain closed where s: "s \<in> closed"
      and closed: "\<And>a b. a \<in> closed \<Longrightarrow> (a, b) \<in> arcs_of edges \<Longrightarrow> b \<in> closed \<and> b \<noteq> t"
      and start: "\<not> require_edge \<Longrightarrow> s \<noteq> t"
      by (auto simp: search_closed_def)
    have "c \<in> closed \<and> c \<noteq> t" if "(s, c) \<in> (arcs_of edges)\<^sup>+" for c
      using that by induction (use s closed in blast)+
    with start have "(s, t) \<notin> (arcs_of edges)\<^sup>+" and "\<not> require_edge \<Longrightarrow> (s, t) \<notin> (arcs_of edges)\<^sup>*"
      by (auto simp: rtrancl_eq_or_trancl)
    with missed show ?thesis by simp
  qed
qed

subsection \<open>The import search\<close>

definition succs_in :: "modules \<Rightarrow> string \<Rightarrow> string list" where
  "succs_in modules i = (case import_successors modules i of Inl _ \<Rightarrow> [] | Inr ys \<Rightarrow> ys)"

definition import_relation :: "modules \<Rightarrow> (string \<times> string) set" where
  "import_relation modules = {(a, b). b \<in> set (succs_in modules a)}"

text \<open>Every entry of the stack is imported by the entry being left next below it.\<close>

fun next_exit :: "(string \<times> bool) list \<Rightarrow> string option" where
  "next_exit [] = None"
| "next_exit ((i, exiting) # rest) = (if exiting then Some i else next_exit rest)"

fun stack_chained :: "(string \<times> string) set \<Rightarrow> (string \<times> bool) list \<Rightarrow> bool" where
  "stack_chained R [] = True"
| "stack_chained R ((i, exiting) # rest) =
     ((\<forall>x. next_exit rest = Some x \<longrightarrow> (x, i) \<in> R) \<and> stack_chained R rest)"

definition exits_covered :: "(string \<times> string) set \<Rightarrow> string set \<Rightarrow> (string \<times> bool) list \<Rightarrow> bool" where
  "exits_covered R finished pending \<longleftrightarrow>
     (\<forall>pre x post. pending = pre @ (x, True) # post \<longrightarrow> R `` {x} \<subseteq> finished \<union> fst ` set pre)"

definition finished_closed :: "(string \<times> string) set \<Rightarrow> string set \<Rightarrow> bool" where
  "finished_closed R finished \<longleftrightarrow> R `` finished \<subseteq> finished \<and> (\<forall>w \<in> finished. (w, w) \<notin> R\<^sup>+)"

definition leaving :: "(string \<times> bool) list \<Rightarrow> string list" where
  "leaving pending = map fst (filter snd pending)"

lemma leaving_simps [simp]:
  "leaving [] = []"
  "leaving ((i, e) # pending) = (if e then i # leaving pending else leaving pending)"
  "leaving (map (\<lambda>i. (i, False)) is @ pending) = leaving pending"
  by (simp_all add: leaving_def filter_map o_def)

lemma leaving_mem: "i \<in> set (leaving pending) \<longleftrightarrow> (i, True) \<in> set pending"
  by (force simp: leaving_def)

definition cycle_inv :: "(string \<times> string) set \<Rightarrow> string \<Rightarrow> (string \<times> bool) list \<Rightarrow> cycle_state \<Rightarrow> bool" where
  "cycle_inv R root pending st \<longleftrightarrow>
     set (cy_visiting st) = set (leaving pending) \<and> distinct (leaving pending)
     \<and> set (cy_visiting st) \<inter> set (cy_visited st) = {}
     \<and> stack_chained R pending
     \<and> exits_covered R (set (cy_visited st)) pending
     \<and> finished_closed R (set (cy_visited st))
     \<and> root \<in> set (cy_visited st) \<union> fst ` set pending"

lemma stack_chained_below:
  "stack_chained R ((c, e) # pending) \<Longrightarrow> (x, True) \<in> set pending \<Longrightarrow> (x, c) \<in> R\<^sup>+"
proof (induction pending arbitrary: c e)
  case (Cons p pending)
  obtain i f where p: "p = (i, f)" by (cases p)
  show ?case
  proof (cases f)
    case True
    with Cons.prems(1) have "(i, c) \<in> R" by (simp add: p)
    show ?thesis
    proof (cases "(x, True) = p")
      case True
      with \<open>(i, c) \<in> R\<close> show ?thesis by (auto simp: p)
    next
      case False
      with Cons.prems have "(x, i) \<in> R\<^sup>+" by (intro Cons.IH [of i f]) (auto simp: p)
      with \<open>(i, c) \<in> R\<close> show ?thesis by auto
    qed
  next
    case False
    with Cons.prems show ?thesis by (intro Cons.IH [of c e]) (auto simp: p)
  qed
qed simp

lemma exits_covered_Cons:
  "exits_covered R finished ((i, e) # pending) \<longleftrightarrow>
     (e \<longrightarrow> R `` {i} \<subseteq> finished) \<and> exits_covered R (insert i finished) pending"
proof -
  have "(\<forall>pre x post. (i, e) # pending = pre @ (x, True) # post \<longrightarrow> R `` {x} \<subseteq> finished \<union> fst ` set pre) \<longleftrightarrow>
      (e \<longrightarrow> R `` {i} \<subseteq> finished)
      \<and> (\<forall>pre x post. pending = pre @ (x, True) # post \<longrightarrow> R `` {x} \<subseteq> finished \<union> fst ` set ((i, e) # pre))"
    (is "?all \<longleftrightarrow> ?top \<and> ?rest")
  proof
    assume all: ?all
    have ?top using all [rule_format, of "[]" i pending] by auto
    moreover have ?rest using all [rule_format, of "(i, e) # pre" for pre] by auto
    ultimately show "?top \<and> ?rest" ..
  next
    assume both: "?top \<and> ?rest"
    show ?all
    proof (intro allI impI)
      fix pre x post assume eq: "(i, e) # pending = pre @ (x, True) # post"
      show "R `` {x} \<subseteq> finished \<union> fst ` set pre"
      proof (cases pre)
        case Nil
        with eq both show ?thesis by auto
      next
        case (Cons p qs)
        with eq have "pending = qs @ (x, True) # post" and "p = (i, e)" by auto
        with both Cons show ?thesis by blast
      qed
    qed
  qed
  then show ?thesis unfolding exits_covered_def by simp
qed

lemma exits_covered_Nil: "exits_covered R finished []"
  by (simp add: exits_covered_def)

lemma exits_covered_append:
  "exits_covered R finished (map (\<lambda>i. (i, False)) is @ pending) \<longleftrightarrow>
     exits_covered R (set is \<union> finished) pending"
  by (induction "is" arbitrary: finished) (simp_all add: exits_covered_Cons)

lemma next_exit_append [simp]: "next_exit (map (\<lambda>i. (i, False)) is @ pending) = next_exit pending"
  by (induction "is") simp_all

lemma stack_chained_append:
  "stack_chained R (map (\<lambda>i. (i, False)) is @ pending) \<longleftrightarrow>
     (\<forall>i \<in> set is. \<forall>x. next_exit pending = Some x \<longrightarrow> (x, i) \<in> R) \<and> stack_chained R pending"
  by (induction "is") auto

lemma cycle_inv_skip:
  assumes "cycle_inv R root ((c, False) # pending) st" and "c \<in> set (cy_visited st)"
  shows "cycle_inv R root pending st"
  using assms by (auto simp: cycle_inv_def exits_covered_Cons insert_absorb)

lemma exits_covered_mono: "exits_covered R finished pending \<Longrightarrow> finished \<subseteq> larger \<Longrightarrow> exits_covered R larger pending"
  unfolding exits_covered_def by blast

lemma cycle_inv_enter:
  assumes inv: "cycle_inv R root ((c, False) # pending) st"
    and fresh: "c \<notin> set (cy_visited st)" "c \<notin> set (cy_visiting st)" and succs: "R `` {c} = set succs"
  shows "cycle_inv R root (map (\<lambda>i. (i, False)) succs @ (c, True) # pending)
    (st\<lparr>cy_visiting := bset_insert c (cy_visiting st), cy_path := p\<rparr>)"
proof -
  have "exits_covered R (insert c (set (cy_visited st))) pending"
    using inv by (simp add: cycle_inv_def exits_covered_Cons)
  then have "exits_covered R (insert c (set succs \<union> set (cy_visited st))) pending"
    by (rule exits_covered_mono) blast
  then have "exits_covered R (set (cy_visited st)) (map (\<lambda>i. (i, False)) succs @ (c, True) # pending)"
    using succs unfolding exits_covered_append exits_covered_Cons by blast
  moreover have "stack_chained R (map (\<lambda>i. (i, False)) succs @ (c, True) # pending)"
    using inv succs by (auto simp: stack_chained_append cycle_inv_def)
  ultimately show ?thesis
    using inv fresh unfolding cycle_inv_def by auto
qed

lemma finished_closed_insert:
  assumes "finished_closed R finished" and "R `` {c} \<subseteq> finished" and "c \<notin> finished"
  shows "finished_closed R (insert c finished)"
proof -
  have stays: "b \<in> finished" if "(a, b) \<in> R\<^sup>+" "a \<in> insert c finished" for a b
    using that by induction (use assms(1,2) in \<open>auto simp: finished_closed_def\<close>)
  then have "(c, c) \<notin> R\<^sup>+" using assms(3) by blast
  with assms(1,2) show ?thesis by (auto simp: finished_closed_def)
qed

lemma cycle_inv_exit:
  assumes inv: "cycle_inv R root ((c, True) # pending) st"
  shows "cycle_inv R root pending
    \<lparr>cy_visiting = filter (\<lambda>i. i \<noteq> c) (cy_visiting st), cy_visited = bset_insert c (cy_visited st), cy_path = p\<rparr>"
proof -
  have c: "c \<notin> set (cy_visited st)" "c \<notin> set (leaving pending)"
    using inv by (auto simp: cycle_inv_def)
  have "finished_closed R (insert c (set (cy_visited st)))"
    using inv c by (intro finished_closed_insert) (auto simp: cycle_inv_def exits_covered_Cons)
  then show ?thesis
    using inv c unfolding cycle_inv_def by (auto simp: exits_covered_Cons)
qed

lemma cycle_loop_exact:
  assumes succs: "\<And>i ys. import_successors modules i = Inr ys \<Longrightarrow> R `` {i} = set ys"
  shows "cycle_inv R root pending st \<Longrightarrow> cycle_loop fuel modules pending st = Inr (Some result) \<Longrightarrow>
    (case result of
       Inl path \<Rightarrow> \<exists>i. (i, i) \<in> R\<^sup>+
     | Inr st' \<Rightarrow> finished_closed R (set (cy_visited st')) \<and> root \<in> set (cy_visited st')
         \<and> set (cy_visited st) \<subseteq> set (cy_visited st'))"
  using succs
proof (induction fuel modules pending st rule: cycle_loop.induct)
  case (1 fuel modules st)
  then show ?case by (auto simp: cycle_inv_def)
next
  case (3 fuel modules current exiting pending st)
  consider (exit) exiting | (skip) "\<not> exiting" "current \<in> set (cy_visited st)"
    | (cycle) "\<not> exiting" "current \<notin> set (cy_visited st)" "current \<in> set (cy_visiting st)"
    | (enter) "\<not> exiting" "current \<notin> set (cy_visited st)" "current \<notin> set (cy_visiting st)"
    by blast
  then show ?case
  proof cases
    case exit
    with 3(4) have "cycle_inv R root ((current, True) # pending) st" by simp
    from 3(1) [OF exit cycle_inv_exit [OF this]] 3(5,6) exit show ?thesis
      by (auto split: sum.splits)
  next
    case skip
    with 3(4) have "cycle_inv R root pending st" by (auto intro: cycle_inv_skip)
    from 3(2) [OF skip this] 3(5,6) skip show ?thesis by simp
  next
    case cycle
    with 3(4) have "(current, True) \<in> set pending" "stack_chained R ((current, False) # pending)"
      by (simp_all add: cycle_inv_def leaving_mem)
    then have "(current, current) \<in> R\<^sup>+" by (rule stack_chained_below [rotated])
    with 3(5) cycle show ?thesis by auto
  next
    case enter
    with 3(5) obtain ys where ys: "import_successors modules current = Inr ys"
      and run: "cycle_loop fuel modules (map (\<lambda>i. (i, False)) ys @ (current, True) # pending)
          (st\<lparr>cy_visiting := bset_insert current (cy_visiting st), cy_path := cy_path st @ [current]\<rparr>)
        = Inr (Some result)"
      by (auto simp: and_then_Inr)
    from 3(4) enter(1) have "cycle_inv R root ((current, False) # pending) st" by simp
    from 3(3) [OF enter cycle_inv_enter [OF this enter(2,3) 3(6) [OF ys]] run 3(6)]
    show ?thesis by (cases result) simp_all
  qed
qed simp

text \<open>The fuel: every entry of the stack costs one step, and every name is entered once.\<close>

definition cycle_measure :: "modules \<Rightarrow> string set \<Rightarrow> (string \<times> bool) list \<Rightarrow> cycle_state \<Rightarrow> nat" where
  "cycle_measure modules U pending st =
     length pending + (\<Sum>n \<in> U - (set (cy_visiting st) \<union> set (cy_visited st)). 1 + length (succs_in modules n))"

lemma cycle_loop_returns:
  assumes "finite U" and closed: "\<And>n. n \<in> U \<Longrightarrow> set (succs_in modules n) \<subseteq> U"
  shows "fst ` set pending \<subseteq> U \<Longrightarrow> cycle_measure modules U pending st \<le> fuel \<Longrightarrow>
    cycle_loop fuel modules pending st \<noteq> Inr None"
  using closed
proof (induction fuel modules pending st rule: cycle_loop.induct)
  case (3 fuel modules current exiting pending st)
  let ?rest = "\<lambda>st. U - (set (cy_visiting st) \<union> set (cy_visited st))"
  let ?cost = "\<lambda>n. 1 + length (succs_in modules n)"
  consider (exit) exiting | (skip) "\<not> exiting" "current \<in> set (cy_visited st)"
    | (cycle) "\<not> exiting" "current \<notin> set (cy_visited st)" "current \<in> set (cy_visiting st)"
    | (enter) "\<not> exiting" "current \<notin> set (cy_visited st)" "current \<notin> set (cy_visiting st)"
    by blast
  then show ?case
  proof cases
    case exit
    let ?st = "\<lparr>cy_visiting = filter (\<lambda>i. i \<noteq> current) (cy_visiting st),
      cy_visited = bset_insert current (cy_visited st), cy_path = butlast (cy_path st)\<rparr>"
    have "sum ?cost (?rest ?st) \<le> sum ?cost (?rest st)"
      using \<open>finite U\<close> by (intro sum_mono2) auto
    with 3(5) have "cycle_measure modules U pending ?st \<le> fuel" by (simp add: cycle_measure_def)
    with 3(1) [OF exit] 3(4,6) exit show ?thesis by simp
  next
    case skip
    with 3(5) have "cycle_measure modules U pending st \<le> fuel" by (simp add: cycle_measure_def)
    with 3(2) [OF skip] 3(4,6) skip show ?thesis by simp
  next
    case cycle
    then show ?thesis by simp
  next
    case enter
    show ?thesis
    proof (cases "import_successors modules current")
      case (Inr ys)
      let ?st = "st\<lparr>cy_visiting := bset_insert current (cy_visiting st), cy_path := cy_path st @ [current]\<rparr>"
      have ys: "succs_in modules current = ys" by (simp add: succs_in_def Inr)
      have current: "current \<in> U" using 3(4) by simp
      have "?rest st = insert current (?rest ?st)" and "current \<notin> ?rest ?st"
        using current enter by auto
      then have "sum ?cost (?rest st) = ?cost current + sum ?cost (?rest ?st)"
        using \<open>finite U\<close> by (metis finite_Diff finite_insert sum.insert)
      with 3(5) have "cycle_measure modules U (map (\<lambda>i. (i, False)) ys @ (current, True) # pending) ?st \<le> fuel"
        by (simp add: cycle_measure_def ys)
      moreover have "fst ` set (map (\<lambda>i. (i, False)) ys @ (current, True) # pending) \<subseteq> U"
        using 3(4) 3(6) [OF current] by (auto simp: ys)
      ultimately show ?thesis using 3(3) [OF enter, of ys] 3(6) enter Inr by simp
    qed (use enter in simp)
  qed
qed (simp_all add: cycle_measure_def)

lemma length_map_filter: "length (List.map_filter f xs) \<le> length xs"
  by (induction xs) (auto simp: List.map_filter_simps split: option.split)

lemma succs_in_length:
  "length (succs_in modules i) \<le>
     (case bmap_get modules i of None \<Rightarrow> 0 | Some document \<Rightarrow> length (elements (array_at document ''imports'')))"
  by (auto simp: succs_in_def import_successors_def module_imports_def and_then_def expects_def elements_def
      length_map_filter split: option.split sum.split)

lemma succs_outside: "i \<notin> fst ` set modules \<Longrightarrow> succs_in modules i = []"
  by (simp add: succs_in_def import_successors_def bmap_get_None [symmetric])

lemma succs_total:
  assumes "bmap_wf modules" and "finite U"
  shows "(\<Sum>n \<in> U. length (succs_in modules n)) \<le> import_count modules"
proof -
  let ?count = "\<lambda>document. length (elements (array_at document ''imports''))"
  have "(\<Sum>n \<in> U. length (succs_in modules n)) =
      (\<Sum>n \<in> U \<inter> fst ` set modules. length (succs_in modules n))"
    using assms(2) by (intro sum.mono_neutral_right) (auto simp: succs_outside)
  also have "\<dots> \<le> (\<Sum>n \<in> fst ` set modules. length (succs_in modules n))"
    by (intro sum_mono2) auto
  also have "\<dots> = sum_list (map (\<lambda>(i, _). length (succs_in modules i)) modules)"
    using bmap_wf_distinct [OF assms(1)]
    by (simp add: sum_list_distinct_conv_sum_set [symmetric] split_beta flip: set_map)
      (simp add: o_def case_prod_unfold)
  also have "\<dots> \<le> import_count modules"
    unfolding import_count_def
  proof (intro sum_list_mono)
    fix x assume "x \<in> set modules"
    then show "(\<lambda>(i, _). length (succs_in modules i)) x \<le> (\<lambda>(_, document). ?count document) x"
      using succs_in_length [of modules "fst x"] bmap_get_iff [OF assms(1), of "fst x" "snd x"]
      by (simp add: split_beta)
  qed
  finally show ?thesis .
qed

lemma cycle_search_returns:
  assumes "bmap_wf modules"
  shows "cycle_loop (cycle_fuel modules) modules [(i, False)] st \<noteq> Inr None"
proof -
  let ?U = "insert i (fst ` set modules \<union> (\<Union>n \<in> fst ` set modules. set (succs_in modules n)))"
  have closed: "set (succs_in modules n) \<subseteq> ?U" for n
    by (cases "n \<in> fst ` set modules") (auto simp: succs_outside)
  let ?names = "fst ` set modules"
  have "card (\<Union>n \<in> ?names. set (succs_in modules n)) \<le> (\<Sum>n \<in> ?names. length (succs_in modules n))"
    by (rule order_trans [OF card_UN_le]) (auto intro!: sum_mono card_length)
  also have "\<dots> \<le> import_count modules" by (rule succs_total [OF assms]) simp
  finally have "card ?U \<le> 1 + (length modules + import_count modules)"
    using card_Un_le [of ?names "\<Union>n \<in> ?names. set (succs_in modules n)"]
      card_image_le [of "set modules" fst] card_length [of modules]
      card_insert_le_m1 [of "1 + (length modules + import_count modules)" _ i]
    by (simp add: card_insert_if)
  moreover have "(\<Sum>n \<in> ?U. length (succs_in modules n)) \<le> import_count modules"
    by (rule succs_total [OF assms]) simp
  ultimately have all: "(\<Sum>n \<in> ?U. 1 + length (succs_in modules n)) \<le> 1 + length modules + 2 * import_count modules"
    unfolding sum.distrib by simp
  have "(\<Sum>n \<in> ?U - (set (cy_visiting st) \<union> set (cy_visited st)). 1 + length (succs_in modules n)) \<le>
      (\<Sum>n \<in> ?U. 1 + length (succs_in modules n))"
    by (intro sum_mono2) auto
  with all have "cycle_measure modules ?U [(i, False)] st \<le> cycle_fuel modules"
    by (simp add: cycle_measure_def cycle_fuel_def)
  with closed show ?thesis by (intro cycle_loop_returns [of ?U]) auto
qed

lemma succs_relation: "import_successors modules i = Inr ys \<Longrightarrow> import_relation modules `` {i} = set ys"
  by (simp add: import_relation_def succs_in_def Image_def)

lemma cycles_from_exact:
  assumes "bmap_wf modules"
  shows "finished_closed (import_relation modules) (set visited) \<Longrightarrow>
    cycles_from modules is visited = Inr result \<Longrightarrow>
    \<exists>ds. result = Some ds \<and> (ds \<noteq> [] \<longrightarrow> \<not> acyclic (import_relation modules))
      \<and> (ds = [] \<longrightarrow> (\<exists>finished. finished_closed (import_relation modules) finished
          \<and> set visited \<union> set is \<subseteq> finished))"
proof (induction "is" arbitrary: visited)
  case (Cons i "is")
  let ?R = "import_relation modules"
  let ?st = "\<lparr>cy_visiting = [], cy_visited = visited, cy_path = []\<rparr>"
  from Cons.prems(2) obtain found where run: "cycle_loop (cycle_fuel modules) modules [(i, False)] ?st = Inr found"
    by (auto simp: and_then_Inr)
  with cycle_search_returns [OF assms, of i ?st] obtain r where r: "found = Some r" by (cases found) auto
  have inv: "cycle_inv ?R i [(i, False)] ?st"
    using Cons.prems(1) by (simp add: cycle_inv_def exits_covered_Cons exits_covered_Nil)
  note exact = cycle_loop_exact [OF succs_relation inv run [unfolded r]]
  show ?case
  proof (cases r)
    case (Inl path)
    with exact have "\<not> acyclic ?R" by (auto simp: acyclic_def)
    with Cons.prems(2) run r Inl show ?thesis by (auto simp: and_then_Inr)
  next
    case (Inr st')
    with exact have finished: "finished_closed ?R (set (cy_visited st'))"
      and more: "insert i (set visited) \<subseteq> set (cy_visited st')" by simp_all
    from Cons.prems(2) run r Inr have rest: "cycles_from modules is (cy_visited st') = Inr result"
      by (simp add: and_then_Inr)
    from Cons.IH [OF finished rest] obtain ds where ds: "result = Some ds" "ds \<noteq> [] \<longrightarrow> \<not> acyclic ?R"
      and closed: "ds = [] \<longrightarrow> (\<exists>finished. finished_closed ?R finished
        \<and> set (cy_visited st') \<union> set is \<subseteq> finished)" by blast
    have "set visited \<union> set (i # is) \<subseteq> f" if "set (cy_visited st') \<union> set is \<subseteq> f" for f
      using that more by auto
    with ds closed show ?thesis by blast
  qed
qed auto

text \<open>The import search refuses exactly the module sets whose imports have a cycle.\<close>

lemma validate_import_cycles_exact:
  assumes "bmap_wf modules" and "validate_import_cycles modules = Inr result"
  shows "\<exists>ds. result = Some ds \<and> (ds = [] \<longleftrightarrow> acyclic (import_relation modules))"
proof -
  have "finished_closed (import_relation modules) (set [])" by (simp add: finished_closed_def)
  from cycles_from_exact [OF assms(1) this assms(2) [unfolded validate_import_cycles_def]]
  obtain ds where ds: "result = Some ds" and cyclic: "ds \<noteq> [] \<Longrightarrow> \<not> acyclic (import_relation modules)"
    and closed: "ds = [] \<Longrightarrow> \<exists>finished. finished_closed (import_relation modules) finished
      \<and> fst ` set modules \<subseteq> finished"
    by auto
  have "acyclic (import_relation modules)" if "ds = []"
  proof -
    from closed [OF that] obtain finished where f: "finished_closed (import_relation modules) finished"
      "fst ` set modules \<subseteq> finished" by blast
    show ?thesis unfolding acyclic_def
    proof (intro allI notI)
      fix x assume x: "(x, x) \<in> (import_relation modules)\<^sup>+"
      then obtain y where "(x, y) \<in> import_relation modules" by (meson tranclD)
      then have "x \<in> fst ` set modules"
        using succs_outside [of x modules] by (cases "x \<in> fst ` set modules") (auto simp: import_relation_def)
      with f x show False by (auto simp: finished_closed_def)
    qed
  qed
  with ds cyclic show ?thesis by blast
qed

end
