(* ===== verification/ArchContract.thy ===== *)
theory ArchContract
  imports ArchGraphProps
begin

text \<open>
  The promises of a compiled architecture graph: its modules import acyclically and by exact digest, it
  holds exactly the eligible declarations, its references respect exports, and its constraints hold.
\<close>

lemma refuse_Inr [simp]: "refuse ds = Inr u \<longleftrightarrow> ds = []"
  by (simp add: refuse_def)

lemma searched_Inr [simp]: "searched x = Inr y \<longleftrightarrow> x = Some y"
  by (simp add: searched_def)

lemma join_found_Nil: "join_found xs = Some [] \<longleftrightarrow> (\<forall>x \<in> set xs. x = Some [])"
  by (auto simp: join_found_def) (metis option.exhaust option.sel)

lemma compile_graph_parts:
  assumes "compile_graph env documents v mode = Inr g"
  obtains modules owners where
    "load_modules env v documents = Inr modules"
    "validate_modules env modules = Inr owners"
    "fold_result collect_graph modules
       \<lparr>cg_mode = mode, cg_objects = [], cg_relations = [], cg_bindings = [], cg_constraints = []\<rparr> = Inr g"
    "graph_diagnostics v modules owners g = Inr (Some [])"
  using assms by (auto simp: compile_graph_def and_then_Inr)

lemma validate_modules_parts:
  assumes "validate_modules env modules = Inr owners"
  obtains reserved where
    "validate_imports env modules = Inr []"
    "validate_import_cycles modules = Inr (Some [])"
    "fold_result own_module modules ([], [], []) = Inr ([], owners, reserved)"
    "reused_ids owners reserved = []"
    "validate_exports modules owners = Inr []"
  using assms by (auto simp: validate_modules_def and_then_Inr)

lemma graph_diagnostics_parts:
  assumes "graph_diagnostics v modules owners g = Inr (Some [])"
  obtains kinds where
    "object_kinds_of g = Inr kinds"
    "diagnose (reference_diagnostics v modules owners g) (cg_objects g) = Inr []"
    "diagnose (relation_diagnostics v modules owners kinds) (cg_relations g) = Inr []"
    "diagnose (binding_diagnostics modules owners g) (cg_bindings g) = Inr []"
    "evaluate_constraints g v = Inr (Some [])"
    "validate_predicate_cycles g v = Inr (Some [])"
  using assms by (auto simp: graph_diagnostics_def and_then_Inr join_found_Nil)

lemma load_modules_wf:
  assumes "load_modules env v documents = Inr modules"
  shows "bmap_wf modules"
proof -
  have "bmap_wf (snd st')" if "bmap_wf (snd st)" "fold_result (collect_module env v) xs st = Inr st'" for xs st st'
  proof (rule fold_result_inv [where P = "\<lambda>st. bmap_wf (snd st)" and f = "collect_module env v"
        and xs = xs and s = st])
  qed (use that in \<open>auto simp: collect_module_def and_then_Inr bmap_wf_insert split: prod.splits if_splits option.splits\<close>)
  from this [of "([], [])"] assms show ?thesis by (auto simp: load_modules_def and_then_Inr)
qed

subsection \<open>A small architecture\<close>

text \<open>Two modules, the second importing the first, with a relation between their objects and a constraint.\<close>

definition example_env :: arch_env where
  "example_env = \<lparr>ae_schema = (\<lambda>_. []), ae_to_vec = (\<lambda>_. ''payload''), ae_sha256_hex = (\<lambda>_. ''digest'')\<rparr>"

definition example_vocabulary :: vocabulary where
  "example_vocabulary =
     \<lparr>vo_id = ''v'', vo_version = 1, vo_digest = ''d'', vo_authority_kinds = [''owner''],
      vo_object_kinds = [(''component'', \<lparr>ok_required_attributes = [], ok_optional_attributes = []\<rparr>)],
      vo_predicates = [(''uses'', \<lparr>pd_subject_kinds = [''component''], pd_object_kinds = [''component''],
         pd_cycles = CyclesForbidden, pd_inverse = None\<rparr>)],
      vo_constraint_rules = [(''no_path'', \<lparr>cr_version = 1,
         cr_required_arguments = [(''from'', TypeString), (''to'', TypeString), (''via'', TypeStringList)],
         cr_optional_arguments = []\<rparr>)],
      vo_binding_adapters = [(''rust.crate'', [(''1'',
         \<lparr>ba_required_selector = [(''name'', TypeString)], ba_optional_selector = []\<rparr>)])]\<rparr>"

definition example_accepted :: "(string \<times> json) list" where
  "example_accepted =
     [(''decision'', JObject [(''status'', JString ''accepted''),
        (''authority'', JObject [(''governing'', JArray [JObject [(''kind'', JString ''owner'')]])])]),
      (''approval'', JObject [(''status'', JString ''granted'')])]"

definition example_module ::
    "string \<Rightarrow> json list \<Rightarrow> (string \<times> json) list \<Rightarrow> (string \<times> json) list \<Rightarrow> (string \<times> json) list
     \<Rightarrow> (string \<times> json) list \<Rightarrow> string list \<Rightarrow> json" where
  "example_module i imps objs rels binds cons exported =
     JObject (example_accepted @
       [(''kind'', JString ''ArchitectureModule''),
        (''metadata'', JObject [(''id'', JString i), (''architectureVersion'', JNumber (PosInt 1))]),
        (''vocabulary'', JObject [(''id'', JString ''v''), (''version'', JNumber (PosInt 1)), (''digest'', JString ''d'')]),
        (''imports'', JArray imps), (''objects'', JObject objs), (''relations'', JObject rels),
        (''bindings'', JObject binds), (''constraints'', JObject cons), (''retired'', JObject []),
        (''exports'', JObject [(''objects'', JArray (map JString exported)), (''relations'', JArray []),
           (''bindings'', JArray []), (''constraints'', JArray [])])])"

definition example_object :: json where
  "example_object =
     JObject (example_accepted @ [(''kind'', JString ''component''), (''attributes'', JObject [])])"

definition example_binding :: json where
  "example_binding = JObject (example_accepted @
     [(''target'', JString ''client''), (''cardinality'', JString ''exactly_one''),
      (''adapter'', JObject [(''kind'', JString ''rust.crate''), (''version'', JNumber (PosInt 1))]),
      (''selector'', JObject [(''name'', JString ''client'')])])"

definition example_documents :: "json list" where
  "example_documents =
     [example_module ''base'' [] [(''store'', example_object)] [] [] [] [''store''],
      example_module ''app''
        [JObject [(''module'', JString ''base''), (''architectureVersion'', JNumber (PosInt 1)),
           (''digest'', JString ''sha256:digest'')]]
        [(''client'', example_object)]
        [(''client-uses-store'', JObject (example_accepted @
           [(''predicate'', JString ''uses''), (''subject'', JString ''client''), (''object'', JString ''store'')]))]
        [(''client-crate'', example_binding)]
        [(''store-is-below'', JObject (example_accepted @
           [(''rule'', JString ''no_path''),
            (''arguments'', JObject [(''from'', JString ''store''), (''to'', JString ''client''),
               (''via'', JArray [JString ''uses''])])]))]
        []]"

definition example_graph :: compiled_graph where
  "example_graph =
     (case compile_graph example_env example_documents example_vocabulary Governing of
        Inr g \<Rightarrow> g
      | Inl _ \<Rightarrow> \<lparr>cg_mode = Review, cg_objects = [], cg_relations = [], cg_bindings = [], cg_constraints = []\<rparr>)"

lemma example_compiles:
  "compile_graph example_env example_documents example_vocabulary Governing = Inr example_graph"
proof -
  have "cg_mode (case compile_graph example_env example_documents example_vocabulary Governing of
      Inr g \<Rightarrow> g
    | Inl _ \<Rightarrow> \<lparr>cg_mode = Review, cg_objects = [], cg_relations = [], cg_bindings = [], cg_constraints = []\<rparr>)
    = Governing" by code_simp
  then show ?thesis
    by (cases "compile_graph example_env example_documents example_vocabulary Governing")
      (simp_all add: example_graph_def)
qed

subsection \<open>Imports\<close>

definition import_pinned :: "arch_env \<Rightarrow> modules \<Rightarrow> json \<Rightarrow> bool" where
  "import_pinned env modules imp \<longleftrightarrow>
     (\<exists>i document digest. str_at imp ''module'' = Some i \<and> bmap_get modules i = Some document
        \<and> json_u64 (json_at imp ''architectureVersion'')
          = json_u64 (json_at (json_at document ''metadata'') ''architectureVersion'')
        \<and> arch_digest_value env CanonicalModule document = Inr digest \<and> str_at imp ''digest'' = Some digest)"

lemma validate_import_Nil: "validate_import env modules module_id imp = Inr [] \<longleftrightarrow> import_pinned env modules imp"
proof (cases "str_at imp ''module''")
  case (Some i)
  note named = this
  show ?thesis
  proof (cases "bmap_get modules i")
    case (Some document)
    with named show ?thesis
      by (cases "arch_digest_value env CanonicalModule document")
        (simp_all add: validate_import_def import_pinned_def expects_def)
  qed (simp add: validate_import_def import_pinned_def expects_def named)
qed (simp add: validate_import_def import_pinned_def expects_def)

text \<open>C15: When a set of documents compiles, its modules import each other without a cycle, every import
  names a module of the set, and pins the version and the digest that the module has.\<close>

theorem compiled_imports_are_pinned_and_acyclic:
  assumes "compile_graph env documents v mode = Inr g"
  shows "\<exists>modules. load_modules env v documents = Inr modules
    \<and> acyclic (import_relation modules)
    \<and> (\<forall>(i, document) \<in> set modules. \<exists>imps. array_at document ''imports'' = Some imps
         \<and> (\<forall>imp \<in> set imps. import_pinned env modules imp))"
proof -
  obtain modules owners where load: "load_modules env v documents = Inr modules"
    and valid: "validate_modules env modules = Inr owners"
    by (rule compile_graph_parts [OF assms])
  obtain reserved where pinned: "validate_imports env modules = Inr []"
    and cycles: "validate_import_cycles modules = Inr (Some [])"
    by (rule validate_modules_parts [OF valid])
  from validate_import_cycles_exact [OF load_modules_wf [OF load] cycles]
  have "acyclic (import_relation modules)" by simp
  moreover from pinned have "\<forall>(i, document) \<in> set modules. \<exists>imps. array_at document ''imports'' = Some imps
      \<and> (\<forall>imp \<in> set imps. import_pinned env modules imp)"
    by (auto simp: validate_imports_def diagnose_empty and_then_Inr module_imports_def validate_import_Nil
        split: prod.splits)
  ultimately show ?thesis using load by blast
qed

theorem compiled_imports_are_pinned_and_acyclic_witness:
  "\<exists>modules. load_modules example_env example_vocabulary example_documents = Inr modules
    \<and> acyclic (import_relation modules)
    \<and> (\<forall>(i, document) \<in> set modules. \<exists>imps. array_at document ''imports'' = Some imps
         \<and> (\<forall>imp \<in> set imps. import_pinned example_env modules imp))"
  by (rule compiled_imports_are_pinned_and_acyclic [OF example_compiles])

subsection \<open>Constraints\<close>

definition relation_pairs :: "compiled_graph \<Rightarrow> (string \<Rightarrow> bool) \<Rightarrow> (string \<times> string) set" where
  "relation_pairs g chosen =
     {(s, t). \<exists>relation \<in> snd ` set (cg_relations g). \<exists>p. str_at (gd_declaration relation) ''predicate'' = Some p
        \<and> chosen p \<and> str_at (gd_declaration relation) ''subject'' = Some s
        \<and> str_at (gd_declaration relation) ''object'' = Some t}"

lemma relation_edges_set:
  assumes "relation_edges g chosen = Inr edges"
  shows "set edges = relation_pairs g chosen"
proof -
  have ends: "relation_ends r = Inr (s, t) \<longleftrightarrow>
      str_at (gd_declaration r) ''subject'' = Some s \<and> str_at (gd_declaration r) ''object'' = Some t" for r s t
    by (auto simp: relation_ends_def and_then_Inr)
  let ?rs = "filter (\<lambda>relation. case str_at (gd_declaration relation) ''predicate'' of
      None \<Rightarrow> False | Some predicate \<Rightarrow> chosen predicate) (map snd (cg_relations g))"
  note run = assms [unfolded relation_edges_def]
  have picked: "(case x of None \<Rightarrow> False | Some y \<Rightarrow> chosen y) \<longleftrightarrow> (\<exists>y. x = Some y \<and> chosen y)" for x
    by (cases x) simp_all
  have "(s, t) \<in> set edges \<longleftrightarrow> (\<exists>r \<in> set ?rs. relation_ends r = Inr (s, t))" for s t
    using map_result_Inr [OF run] map_result_all [OF run] by (metis sum.inject(2))
  then have "(s, t) \<in> set edges \<longleftrightarrow> (s, t) \<in> relation_pairs g chosen" for s t
    unfolding ends relation_pairs_def set_filter picked set_map mem_Collect_eq prod.case by blast
  then show ?thesis by auto
qed

text \<open>What each rule demands of a graph.\<close>

definition constraint_holds :: "compiled_graph \<Rightarrow> json \<Rightarrow> bool" where
  "constraint_holds g declaration \<longleftrightarrow>
     (let arguments = json_at declaration ''arguments''; rule = str_at declaration ''rule'';
          relations = map snd (cg_relations g)
      in if rule = Some ''requires_object'' then
           \<exists>target. str_at arguments ''target'' = Some target \<and> bmap_get (cg_objects g) target \<noteq> None
         else if rule = Some ''exactly_one_incoming'' then
           \<exists>target predicate. str_at arguments ''target'' = Some target
             \<and> str_at arguments ''predicate'' = Some predicate
             \<and> (\<exists>!k. k < length relations \<and> str_at (gd_declaration (relations ! k)) ''predicate'' = Some predicate
                  \<and> str_at (gd_declaration (relations ! k)) ''object'' = Some target)
         else if rule = Some ''forbids_relation'' then
           \<exists>predicate. str_at arguments ''predicate'' = Some predicate
             \<and> (\<forall>r \<in> set relations. str_at (gd_declaration r) ''predicate'' = Some predicate \<longrightarrow>
                  str_at (gd_declaration r) ''subject'' = str_at arguments ''subject'' \<longrightarrow>
                  str_at (gd_declaration r) ''object'' \<noteq> str_at arguments ''object'')
         else if rule = Some ''no_path'' then
           \<exists>via source target. array_at arguments ''via'' = Some via
             \<and> str_at arguments ''from'' = Some source \<and> str_at arguments ''to'' = Some target
             \<and> (source, target) \<notin> (relation_pairs g (\<lambda>p. JString p \<in> set via))\<^sup>*
         else if rule = Some ''must_reference_contract'' then
           \<exists>kind. str_at arguments ''objectKind'' = Some kind
             \<and> (\<forall>object \<in> snd ` set (cg_objects g). str_at (gd_declaration object) ''kind'' = Some kind \<longrightarrow>
                  (str_at arguments ''visibility'' = None
                   \<or> str_at (json_at (gd_declaration object) ''attributes'') ''visibility''
                     = str_at arguments ''visibility'') \<longrightarrow>
                  json_get (json_at (gd_declaration object) ''attributes'') ''contract'' \<noteq> None)
         else True)"

lemma singleton_Ex1: "(\<exists>x. A = {x}) \<longleftrightarrow> (\<exists>!x. x \<in> A)"
  by (rule iffI) (auto simp: set_eq_iff)

lemma filter_one_index: "length (filter P xs) = 1 \<longleftrightarrow> (\<exists>!k. k < length xs \<and> P (xs ! k))"
proof -
  have "length (filter P xs) = card {k. k < length xs \<and> P (xs ! k)}"
    by (rule length_filter_conv_card)
  then have "length (filter P xs) = 1 \<longleftrightarrow> (\<exists>k. {k. k < length xs \<and> P (xs ! k)} = {k})"
    by (simp add: card_1_singleton_iff)
  then show ?thesis unfolding singleton_Ex1 by simp
qed

lemma path_exists_iff:
  assumes "path_exists g s t predicates = Inr result"
  shows "result = Some ((s, t) \<in> (relation_pairs g (\<lambda>p. p \<in> set predicates))\<^sup>*)"
  using assms relation_edges_set [of g "\<lambda>p. p \<in> set predicates"]
  by (auto simp: path_exists_def and_then_Inr edge_path_exists_iff)

lemma json_str_Some: "json_str x = Some s \<longleftrightarrow> x = JString s"
  by (cases x) (simp_all add: json_str_def)

lemma via_predicates: "p \<in> set (bset_of (List.map_filter json_str via)) \<longleftrightarrow> JString p \<in> set via"
proof (induction via)
  case (Cons x via)
  then show ?case by (cases x) (auto simp: List.map_filter_simps json_str_def)
qed (simp add: List.map_filter_simps)

lemma no_path_holds:
  assumes "no_path g v i arguments = Inr (Some [])"
  shows "\<exists>via source target. array_at arguments ''via'' = Some via
    \<and> str_at arguments ''from'' = Some source \<and> str_at arguments ''to'' = Some target
    \<and> (source, target) \<notin> (relation_pairs g (\<lambda>p. JString p \<in> set via))\<^sup>*"
proof -
  from assms obtain via source target b where args: "array_at arguments ''via'' = Some via"
      "str_at arguments ''from'' = Some source" "str_at arguments ''to'' = Some target"
    and path: "path_exists g source target (bset_of (List.map_filter json_str via)) = Inr (Some b)"
    and "\<not> b"
    by (auto simp: no_path_def and_then_Inr Let_def split: if_splits)
  from path_exists_iff [OF path] \<open>\<not> b\<close> args show ?thesis unfolding via_predicates by auto
qed

lemma found_Nil: "found m = Inr (Some []) \<longleftrightarrow> m = Inr []"
  by (auto simp: found_def and_then_Inr)

lemma evaluate_constraint_rule:
  assumes "str_at (gd_declaration entry) ''rule'' = Some rule"
  shows "rule = ''requires_object'' \<Longrightarrow> evaluate_constraint g v (i, entry)
      = found (requires_object g i (json_at (gd_declaration entry) ''arguments''))"
    and "rule = ''exactly_one_incoming'' \<Longrightarrow> evaluate_constraint g v (i, entry)
      = found (exactly_one_incoming g v i (json_at (gd_declaration entry) ''arguments''))"
    and "rule = ''forbids_relation'' \<Longrightarrow> evaluate_constraint g v (i, entry)
      = found (forbids_relation g v i (json_at (gd_declaration entry) ''arguments''))"
    and "rule = ''no_path'' \<Longrightarrow> evaluate_constraint g v (i, entry)
      = no_path g v i (json_at (gd_declaration entry) ''arguments'')"
    and "rule = ''must_reference_contract'' \<Longrightarrow> evaluate_constraint g v (i, entry)
      = found (must_reference_contract g v i (json_at (gd_declaration entry) ''arguments''))"
  using assms by (simp_all add: evaluate_constraint_def expects_def)

lemma exactly_one_incoming_holds:
  assumes "exactly_one_incoming g v i arguments = Inr []"
  shows "\<exists>target predicate. str_at arguments ''target'' = Some target
    \<and> str_at arguments ''predicate'' = Some predicate
    \<and> length (filter (\<lambda>r. str_at (gd_declaration r) ''predicate'' = Some predicate
       \<and> str_at (gd_declaration r) ''object'' = Some target) (map snd (cg_relations g))) = 1"
  using assms by (auto simp: exactly_one_incoming_def and_then_Inr Let_def split: if_splits)

lemma forbids_relation_holds:
  assumes "forbids_relation g v i arguments = Inr []"
  shows "\<exists>predicate. str_at arguments ''predicate'' = Some predicate
    \<and> (\<forall>r \<in> set (map snd (cg_relations g)). str_at (gd_declaration r) ''predicate'' = Some predicate \<longrightarrow>
         str_at (gd_declaration r) ''subject'' = str_at arguments ''subject'' \<longrightarrow>
         str_at (gd_declaration r) ''object'' \<noteq> str_at arguments ''object'')"
proof -
  from assms obtain predicate where "str_at arguments ''predicate'' = Some predicate"
    and "\<not> list_ex (\<lambda>r. str_at (gd_declaration r) ''predicate'' = Some predicate
      \<and> str_at (gd_declaration r) ''subject'' = str_at arguments ''subject''
      \<and> str_at (gd_declaration r) ''object'' = str_at arguments ''object'') (map snd (cg_relations g))"
    by (auto simp only: forbids_relation_def and_then_Inr expects_Inr sum.inject list.simps split: if_splits)
  then show ?thesis unfolding list_ex_iff by blast
qed

lemma guarded_issue: "(if a then [] else if b then [x] else []) = [] \<longleftrightarrow> (a \<or> \<not> b)"
  by simp

lemma one_of_five: "x = a \<or> x = b \<or> x = c \<or> x = d \<or> x = e \<or> x \<notin> {a, b, c, d, e}"
  by blast

lemma must_reference_contract_holds:
  assumes "must_reference_contract g v i arguments = Inr []"
  shows "\<exists>kind. str_at arguments ''objectKind'' = Some kind
    \<and> (\<forall>object \<in> snd ` set (cg_objects g). str_at (gd_declaration object) ''kind'' = Some kind \<longrightarrow>
         (str_at arguments ''visibility'' = None
          \<or> str_at (json_at (gd_declaration object) ''attributes'') ''visibility'' = str_at arguments ''visibility'') \<longrightarrow>
         json_get (json_at (gd_declaration object) ''attributes'') ''contract'' \<noteq> None)"
proof -
  have visibility: "Option.bind (json_get x k) json_str = str_at x k" for x k
    by (simp add: json_at_def json_str_def split: option.split)
  from assms obtain kind where kind: "str_at arguments ''objectKind'' = Some kind"
    unfolding must_reference_contract_def and_then_Inr expects_Inr by blast
  define issue where "issue = (\<lambda>(object_id :: string, object :: graph_declaration).
     if str_at (gd_declaration object) ''kind'' \<noteq> Some kind
        \<or> str_at arguments ''visibility'' \<noteq> None
          \<and> str_at (json_at (gd_declaration object) ''attributes'') ''visibility'' \<noteq> str_at arguments ''visibility''
     then [] else if json_get (json_at (gd_declaration object) ''attributes'') ''contract'' = None
     then [constraint_failed i (object_id @ '' does not reference a contract'')] else [])"
  have "must_reference_contract g v i arguments =
      (if \<not> has_object_kind v kind
       then Inr [error_diagnostic ''constraint.object-kind-unknown'' (i @ '' references unknown object kind '' @ kind)]
       else Inr (concat (map issue (cg_objects g))))"
    unfolding must_reference_contract_def visibility Let_def kind expects_def option.case and_then_simps issue_def ..
  with assms have "concat (map issue (cg_objects g)) = []"
    by (cases "has_object_kind v kind") simp_all
  then have none: "issue x = []" if "x \<in> set (cg_objects g)" for x
    using that by auto
  have "str_at (gd_declaration object) ''kind'' = Some kind \<longrightarrow>
      (str_at arguments ''visibility'' = None
       \<or> str_at (json_at (gd_declaration object) ''attributes'') ''visibility'' = str_at arguments ''visibility'') \<longrightarrow>
      json_get (json_at (gd_declaration object) ''attributes'') ''contract'' \<noteq> None"
    if "x \<in> set (cg_objects g)" and "object = snd x" for x object
    using none [OF that(1)] unfolding issue_def that(2) case_prod_beta guarded_issue by argo
  then show ?thesis by (intro exI [of _ kind] conjI ballI kind) (elim imageE)
qed

lemma evaluate_constraint_holds:
  assumes run: "evaluate_constraint g v (i, entry) = Inr (Some [])"
  shows "constraint_holds g (gd_declaration entry)"
proof -
  from run obtain rule where rule: "str_at (gd_declaration entry) ''rule'' = Some rule"
    unfolding evaluate_constraint_def prod.case Let_def and_then_Inr expects_Inr by blast
  note runs = evaluate_constraint_rule [OF rule, of g v i, unfolded run, symmetric, unfolded found_Nil]
  note goal = constraint_holds_def Let_def rule
  from one_of_five [of rule "''requires_object''" "''exactly_one_incoming''" "''forbids_relation''" "''no_path''"
      "''must_reference_contract''"]
  show ?thesis
  proof (elim disjE)
    assume 1: "rule = ''requires_object''"
    from runs(1) [OF 1] show ?thesis
      by (auto simp: goal 1 requires_object_def and_then_Inr split: if_splits)
  next
    assume 2: "rule = ''exactly_one_incoming''"
    from exactly_one_incoming_holds [OF runs(2) [OF 2]] show ?thesis
      unfolding filter_one_index goal by (simp add: 2)
  next
    assume 3: "rule = ''forbids_relation''"
    from forbids_relation_holds [OF runs(3) [OF 3]] show ?thesis unfolding goal by (simp add: 3)
  next
    assume 4: "rule = ''no_path''"
    from no_path_holds [OF runs(4) [OF 4]] show ?thesis unfolding goal by (simp add: 4)
  next
    assume 5: "rule = ''must_reference_contract''"
    from must_reference_contract_holds [OF runs(5) [OF 5]] show ?thesis unfolding goal by (simp add: 5)
  qed (simp add: goal)
qed

lemma cycle_source_None:
  "cycle_source edges rest = Some None \<Longrightarrow> (s, t) \<in> set rest \<Longrightarrow> (s, s) \<notin> (set edges)\<^sup>+"
  by (induction edges rest rule: cycle_source.induct)
    (auto simp: edge_path_exists_iff split: option.splits bool.splits if_splits)

lemma predicate_cycles_acyclic:
  assumes "predicate_cycles g predicates = Inr (Some [])" and "(p, pd) \<in> set predicates"
    and "pd_cycles pd = CyclesForbidden"
  shows "acyclic (relation_pairs g (\<lambda>q. q = p))"
  using assms
proof (induction g predicates rule: predicate_cycles.induct)
  case (2 g q qd predicates)
  show ?case
  proof (cases "(p, pd) \<in> set predicates")
    case True
    with 2 show ?thesis by (auto simp: and_then_Inr split: if_splits option.splits)
  next
    case False
    with 2 obtain edges where edges: "relation_edges g (\<lambda>q. q = p) = Inr edges"
      and none: "cycle_source edges edges = Some None"
      by (auto simp: and_then_Inr split: if_splits option.splits)
    have "(s, s) \<notin> (set edges)\<^sup>+" for s
    proof
      assume "(s, s) \<in> (set edges)\<^sup>+"
      then obtain t where "(s, t) \<in> set edges" by (meson tranclD)
      from cycle_source_None [OF none this] \<open>(s, s) \<in> (set edges)\<^sup>+\<close> show False ..
    qed
    then show ?thesis by (simp add: acyclic_def relation_edges_set [OF edges])
  qed
qed simp

text \<open>C14: Every constraint of a compiled graph holds in it, paths being those of the reflexive transitive
  closure of the named predicates, and every predicate whose cycles are forbidden is acyclic.\<close>

theorem compiled_constraints_hold:
  assumes "compile_graph env documents v mode = Inr g"
  shows "(\<forall>entry \<in> snd ` set (cg_constraints g). constraint_holds g (gd_declaration entry))
    \<and> (\<forall>(p, pd) \<in> set (vo_predicates v). pd_cycles pd = CyclesForbidden \<longrightarrow>
         acyclic (relation_pairs g (\<lambda>q. q = p)))"
proof -
  obtain modules owners where "graph_diagnostics v modules owners g = Inr (Some [])"
    by (rule compile_graph_parts [OF assms])
  then obtain kinds where constraints: "evaluate_constraints g v = Inr (Some [])"
    and cycles: "validate_predicate_cycles g v = Inr (Some [])"
    by (rule graph_diagnostics_parts)
  have "constraint_holds g (gd_declaration entry)" if "(i, entry) \<in> set (cg_constraints g)" for i entry
  proof -
    from constraints obtain results where results: "map_result (evaluate_constraint g v) (cg_constraints g) = Inr results"
      and none: "\<forall>x \<in> set results. x = Some []"
      by (auto simp: evaluate_constraints_def and_then_Inr join_found_Nil)
    from map_result_all [OF results that] none show ?thesis
      by (auto intro: evaluate_constraint_holds)
  qed
  moreover have "acyclic (relation_pairs g (\<lambda>q. q = p))"
    if "(p, pd) \<in> set (vo_predicates v)" "pd_cycles pd = CyclesForbidden" for p pd
    using predicate_cycles_acyclic [OF cycles [unfolded validate_predicate_cycles_def] that] .
  ultimately show ?thesis by auto
qed

theorem compiled_constraints_hold_witness:
  "constraint_holds example_graph (gd_declaration (snd (hd (cg_constraints example_graph))))
    \<and> acyclic (relation_pairs example_graph (\<lambda>q. q = ''uses''))
    \<and> map fst (cg_constraints example_graph) = [''store-is-below'']"
proof -
  have names: "map fst (cg_constraints example_graph) = [''store-is-below'']" by code_simp
  then have "hd (cg_constraints example_graph) \<in> set (cg_constraints example_graph)"
    by (cases "cg_constraints example_graph") auto
  moreover have "(''uses'', hd (map snd (vo_predicates example_vocabulary))) \<in> set (vo_predicates example_vocabulary)"
    and "pd_cycles (hd (map snd (vo_predicates example_vocabulary))) = CyclesForbidden"
    by (simp_all add: example_vocabulary_def)
  ultimately show ?thesis
    using compiled_constraints_hold [OF example_compiles] names by blast
qed

end
