(* ===== verification/ArchContents.thy ===== *)
theory ArchContents
  imports ArchContract "HOL-Library.Sublist"
begin

text \<open>
  What a compiled architecture graph holds: exactly the eligible declarations of the eligible modules,
  each under the one module that declares it, and references that resolve to active objects which the
  referring module owns or imports from a module that exports them.
\<close>

lemma bmap_get_fold:
  "distinct (map fst xs) \<Longrightarrow>
   bmap_get (fold (\<lambda>(k, v). bmap_insert k v) xs m) j
   = (case map_of xs j of None \<Rightarrow> bmap_get m j | Some v \<Rightarrow> Some v)"
proof (induction xs arbitrary: m)
  case (Cons x xs)
  obtain a b where x: "x = (a, b)" by fastforce
  with Cons.prems have "map_of xs a = None" by (simp add: map_of_eq_None_iff)
  with Cons show ?case by (auto simp: x split: option.splits)
qed simp

definition declared :: "json \<Rightarrow> string \<Rightarrow> (string \<times> json) list" where
  "declared document category = elements (json_object (json_at document category))"

definition module_declarations :: "string \<times> json \<Rightarrow> (string \<times> declaration_owner) list" where
  "module_declarations x =
     concat (map (\<lambda>category. map (\<lambda>(i, _). (i, \<lparr>do_module = fst x, do_category = category\<rparr>))
       (declared (snd x) category)) categories)"

lemma declared_owner:
  assumes "category \<in> set categories" and "(i, d) \<in> set (declared (snd x) category)"
  shows "(i, \<lparr>do_module = fst x, do_category = category\<rparr>) \<in> set (module_declarations x)"
proof -
  have "(i, \<lparr>do_module = fst x, do_category = category\<rparr>)
      \<in> set (map (\<lambda>(i, _). (i, \<lparr>do_module = fst x, do_category = category\<rparr>)) (declared (snd x) category))"
    using assms(2) by (force simp: image_iff)
  with assms(1) show ?thesis unfolding module_declarations_def by fastforce
qed

subsection \<open>Ownership\<close>

definition owns :: "(string \<times> declaration_owner) list \<Rightarrow> owner_state \<Rightarrow> bool" where
  "owns entries st \<longleftrightarrow>
     (case st of (ds, owners, reserved) \<Rightarrow>
        ds = [] \<longrightarrow> distinct (map fst entries) \<and> (\<forall>k. bmap_get owners k = map_of entries k))"

lemma owns_declaration:
  assumes "owns entries st"
  shows "owns (entries @ [(i, \<lparr>do_module = m, do_category = c\<rparr>)]) (own_declaration m c i st)"
proof (cases st)
  case (fields ds owners reserved)
  have "i \<notin> fst ` set entries \<longleftrightarrow> map_of entries i = None"
    by (simp add: map_of_eq_None_iff)
  with assms show ?thesis
    by (auto simp: fields owns_def own_declaration_def map_add_def split: option.splits)
qed

lemma owns_declarations:
  "owns entries st \<Longrightarrow>
   owns (entries @ map (\<lambda>(i, _). (i, \<lparr>do_module = m, do_category = c\<rparr>)) decls)
     (fold (\<lambda>(i, _). own_declaration m c i) decls st)"
proof (induction decls arbitrary: entries st)
  case (Cons d decls)
  obtain i v where d: "d = (i, v)" by fastforce
  from Cons.IH [OF owns_declaration [OF Cons.prems, of i m c]] show ?case by (simp add: d)
qed simp

lemma owns_reserved: "owns entries st \<Longrightarrow> owns entries (reserve_id i st)"
  by (cases st) (simp add: owns_def reserve_id_def)

lemma owns_all_reserved: "owns entries st \<Longrightarrow> owns entries (fold (\<lambda>(i, _). reserve_id i) retired st)"
proof (induction retired arbitrary: st)
  case (Cons x retired)
  from Cons.IH [OF owns_reserved [OF Cons.prems]] show ?case by (simp add: case_prod_beta)
qed simp

lemma owns_categories:
  assumes "owns entries st" and "fold_result (own_category m document) cs st = Inr st'"
  shows "owns (entries @ concat (map (\<lambda>c. map (\<lambda>(i, _). (i, \<lparr>do_module = m, do_category = c\<rparr>))
      (declared document c)) cs)) st'"
  using assms
proof (induction cs arbitrary: entries st)
  case (Cons c cs)
  from Cons.prems(2) obtain t where t: "own_category m document c st = Inr t"
    and rest: "fold_result (own_category m document) cs t = Inr st'" by (auto split: sum.splits)
  from t have "owns (entries @ map (\<lambda>(i, _). (i, \<lparr>do_module = m, do_category = c\<rparr>)) (declared document c)) t"
    using owns_declarations [OF Cons.prems(1)]
    by (auto simp: own_category_def and_then_Inr declared_def elements_def)
  from Cons.IH [OF this rest] show ?case by simp
qed simp

lemma owns_modules:
  assumes "owns entries st" and "fold_result own_module modules st = Inr st'"
  shows "owns (entries @ concat (map module_declarations modules)) st'"
  using assms
proof (induction modules arbitrary: entries st)
  case (Cons x modules)
  from Cons.prems(2) obtain t where t: "own_module x st = Inr t"
    and rest: "fold_result own_module modules t = Inr st'" by (auto split: sum.splits)
  from t obtain u where u: "fold_result (own_category (fst x) (snd x)) categories st = Inr u"
    and "and_then (expects (json_object (json_at (snd x) ''retired'')) ''schema validated retired map'')
      (\<lambda>retired. Inr (fold (\<lambda>(i, _). reserve_id i) retired u)) = Inr t"
    by (cases x) (auto simp only: own_module_def prod.case and_then_Inr fst_conv snd_conv)
  then obtain retired :: "(string \<times> json) list"
    where "Inr (fold (\<lambda>(i, _). reserve_id i) retired u) = (Inr t :: owner_state arch)"
    unfolding and_then_Inr by blast
  then have "t = fold (\<lambda>(i, _). reserve_id i) retired u" by simp
  with u have "owns (entries @ module_declarations x) t"
    using owns_all_reserved owns_categories [OF Cons.prems(1) u] by (simp add: module_declarations_def)
  from Cons.IH [OF this rest] show ?case by simp
qed simp

text \<open>Validated modules declare every identifier once, and their owners are these declarations.\<close>

lemma validated_owners:
  assumes "validate_modules env modules = Inr owners"
  shows "distinct (map fst (concat (map module_declarations modules)))"
    and "bmap_get owners i = map_of (concat (map module_declarations modules)) i"
proof -
  obtain reserved where run: "fold_result own_module modules ([], [], []) = Inr ([], owners, reserved)"
    by (rule validate_modules_parts [OF assms])
  have "owns [] ([], [], [])" by (simp add: owns_def)
  from owns_modules [OF this run]
  show "distinct (map fst (concat (map module_declarations modules)))"
    and "bmap_get owners i = map_of (concat (map module_declarations modules)) i"
    by (simp_all add: owns_def)
qed

subsection \<open>Active declarations\<close>

fun graph_category :: "string \<Rightarrow> compiled_graph \<Rightarrow> declarations" where
  "graph_category category g =
     (if category = ''objects'' then cg_objects g
      else if category = ''relations'' then cg_relations g
      else if category = ''bindings'' then cg_bindings g
      else if category = ''constraints'' then cg_constraints g else [])"

definition active_entries :: "compile_mode \<Rightarrow> string \<Rightarrow> string \<times> json \<Rightarrow> (string \<times> graph_declaration) list" where
  "active_entries mode category x =
     (if eligible (snd x) mode
      then map (\<lambda>(i, d). (i, \<lparr>gd_module = fst x, gd_declaration = d\<rparr>))
             (filter (\<lambda>(i, d). eligible d mode) (declared (snd x) category))
      else [])"

abbreviation insert_entries :: "(string \<times> graph_declaration) list \<Rightarrow> declarations \<Rightarrow> declarations" where
  "insert_entries \<equiv> fold (\<lambda>(i, e). bmap_insert i e)"

lemma fold_if_filter:
  "fold (\<lambda>(i, d) out. if P d then f i (h d) out else out) xs m
   = fold (\<lambda>(i, e). f i e) (map (\<lambda>(i, d). (i, h d)) (filter (\<lambda>(i, d). P d) xs)) m"
  by (induction xs arbitrary: m) auto

lemma collect_eligible_entries:
  assumes "collect_eligible m (json_at document category) mode out = Inr out'"
  shows "out' = insert_entries (map (\<lambda>(i, d). (i, \<lparr>gd_module = m, gd_declaration = d\<rparr>))
    (filter (\<lambda>(i, d). eligible d mode) (declared document category))) out"
proof -
  from assms obtain entries where "json_object (json_at document category) = Some entries"
    and "fold (\<lambda>(i, d) output. if eligible d mode
      then bmap_insert i \<lparr>gd_module = m, gd_declaration = d\<rparr> output else output) entries out = out'"
    by (auto simp only: collect_eligible_def and_then_Inr expects_Inr sum.inject)
  then show ?thesis
    using fold_if_filter [of "\<lambda>d. eligible d mode" bmap_insert "\<lambda>d. \<lparr>gd_module = m, gd_declaration = d\<rparr>" entries out]
    by (simp add: declared_def elements_def)
qed

lemma collect_graph_entries:
  assumes "collect_graph x g = Inr g'"
  shows "cg_mode g' = cg_mode g"
    and "category \<in> set categories \<Longrightarrow>
      graph_category category g' = insert_entries (active_entries (cg_mode g) category x) (graph_category category g)"
proof -
  obtain m document where x: "x = (m, document)" by fastforce
  have "cg_mode g' = cg_mode g \<and> (category \<in> set categories \<longrightarrow>
      graph_category category g' = insert_entries (active_entries (cg_mode g) category x) (graph_category category g))"
  proof (cases "eligible document (cg_mode g)")
    case True
    with assms obtain objs rels binds cons where
      "collect_eligible m (json_at document ''objects'') (cg_mode g) (cg_objects g) = Inr objs"
      "collect_eligible m (json_at document ''relations'') (cg_mode g) (cg_relations g) = Inr rels"
      "collect_eligible m (json_at document ''bindings'') (cg_mode g) (cg_bindings g) = Inr binds"
      "collect_eligible m (json_at document ''constraints'') (cg_mode g) (cg_constraints g) = Inr cons"
      "g' = g\<lparr>cg_objects := objs, cg_relations := rels, cg_bindings := binds, cg_constraints := cons\<rparr>"
      by (auto simp: collect_graph_def x and_then_Inr)
    with True show ?thesis
      by (auto simp: active_entries_def x categories_def dest!: collect_eligible_entries)
  next
    case False
    with assms show ?thesis by (auto simp: collect_graph_def x active_entries_def)
  qed
  then show "cg_mode g' = cg_mode g"
    and "category \<in> set categories \<Longrightarrow>
      graph_category category g' = insert_entries (active_entries (cg_mode g) category x) (graph_category category g)"
    by auto
qed

lemma collected_entries:
  assumes "fold_result collect_graph modules g = Inr g'" and "category \<in> set categories"
  shows "cg_mode g' = cg_mode g \<and> graph_category category g'
    = insert_entries (concat (map (active_entries (cg_mode g) category) modules)) (graph_category category g)"
  using assms(1)
proof (induction modules arbitrary: g)
  case (Cons x modules)
  then obtain t where t: "collect_graph x g = Inr t" and rest: "fold_result collect_graph modules t = Inr g'"
    by (auto split: sum.splits)
  from Cons.IH [OF rest] collect_graph_entries [OF t] assms(2) show ?case by simp
qed simp

lemma subseq_distinct: "subseq xs ys \<Longrightarrow> distinct ys \<Longrightarrow> distinct xs"
proof -
  have "subseq xs ys \<Longrightarrow> distinct ys \<longrightarrow> distinct xs \<and> set xs \<subseteq> set ys"
    by (induction rule: list_emb.induct) auto
  then show "subseq xs ys \<Longrightarrow> distinct ys \<Longrightarrow> distinct xs" by blast
qed

lemma subseq_concat: "(\<And>x. subseq (f x) (h x)) \<Longrightarrow> subseq (concat (map f xs)) (concat (map h xs))"
  by (induction xs) (simp_all add: list_emb_append_mono)

lemma subseq_concat_member: "c \<in> set cs \<Longrightarrow> subseq (f c) (concat (map f cs))"
  by (induction cs) (auto intro: list_emb_append2 list_emb_prefix)

lemma active_keys:
  assumes "category \<in> set categories"
    and "distinct (map fst (concat (map module_declarations modules)))"
  shows "distinct (map fst (concat (map (active_entries mode category) modules)))"
proof -
  have "subseq (map fst (active_entries mode category x)) (map fst (module_declarations x))" for x
  proof -
    have keys: "map fst (module_declarations x) = concat (map (\<lambda>c. map fst (declared (snd x) c)) categories)"
      by (simp add: module_declarations_def map_concat comp_def case_prod_beta)
    have "subseq (map fst (active_entries mode category x)) (map fst (declared (snd x) category))"
      by (auto simp: active_entries_def comp_def case_prod_beta intro: subseq_map)
    also have "subseq \<dots> (map fst (module_declarations x))"
      unfolding keys by (rule subseq_concat_member [OF assms(1)])
    finally show ?thesis .
  qed
  then have "subseq (concat (map (\<lambda>x. map fst (active_entries mode category x)) modules))
      (concat (map (\<lambda>x. map fst (module_declarations x)) modules))"
    by (rule subseq_concat)
  with assms(2) show ?thesis
    by (auto simp: map_concat comp_def intro: subseq_distinct)
qed

text \<open>The declarations of a category that are in force: those of an eligible module that are eligible.\<close>

definition active_declaration :: "modules \<Rightarrow> compile_mode \<Rightarrow> string \<Rightarrow> string \<Rightarrow> graph_declaration \<Rightarrow> bool" where
  "active_declaration modules mode category i entry \<longleftrightarrow>
     (\<exists>document. (gd_module entry, document) \<in> set modules \<and> eligible document mode
        \<and> (i, gd_declaration entry) \<in> set (declared document category)
        \<and> eligible (gd_declaration entry) mode)"

lemma active_entries_set:
  "(i, entry) \<in> set (concat (map (active_entries mode category) modules))
   \<longleftrightarrow> active_declaration modules mode category i entry"
  by (cases entry) (force simp: active_entries_def active_declaration_def)

lemma graph_holds_active:
  assumes "validate_modules env modules = Inr owners"
    and "fold_result collect_graph modules
       \<lparr>cg_mode = mode, cg_objects = [], cg_relations = [], cg_bindings = [], cg_constraints = []\<rparr> = Inr g"
    and "category \<in> set categories"
  shows "bmap_get (graph_category category g) i = Some entry
    \<longleftrightarrow> active_declaration modules mode category i entry"
proof -
  let ?entries = "concat (map (active_entries mode category) modules)"
  have distinct: "distinct (map fst ?entries)"
    by (rule active_keys [OF assms(3) validated_owners(1) [OF assms(1)]])
  have "graph_category category g = insert_entries ?entries []"
    using collected_entries [OF assms(2,3)] by simp
  then have "bmap_get (graph_category category g) i = map_of ?entries i"
    by (simp add: bmap_get_fold [OF distinct] split: option.split)
  then show ?thesis
    by (simp only: map_of_eq_Some_iff [OF distinct] active_entries_set)
qed

text \<open>C11: A compiled graph holds, in each of its four categories, exactly the eligible declarations of the
  eligible modules it was given; and an identifier is declared at most once, over all modules and categories.\<close>

theorem compiled_graph_holds_active_declarations:
  assumes "compile_graph env documents v mode = Inr g"
  shows "\<exists>modules. load_modules env v documents = Inr modules
    \<and> (\<forall>category \<in> set categories. \<forall>i entry.
         bmap_get (graph_category category g) i = Some entry
         \<longleftrightarrow> active_declaration modules mode category i entry)
    \<and> distinct (map fst (concat (map module_declarations modules)))"
proof -
  obtain modules owners where load: "load_modules env v documents = Inr modules"
    and valid: "validate_modules env modules = Inr owners"
    and collected: "fold_result collect_graph modules
       \<lparr>cg_mode = mode, cg_objects = [], cg_relations = [], cg_bindings = [], cg_constraints = []\<rparr> = Inr g"
    by (rule compile_graph_parts [OF assms])
  with graph_holds_active [OF valid collected] validated_owners(1) [OF valid] show ?thesis by blast
qed

theorem compiled_graph_holds_active_declarations_witness:
  "(\<exists>modules. load_modules example_env example_vocabulary example_documents = Inr modules
    \<and> (\<forall>category \<in> set categories. \<forall>i entry.
         bmap_get (graph_category category example_graph) i = Some entry
         \<longleftrightarrow> active_declaration modules Governing category i entry)
    \<and> distinct (map fst (concat (map module_declarations modules))))
   \<and> map fst (cg_objects example_graph) = [''client'', ''store'']"
proof
  show "\<exists>modules. load_modules example_env example_vocabulary example_documents = Inr modules
    \<and> (\<forall>category \<in> set categories. \<forall>i entry.
         bmap_get (graph_category category example_graph) i = Some entry
         \<longleftrightarrow> active_declaration modules Governing category i entry)
    \<and> distinct (map fst (concat (map module_declarations modules)))"
    by (rule compiled_graph_holds_active_declarations [OF example_compiles])
qed code_simp

subsection \<open>References\<close>

text \<open>A declaration of one module is visible in another that imports it when it is exported.\<close>

definition visible :: "modules \<Rightarrow> string \<Rightarrow> string \<Rightarrow> string \<Rightarrow> string \<Rightarrow> bool" where
  "visible modules category referring owning i \<longleftrightarrow>
     owning = referring
     \<or> (\<exists>importer imps owner exported.
          bmap_get modules referring = Some importer \<and> array_at importer ''imports'' = Some imps
          \<and> (\<exists>imp \<in> set imps. str_at imp ''module'' = Some owning)
          \<and> bmap_get modules owning = Some owner
          \<and> array_at (json_at owner ''exports'') category = Some exported \<and> JString i \<in> set exported)"

lemma reference_visible:
  assumes "validate_declaration_reference modules owners i d reference = Inr []"
  shows "\<exists>j owner. json_str reference = Some j \<and> bmap_get owners j = Some owner
    \<and> visible modules (do_category owner) (gd_module d) (do_module owner) j"
proof -
  from assms obtain j where j: "json_str reference = Some j"
    by (cases "json_str reference") (simp_all add: validate_declaration_reference_def)
  with assms obtain owner where owner: "bmap_get owners j = Some owner"
    by (cases "bmap_get owners j") (simp_all add: validate_declaration_reference_def)
  show ?thesis
  proof (cases "do_module owner = gd_module d")
    case True
    with j owner show ?thesis by (auto simp: visible_def)
  next
    case False
    with assms j owner obtain importer imps where importer: "bmap_get modules (gd_module d) = Some importer"
      "array_at importer ''imports'' = Some imps"
      and imported: "list_ex (\<lambda>imp. str_at imp ''module'' = Some (do_module owner)) imps"
      and rest: "and_then (expects (bmap_get modules (do_module owner)) ''owner module exists'') (\<lambda>owner_module.
         and_then (expects (array_at (json_at owner_module ''exports'') (do_category owner))
             ''schema validated exports'') (\<lambda>exports.
           Inr (if list_ex (\<lambda>i. json_str i = Some j) exports then []
                else [error_diagnostic ''reference.private-cross-module''
                        (gd_module d @ '' references private declaration '' @ j
                         @ '' from '' @ do_module owner)]))) = Inr []"
      by (auto simp: validate_declaration_reference_def and_then_Inr module_imports_def
          simp del: list_ex_iff split: if_splits)
    from rest obtain owner_module exported where
      "bmap_get modules (do_module owner) = Some owner_module"
      "array_at (json_at owner_module ''exports'') (do_category owner) = Some exported"
      "list_ex (\<lambda>i. json_str i = Some j) exported"
      by (auto simp: and_then_Inr simp del: list_ex_iff split: if_splits)
    with importer imported have "visible modules (do_category owner) (gd_module d) (do_module owner) j"
      unfolding visible_def list_ex_iff json_str_Some by blast
    with j owner show ?thesis by blast
  qed
qed

text \<open>An identifier that a module of the set owns as an object and that the graph holds.\<close>

definition resolves :: "modules \<Rightarrow> compiled_graph \<Rightarrow> graph_declaration \<Rightarrow> string \<Rightarrow> graph_declaration \<Rightarrow> bool" where
  "resolves modules g d i target \<longleftrightarrow>
     bmap_get (cg_objects g) i = Some target \<and> visible modules ''objects'' (gd_module d) (gd_module target) i"

lemma reference_resolves:
  assumes valid: "validate_modules env modules = Inr owners"
    and collected: "fold_result collect_graph modules
       \<lparr>cg_mode = mode, cg_objects = [], cg_relations = [], cg_bindings = [], cg_constraints = []\<rparr> = Inr g"
    and reference: "validate_declaration_reference modules owners i d (JString j) = Inr []"
    and target: "bmap_get (cg_objects g) j = Some target"
  shows "resolves modules g d j target"
proof -
  from reference_visible [OF reference] obtain owner where owner: "bmap_get owners j = Some owner"
    and visible: "visible modules (do_category owner) (gd_module d) (do_module owner) j"
    by (auto simp: json_str_def)
  have "active_declaration modules mode ''objects'' j target"
    using graph_holds_active [OF valid collected, of "''objects''" j target] target by (simp add: categories_def)
  then obtain document where "(gd_module target, document) \<in> set modules"
    and "(j, gd_declaration target) \<in> set (declared document ''objects'')"
    by (auto simp: active_declaration_def)
  then have "(j, \<lparr>do_module = gd_module target, do_category = ''objects''\<rparr>)
      \<in> set (concat (map module_declarations modules))"
    using declared_owner [of "''objects''" j "gd_declaration target" "(gd_module target, document)"]
    by (auto simp: categories_def)
  then have "bmap_get owners j = Some \<lparr>do_module = gd_module target, do_category = ''objects''\<rparr>"
    unfolding validated_owners(2) [OF valid] by (rule map_of_is_SomeI [OF validated_owners(1) [OF valid]])
  with owner have "owner = \<lparr>do_module = gd_module target, do_category = ''objects''\<rparr>" by simp
  with visible target show ?thesis by (simp add: resolves_def)
qed

lemma object_kinds_get:
  assumes "object_kinds_of g = Inr kinds" and "bmap_get kinds i = Some kind" and "bmap_wf (cg_objects g)"
  shows "\<exists>target. bmap_get (cg_objects g) i = Some target \<and> str_at (gd_declaration target) ''kind'' = Some kind"
proof -
  from bmap_get_SomeD [OF assms(2)] map_result_Inr [OF assms(1) [unfolded object_kinds_of_def]]
  obtain x where "x \<in> set (cg_objects g)" and "(case x of (i, entry) \<Rightarrow>
      and_then (expects (str_at (gd_declaration entry) ''kind'') ''schema validated object kind'')
        (\<lambda>kind. Inr (i, kind))) = (Inr (i, kind) :: (string \<times> string) arch)"
    by blast
  moreover obtain k entry where "x = (k, entry)" by fastforce
  ultimately have "(i, entry) \<in> set (cg_objects g)" and "str_at (gd_declaration entry) ''kind'' = Some kind"
    by (auto simp: and_then_Inr)
  then show ?thesis
    using bmap_get_iff [OF assms(3)] by blast
qed

lemma kind_diagnostics_Nil:
  "kind_diagnostics role i p r code allowed k = [] \<longleftrightarrow> (\<exists>kind. k = Some kind \<and> kind \<in> set allowed)"
  by (cases k) (simp_all add: kind_diagnostics_def)

lemma relation_parts:
  assumes "relation_diagnostics v modules owners kinds (i, r) = Inr []"
  obtains predicate subject object pd where
    "str_at (gd_declaration r) ''predicate'' = Some predicate"
    "str_at (gd_declaration r) ''subject'' = Some subject"
    "str_at (gd_declaration r) ''object'' = Some object"
    "bmap_get (vo_predicates v) predicate = Some pd"
    "\<exists>kind. bmap_get kinds subject = Some kind \<and> kind \<in> set (pd_subject_kinds pd)"
    "\<exists>kind. bmap_get kinds object = Some kind \<and> kind \<in> set (pd_object_kinds pd)"
    "validate_declaration_reference modules owners i r (JString subject) = Inr []"
    "validate_declaration_reference modules owners i r (JString object) = Inr []"
proof -
  from assms have relation: "validate_relation v i (gd_declaration r) kinds = Inr []"
    and refs: "validate_declaration_reference modules owners i r (json_at (gd_declaration r) ''subject'') = Inr []"
      "validate_declaration_reference modules owners i r (json_at (gd_declaration r) ''object'') = Inr []"
    by (auto simp: relation_diagnostics_def and_then_Inr)
  from relation obtain predicate subject object where named:
      "str_at (gd_declaration r) ''predicate'' = Some predicate"
      "str_at (gd_declaration r) ''subject'' = Some subject"
      "str_at (gd_declaration r) ''object'' = Some object"
    by (auto simp: validate_relation_def and_then_Inr)
  with relation obtain pd where "bmap_get (vo_predicates v) predicate = Some pd"
    by (cases "bmap_get (vo_predicates v) predicate") (simp_all add: validate_relation_def expects_def)
  moreover from this relation named have
      "\<exists>kind. bmap_get kinds subject = Some kind \<and> kind \<in> set (pd_subject_kinds pd)"
      "\<exists>kind. bmap_get kinds object = Some kind \<and> kind \<in> set (pd_object_kinds pd)"
    by (auto simp: validate_relation_def expects_def and_then_Inr kind_diagnostics_Nil)
  ultimately show thesis
    using that named refs unfolding json_str_Some by metis
qed

lemma bmap_wf_insert_entries: "bmap_wf m \<Longrightarrow> bmap_wf (insert_entries xs m)"
  by (induction xs arbitrary: m) (auto simp: bmap_wf_insert)

text \<open>The two ends of a relation: active objects of the kinds its predicate allows, visible where it stands.\<close>

definition relation_resolved :: "vocabulary \<Rightarrow> modules \<Rightarrow> compiled_graph \<Rightarrow> graph_declaration \<Rightarrow> bool" where
  "relation_resolved v modules g r \<longleftrightarrow>
     (\<exists>predicate pd subject object s t k l.
        str_at (gd_declaration r) ''predicate'' = Some predicate
        \<and> bmap_get (vo_predicates v) predicate = Some pd
        \<and> str_at (gd_declaration r) ''subject'' = Some subject
        \<and> str_at (gd_declaration r) ''object'' = Some object
        \<and> resolves modules g r subject s \<and> resolves modules g r object t
        \<and> str_at (gd_declaration s) ''kind'' = Some k \<and> k \<in> set (pd_subject_kinds pd)
        \<and> str_at (gd_declaration t) ''kind'' = Some l \<and> l \<in> set (pd_object_kinds pd))"

definition binding_resolved :: "modules \<Rightarrow> compiled_graph \<Rightarrow> graph_declaration \<Rightarrow> bool" where
  "binding_resolved modules g b \<longleftrightarrow>
     (\<exists>i target. str_at (gd_declaration b) ''target'' = Some i \<and> resolves modules g b i target)"

definition object_resolved :: "vocabulary \<Rightarrow> modules \<Rightarrow> compiled_graph \<Rightarrow> graph_declaration \<Rightarrow> bool" where
  "object_resolved v modules g d \<longleftrightarrow>
     (\<forall>i \<in> set (object_reference_ids v (gd_declaration d)). \<exists>target. resolves modules g d i target)"

lemma compiled_references_resolve_aux:
  assumes valid: "validate_modules env modules = Inr owners"
    and collected: "fold_result collect_graph modules
       \<lparr>cg_mode = mode, cg_objects = [], cg_relations = [], cg_bindings = [], cg_constraints = []\<rparr> = Inr g"
    and diagnostics: "graph_diagnostics v modules owners g = Inr (Some [])"
  shows "\<forall>r \<in> snd ` set (cg_relations g). relation_resolved v modules g r"
    and "\<forall>b \<in> snd ` set (cg_bindings g). binding_resolved modules g b"
    and "\<forall>d \<in> snd ` set (cg_objects g). object_resolved v modules g d"
proof -
  obtain kinds where kinds: "object_kinds_of g = Inr kinds"
    and objects: "diagnose (reference_diagnostics v modules owners g) (cg_objects g) = Inr []"
    and relations: "diagnose (relation_diagnostics v modules owners kinds) (cg_relations g) = Inr []"
    and bindings: "diagnose (binding_diagnostics modules owners g) (cg_bindings g) = Inr []"
    by (rule graph_diagnostics_parts [OF diagnostics])
  have wf: "bmap_wf (cg_objects g)"
    using collected_entries [OF collected, of "''objects''"] by (simp add: categories_def bmap_wf_insert_entries)
  note resolve = reference_resolves [OF valid collected]
  show "\<forall>r \<in> snd ` set (cg_relations g). relation_resolved v modules g r"
  proof
    fix r assume "r \<in> snd ` set (cg_relations g)"
    then obtain i where "(i, r) \<in> set (cg_relations g)" by auto
    with relations have "relation_diagnostics v modules owners kinds (i, r) = Inr []"
      by (simp add: diagnose_empty)
    then show "relation_resolved v modules g r"
    proof (rule relation_parts)
      fix predicate subject object pd
      assume named: "str_at (gd_declaration r) ''predicate'' = Some predicate"
          "str_at (gd_declaration r) ''subject'' = Some subject"
          "str_at (gd_declaration r) ''object'' = Some object"
          "bmap_get (vo_predicates v) predicate = Some pd"
        and "\<exists>kind. bmap_get kinds subject = Some kind \<and> kind \<in> set (pd_subject_kinds pd)"
          "\<exists>kind. bmap_get kinds object = Some kind \<and> kind \<in> set (pd_object_kinds pd)"
        and refs: "validate_declaration_reference modules owners i r (JString subject) = Inr []"
          "validate_declaration_reference modules owners i r (JString object) = Inr []"
      then obtain k l where k: "bmap_get kinds subject = Some k" "k \<in> set (pd_subject_kinds pd)"
        and l: "bmap_get kinds object = Some l" "l \<in> set (pd_object_kinds pd)" by blast
      obtain s t where "bmap_get (cg_objects g) subject = Some s" "str_at (gd_declaration s) ''kind'' = Some k"
        and "bmap_get (cg_objects g) object = Some t" "str_at (gd_declaration t) ''kind'' = Some l"
        using object_kinds_get [OF kinds k(1) wf] object_kinds_get [OF kinds l(1) wf] by blast
      with resolve refs k l named show ?thesis unfolding relation_resolved_def by blast
    qed
  qed
  show "\<forall>b \<in> snd ` set (cg_bindings g). binding_resolved modules g b"
  proof
    fix b assume "b \<in> snd ` set (cg_bindings g)"
    then obtain i where "(i, b) \<in> set (cg_bindings g)" by auto
    with bindings have run: "binding_diagnostics modules owners g (i, b) = Inr []" by (simp add: diagnose_empty)
    then have ref: "validate_declaration_reference modules owners i b (json_at (gd_declaration b) ''target'') = Inr []"
      by (auto simp: binding_diagnostics_def and_then_Inr Let_def)
    then obtain j where j: "str_at (gd_declaration b) ''target'' = Some j"
      by (blast dest: reference_visible)
    with run obtain target where "bmap_get (cg_objects g) j = Some target"
      by (auto simp: binding_diagnostics_def and_then_Inr Let_def split: if_splits)
    with resolve ref j show "binding_resolved modules g b"
      unfolding binding_resolved_def json_str_Some by metis
  qed
  show "\<forall>d \<in> snd ` set (cg_objects g). object_resolved v modules g d"
  proof
    fix d assume "d \<in> snd ` set (cg_objects g)"
    then obtain i where "(i, d) \<in> set (cg_objects g)" by auto
    with objects have run: "reference_diagnostics v modules owners g (i, d) = Inr []" by (simp add: diagnose_empty)
    have "\<exists>target. resolves modules g d j target" if "j \<in> set (object_reference_ids v (gd_declaration d))" for j
    proof -
      from run that have "and_then (validate_declaration_reference modules owners i d (JString j)) (\<lambda>ds.
            Inr (ds @ (if ds = [] \<and> bmap_get (cg_objects g) j = None
                 then [error_diagnostic ''object.reference-not-active''
                         (i @ '' references '' @ j @ '', which is absent from the ''
                          @ compile_mode_debug (cg_mode g) @ '' graph'')] else []))) = Inr []"
        by (simp add: reference_diagnostics_def diagnose_empty)
      then have "validate_declaration_reference modules owners i d (JString j) = Inr []"
        and "bmap_get (cg_objects g) j \<noteq> None"
        by (auto simp: and_then_Inr split: if_splits)
      with resolve show ?thesis by blast
    qed
    then show "object_resolved v modules g d" by (simp add: object_resolved_def)
  qed
qed

text \<open>C12: In a compiled graph every reference resolves: the ends of a relation are active objects of the
  kinds its predicate allows, the target of a binding and the identifiers in the attributes of an object
  are active objects, and each belongs to the referring module or to one it imports and that exports it.\<close>

theorem compiled_references_resolve:
  assumes "compile_graph env documents v mode = Inr g"
  shows "\<exists>modules. load_modules env v documents = Inr modules
    \<and> (\<forall>r \<in> snd ` set (cg_relations g). relation_resolved v modules g r)
    \<and> (\<forall>b \<in> snd ` set (cg_bindings g). binding_resolved modules g b)
    \<and> (\<forall>d \<in> snd ` set (cg_objects g). object_resolved v modules g d)"
proof -
  obtain modules owners where "load_modules env v documents = Inr modules"
    and valid: "validate_modules env modules = Inr owners"
    and collected: "fold_result collect_graph modules
       \<lparr>cg_mode = mode, cg_objects = [], cg_relations = [], cg_bindings = [], cg_constraints = []\<rparr> = Inr g"
    and diagnostics: "graph_diagnostics v modules owners g = Inr (Some [])"
    by (rule compile_graph_parts [OF assms])
  with compiled_references_resolve_aux [OF valid collected diagnostics] show ?thesis by (intro exI conjI)
qed

theorem compiled_references_resolve_witness:
  "(\<exists>modules. load_modules example_env example_vocabulary example_documents = Inr modules
    \<and> (\<forall>r \<in> snd ` set (cg_relations example_graph). relation_resolved example_vocabulary modules example_graph r)
    \<and> (\<forall>b \<in> snd ` set (cg_bindings example_graph). binding_resolved modules example_graph b)
    \<and> (\<forall>d \<in> snd ` set (cg_objects example_graph). object_resolved example_vocabulary modules example_graph d))
   \<and> map fst (cg_relations example_graph) = [''client-uses-store'']"
proof
  show "\<exists>modules. load_modules example_env example_vocabulary example_documents = Inr modules
    \<and> (\<forall>r \<in> snd ` set (cg_relations example_graph). relation_resolved example_vocabulary modules example_graph r)
    \<and> (\<forall>b \<in> snd ` set (cg_bindings example_graph). binding_resolved modules example_graph b)
    \<and> (\<forall>d \<in> snd ` set (cg_objects example_graph). object_resolved example_vocabulary modules example_graph d)"
    by (rule compiled_references_resolve [OF example_compiles])
qed code_simp

end
