(* ===== verification/ArchConformanceProps.thy ===== *)
theory ArchConformanceProps
  imports ArchConformance ArchContents
begin

text \<open>
  The guarantees of the conformance evaluation: what a match and an error of a binding rest on, that the
  errors and matches of a whole run rest on complete deterministic evidence, so that the final evidence
  check never fires, and that exceptions leave the state and evidence of a result.
\<close>

lemma arch_reject_Inr [simp]: "arch_reject ds = Inr u \<longleftrightarrow> ds = []"
  by (simp add: arch_reject_def)

lemma set_bmap_insert_subset: "set (bmap_insert k v m) \<subseteq> insert (k, v) (set m)"
  by (induction m) (auto split: if_splits)

subsection \<open>One binding\<close>

lemma coverage_status_split:
  "cov_status c = CoverageComplete
   \<longleftrightarrow> cov_status c \<notin> {CoverageUnsupported, CoverageUnknown} \<and> cov_status c \<noteq> CoveragePartial"
  by (cases "cov_status c") simp_all

lemma mode_split: "of_mode f = Deterministic \<longleftrightarrow> of_mode f \<noteq> Inferred"
  by (cases "of_mode f") simp_all

lemma not_inferred: "\<not> list_ex (\<lambda>(_, f). of_mode f = Inferred) facts
    \<longleftrightarrow> list_all (\<lambda>(_, f). of_mode f = Deterministic) facts"
  by (auto simp: list_ex_iff list_all_iff mode_split)

lemma fully_covered:
  "\<not> (cov = [] \<or> list_ex (\<lambda>(_, c). cov_status c \<in> {CoverageUnsupported, CoverageUnknown}) cov)
     \<and> \<not> list_ex (\<lambda>(_, c). cov_status c = CoveragePartial) cov
   \<longleftrightarrow> all_complete cov"
  unfolding all_complete_def by (auto simp: list_ex_iff list_all_iff coverage_status_split)

definition established :: "named_facts \<Rightarrow> named_coverage \<Rightarrow> bool" where
  "established facts cov \<longleftrightarrow> all_complete cov \<and> list_all (\<lambda>(_, f). of_mode f = Deterministic) facts"

lemma judge_binding_established:
  assumes "established facts cov"
  shows "judge_binding target kind cardinality ok facts cov =
    (if list_ex (\<lambda>(_, f). of_observed_kind f \<noteq> kind) facts
     then conformance_result_of target Conflicting SevError ''binding.kind-conflict'' (evidence facts cov)
            ''Deterministic evidence reports a construct with the wrong declared kind.''
     else if \<not> ok
     then (if cardinality \<in> {''exactly_one'', ''one_or_more''} \<and> facts = []
           then conformance_result_of target Absent SevError ''binding.required-absent'' (evidence facts cov)
                  ''Complete deterministic coverage found no required construct.''
           else conformance_result_of target Conflicting SevError ''binding.cardinality-conflict'' (evidence facts cov)
                  ''Complete deterministic evidence violates the declared binding cardinality.'')
     else conformance_result_of target Matched SevAdvisory ''binding.exact-match'' (evidence facts cov)
            ''The accepted binding matched deterministic implementation evidence.'')"
proof -
  have det: "\<not> list_ex (\<lambda>(_, f). of_mode f = Inferred) facts"
    and cov: "\<not> (cov = [] \<or> list_ex (\<lambda>(_, c). cov_status c \<in> {CoverageUnsupported, CoverageUnknown}) cov)"
      "\<not> list_ex (\<lambda>(_, c). cov_status c = CoveragePartial) cov"
    using assms fully_covered [of cov] not_inferred [of facts] by (auto simp: established_def)
  have all: "all_complete cov" "list_all (\<lambda>(_, f). of_mode f = Deterministic) facts"
    using assms by (auto simp: established_def)
  show ?thesis
    unfolding judge_binding_def Let_def if_not_P [OF det] if_not_P [OF cov(1)] if_not_P [OF cov(2)]
    by (simp only: all simp_thms)
qed

lemma judge_binding_unestablished:
  assumes "\<not> established facts cov"
  shows "rs_severity (judge_binding target kind cardinality ok facts cov) = SevAdvisory"
    and "rs_state (judge_binding target kind cardinality ok facts cov) \<in> {Ambiguous, Unobserved, Partial}"
proof -
  consider "list_ex (\<lambda>(_, f). of_mode f = Inferred) facts"
    | "cov = [] \<or> list_ex (\<lambda>(_, c). cov_status c \<in> {CoverageUnsupported, CoverageUnknown}) cov"
    | "list_ex (\<lambda>(_, c). cov_status c = CoveragePartial) cov"
    using assms fully_covered [of cov] not_inferred [of facts] unfolding established_def by blast
  then show "rs_severity (judge_binding target kind cardinality ok facts cov) = SevAdvisory"
    and "rs_state (judge_binding target kind cardinality ok facts cov) \<in> {Ambiguous, Unobserved, Partial}"
    by (cases; simp add: judge_binding_def Let_def conformance_result_of_def)+
qed

lemma judge_binding_fields:
  "rs_declaration_id (judge_binding target kind cardinality ok facts cov) = target"
  "rs_evidence (judge_binding target kind cardinality ok facts cov) = evidence facts cov"
  "rs_exceptions (judge_binding target kind cardinality ok facts cov) = no_exceptions"
  by (simp_all add: judge_binding_def Let_def conformance_result_of_def)

text \<open>What a binding demands: every observed construct of the declared kind, in the declared number.\<close>

fun cardinality_allows :: "string \<Rightarrow> nat \<Rightarrow> bool" where
  "cardinality_allows cardinality n \<longleftrightarrow>
     (cardinality = ''exactly_one'' \<and> n = 1) \<or> (cardinality = ''at_most_one'' \<and> n \<le> 1)
     \<or> (cardinality = ''one_or_more'' \<and> n \<ge> 1) \<or> cardinality = ''any''"

lemma cardinality_matches_Inr: "cardinality_matches cardinality n = Inr b \<Longrightarrow> b = cardinality_allows cardinality n"
  by (auto simp: cardinality_matches_def split: if_splits)

definition satisfies :: "string \<Rightarrow> string \<Rightarrow> named_facts \<Rightarrow> bool" where
  "satisfies cardinality kind facts \<longleftrightarrow>
     list_all (\<lambda>(_, f). of_observed_kind f = kind) facts \<and> cardinality_allows cardinality (length facts)"

lemma satisfies_cases:
  "satisfies cardinality kind facts
   \<longleftrightarrow> \<not> list_ex (\<lambda>(_, f). of_observed_kind f \<noteq> kind) facts \<and> cardinality_allows cardinality (length facts)"
  by (auto simp: satisfies_def list_ex_iff list_all_iff)

lemma binding_verdict_established:
  assumes "established facts cov"
  shows "(rs_state (judge_binding target kind cardinality (cardinality_allows cardinality (length facts)) facts cov)
      = Matched \<longleftrightarrow> satisfies cardinality kind facts)
    \<and> (rs_severity (judge_binding target kind cardinality (cardinality_allows cardinality (length facts)) facts cov)
      = SevError \<longleftrightarrow> \<not> satisfies cardinality kind facts)"
  unfolding judge_binding_established [OF assms] satisfies_cases
  by (simp add: conformance_result_of_def del: cardinality_allows.simps)

text \<open>C22: A binding is matched exactly when complete deterministic evidence shows the declared kind in the
  declared number, and it is an error exactly when complete deterministic evidence shows otherwise; with
  inferred facts or incomplete coverage it is neither, whatever the facts say.\<close>

theorem binding_verdict_is_exact:
  assumes "evaluate_binding binding_id binding target kind ob = Inr r"
    and "str_at (json_at (gd_declaration binding) ''adapter'') ''kind'' = Some adapter"
    and "str_at (gd_declaration binding) ''cardinality'' = Some cardinality"
  shows "(rs_state r = Matched \<longleftrightarrow>
      established (binding_facts ob binding_id target) (adapter_coverage ob adapter)
      \<and> satisfies cardinality kind (binding_facts ob binding_id target))
    \<and> (rs_severity r = SevError \<longleftrightarrow>
      established (binding_facts ob binding_id target) (adapter_coverage ob adapter)
      \<and> \<not> satisfies cardinality kind (binding_facts ob binding_id target))"
proof -
  let ?facts = "binding_facts ob binding_id target" and ?cov = "adapter_coverage ob adapter"
  from assms have r: "r = judge_binding target kind cardinality (cardinality_allows cardinality (length ?facts)) ?facts ?cov"
    by (auto simp: evaluate_binding_def Let_def and_then_Inr expects_def dest: cardinality_matches_Inr)
  show ?thesis
  proof (cases "established ?facts ?cov")
    case True
    then show ?thesis
      using binding_verdict_established [OF True, of target kind cardinality] unfolding r by blast
  next
    case False
    then show ?thesis
      using judge_binding_unestablished [OF False, of target kind cardinality
          "cardinality_allows cardinality (length ?facts)"] unfolding r by auto
  qed
qed

text \<open>The binding of the example, observed once with the declared kind.\<close>

abbreviation example_bound :: graph_declaration where
  "example_bound \<equiv> \<lparr>gd_module = ''app'', gd_declaration = example_binding\<rparr>"

definition example_observation :: architecture_observation where
  "example_observation =
     \<lparr>ao_api_version = architecture_api_version, ao_kind = ''ArchitectureObservation'',
      ao_metadata = \<lparr>gm_id = ''a.b.observed'', gm_name = ''observed'', gm_architecture_version = 1,
        gm_generated = True, gm_generator = observer, gm_generated_at = ''2026-01-01T00:00:00Z'',
        gm_source_inputs = [], gm_generation_command = '''', gm_manual_editing = ''prohibited''\<rparr>,
      ao_vocabulary = vocabulary_identity_of example_vocabulary, ao_repository = ''a.b.repo'',
      ao_source_commit = ''0123456'',
      ao_coverage = [(''crates'', manifest_coverage ''rust.crate'' ''toml'')],
      ao_facts = [(''client.fact-1'', \<lparr>of_target = ''client'', of_observed_kind = ''component'',
        of_attributes = JObject [(''bindingId'', JString ''client-crate'')], of_extractor = observer,
        of_mode = Deterministic, of_confidence_basis_points = None, of_source_locations = [],
        of_coverage_ids = [''crates'']\<rparr>)],
      ao_content_digest = '''', ao_envelope_digest = ''''\<rparr>"

definition example_verdict :: conformance_result where
  "example_verdict =
     judge_binding ''client'' ''component'' ''exactly_one'' True
       (binding_facts example_observation ''client-crate'' ''client'') (adapter_coverage example_observation ''rust.crate'')"

lemma example_evaluates:
  "evaluate_binding ''client-crate'' example_bound ''client'' ''component'' example_observation = Inr example_verdict"
  "str_at (json_at (gd_declaration example_bound) ''adapter'') ''kind'' = Some ''rust.crate''"
  "str_at (gd_declaration example_bound) ''cardinality'' = Some ''exactly_one''"
  by code_simp+

theorem binding_verdict_is_exact_witness:
  "((rs_state example_verdict = Matched \<longleftrightarrow>
      established (binding_facts example_observation ''client-crate'' ''client'')
        (adapter_coverage example_observation ''rust.crate'')
      \<and> satisfies ''exactly_one'' ''component'' (binding_facts example_observation ''client-crate'' ''client''))
    \<and> (rs_severity example_verdict = SevError \<longleftrightarrow>
      established (binding_facts example_observation ''client-crate'' ''client'')
        (adapter_coverage example_observation ''rust.crate'')
      \<and> \<not> satisfies ''exactly_one'' ''component'' (binding_facts example_observation ''client-crate'' ''client'')))
   \<and> rs_state example_verdict = Matched"
proof
  show "(rs_state example_verdict = Matched \<longleftrightarrow>
      established (binding_facts example_observation ''client-crate'' ''client'')
        (adapter_coverage example_observation ''rust.crate'')
      \<and> satisfies ''exactly_one'' ''component'' (binding_facts example_observation ''client-crate'' ''client''))
    \<and> (rs_severity example_verdict = SevError \<longleftrightarrow>
      established (binding_facts example_observation ''client-crate'' ''client'')
        (adapter_coverage example_observation ''rust.crate'')
      \<and> \<not> satisfies ''exactly_one'' ''component'' (binding_facts example_observation ''client-crate'' ''client''))"
    by (rule binding_verdict_is_exact [OF example_evaluates])
qed code_simp

subsection \<open>All results\<close>

text \<open>A result that satisfies the final evidence check.\<close>

definition rests_on :: "architecture_observation \<Rightarrow> conformance_evidence \<Rightarrow> bool \<times> bool" where
  "rests_on ob ev =
     (list_all (\<lambda>j. case bmap_get (ao_facts ob) j of None \<Rightarrow> False | Some f \<Rightarrow> of_mode f = Deterministic) (ce_fact_ids ev),
      ce_coverage_ids ev \<noteq> [] \<and> list_all (\<lambda>j. case bmap_get (ao_coverage ob) j of
        None \<Rightarrow> False | Some c \<Rightarrow> cov_status c = CoverageComplete) (ce_coverage_ids ev))"

definition sound_result :: "architecture_observation \<Rightarrow> conformance_result \<Rightarrow> bool" where
  "sound_result ob r \<longleftrightarrow>
     (rs_severity r = SevError \<or> rs_state r = Matched \<longrightarrow> rests_on ob (rs_evidence r) = (True, True))"

lemma rests_on_established:
  assumes "bmap_wf (ao_facts ob)" and "bmap_wf (ao_coverage ob)"
    and "set facts \<subseteq> set (ao_facts ob)" and "set cov \<subseteq> set (ao_coverage ob)" and "established facts cov"
  shows "rests_on ob (evidence facts cov) = (True, True)"
proof -
  have "bmap_get (ao_facts ob) i = Some f" if "(i, f) \<in> set facts" for i f
    using that assms(3) bmap_get_iff [OF assms(1)] by blast
  moreover have "bmap_get (ao_coverage ob) i = Some c" if "(i, c) \<in> set cov" for i c
    using that assms(4) bmap_get_iff [OF assms(2)] by blast
  ultimately show ?thesis
    using assms(5) by (fastforce simp: rests_on_def evidence_def established_def all_complete_def list_all_iff)
qed

lemma sound_binding:
  assumes "bmap_wf (ao_facts ob)" and "bmap_wf (ao_coverage ob)"
    and "evaluate_binding i binding target kind ob = Inr r"
  shows "sound_result ob r"
proof -
  from assms(3) obtain adapter cardinality ok where r: "r = judge_binding target kind cardinality ok
      (binding_facts ob i target) (adapter_coverage ob adapter)"
    by (auto simp: evaluate_binding_def Let_def and_then_Inr)
  have subset: "set (binding_facts ob i target) \<subseteq> set (ao_facts ob)"
      "set (adapter_coverage ob adapter) \<subseteq> set (ao_coverage ob)"
    by (auto simp: binding_facts_def adapter_coverage_def)
  show ?thesis
  proof (cases "established (binding_facts ob i target) (adapter_coverage ob adapter)")
    case True
    then show ?thesis
      using rests_on_established [OF assms(1,2) subset] by (simp add: sound_result_def r judge_binding_fields)
  next
    case False
    with judge_binding_unestablished [OF False] show ?thesis unfolding sound_result_def r
      by (metis arch_severity.distinct(3) conformance_state.distinct insertE empty_iff)
  qed
qed

lemma coverage_for_facts_subset: "bmap_wf (ao_coverage ob) \<Longrightarrow> set (coverage_for_facts facts ob) \<subseteq> set (ao_coverage ob)"
  by (auto simp: coverage_for_facts_def List.map_filter_def dest: bmap_get_SomeD)

lemma sound_unexpected:
  assumes "bmap_wf (ao_facts ob)" and "bmap_wf (ao_coverage ob)" and "(i, f) \<in> set (ao_facts ob)"
  shows "sound_result ob (evaluate_unexpected i f ob)"
proof (cases "of_mode f = Deterministic \<and> all_complete (coverage_for_facts [(i, f)] ob)")
  case True
  have "rests_on ob (evidence [(i, f)] (coverage_for_facts [(i, f)] ob)) = (True, True)"
    by (rule rests_on_established [OF assms(1,2) _ coverage_for_facts_subset [OF assms(2)]])
      (use assms(3) True in \<open>simp_all add: established_def\<close>)
  with True show ?thesis by (simp add: sound_result_def evaluate_unexpected_def conformance_result_of_def Let_def)
next
  case False
  then show ?thesis by (auto simp: sound_result_def evaluate_unexpected_def conformance_result_of_def Let_def)
qed

definition results_all :: "(conformance_result \<Rightarrow> bool) \<Rightarrow> results \<Rightarrow> bool" where
  "results_all P results \<longleftrightarrow> (\<forall>(_, r) \<in> set results. P r)"

lemma results_all_insert: "results_all P results \<Longrightarrow> P r \<Longrightarrow> results_all P (bmap_insert i r results)"
  using set_bmap_insert_subset [of i r results] by (auto simp: results_all_def)

text \<open>A match cites the facts of a binding of the graph and the whole coverage of its adapter.\<close>

definition cites_binding :: "compiled_graph \<Rightarrow> architecture_observation \<Rightarrow> conformance_result \<Rightarrow> bool" where
  "cites_binding g ob r \<longleftrightarrow>
     (\<exists>i binding adapter. (i, binding) \<in> set (cg_bindings g)
        \<and> str_at (gd_declaration binding) ''target'' = Some (rs_declaration_id r)
        \<and> str_at (json_at (gd_declaration binding) ''adapter'') ''kind'' = Some adapter
        \<and> rs_evidence r = evidence (binding_facts ob i (rs_declaration_id r)) (adapter_coverage ob adapter))"

text \<open>What holds of every result before the exceptions.\<close>

definition judged :: "compiled_graph \<Rightarrow> architecture_observation \<Rightarrow> conformance_result \<Rightarrow> bool" where
  "judged g ob r \<longleftrightarrow> sound_result ob r \<and> (rs_state r = Matched \<longrightarrow> cites_binding g ob r)"

lemma judged_binding:
  assumes "bmap_wf (ao_facts ob)" and "bmap_wf (ao_coverage ob)" and x: "x \<in> set (cg_bindings g)"
    and "evaluate_one_binding g ob x (targets, results) = Inr (targets', results')"
    and "results_all (judged g ob) results"
  shows "results_all (judged g ob) results'"
proof -
  obtain i binding where pair: "x = (i, binding)" by fastforce
  from assms(4) obtain target object kind r where target: "str_at (gd_declaration binding) ''target'' = Some target"
    and r: "evaluate_binding i binding target kind ob = Inr r"
    and results': "results' = bmap_insert (result_id i) r results"
    by (auto simp: evaluate_one_binding_def pair and_then_Inr)
  from r obtain adapter cardinality ok where adapter: "str_at (json_at (gd_declaration binding) ''adapter'') ''kind'' = Some adapter"
    and judge: "r = judge_binding target kind cardinality ok (binding_facts ob i target) (adapter_coverage ob adapter)"
    by (auto simp: evaluate_binding_def Let_def and_then_Inr)
  have "cites_binding g ob r"
    unfolding cites_binding_def using x pair target adapter by (auto simp: judge judge_binding_fields)
  with sound_binding [OF assms(1,2) r] have "judged g ob r" by (simp add: judged_def)
  with assms(5) show ?thesis unfolding results' by (rule results_all_insert)
qed

lemma judged_objects:
  assumes "results_all (judged g ob) results"
  shows "results_all (judged g ob) (evaluate_objects g ob targets results)"
proof -
  have "judged g ob (evaluate_unbound_object i ob)" if "(i, d) \<in> set (cg_objects g)" for i d
    using that by (force simp: judged_def sound_result_def evaluate_unbound_object_def conformance_result_of_def Let_def)
  then show ?thesis
    unfolding evaluate_objects_def using assms
    by (intro fold_invariant [where P = "results_all (judged g ob)" and Q = "\<lambda>x. x \<in> set (cg_objects g)"])
      (auto intro!: results_all_insert)
qed

lemma judged_constraints:
  assumes "results_all (judged g ob) results"
  shows "results_all (judged g ob) (evaluate_constraint_results g results)"
proof -
  have "judged g ob (evaluate_unobserved_constraint i)" for i
    by (simp add: judged_def sound_result_def evaluate_unobserved_constraint_def conformance_result_of_def)
  then show ?thesis
    unfolding evaluate_constraint_results_def using assms
    by (intro fold_invariant [where P = "results_all (judged g ob)" and Q = "\<lambda>_. True"])
      (auto intro!: results_all_insert)
qed

lemma judged_facts:
  assumes "bmap_wf (ao_facts ob)" and "bmap_wf (ao_coverage ob)" and "results_all (judged g ob) results"
  shows "results_all (judged g ob) (evaluate_facts g ob results)"
proof -
  have "judged g ob (evaluate_unexpected i f ob)"
    if "(i, f) \<in> set (ao_facts ob)" and "of_target f \<notin> declared_ids g" for i f
    using sound_unexpected [OF assms(1,2) that(1)] that(2)
    by (auto simp: judged_def declared_ids_def evaluate_unexpected_def conformance_result_of_def Let_def)
  then show ?thesis
    unfolding evaluate_facts_def using assms(3)
    by (intro fold_invariant [where P = "results_all (judged g ob)" and Q = "\<lambda>x. x \<in> set (ao_facts ob)"])
      (auto intro!: results_all_insert)
qed

lemma evaluate_judged:
  assumes "evaluate g ob = Inr results" and "bmap_wf (ao_facts ob)" and "bmap_wf (ao_coverage ob)"
  shows "results_all (judged g ob) results"
proof -
  from assms(1) obtain targets bound where run: "fold_result (evaluate_one_binding g ob) (cg_bindings g) ([], []) = Inr (targets, bound)"
    and results: "results = evaluate_facts g ob (evaluate_constraint_results g (evaluate_objects g ob targets bound))"
    by (auto simp: evaluate_def and_then_Inr)
  have "results_all (judged g ob) (snd (targets, bound))"
  proof (rule fold_result_inv [where P = "\<lambda>st. results_all (judged g ob) (snd st)"
        and f = "evaluate_one_binding g ob" and xs = "cg_bindings g" and s = "([], [])"])
    fix x s s'
    assume "x \<in> set (cg_bindings g)" and "results_all (judged g ob) (snd s)" and "evaluate_one_binding g ob x s = Inr s'"
    then show "results_all (judged g ob) (snd s')"
      by (cases s; cases s') (auto intro: judged_binding [OF assms(2,3)])
  qed (use run in \<open>simp_all add: results_all_def\<close>)
  then show ?thesis unfolding results
    by (intro judged_facts [OF assms(2,3)] judged_constraints judged_objects) simp
qed

subsection \<open>Exceptions\<close>

text \<open>An exception recorded in a result leaves its state, evidence and declaration, and never raises it.\<close>

definition softened :: "conformance_result \<Rightarrow> conformance_result \<Rightarrow> bool" where
  "softened r r' \<longleftrightarrow> rs_declaration_id r' = rs_declaration_id r \<and> rs_state r' = rs_state r
     \<and> rs_evidence r' = rs_evidence r \<and> (rs_severity r' = rs_severity r \<or> rs_severity r' = SevAdvisory)"

lemma except_result_softens:
  assumes "except_result ctx e r = Inr r'"
  shows "softened r r'"
proof -
  from assms obtain disposition where "r' = (case disposition of None \<Rightarrow> r | Some d \<Rightarrow> record_disposition (px_id e) d r)"
    by (auto simp: except_result_def and_then_Inr)
  then show ?thesis
    by (auto simp: softened_def record_disposition_def Let_def split: option.splits exception_disposition.splits)
qed

lemma apply_exceptions_softens:
  assumes "apply_exceptions_to compilation policies as_of r = Inr r'"
  shows "softened r r'"
proof -
  have steps: "softened r s'" if "fold_result (except_result ctx) es s = Inr s'" "softened r s" for ctx es s s'
  proof (rule fold_result_inv [where P = "softened r" and f = "except_result ctx" and xs = es and s = s])
    fix e t t'
    assume "softened r t" and "except_result ctx e t = Inr t'"
    with except_result_softens [OF this(2)] show "softened r t'" by (auto simp: softened_def)
  qed (use that in auto)
  have "softened r r" by (simp add: softened_def)
  with assms steps show ?thesis
    unfolding apply_exceptions_to_def by (auto split: option.splits)
qed

lemma apply_exceptions_results:
  assumes "apply_exceptions evaluated compilation policies as_of = Inr results" and "(i, r') \<in> set results"
  obtains r where "(i, r) \<in> set evaluated" and "apply_exceptions_to compilation policies as_of r = Inr r'"
  using map_result_Inr [OF assms(1) [unfolded apply_exceptions_def]] assms(2)
  by (fastforce simp: and_then_Inr)

text \<open>C21: Every error and every match of a conformance run, exceptions applied, rests on complete
  deterministic evidence: all the facts it cites are deterministic facts of the observation, it cites
  some coverage, and all the coverage it cites is complete. A match cites the facts of a binding of its
  declaration and all the coverage the observation has of that binding's adapter. So the final evidence check
  refuses no run.\<close>

theorem verdicts_rest_on_complete_evidence:
  assumes "evaluate (rp_graph (co_report compilation)) ob = Inr evaluated"
    and "apply_exceptions evaluated compilation policies as_of = Inr results"
    and "bmap_wf (ao_facts ob)" and "bmap_wf (ao_coverage ob)"
  shows "(\<forall>(i, r) \<in> set results. rs_severity r = SevError \<or> rs_state r = Matched \<longrightarrow>
        (\<forall>j \<in> set (ce_fact_ids (rs_evidence r)). \<exists>f. bmap_get (ao_facts ob) j = Some f \<and> of_mode f = Deterministic)
        \<and> ce_coverage_ids (rs_evidence r) \<noteq> []
        \<and> (\<forall>j \<in> set (ce_coverage_ids (rs_evidence r)).
              \<exists>c. bmap_get (ao_coverage ob) j = Some c \<and> cov_status c = CoverageComplete))
    \<and> (\<forall>(i, r) \<in> set results. rs_state r = Matched \<longrightarrow>
        cites_binding (rp_graph (co_report compilation)) ob r)
    \<and> validate_evidence results ob = []"
proof -
  let ?g = "rp_graph (co_report compilation)"
  have judged: "judged ?g ob r" if "(i, r) \<in> set results" for i r
  proof (rule apply_exceptions_results [OF assms(2) that])
    fix s
    assume "(i, s) \<in> set evaluated" and "apply_exceptions_to compilation policies as_of s = Inr r"
    with evaluate_judged [OF assms(1,3,4)] apply_exceptions_softens [OF this(2)] show ?thesis
      by (fastforce simp: results_all_def judged_def softened_def sound_result_def cites_binding_def)
  qed
  have rests: "(\<forall>j \<in> set (ce_fact_ids (rs_evidence r)). \<exists>f. bmap_get (ao_facts ob) j = Some f \<and> of_mode f = Deterministic)
      \<and> ce_coverage_ids (rs_evidence r) \<noteq> []
      \<and> (\<forall>j \<in> set (ce_coverage_ids (rs_evidence r)).
            \<exists>c. bmap_get (ao_coverage ob) j = Some c \<and> cov_status c = CoverageComplete)"
    if "(i, r) \<in> set results" "rs_severity r = SevError \<or> rs_state r = Matched" for i r
    using judged [OF that(1)] that(2)
    by (fastforce simp: judged_def sound_result_def rests_on_def list_all_iff split: option.splits)
  have "validate_evidence results ob = []"
    using judged
    by (fastforce simp: validate_evidence_def judged_def sound_result_def rests_on_def Let_def list_ex_iff list_all_iff
        split: option.splits)
  with rests judged show ?thesis unfolding judged_def by blast
qed

definition example_compilation :: compile_result where
  "example_compilation =
     \<lparr>co_report = \<lparr>rp_schema_version = 1, rp_api_version = architecture_api_version, rp_tool_version = ''1'',
        rp_compiler_version = ''1'', rp_mode = Governing, rp_architecture_closure_digest = ''sha256:digest'',
        rp_graph_digest = ''sha256:digest'', rp_vocabulary = vocabulary_identity_of example_vocabulary,
        rp_roots = [''app''], rp_graph = example_graph\<rparr>,
      co_lockfile = \<lparr>lf_schema_version = 1, lf_api_version = architecture_api_version, lf_generated = True,
        lf_manual_editing = ''prohibited'', lf_generator = observer, lf_roots = [''app''],
        lf_vocabulary = vocabulary_identity_of example_vocabulary,
        lf_documents = [\<lparr>ld_module_id = ''app'', ld_architecture_version = 1, ld_source = ''app.atlas.yaml'',
          ld_source_document_digest = ''sha256:digest'', ld_canonical_module_digest = ''sha256:digest'',
          ld_import_closure_digest = ''sha256:closure''\<rparr>]\<rparr>\<rparr>"

text \<open>An exception that covers the constraint of the example exactly.\<close>

definition example_policies :: policy_set where
  "example_policies =
     \<lparr>ps_digest = ''sha256:policies'',
      ps_exceptions = [\<lparr>px_id = ''waiver'', px_declaration = JObject (example_accepted @
        [(''affectedIds'', JArray [JString ''store-is-below'']),
         (''scope'', JObject [(''module'', JString ''app'')]),
         (''constraint'', JObject [(''id'', JString ''store-is-below''), (''version'', JNumber (PosInt 1))]),
         (''baseClosureDigest'', JString ''sha256:closure''),
         (''expiresAt'', JString ''2027-01-01T00:00:00Z'')])\<rparr>]\<rparr>"

definition example_evaluated :: results where
  "example_evaluated = (case evaluate example_graph example_observation of Inr r \<Rightarrow> r | Inl _ \<Rightarrow> [])"

definition example_results :: results where
  "example_results =
     (case apply_exceptions example_evaluated example_compilation example_policies ''2026-06-01T00:00:00Z'' of
        Inr r \<Rightarrow> r | Inl _ \<Rightarrow> [])"

lemma example_observed:
  "bmap_wf (ao_facts example_observation)" "bmap_wf (ao_coverage example_observation)"
  by (simp_all add: example_observation_def bmap_wf_def)

lemma not_empty_Inr: "(case x of Inr r \<Rightarrow> r | Inl _ \<Rightarrow> []) \<noteq> [] \<Longrightarrow> x = Inr (case x of Inr r \<Rightarrow> r | Inl _ \<Rightarrow> [])"
  by (cases x) simp_all

lemma example_graph_evaluated: "evaluate example_graph example_observation = Inr example_evaluated"
  unfolding example_evaluated_def by (rule not_empty_Inr) code_simp

lemma example_runs:
  "evaluate (rp_graph (co_report example_compilation)) example_observation = Inr example_evaluated"
  "apply_exceptions example_evaluated example_compilation example_policies ''2026-06-01T00:00:00Z'' = Inr example_results"
proof -
  show "evaluate (rp_graph (co_report example_compilation)) example_observation = Inr example_evaluated"
    by (simp add: example_compilation_def example_graph_evaluated)
  show "apply_exceptions example_evaluated example_compilation example_policies ''2026-06-01T00:00:00Z'' = Inr example_results"
    unfolding example_results_def by (rule not_empty_Inr) code_simp
qed

theorem verdicts_rest_on_complete_evidence_witness:
  "validate_evidence example_results example_observation = []
   \<and> map (rs_state \<circ> snd) example_results = [Matched, Unobserved, Unobserved]
   \<and> ce_coverage_ids (rs_evidence (snd (hd example_results))) = [''crates'']
   \<and> cites_binding example_graph example_observation (snd (hd example_results))"
proof (intro conjI)
  note rests = verdicts_rest_on_complete_evidence [OF example_runs example_observed]
  show "validate_evidence example_results example_observation = []" using rests by blast
  have "hd example_results \<in> set example_results" and matched: "rs_state (snd (hd example_results)) = Matched"
    by (rule hd_in_set, code_simp) code_simp
  then have "(fst (hd example_results), snd (hd example_results)) \<in> set example_results" by simp
  with rests matched have "cites_binding (rp_graph (co_report example_compilation)) example_observation (snd (hd example_results))"
    by blast
  then show "cites_binding example_graph example_observation (snd (hd example_results))"
    by (simp add: example_compilation_def)
qed code_simp+

end
