(* ===== verification/ArchObservationProps.thy ===== *)
theory ArchObservationProps
  imports ArchConformanceProps
begin

text \<open>
  From the manifests of a repository to the results of its bindings: the facts of a fresh observation are
  the numbered manifest matches of every binding, and so a binding is matched exactly when the number of
  its manifests is one its cardinality allows.
\<close>

subsection \<open>Fact identifiers\<close>

lemma fact_suffix:
  assumes "us @ ''.fact-'' @ d = ''.fact-'' @ e" and "\<forall>c \<in> set e. is_ascii_digit c"
  shows "us = []"
proof (rule ccontr)
  assume "us \<noteq> []"
  then have "length us \<ge> 1" by (cases us) auto
  have "(us @ ''.fact-'' @ d) ! (length us + 5) = CHR ''-''" by (simp add: nth_append)
  moreover have "(''.fact-'' @ e) ! (length us + 5) = e ! (length us - 1)"
    using \<open>length us \<ge> 1\<close> by (cases "length us") (simp_all add: nth_append)
  moreover have "length us - 1 < length e"
    using arg_cong [OF assms(1), of length] \<open>length us \<ge> 1\<close> by simp
  ultimately have "CHR ''-'' \<in> set e" using assms(1) by (metis nth_mem)
  with assms(2) have "is_ascii_digit CHR ''-''" by blast
  then show False by (simp add: is_ascii_digit_def)
qed

lemma decimal_inject: "decimal m = decimal n \<longleftrightarrow> m = n"
  by (metis digits_value_decimal)

lemma fact_id_inject: "fact_id b k = fact_id c l \<longleftrightarrow> b = c \<and> k = l"
proof
  assume eq: "fact_id b k = fact_id c l"
  have "b = c"
  proof -
    from eq obtain us where "b = c @ us \<and> us @ ''.fact-'' @ decimal (k + 1) = ''.fact-'' @ decimal (l + 1)
        \<or> b @ us = c \<and> ''.fact-'' @ decimal (k + 1) = us @ ''.fact-'' @ decimal (l + 1)"
      unfolding fact_id_def append_eq_append_conv2 by blast
    moreover have empty: "us = []" if "us @ ''.fact-'' @ decimal m = ''.fact-'' @ decimal n" for m n
      using that decimal_digits by (intro fact_suffix) auto
    ultimately show ?thesis
    proof (elim disjE conjE)
      assume "b = c @ us" and "us @ ''.fact-'' @ decimal (k + 1) = ''.fact-'' @ decimal (l + 1)"
      with empty show ?thesis by (metis append_Nil2)
    next
      assume "b @ us = c" and "''.fact-'' @ decimal (k + 1) = us @ ''.fact-'' @ decimal (l + 1)"
      with empty show ?thesis by (metis append_Nil2)
    qed
  qed
  with eq show "b = c \<and> k = l" by (simp add: fact_id_def decimal_inject)
qed simp

subsection \<open>The observation of a binding\<close>

text \<open>What a binding of a graph looks for, and the manifests it finds.\<close>

definition binding_plan ::
    "manifest_index \<Rightarrow> compiled_graph \<Rightarrow> string \<times> graph_declaration
     \<Rightarrow> (manifest_fact_context \<times> manifest_match list \<times> string) option" where
  "binding_plan index g x =
     (let d = gd_declaration (snd x)
      in case str_at (json_at d ''adapter'') ''kind'' of None \<Rightarrow> None | Some adapter \<Rightarrow>
        (case str_at (json_at d ''selector'') ''name'' of None \<Rightarrow> None | Some name \<Rightarrow>
        (case observation_adapter index adapter name of None \<Rightarrow> None
           | Some (coverage_id, matches, extractor_id, language) \<Rightarrow>
        (case str_at d ''target'' of None \<Rightarrow> None | Some target \<Rightarrow>
        (case bmap_get (cg_objects g) target of None \<Rightarrow> None | Some object \<Rightarrow>
        (case str_at (gd_declaration object) ''kind'' of None \<Rightarrow> None | Some kind \<Rightarrow>
           Some (\<lparr>mc_binding_id = fst x, mc_target = target, mc_observed_kind = kind, mc_adapter = adapter,
              mc_selector_name = name, mc_coverage_id = coverage_id, mc_extractor_id = extractor_id\<rparr>,
              matches, language)))))))"

lemma observe_binding_plan:
  assumes "observe_binding index g x (ds, cov, facts) = Inr ([], cov', facts')"
  obtains ctx ms language where "ds = []" and "binding_plan index g x = Some (ctx, ms, language)"
    and "mc_binding_id ctx = fst x"
    and "cov' = (if bmap_get cov (mc_coverage_id ctx) = None
      then bmap_insert (mc_coverage_id ctx) (manifest_coverage (mc_adapter ctx) language) cov else cov)"
    and "facts' = add_manifest_facts ctx ms facts"
proof -
  have "case binding_plan index g x of None \<Rightarrow> False | Some (ctx, ms, language) \<Rightarrow>
      ds = [] \<and> mc_binding_id ctx = fst x
      \<and> cov' = (if bmap_get cov (mc_coverage_id ctx) = None
          then bmap_insert (mc_coverage_id ctx) (manifest_coverage (mc_adapter ctx) language) cov else cov)
      \<and> facts' = add_manifest_facts ctx ms facts"
    using assms by (cases x)
      (auto simp: observe_binding_def binding_plan_def Let_def and_then_Inr split: option.splits prod.splits)
  then show thesis by (auto intro: that split: option.splits prod.splits)
qed

lemma observe_binding_refused: "observe_binding index g x (d # ds, cov, facts) \<noteq> Inr ([], cov', facts')"
  using observe_binding_plan [of index g x "d # ds"] by blast

subsection \<open>The observation of a graph\<close>

definition numbered_facts :: "manifest_fact_context \<Rightarrow> manifest_match list \<Rightarrow> named_facts" where
  "numbered_facts ctx ms =
     map (\<lambda>(k, m). (fact_id (mc_binding_id ctx) k, manifest_fact ctx m)) (enumerate 0 ms)"

definition planned_facts :: "manifest_index \<Rightarrow> compiled_graph \<Rightarrow> string \<times> graph_declaration \<Rightarrow> named_facts" where
  "planned_facts index g x =
     (case binding_plan index g x of None \<Rightarrow> [] | Some (ctx, ms, _) \<Rightarrow> numbered_facts ctx ms)"

lemma add_manifest_facts_numbered:
  "add_manifest_facts ctx ms facts = fold (\<lambda>(i, f). bmap_insert i f) (numbered_facts ctx ms) facts"
  by (simp add: add_manifest_facts_def numbered_facts_def fold_map comp_def split_def)

lemma numbered_keys: "map fst (numbered_facts ctx ms) = map (fact_id (mc_binding_id ctx)) [0..<length ms]"
  by (rule nth_equalityI) (simp_all add: numbered_facts_def nth_enumerate_eq)

lemma binding_plan_id: "binding_plan index g x = Some (ctx, ms, language) \<Longrightarrow> mc_binding_id ctx = fst x"
  by (auto simp: binding_plan_def Let_def split: option.splits prod.splits)

lemma planned_keys:
  obtains n where "map fst (planned_facts index g x) = map (fact_id (fst x)) [0..<n]"
proof (cases "binding_plan index g x")
  case None
  then show thesis using that [of 0] by (simp add: planned_facts_def)
next
  case (Some p)
  obtain ctx ms language where "p = (ctx, ms, language)" by (cases p)
  with Some binding_plan_id [of index g x] show thesis
    using that [of "length ms"] by (simp add: planned_facts_def numbered_keys)
qed

lemma planned_distinct:
  assumes "distinct (map fst bindings)"
  shows "distinct (map fst (concat (map (planned_facts index g) bindings)))"
  using assms
proof (induction bindings)
  case (Cons x bindings)
  obtain n where n: "map fst (planned_facts index g x) = map (fact_id (fst x)) [0..<n]" by (rule planned_keys)
  have other: "fact_id (fst x) k \<notin> fst ` set (planned_facts index g y)" if "y \<in> set bindings" for y k
  proof -
    obtain m where m: "map fst (planned_facts index g y) = map (fact_id (fst y)) [0..<m]" by (rule planned_keys)
    have "fst y \<noteq> fst x" using that Cons.prems by (metis distinct.simps(2) image_eqI list.simps(9) set_map)
    moreover have "fst ` set (planned_facts index g y) = fact_id (fst y) ` {0..<m}"
      using arg_cong [OF m, of set] by simp
    ultimately show ?thesis by (auto simp: fact_id_inject)
  qed
  have "distinct (map fst (planned_facts index g x))"
    unfolding n by (simp add: distinct_map inj_on_def fact_id_inject)
  have keys: "fst ` set (planned_facts index g x) = fact_id (fst x) ` {0..<n}"
    using arg_cong [OF n, of set] by simp
  have "fst ` set (planned_facts index g x) \<inter> fst ` set (concat (map (planned_facts index g) bindings)) = {}"
  proof (intro equals0I, elim IntE)
    fix i assume "i \<in> fst ` set (planned_facts index g x)"
      and "i \<in> fst ` set (concat (map (planned_facts index g) bindings))"
    then obtain k y where "i = fact_id (fst x) k" "y \<in> set bindings" "i \<in> fst ` set (planned_facts index g y)"
      unfolding keys by auto
    with other show False by blast
  qed
  with \<open>distinct (map fst (planned_facts index g x))\<close> Cons show ?case by simp
qed simp

text \<open>A coverage map as the observation builds it: one complete entry per adapter that was looked for.\<close>

definition complete_coverage :: "(string, coverage) bmap \<Rightarrow> bool" where
  "complete_coverage cov \<longleftrightarrow> bmap_wf cov \<and> (\<forall>(i, c) \<in> set cov. cov_status c = CoverageComplete)"

definition looked_for :: "manifest_index \<Rightarrow> compiled_graph \<Rightarrow> (string, coverage) bmap \<Rightarrow> string \<times> graph_declaration \<Rightarrow> bool" where
  "looked_for index g cov x \<longleftrightarrow>
     (\<exists>ctx ms language c. binding_plan index g x = Some (ctx, ms, language)
        \<and> bmap_get cov (mc_coverage_id ctx) = Some c \<and> cov_feature c = mc_adapter ctx)"

text \<open>A coverage entry under the identifier of an adapter is about that adapter.\<close>

definition coverage_named :: "manifest_index \<Rightarrow> (string, coverage) bmap \<Rightarrow> bool" where
  "coverage_named index cov \<longleftrightarrow>
     (\<forall>i c adapter name ms e l. bmap_get cov i = Some c \<longrightarrow>
        observation_adapter index adapter name = Some (i, ms, e, l) \<longrightarrow> cov_feature c = adapter)"

lemma observation_adapter_inject:
  "observation_adapter index a n = Some (i, ms, e, l) \<Longrightarrow> observation_adapter index b m = Some (i, ms', e', l') \<Longrightarrow> a = b"
  by (auto simp: observation_adapter_def split: if_splits)

lemma binding_plan_adapter:
  assumes "binding_plan index g x = Some (ctx, ms, language)"
  obtains name e where "observation_adapter index (mc_adapter ctx) name = Some (mc_coverage_id ctx, ms, e, language)"
  using assms by (auto simp: binding_plan_def Let_def split: option.splits prod.splits)

lemma observe_step:
  assumes "fold_result (observe_binding index g) (x # bindings) (ds, cov, facts) = Inr ([], cov', facts')"
  obtains ds1 cov1 facts1 where "observe_binding index g x (ds, cov, facts) = Inr (ds1, cov1, facts1)"
    and "fold_result (observe_binding index g) bindings (ds1, cov1, facts1) = Inr ([], cov', facts')"
  using assms by (auto split: sum.splits)

lemma observe_bindings_empty:
  "fold_result (observe_binding index g) bindings (ds, cov, facts) = Inr ([], cov', facts') \<Longrightarrow> ds = []"
proof (induction bindings arbitrary: ds cov facts)
  case (Cons x bindings)
  from Cons.prems show ?case
  proof (rule observe_step)
    fix ds1 cov1 facts1
    assume "observe_binding index g x (ds, cov, facts) = Inr (ds1, cov1, facts1)"
      and "fold_result (observe_binding index g) bindings (ds1, cov1, facts1) = Inr ([], cov', facts')"
    with Cons.IH have "observe_binding index g x (ds, cov, facts) = Inr ([], cov1, facts1)" by blast
    then show "ds = []" by (rule observe_binding_plan)
  qed
qed simp

lemma covered_insert:
  assumes "complete_coverage cov" and "coverage_named index cov"
    and plan: "binding_plan index g x = Some (ctx, ms, language)"
    and cov': "cov' = (if bmap_get cov (mc_coverage_id ctx) = None
      then bmap_insert (mc_coverage_id ctx) (manifest_coverage (mc_adapter ctx) language) cov else cov)"
  shows "complete_coverage cov'" and "coverage_named index cov'" and "looked_for index g cov' x"
    and "bmap_get cov i = Some c \<Longrightarrow> bmap_get cov' i = Some c"
proof -
  obtain name e where adapter: "observation_adapter index (mc_adapter ctx) name = Some (mc_coverage_id ctx, ms, e, language)"
    by (rule binding_plan_adapter [OF plan])
  show "complete_coverage cov'"
    using assms(1) set_bmap_insert_subset [of "mc_coverage_id ctx" "manifest_coverage (mc_adapter ctx) language" cov]
    by (auto simp: cov' complete_coverage_def bmap_wf_insert manifest_coverage_def)
  have "cov_feature (manifest_coverage (mc_adapter ctx) language) = mc_adapter ctx"
    by (simp add: manifest_coverage_def)
  with adapter assms(2) show named: "coverage_named index cov'"
    unfolding coverage_named_def cov' by (auto split: if_splits dest: observation_adapter_inject)
  show "looked_for index g cov' x"
  proof -
    obtain c where c: "bmap_get cov' (mc_coverage_id ctx) = Some c"
      by (cases "bmap_get cov (mc_coverage_id ctx)") (auto simp: cov')
    with named adapter have "cov_feature c = mc_adapter ctx" unfolding coverage_named_def by blast
    with c plan show ?thesis unfolding looked_for_def by blast
  qed
  show "bmap_get cov i = Some c \<Longrightarrow> bmap_get cov' i = Some c"
      by (cases "bmap_get cov (mc_coverage_id ctx)") (auto simp: cov')
qed

lemma observe_bindings:
  assumes "fold_result (observe_binding index g) bindings (ds, cov, facts) = Inr ([], cov', facts')"
    and "complete_coverage cov" and "coverage_named index cov"
  shows "complete_coverage cov'
    \<and> facts' = fold (\<lambda>(i, f). bmap_insert i f) (concat (map (planned_facts index g) bindings)) facts
    \<and> (\<forall>x \<in> set bindings. looked_for index g cov' x)
    \<and> (\<forall>i c. bmap_get cov i = Some c \<longrightarrow> bmap_get cov' i = Some c)"
  using assms
proof (induction bindings arbitrary: ds cov facts)
  case (Cons x bindings)
  from Cons.prems(1) show ?case
  proof (rule observe_step)
    fix ds1 cov1 facts1
    assume step: "observe_binding index g x (ds, cov, facts) = Inr (ds1, cov1, facts1)"
      and rest: "fold_result (observe_binding index g) bindings (ds1, cov1, facts1) = Inr ([], cov', facts')"
    from step [unfolded observe_bindings_empty [OF rest]] show ?thesis
    proof (rule observe_binding_plan)
      fix ctx ms language
      assume plan: "binding_plan index g x = Some (ctx, ms, language)"
        and cov1: "cov1 = (if bmap_get cov (mc_coverage_id ctx) = None
            then bmap_insert (mc_coverage_id ctx) (manifest_coverage (mc_adapter ctx) language) cov else cov)"
        and facts1: "facts1 = add_manifest_facts ctx ms facts"
      note covered = covered_insert [OF Cons.prems(2,3) plan cov1]
      note IH = Cons.IH [OF rest covered(1,2)]
      from covered(3) IH have "looked_for index g cov' x" unfolding looked_for_def by blast
      moreover have "facts' = fold (\<lambda>(i, f). bmap_insert i f)
          (concat (map (planned_facts index g) (x # bindings))) facts"
      proof -
        have "planned_facts index g x = numbered_facts ctx ms" by (simp add: plan planned_facts_def)
        with IH show ?thesis by (simp add: facts1 add_manifest_facts_numbered)
      qed
      ultimately show ?thesis using IH covered(4) by simp
    qed
  qed
qed simp

lemma observe_parts:
  assumes "observe env v (Inr index) g request = Inr ob"
  obtains "fold_result (observe_binding index g) (cg_bindings g) ([], [], []) = Inr ([], ao_coverage ob, ao_facts ob)"
    and "validate_generated env v ob = Inr ()"
proof -
  have sort_Nil: "sort_key k xs = [] \<longleftrightarrow> xs = []" for k :: "arch_diagnostic \<Rightarrow> string \<times> string" and xs
    by (metis length_0_conv length_sort)
  from assms show thesis
    by (auto simp: observe_def and_then_Inr Let_def sort_Nil intro: that)
qed

lemma observed_facts:
  assumes "observe env v (Inr index) g request = Inr ob" and "bmap_wf (cg_bindings g)"
  shows "bmap_wf (ao_facts ob)" and "complete_coverage (ao_coverage ob)"
    and "set (ao_facts ob) = set (concat (map (planned_facts index g) (cg_bindings g)))"
    and "x \<in> set (cg_bindings g) \<Longrightarrow> looked_for index g (ao_coverage ob) x"
proof -
  let ?planned = "concat (map (planned_facts index g) (cg_bindings g))"
  have run: "fold_result (observe_binding index g) (cg_bindings g) ([], [], []) = Inr ([], ao_coverage ob, ao_facts ob)"
    by (rule observe_parts [OF assms(1)])
  have "complete_coverage []" "coverage_named index []"
    by (simp_all add: complete_coverage_def coverage_named_def)
  from observe_bindings [OF run this]
  have facts: "ao_facts ob = fold (\<lambda>(i, f). bmap_insert i f) ?planned []"
    and "complete_coverage (ao_coverage ob)" and looked: "\<forall>x \<in> set (cg_bindings g). looked_for index g (ao_coverage ob) x"
    by simp_all
  then show "complete_coverage (ao_coverage ob)" by simp
  show "x \<in> set (cg_bindings g) \<Longrightarrow> looked_for index g (ao_coverage ob) x" using looked by blast
  have "bmap_wf (fold (\<lambda>(i, f). bmap_insert i f) fs m)" if "bmap_wf m" for fs and m :: "(string, observation_fact) bmap"
    using that by (induction fs arbitrary: m) (auto simp: bmap_wf_insert)
  then show wf: "bmap_wf (ao_facts ob)" unfolding facts by simp
  have distinct: "distinct (map fst ?planned)"
    by (rule planned_distinct [OF bmap_wf_distinct [OF assms(2)]])
  have "bmap_get (ao_facts ob) i = map_of ?planned i" for i
    unfolding facts bmap_get_fold [OF distinct] by (simp split: option.split)
  then have "(i, f) \<in> set (ao_facts ob) \<longleftrightarrow> (i, f) \<in> set ?planned" for i f
    using bmap_get_iff [OF wf, of i f] map_of_eq_Some_iff [OF distinct, of i f] by simp
  then show "set (ao_facts ob) = set ?planned" by (intro set_eqI) (simp only: split_paired_all)
qed

text \<open>The facts of a binding are the numbered matches of its own plan.\<close>

lemma observed_binding_facts:
  assumes ob: "observe env v (Inr index) g request = Inr ob" and wf: "bmap_wf (cg_bindings g)"
    and x: "(b, binding) \<in> set (cg_bindings g)"
    and plan: "binding_plan index g (b, binding) = Some (ctx, ms, language)"
  shows "set (binding_facts ob b (mc_target ctx)) = set (numbered_facts ctx ms)"
    and "length (binding_facts ob b (mc_target ctx)) = length ms"
proof -
  note facts = observed_facts [OF ob wf]
  have named: "str_at (of_attributes (manifest_fact c m)) ''bindingId'' = Some (mc_binding_id c)" for c m
    by (simp add: manifest_fact_def json_map_def json_at_def json_get_def json_str_def)
  have mine: "y = (b, binding)" if "y \<in> set (cg_bindings g)" "fst y = b" for y
    using eq_key_imp_eq_value [OF bmap_wf_distinct [OF wf] x] that by (cases y) auto
  show same: "set (binding_facts ob b (mc_target ctx)) = set (numbered_facts ctx ms)"
  proof (intro set_eqI iffI)
    fix p assume p: "p \<in> set (binding_facts ob b (mc_target ctx))"
    obtain i f where "p = (i, f)" by fastforce
    with p have f: "(i, f) \<in> set (ao_facts ob)" and id: "\<forall>j. str_at (of_attributes f) ''bindingId'' = Some j \<longrightarrow> j = b"
      by (auto simp: binding_facts_def split: option.splits)
    from f facts(3) obtain y where y: "y \<in> set (cg_bindings g)" and planned: "(i, f) \<in> set (planned_facts index g y)"
      by auto
    then obtain c ns l where c: "binding_plan index g y = Some (c, ns, l)" and "(i, f) \<in> set (numbered_facts c ns)"
      by (cases "binding_plan index g y") (auto simp: planned_facts_def)
    then obtain m where "f = manifest_fact c m" by (auto simp: numbered_facts_def)
    with id named have "mc_binding_id c = b" by blast
    with binding_plan_id [OF c] mine [OF y] c plan \<open>(i, f) \<in> set (numbered_facts c ns)\<close> \<open>p = (i, f)\<close>
    show "p \<in> set (numbered_facts ctx ms)" by auto
  next
    fix p assume p: "p \<in> set (numbered_facts ctx ms)"
    then have "p \<in> set (planned_facts index g (b, binding))" by (simp add: planned_facts_def plan)
    with x facts(3) have "p \<in> set (ao_facts ob)" by auto
    moreover from p obtain i m where "p = (i, manifest_fact ctx m)" by (auto simp: numbered_facts_def)
    moreover have "mc_binding_id ctx = b" using binding_plan_id [OF plan] by simp
    moreover have "of_target (manifest_fact ctx m) = mc_target ctx" for m by (simp add: manifest_fact_def)
    ultimately show "p \<in> set (binding_facts ob b (mc_target ctx))"
      by (simp add: binding_facts_def named)
  qed
  have "distinct (binding_facts ob b (mc_target ctx))"
    unfolding binding_facts_def using bmap_wf_distinct [OF facts(1)] by (simp add: distinct_map)
  moreover have "distinct (map fst (numbered_facts ctx ms))"
    unfolding numbered_keys by (simp add: distinct_map inj_on_def fact_id_inject)
  then have "distinct (numbered_facts ctx ms)" by (simp add: distinct_map)
  ultimately show "length (binding_facts ob b (mc_target ctx)) = length ms"
    using same by (metis distinct_card length_map numbered_keys length_upt minus_nat.diff_0)
qed

lemma cardinality_matches_known:
  "c \<in> {''exactly_one'', ''at_most_one'', ''one_or_more'', ''any''}
   \<Longrightarrow> cardinality_matches c n = Inr (cardinality_allows c n)"
  by (auto simp: cardinality_matches_def)

lemma adapter_coverage_complete:
  assumes "complete_coverage (ao_coverage ob)" and "bmap_get (ao_coverage ob) i = Some c"
  shows "all_complete (adapter_coverage ob (cov_feature c))"
proof -
  have "(i, c) \<in> set (adapter_coverage ob (cov_feature c))"
    using bmap_get_SomeD [OF assms(2)] by (simp add: adapter_coverage_def)
  then have "adapter_coverage ob (cov_feature c) \<noteq> []" by auto
  moreover have "list_all (\<lambda>(_, c). cov_status c = CoverageComplete) (adapter_coverage ob (cov_feature c))"
    using assms(1) by (auto simp: adapter_coverage_def complete_coverage_def list_all_iff)
  ultimately show ?thesis by (simp add: all_complete_def)
qed

text \<open>C13: A fresh observation decides every binding by its manifests alone: evaluating a binding of the
  graph against it never fails, is a match exactly when the cardinality of the binding allows the number of
  manifests found for it, and is an error otherwise.\<close>

theorem manifests_decide_bindings:
  assumes "observe env v (Inr index) g request = Inr ob" and "bmap_wf (cg_bindings g)"
    and "(b, binding) \<in> set (cg_bindings g)"
    and "str_at (json_at (gd_declaration binding) ''adapter'') ''kind'' = Some adapter"
    and "str_at (json_at (gd_declaration binding) ''selector'') ''name'' = Some name"
    and "str_at (gd_declaration binding) ''cardinality'' = Some cardinality"
    and "cardinality \<in> {''exactly_one'', ''at_most_one'', ''one_or_more'', ''any''}"
  shows "\<exists>target object kind r. str_at (gd_declaration binding) ''target'' = Some target
    \<and> bmap_get (cg_objects g) target = Some object \<and> str_at (gd_declaration object) ''kind'' = Some kind
    \<and> evaluate_binding b binding target kind ob = Inr r
    \<and> (let n = length (if adapter = ''npm.package'' then manifests_npm index name else manifests_rust index name)
       in (rs_state r = Matched \<longleftrightarrow> cardinality_allows cardinality n)
        \<and> (rs_severity r = SevError \<longleftrightarrow> \<not> cardinality_allows cardinality n))"
proof -
  note observed = observed_facts [OF assms(1,2)]
  from observed(4) [OF assms(3)] obtain ctx ms language c
    where plan: "binding_plan index g (b, binding) = Some (ctx, ms, language)"
      and c: "bmap_get (ao_coverage ob) (mc_coverage_id ctx) = Some c" "cov_feature c = mc_adapter ctx"
    by (auto simp: looked_for_def)
  from plan assms(4,5) obtain object where shape: "mc_adapter ctx = adapter"
      "str_at (gd_declaration binding) ''target'' = Some (mc_target ctx)"
      "bmap_get (cg_objects g) (mc_target ctx) = Some object"
      "str_at (gd_declaration object) ''kind'' = Some (mc_observed_kind ctx)"
    and ms: "ms = (if adapter = ''npm.package'' then manifests_npm index name else manifests_rust index name)"
    by (auto simp: binding_plan_def Let_def observation_adapter_def split: option.splits prod.splits if_splits)
  let ?facts = "binding_facts ob b (mc_target ctx)" and ?cov = "adapter_coverage ob adapter"
  note facts = observed_binding_facts [OF assms(1-3) plan]
  have "established ?facts ?cov"
    using adapter_coverage_complete [OF observed(2) c(1)] c(2) facts(1) shape(1)
    by (auto simp: established_def list_all_iff numbered_facts_def manifest_fact_def)
  moreover have "list_all (\<lambda>(_, f). of_observed_kind f = mc_observed_kind ctx) ?facts"
    using facts(1) by (auto simp: list_all_iff numbered_facts_def manifest_fact_def)
  ultimately have verdict: "established ?facts ?cov"
      "satisfies cardinality (mc_observed_kind ctx) ?facts \<longleftrightarrow> cardinality_allows cardinality (length ms)"
    by (simp_all add: satisfies_def facts(2) del: cardinality_allows.simps)
  let ?r = "judge_binding (mc_target ctx) (mc_observed_kind ctx) cardinality
      (cardinality_allows cardinality (length ?facts)) ?facts ?cov"
  have run: "evaluate_binding b binding (mc_target ctx) (mc_observed_kind ctx) ob = Inr ?r"
    by (simp add: evaluate_binding_def assms(4,6) cardinality_matches_known [OF assms(7)] expects_def Let_def
        del: cardinality_allows.simps)
  show ?thesis
    using binding_verdict_established [OF verdict(1), of "mc_target ctx" "mc_observed_kind ctx" cardinality] verdict(2) run shape
    by (auto simp: Let_def ms simp del: cardinality_allows.simps)
qed

text \<open>An observation of the example: one crate carries the name its binding selects.\<close>

definition example_index :: manifest_index where
  "example_index =
     \<lparr>mx_npm = [], mx_rust = [(''client'', [\<lparr>mm_name = ''client'', mm_version = Some ''1.0.0'',
        mm_location = \<lparr>sl_path = ''client/Cargo.toml'', sl_span = \<lparr>ss_start = \<lparr>sp_line = 1, sp_column = 1\<rparr>,
          ss_end = \<lparr>sp_line = 9, sp_column = 1\<rparr>\<rparr>\<rparr>\<rparr>])]\<rparr>"

definition example_request :: observe_request where
  "example_request =
     \<lparr>or_repository_id = ''a.b.repo'', or_observation_id = ''a.b.observed'', or_source_commit = ''0123456'',
      or_observed_at = ''2026-01-01T00:00:00Z'', or_source_inputs = [''app.atlas.yaml'']\<rparr>"

definition example_fresh :: architecture_observation where
  "example_fresh =
     (case observe example_env example_vocabulary (Inr example_index) example_graph example_request of
        Inr ob \<Rightarrow> ob | Inl _ \<Rightarrow> example_observation)"

lemma example_observes:
  "observe example_env example_vocabulary (Inr example_index) example_graph example_request = Inr example_fresh"
proof -
  have "isl (observe example_env example_vocabulary (Inr example_index) example_graph example_request) = False"
    by code_simp
  then show ?thesis
    by (cases "observe example_env example_vocabulary (Inr example_index) example_graph example_request")
      (simp_all add: example_fresh_def)
qed

lemma example_bindings: "cg_bindings example_graph = [(''client-crate'', example_bound)]"
  by code_simp

theorem manifests_decide_bindings_witness:
  "\<exists>target object kind r. str_at example_binding ''target'' = Some target
    \<and> bmap_get (cg_objects example_graph) target = Some object
    \<and> str_at (gd_declaration object) ''kind'' = Some kind
    \<and> evaluate_binding ''client-crate'' example_bound target kind example_fresh = Inr r
    \<and> rs_state r = Matched"
proof -
  have shape: "str_at (json_at (gd_declaration example_bound) ''adapter'') ''kind'' = Some ''rust.crate''"
      "str_at (json_at (gd_declaration example_bound) ''selector'') ''name'' = Some ''client''"
      "str_at (gd_declaration example_bound) ''cardinality'' = Some ''exactly_one''"
    by code_simp+
  have "bmap_wf (cg_bindings example_graph)" "(''client-crate'', example_bound) \<in> set (cg_bindings example_graph)"
    by (simp_all add: example_bindings bmap_wf_def)
  from manifests_decide_bindings [OF example_observes this shape]
  show ?thesis
    by (auto simp: Let_def example_index_def manifests_rust_def bmap_get_def elements_def)
qed

end
