(* ===== verification/ArchDocuments.thy ===== *)
theory ArchDocuments
  imports ArchConformance SourcePolicy
begin

text \<open>
  Loading of architecture documents and their import closures (\<open>src/architecture/documents.rs\<close>). The file system
  (\<open>canonicalize\<close>, \<open>read\<close>) and the YAML parser are fields of \<open>source_env\<close>. Paths are strings; a
  canonical path is its own text, and a path displays as its text.
\<close>

record source_env =
  se_canonicalize :: "string \<Rightarrow> string + string"
  se_read :: "string \<Rightarrow> string + bytes"
  se_parse :: "bytes \<Rightarrow> arch_diagnostic + json \<times> string"

record loaded_document =
  dc_portable_path :: string
  dc_canonical_path :: string
  dc_value :: json
  dc_source_digest :: string
  dc_canonical_digest :: string

record document_set =
  ds_roots :: "string list"
  ds_documents :: "(string, loaded_document) bmap"

definition max_total_bytes :: nat where
  "max_total_bytes = 64 * 1024 * 1024"

definition max_import_depth :: nat where
  "max_import_depth = 32"

definition max_documents :: nat where
  "max_documents = 4096"

subsection \<open>Confined paths\<close>

definition path_join :: "string \<Rightarrow> string \<Rightarrow> string" where
  "path_join parent source =
     (if parent = [] \<or> last parent = CHR ''/'' then parent @ source else parent @ ''/'' @ source)"

definition path_parent :: "string \<Rightarrow> string option" where
  "path_parent path =
     (case rsplit_once path ''/'' of
        None \<Rightarrow> if path = [] then None else Some []
      | Some (before, after) \<Rightarrow>
          if after = [] then None else if before = [] then Some ''/'' else Some before)"

definition path_starts_with :: "string \<Rightarrow> string \<Rightarrow> bool" where
  "path_starts_with path root \<longleftrightarrow> starts_with (path_components root) (path_components path)"

text \<open>The components of a Unix path hold no platform prefix, so that check never refuses here.\<close>

definition confined_path :: "source_env \<Rightarrow> string \<Rightarrow> string \<Rightarrow> string \<Rightarrow> arch_diagnostic + string" where
  "confined_path se allowed_root source parent =
     (if contains_str source ''://''
      then Inl (error_diagnostic ''import.network-source-prohibited'' ''network import sources are prohibited'')
      else if CHR 0x00 \<in> set source
      then Inl (error_diagnostic ''import.nul-prohibited'' ''import source contains a NUL byte'')
      else
        let candidate = (if is_absolute source then source else path_join parent source)
        in case se_canonicalize se candidate of
             Inl error \<Rightarrow> Inl (error_diagnostic ''import.source-unavailable'' (candidate @ '': '' @ error))
           | Inr canonical \<Rightarrow>
               if \<not> path_starts_with canonical allowed_root
               then Inl (error_diagnostic ''import.path-escape''
                      (candidate @ '' resolves outside '' @ allowed_root))
               else Inr canonical)"

definition portable_path :: "string \<Rightarrow> string \<Rightarrow> string" where
  "portable_path path root =
     map (\<lambda>c. if c = CHR 0x5C then CHR ''/'' else c)
       (if path_starts_with path root
        then join ''/'' (map component_str (drop (length (path_components root)) (path_components path)))
        else path)"

subsection \<open>Loading\<close>

record load_state =
  ls_diagnostics :: "arch_diagnostic list"
  ls_loaded :: "(string list, loaded_document) bmap"
  ls_total :: nat

datatype load_step = Continue load_state "(string \<times> nat) list" | Break load_state

text \<open>Paths compare by their components, so these are the keys of the map.\<close>

definition path_key :: "string \<Rightarrow> string list" where
  "path_key path = map component_str (path_components path)"

definition report :: "arch_diagnostic \<Rightarrow> load_state \<Rightarrow> load_state" where
  "report d st = st\<lparr>ls_diagnostics := ls_diagnostics st @ [d]\<rparr>"

text \<open>The imports of a document, each a path to load or a diagnostic.\<close>

definition import_targets ::
    "source_env \<Rightarrow> string \<Rightarrow> string \<Rightarrow> json \<Rightarrow> (arch_diagnostic + string) list" where
  "import_targets se allowed_root path value =
     (let parent = (case path_parent path of None \<Rightarrow> allowed_root | Some p \<Rightarrow> p)
      in map (\<lambda>source. confined_path se allowed_root source parent)
           (List.map_filter (\<lambda>imp. str_at imp ''source'') (elements (array_at value ''imports''))))"

definition document_diagnostics ::
    "arch_env \<Rightarrow> vocabulary \<Rightarrow> string \<Rightarrow> string \<Rightarrow> json \<Rightarrow> arch_diagnostic list arch" where
  "document_diagnostics env v expected_kind path value =
     and_then (validate_document env v value) (\<lambda>ds.
       Inr (map (\<lambda>d. d\<lparr>ad_source_path := Some path, ad_document_id := str_at (json_at value ''metadata'') ''id''\<rparr>) ds
         @ (if str_at value ''kind'' \<noteq> Some expected_kind
            then [diagnostic_at_path path (error_diagnostic ''document.root-kind''
                    (''expected '' @ expected_kind @ '' document''))] else [])))"

definition load_document ::
    "source_env \<Rightarrow> arch_env \<Rightarrow> vocabulary \<Rightarrow> string \<Rightarrow> string \<Rightarrow> string \<times> nat \<Rightarrow> load_state \<Rightarrow> load_step arch" where
  "load_document se env v allowed_root expected_kind x st =
     (case x of (path, depth) \<Rightarrow>
        if bmap_get (ls_loaded st) (path_key path) \<noteq> None then Inr (Continue st [])
        else if depth > max_import_depth
        then Inr (Continue (report (diagnostic_at_path path (error_diagnostic ''resource.import-depth''
               (''import depth exceeds '' @ decimal max_import_depth))) st) [])
        else if length (ls_loaded st) \<ge> max_documents
        then Inr (Break (report (error_diagnostic ''resource.document-count''
               (''document count exceeds '' @ decimal max_documents)) st))
        else (case se_read se path of
          Inl error \<Rightarrow> Inr (Continue (report (diagnostic_at_path path
              (error_diagnostic ''document.read-failed'' (path @ '': '' @ error))) st) [])
        | Inr source \<Rightarrow>
            if ls_total st + length source > max_total_bytes
            then Inr (Break (report (error_diagnostic ''resource.total-source-bytes''
                   (''total source bytes exceed '' @ decimal max_total_bytes)) st))
            else
              let st = st\<lparr>ls_total := ls_total st + length source\<rparr>
              in (case se_parse se source of
                Inl d \<Rightarrow> Inr (Continue (report (diagnostic_at_path path d) st) [])
              | Inr (value, source_digest) \<Rightarrow>
                  and_then (document_diagnostics env v expected_kind path value) (\<lambda>ds.
                    let st = st\<lparr>ls_diagnostics := ls_diagnostics st @ ds\<rparr>
                    in (case arch_digest_value env CanonicalModule value of
                      Inl d \<Rightarrow> Inr (Continue (report (diagnostic_at_path path d) st) [])
                    | Inr digest \<Rightarrow>
                        let targets = import_targets se allowed_root path value
                        in Inr (Continue
                          (st\<lparr>ls_diagnostics := ls_diagnostics st
                               @ List.map_filter (\<lambda>t. case t of Inl d \<Rightarrow> Some (diagnostic_at_path path d) | Inr _ \<Rightarrow> None) targets,
                              ls_loaded := bmap_insert (path_key path)
                                \<lparr>dc_portable_path = portable_path path allowed_root, dc_canonical_path = path,
                                 dc_value = value, dc_source_digest = source_digest,
                                 dc_canonical_digest = digest\<rparr> (ls_loaded st)\<rparr>)
                          (List.map_filter (\<lambda>t. case t of Inl _ \<Rightarrow> None | Inr p \<Rightarrow> Some (p, depth + 1)) targets)))))))"

lemma length_bmap_insert: "bmap_get m k = None \<Longrightarrow> length (bmap_insert k v m) = Suc (length m)"
  by (induction m) (auto simp: bmap_get_def split: if_splits)

lemma load_document_progress:
  assumes "load_document se env v allowed_root expected_kind x st = Inr (Continue st' new)"
  shows "new = [] \<and> ls_loaded st' = ls_loaded st
    \<or> length (ls_loaded st) < max_documents \<and> length (ls_loaded st') = Suc (length (ls_loaded st))"
proof -
  obtain path depth where x: "x = (path, depth)" by fastforce
  note run = assms [unfolded load_document_def x prod.case report_def]
  show ?thesis
  proof (cases "bmap_get (ls_loaded st) (path_key path) = None \<and> depth \<le> max_import_depth \<and> length (ls_loaded st) < max_documents")
    case False
    with run show ?thesis by (auto split: if_splits)
  next
    case True
    with run obtain source where "se_read se path = Inr source \<or> new = [] \<and> ls_loaded st' = ls_loaded st"
      by (auto split: sum.splits if_splits)
    then show ?thesis
    proof
      assume "se_read se path = Inr source"
      with run True show ?thesis
        by (cases "se_parse se source"; cases "arch_digest_value env CanonicalModule (fst (projr (se_parse se source)))")
          (auto simp: and_then_Inr Let_def length_bmap_insert split: if_splits prod.splits)
    qed simp
  qed
qed

text \<open>
  The queue of paths: a step either drops a path or loads a new document, at most \<open>max_documents\<close> times.
\<close>

function load_loop ::
    "source_env \<Rightarrow> arch_env \<Rightarrow> vocabulary \<Rightarrow> string \<Rightarrow> string \<Rightarrow> (string \<times> nat) list \<Rightarrow> load_state \<Rightarrow> load_state arch" where
  "load_loop se env v allowed_root expected_kind [] st = Inr st"
| "load_loop se env v allowed_root expected_kind (x # pending) st =
     (case load_document se env v allowed_root expected_kind x st of
        Inl failure \<Rightarrow> Inl failure
      | Inr (Break st') \<Rightarrow> Inr st'
      | Inr (Continue st' new) \<Rightarrow> load_loop se env v allowed_root expected_kind (pending @ new) st')"
  by pat_completeness auto

termination
  by (relation "measures [\<lambda>(se, env, v, root, kind, pending, st). max_documents - length (ls_loaded st),
      \<lambda>(se, env, v, root, kind, pending, st). length pending]")
    (auto dest!: load_document_progress)

text \<open>The checks of the whole set of documents.\<close>

definition document_imports :: "loaded_document \<Rightarrow> json list arch" where
  "document_imports d = expects (array_at (dc_value d) ''imports'') ''validated imports''"

definition import_id :: "json \<Rightarrow> string arch" where
  "import_id imp = expects (str_at imp ''module'') ''validated import ID''"

type_synonym documents = "(string, loaded_document) bmap"

definition validate_document_import ::
    "source_env \<Rightarrow> string \<Rightarrow> documents \<Rightarrow> string \<Rightarrow> string \<Rightarrow> json \<Rightarrow> arch_diagnostic list arch" where
  "validate_document_import se allowed_root documents doc_id parent imp =
     and_then (import_id imp) (\<lambda>imported_id.
       case bmap_get documents imported_id of
         None \<Rightarrow> Inr [error_diagnostic ''import.module-unresolved''
                   (doc_id @ '' imports missing document '' @ imported_id)]
       | Some imported \<Rightarrow>
           Inr ((if Option.bind (str_at imp ''source'') (\<lambda>source.
                       case confined_path se allowed_root source parent of Inl _ \<Rightarrow> None | Inr p \<Rightarrow> Some p)
                    \<noteq> Some (dc_canonical_path imported)
                 then [error_diagnostic ''import.source-identity-mismatch''
                         (doc_id @ '' import source does not declare expected ID '' @ imported_id)] else [])
             @ (if json_u64 (json_at imp ''architectureVersion'')
                   \<noteq> json_u64 (json_at (json_at (dc_value imported) ''metadata'') ''architectureVersion'')
                then [error_diagnostic ''import.architecture-version-mismatch''
                        (doc_id @ '' pins the wrong version of '' @ imported_id)] else [])
             @ (if str_at imp ''digest'' \<noteq> Some (dc_canonical_digest imported)
                then [error_diagnostic ''import.digest-mismatch''
                        (doc_id @ '' pins the wrong digest for '' @ imported_id)] else [])))"

definition validate_document_imports :: "source_env \<Rightarrow> string \<Rightarrow> documents \<Rightarrow> arch_diagnostic list arch" where
  "validate_document_imports se allowed_root documents =
     diagnose (\<lambda>(doc_id, document).
       let parent = (case path_parent (dc_canonical_path document) of None \<Rightarrow> allowed_root | Some p \<Rightarrow> p)
       in and_then (document_imports document)
            (diagnose (validate_document_import se allowed_root documents doc_id parent))) documents"

text \<open>
  The recursive search for an import cycle. Its state is the sets of active and complete documents; the
  result is a document on a cycle, or the new state, and \<open>None\<close> when the fuel is exhausted.
\<close>

type_synonym visit_state = "string bset \<times> string bset"
type_synonym visit_result = "(string + visit_state) option arch"

fun visit_imports ::
    "(string \<Rightarrow> visit_state \<Rightarrow> visit_result) \<Rightarrow> documents \<Rightarrow> json list \<Rightarrow> visit_state \<Rightarrow> visit_result" where
  "visit_imports visit documents [] st = Inr (Some (Inr st))"
| "visit_imports visit documents (imp # imps) st =
     and_then (import_id imp) (\<lambda>i.
       if bmap_get documents i = None then visit_imports visit documents imps st
       else and_then (visit i st) (\<lambda>result.
         case result of Some (Inr st') \<Rightarrow> visit_imports visit documents imps st' | _ \<Rightarrow> Inr result))"

fun visit :: "nat \<Rightarrow> documents \<Rightarrow> string \<Rightarrow> visit_state \<Rightarrow> visit_result" where
  "visit 0 documents i st = Inr None"
| "visit (Suc fuel) documents i (active, complete) =
     (if i \<in> set complete then Inr (Some (Inr (active, complete)))
      else if i \<in> set active then Inr (Some (Inl i))
      else
        and_then (expects (bmap_get documents i) ''no entry found for key'') (\<lambda>document.
        and_then (document_imports document) (\<lambda>imps.
        and_then (visit_imports (visit fuel documents) documents imps (bset_insert i active, complete)) (\<lambda>result.
          case result of
            Some (Inr (active', complete')) \<Rightarrow>
              Inr (Some (Inr (filter (\<lambda>j. j \<noteq> i) active', bset_insert i complete')))
          | _ \<Rightarrow> Inr result))))"

fun visit_all :: "documents \<Rightarrow> string list \<Rightarrow> visit_state \<Rightarrow> arch_diagnostic list option arch" where
  "visit_all documents [] st = Inr (Some [])"
| "visit_all documents (i # ids) st =
     and_then (visit (length documents + 2) documents i st) (\<lambda>result.
       case result of
         None \<Rightarrow> Inr None
       | Some (Inl cycle) \<Rightarrow>
           Inr (Some [error_diagnostic ''import.cycle'' (''import graph contains a cycle through '' @ cycle)])
       | Some (Inr st') \<Rightarrow> visit_all documents ids st')"

definition validate_document_cycles :: "documents \<Rightarrow> arch_diagnostic list arch" where
  "validate_document_cycles documents =
     and_then (visit_all documents (map fst documents) ([], [])) searched"

subsection \<open>The document set\<close>

definition collect_document ::
    "string list \<times> loaded_document \<Rightarrow> arch_diagnostic list \<times> documents \<Rightarrow> (arch_diagnostic list \<times> documents) arch" where
  "collect_document x st =
     (case st of (ds, documents) \<Rightarrow>
        and_then (expects (str_at (json_at (dc_value (snd x)) ''metadata'') ''id'') ''validated document ID'') (\<lambda>i.
          Inr (ds @ (if bmap_get documents i \<noteq> None
                     then [error_diagnostic ''document.duplicate-id'' (''duplicate document ID '' @ i)] else []),
               bmap_insert i (snd x) documents)))"

definition root_id :: "source_env \<Rightarrow> string \<Rightarrow> documents \<Rightarrow> string \<Rightarrow> (arch_diagnostic + string) arch" where
  "root_id se allowed_root documents root =
     (case confined_path se allowed_root root allowed_root of
        Inl d \<Rightarrow> Inr (Inl d)
      | Inr root_path \<Rightarrow>
          (case find (\<lambda>(_, document). dc_canonical_path document = root_path) documents of
             None \<Rightarrow> Inr (Inl (error_diagnostic ''document.root-unresolved'' (''root '' @ root @ '' was not loaded'')))
           | Some (_, document) \<Rightarrow>
               and_then (expects (str_at (json_at (dc_value document) ''metadata'') ''id'') ''validated document ID'')
                 (\<lambda>i. Inr (Inr i))))"

definition lefts :: "('a + 'b) list \<Rightarrow> 'a list" where
  "lefts xs = List.map_filter (\<lambda>x. case x of Inl a \<Rightarrow> Some a | Inr _ \<Rightarrow> None) xs"

definition rights :: "('a + 'b) list \<Rightarrow> 'b list" where
  "rights xs = List.map_filter (\<lambda>x. case x of Inl _ \<Rightarrow> None | Inr b \<Rightarrow> Some b) xs"

definition load_set ::
    "source_env \<Rightarrow> arch_env \<Rightarrow> vocabulary \<Rightarrow> string list \<Rightarrow> string \<Rightarrow> string \<Rightarrow> document_set arch" where
  "load_set se env v roots allowed expected_kind =
     (if roots = []
      then Inl (ArchRefused [error_diagnostic ''document.roots-empty''
             (''at least one root '' @ expected_kind @ '' is required'')])
      else (case se_canonicalize se allowed of
        Inl error \<Rightarrow> Inl (ArchRefused [error_diagnostic ''import.root-unavailable'' (allowed @ '': '' @ error)])
      | Inr allowed_root \<Rightarrow>
          let starts = map (\<lambda>root. confined_path se allowed_root root allowed_root) roots
          in and_then (load_loop se env v allowed_root expected_kind (map (\<lambda>p. (p, 0)) (rights starts))
                \<lparr>ls_diagnostics = lefts starts, ls_loaded = [], ls_total = 0\<rparr>) (\<lambda>st.
             and_then (refuse (ls_diagnostics st)) (\<lambda>_.
             and_then (fold_result collect_document (ls_loaded st) ([], [])) (\<lambda>(ds1, documents).
             and_then (validate_document_imports se allowed_root documents) (\<lambda>ds2.
             and_then (validate_document_cycles documents) (\<lambda>ds3.
             and_then (map_result (root_id se allowed_root documents) roots) (\<lambda>ids.
             and_then (refuse (ds1 @ ds2 @ ds3 @ lefts ids)) (\<lambda>_.
               Inr \<lparr>ds_roots = remdups_adj (sort (rights ids)), ds_documents = documents\<rparr>)))))))))"

definition document_values :: "document_set \<Rightarrow> json list" where
  "document_values s = map (\<lambda>(_, d). dc_value d) (ds_documents s)"

subsection \<open>Import closures\<close>

definition closure_member :: "string \<Rightarrow> loaded_document \<Rightarrow> json" where
  "closure_member i d =
     json_map [(''moduleId'', JString i),
       (''architectureVersion'', json_at (json_at (dc_value d) ''metadata'') ''architectureVersion''),
       (''canonicalModuleDigest'', JString (dc_canonical_digest d))]"

definition import_ids :: "loaded_document \<Rightarrow> string list arch" where
  "import_ids d = and_then (document_imports d) (map_result import_id)"

definition unvisited :: "documents \<Rightarrow> string bset \<Rightarrow> nat" where
  "unvisited documents visited = card (fst ` set documents - set visited)"

lemma unvisited_insert:
  assumes "i \<notin> set visited" and "bmap_get documents i = Some d"
  shows "unvisited documents (bset_insert i visited) < unvisited documents visited"
proof -
  have "i \<in> fst ` set documents" using bmap_get_SomeD [OF assms(2)] by force
  with assms(1) show ?thesis unfolding unvisited_def by (intro psubset_card_mono) auto
qed

text \<open>The stack is a list whose head is its top, so pushing the imports one by one reverses them.\<close>

function closure_loop ::
    "documents \<Rightarrow> string list \<Rightarrow> string bset \<Rightarrow> (string \<times> json) list \<Rightarrow> (string \<times> json) list arch" where
  "closure_loop documents [] visited members = Inr members"
| "closure_loop documents (i # pending) visited members =
     (if i \<in> set visited then closure_loop documents pending visited members
      else case bmap_get documents i of
        None \<Rightarrow> Inl (ArchRefused [error_diagnostic ''import.module-unresolved''
                 (''import closure references missing module '' @ i)])
      | Some d \<Rightarrow>
          (case import_ids d of
             Inl failure \<Rightarrow> Inl failure
           | Inr ids \<Rightarrow> closure_loop documents (rev ids @ pending) (bset_insert i visited)
                         (members @ [(i, closure_member i d)])))"
  by pat_completeness auto

termination
  by (relation "measures [\<lambda>(documents, pending, visited, members). unvisited documents visited,
      \<lambda>(documents, pending, visited, members). length pending]")
    (auto simp: unvisited_insert)

definition import_closure_digest :: "arch_env \<Rightarrow> document_set \<Rightarrow> string \<Rightarrow> string arch" where
  "import_closure_digest env s root =
     and_then (closure_loop (ds_documents s) [root] [] []) (\<lambda>members.
       digested env ImportClosure (JArray (map snd (sort_key fst members))))"

end
