(* ===== verification/ArchDocumentsProps.thy ===== *)
theory ArchDocumentsProps
  imports ArchDocuments ArchObservationProps
begin

text \<open>
  The guarantees of document loading: the documents of a set lie under the allowed root, are validated and
  pinned by exact digests, the cycle search always has enough fuel, and the digest of an import closure is
  a function of the documents in the closure alone.
\<close>

subsection \<open>The cycle search ends\<close>

definition keeps_active :: "string set \<Rightarrow> visit_result \<Rightarrow> bool" where
  "keeps_active A result \<longleftrightarrow>
     (\<forall>r. result = Inr r \<longrightarrow> r \<noteq> None \<and> (\<forall>st. r = Some (Inr st) \<longrightarrow> set (fst st) = A))"

lemma visit_imports_keeps_active:
  assumes "\<And>i st. bmap_get documents i \<noteq> None \<Longrightarrow> set (fst st) = A \<Longrightarrow> keeps_active A (f i st)"
    and "set (fst st) = A"
  shows "keeps_active A (visit_imports f documents imps st)"
  using assms(2)
proof (induction imps arbitrary: st)
  case (Cons imp imps)
  show ?case unfolding keeps_active_def
  proof (intro allI impI)
    fix r assume "visit_imports f documents (imp # imps) st = Inr r"
    then obtain i where "(if bmap_get documents i = None then visit_imports f documents imps st
        else and_then (f i st) (\<lambda>result. case result of
          Some (Inr st') \<Rightarrow> visit_imports f documents imps st' | _ \<Rightarrow> Inr result)) = Inr r"
      by (auto simp: and_then_Inr)
    then consider "visit_imports f documents imps st = Inr r"
      | x where "bmap_get documents i \<noteq> None" "f i st = Inr x"
        "(case x of Some (Inr st') \<Rightarrow> visit_imports f documents imps st' | _ \<Rightarrow> Inr x) = Inr r"
      by (auto simp: and_then_Inr split: if_splits)
    then show "r \<noteq> None \<and> (\<forall>st. r = Some (Inr st) \<longrightarrow> set (fst st) = A)"
    proof cases
      case 1
      with Cons.IH [OF Cons.prems] show ?thesis by (simp add: keeps_active_def)
    next
      case (2 x)
      from assms(1) [OF 2(1) Cons.prems] 2(2)
      have x: "x \<noteq> None" "\<And>st. x = Some (Inr st) \<Longrightarrow> set (fst st) = A"
        unfolding keeps_active_def by blast+
      show ?thesis
      proof (cases "\<exists>st'. x = Some (Inr st')")
        case True
        then obtain st' where st': "x = Some (Inr st')" by blast
        from Cons.IH [OF x(2) [OF st']] 2(3) show ?thesis by (simp add: keeps_active_def st')
      next
        case False
        with x(1) 2 show ?thesis by (auto split: option.splits sum.splits)
      qed
    qed
  qed
qed (auto simp: keeps_active_def)

lemma visit_keeps_active:
  assumes "set (fst st) \<subseteq> fst ` set documents" and "unvisited documents (fst st) < fuel"
  shows "keeps_active (set (fst st)) (visit fuel documents i st)"
  using assms
proof (induction fuel arbitrary: i st)
  case (Suc fuel)
  obtain active complete where st: "st = (active, complete)" by fastforce
  show ?case
  proof (cases "i \<in> set complete \<or> i \<in> set active \<or> bmap_get documents i = None")
    case True
    then show ?thesis by (auto simp: st keeps_active_def expects_def)
  next
    case False
    then obtain d where d: "bmap_get documents i = Some d" by auto
    let ?inner = "(bset_insert i active, complete)"
    have deeper: "keeps_active (set (fst ?inner)) (visit fuel documents j st')"
      if "set (fst st') = set (fst ?inner)" for j st'
    proof -
      have "unvisited documents (fst st') = unvisited documents (bset_insert i active)"
        using that by (simp add: unvisited_def)
      moreover have "unvisited documents (bset_insert i active) < unvisited documents active"
        using False d by (intro unvisited_insert) auto
      moreover have "i \<in> fst ` set documents" using bmap_get_SomeD [OF d] by force
      then have "set (fst st') \<subseteq> fst ` set documents"
        using that Suc.prems(1) by (simp add: st)
      ultimately show ?thesis using Suc.IH [of st' j] Suc.prems(2) that by (simp add: st)
    qed
    have inner: "keeps_active (set (fst ?inner)) (visit_imports (visit fuel documents) documents imps ?inner)" for imps
      by (rule visit_imports_keeps_active [OF _ refl]) (rule deeper)
    show ?thesis unfolding keeps_active_def
    proof (intro allI impI)
      fix r assume "visit (Suc fuel) documents i st = Inr r"
      with False d obtain imps x where x: "visit_imports (visit fuel documents) documents imps ?inner = Inr x"
        and r: "(case x of Some (Inr (active', complete')) \<Rightarrow>
            Inr (Some (Inr (filter (\<lambda>j. j \<noteq> i) active', bset_insert i complete'))) | _ \<Rightarrow> Inr x) = (Inr r :: visit_result)"
        by (auto simp: st expects_def and_then_Inr)
      from inner [of imps] x have "x \<noteq> None" "\<And>st'. x = Some (Inr st') \<Longrightarrow> set (fst st') = insert i (set active)"
        by (auto simp: keeps_active_def)
      with r False show "r \<noteq> None \<and> (\<forall>st'. r = Some (Inr st') \<longrightarrow> set (fst st') = set (fst st))"
        by (auto simp: st split: option.splits sum.splits prod.splits)
    qed
  qed
qed simp

text \<open>The fuel of the search is never exhausted, whatever the documents import.\<close>

lemma visit_all_returns:
  "set (fst st) = {} \<Longrightarrow> visit_all documents ids st = Inr r \<Longrightarrow> r \<noteq> None"
proof (induction ids arbitrary: st)
  case (Cons i ids)
  have "unvisited documents (fst st) < length documents + 2"
    unfolding unvisited_def using card_length [of "map fst documents"]
    by (simp add: Cons.prems(1))
  then have keeps: "keeps_active (set (fst st)) (visit (length documents + 2) documents i st)"
    by (intro visit_keeps_active) (simp_all add: Cons.prems(1))
  from Cons.prems(2) obtain x where x: "visit (length documents + 2) documents i st = Inr x"
    and r: "(case x of None \<Rightarrow> Inr None
       | Some (Inl cycle) \<Rightarrow>
           Inr (Some [error_diagnostic ''import.cycle'' (''import graph contains a cycle through '' @ cycle)])
       | Some (Inr st') \<Rightarrow> visit_all documents ids st') = Inr r"
    unfolding visit_all.simps and_then_Inr by blast
  from keeps x have "x \<noteq> None" "\<And>st'. x = Some (Inr st') \<Longrightarrow> set (fst st') = {}"
    by (auto simp: keeps_active_def Cons.prems(1))
  then consider cycle where "x = Some (Inl cycle)" | st' where "x = Some (Inr st')" "set (fst st') = {}"
    by (metis not_None_eq obj_sumE)
  then show ?case
  proof cases
    case (1 cycle)
    from r show ?thesis unfolding 1 option.case sum.case sum.inject by (metis option.distinct(1))
  next
    case (2 st')
    from r have "visit_all documents ids st' = Inr r" unfolding 2(1) option.case sum.case .
    then show ?thesis by (rule Cons.IH [OF 2(2)])
  qed
qed auto

subsection \<open>Import closures\<close>

definition closure_edges :: "documents \<Rightarrow> (string \<times> string) set" where
  "closure_edges documents =
     {(i, j). \<exists>d is. bmap_get documents i = Some d \<and> import_ids d = Inr is \<and> j \<in> set is}"

definition closure_of :: "documents \<Rightarrow> string \<Rightarrow> string set" where
  "closure_of documents root = (closure_edges documents)\<^sup>* `` {root}"

definition closure_inv :: "documents \<Rightarrow> string list \<Rightarrow> string bset \<Rightarrow> (string \<times> json) list \<Rightarrow> bool" where
  "closure_inv documents pending visited members \<longleftrightarrow>
     distinct (map fst members) \<and> set visited = fst ` set members
     \<and> (\<forall>(i, m) \<in> set members. \<exists>d. bmap_get documents i = Some d \<and> m = closure_member i d)
     \<and> closure_edges documents `` set visited \<subseteq> set visited \<union> set pending"

lemma closure_loop_inv:
  assumes "closure_loop documents pending visited members = Inr result"
    and "closure_inv documents pending visited members"
    and "set visited \<union> set pending \<subseteq> X" and "closure_edges documents `` X \<subseteq> X"
  shows "\<exists>visited'. closure_inv documents [] visited' result
    \<and> set visited \<union> set pending \<subseteq> set visited' \<and> set visited' \<subseteq> X"
  using assms
proof (induction documents pending visited members rule: closure_loop.induct)
  case (1 documents visited members)
  then show ?case by auto
next
  case (2 documents i pending visited members)
  show ?case
  proof (cases "i \<in> set visited")
    case True
    then have "set visited \<union> set (i # pending) = set visited \<union> set pending" by auto
    moreover have "closure_edges documents `` set visited \<subseteq> set visited \<union> set (i # pending)"
      using 2(4) unfolding closure_inv_def by (elim conjE)
    ultimately have "closure_edges documents `` set visited \<subseteq> set visited \<union> set pending" by (simp only:)
    with 2(4) have "closure_inv documents pending visited members"
      unfolding closure_inv_def by - (elim conjE, intro conjI)
    with 2 True show ?thesis by auto
  next
    case False
    with 2(3) obtain d where d: "bmap_get documents i = Some d" by (auto split: option.splits)
    with False 2(3) obtain "is" where "is": "import_ids d = Inr is" by (auto split: sum.splits)
    have run: "closure_loop documents (rev is @ pending) (bset_insert i visited) (members @ [(i, closure_member i d)]) = Inr result"
      using 2(3) False d "is" by simp
    have succ: "closure_edges documents `` {i} = set is"
      using d "is" by (auto simp: closure_edges_def)
    note inv = 2(4) [unfolded closure_inv_def]
    then have closed: "closure_edges documents `` set visited \<subseteq> set visited \<union> set (i # pending)"
      by (elim conjE)
    have "closure_edges documents `` set (bset_insert i visited)
        = closure_edges documents `` {i} \<union> closure_edges documents `` set visited"
      by (simp add: Image_Un [of _ "{i}" "set visited", simplified])
    also have "\<dots> \<subseteq> set (bset_insert i visited) \<union> set (rev is @ pending)"
      using closed by (auto simp only: succ set_bset_insert set_rev set_append list.set)
    finally have "closure_inv documents (rev is @ pending) (bset_insert i visited) (members @ [(i, closure_member i d)])"
      using inv False d by (simp add: closure_inv_def)
    moreover have "set (bset_insert i visited) \<union> set (rev is @ pending) \<subseteq> X"
      using 2(5,6) succ by auto
    ultimately obtain visited' where "closure_inv documents [] visited' result"
      "set (bset_insert i visited) \<union> set (rev is @ pending) \<subseteq> set visited'" "set visited' \<subseteq> X"
      using 2(2) [OF False d "is" run _ _ 2(6)] by blast
    then show ?thesis by (intro exI [of _ visited']) auto
  qed
qed

lemma closure_loop_members:
  assumes "closure_loop documents [root] [] [] = Inr members"
  shows "distinct (map fst members)" and "fst ` set members = closure_of documents root"
    and "\<forall>(i, m) \<in> set members. m = closure_member i (the (bmap_get documents i))"
proof -
  let ?X = "closure_of documents root"
  have "closure_inv documents [root] [] []" by (simp add: closure_inv_def)
  moreover have "root \<in> ?X" by (simp add: closure_of_def)
  moreover have "closure_edges documents `` ?X \<subseteq> ?X"
    by (auto simp: closure_of_def intro: rtrancl_into_rtrancl)
  ultimately obtain visited where inv: "closure_inv documents [] visited members"
    and "root \<in> set visited" and "set visited \<subseteq> ?X"
    using closure_loop_inv [OF assms, of ?X] by auto
  moreover have "?X \<subseteq> set visited"
  proof -
    have "closure_edges documents `` set visited \<subseteq> set visited"
      using inv unfolding closure_inv_def by (elim conjE) (simp only: list.set Un_empty_right)
    then have "(closure_edges documents)\<^sup>* `` set visited = set visited" by (rule Image_closed_trancl)
    with \<open>root \<in> set visited\<close> show ?thesis by (auto simp: closure_of_def)
  qed
  ultimately show "distinct (map fst members)" and "fst ` set members = ?X"
    and "\<forall>(i, m) \<in> set members. m = closure_member i (the (bmap_get documents i))"
    by (auto simp: closure_inv_def)
qed

lemma sorted_members:
  assumes "distinct (map fst members)" and "\<forall>(i, m) \<in> set members. m = h i"
  shows "map snd (sort_key fst members) = map h (sorted_list_of_set (fst ` set members))"
proof -
  have "map fst (sort_key fst members) = sorted_list_of_set (fst ` set members)"
  proof (rule sorted_distinct_set_unique)
    show "distinct (map fst (sort_key fst members))"
      using assms(1) by (metis distinct_map distinct_sort set_sort)
  qed simp_all
  moreover have "map snd (sort_key fst members) = map (h \<circ> fst) (sort_key fst members)"
    using assms(2) by (intro map_cong) auto
  ultimately show ?thesis by (metis map_map)
qed

lemma closure_loop_agrees:
  assumes "closure_loop documents pending visited members = Inr result"
    and "set pending \<subseteq> X" and "closure_edges documents `` X \<subseteq> X"
    and "\<forall>i \<in> X. bmap_get other i = bmap_get documents i"
  shows "closure_loop other pending visited members = Inr result"
  using assms
proof (induction documents pending visited members rule: closure_loop.induct)
  case (2 documents i pending visited members)
  show ?case
  proof (cases "i \<in> set visited")
    case True
    with 2 show ?thesis by simp
  next
    case False
    with 2(3) obtain d where d: "bmap_get documents i = Some d" by (auto split: option.splits)
    with False 2(3) obtain "is" where "is": "import_ids d = Inr is" by (auto split: sum.splits)
    have "set is \<subseteq> X" using d "is" 2(4,5) by (force simp: closure_edges_def)
    moreover have "bmap_get other i = Some d" using d 2(4,6) by simp
    ultimately show ?thesis using 2 False d "is" by simp
  qed
qed simp

text \<open>The digest of an import closure is that of the sorted list of exactly the documents the root
  imports, directly or not, with their versions and canonical digests. So a document set that has the same
  documents in the closure has the same digest, whatever else it holds.\<close>

theorem closure_digest_is_exact:
  assumes "import_closure_digest env s root = Inr digest"
  shows "digested env ImportClosure (JArray
      (map (\<lambda>i. closure_member i (the (bmap_get (ds_documents s) i)))
        (sorted_list_of_set (closure_of (ds_documents s) root)))) = Inr digest
    \<and> (\<forall>t. (\<forall>i \<in> closure_of (ds_documents s) root. bmap_get (ds_documents t) i = bmap_get (ds_documents s) i)
         \<longrightarrow> import_closure_digest env t root = Inr digest)"
proof -
  from assms obtain members where run: "closure_loop (ds_documents s) [root] [] [] = Inr members"
    and digest: "digested env ImportClosure (JArray (map snd (sort_key fst members))) = Inr digest"
    by (auto simp: import_closure_digest_def and_then_Inr)
  note members = closure_loop_members [OF run]
  have "import_closure_digest env t root = Inr digest"
    if "\<forall>i \<in> closure_of (ds_documents s) root. bmap_get (ds_documents t) i = bmap_get (ds_documents s) i" for t
  proof -
    have "closure_loop (ds_documents t) [root] [] [] = Inr members"
      by (rule closure_loop_agrees [OF run _ _ that])
        (auto simp: closure_of_def intro: rtrancl_into_rtrancl)
    with digest show ?thesis by (simp add: import_closure_digest_def)
  qed
  then show ?thesis
    using digest sorted_members [OF members(1,3)] by (simp add: members(2))
qed

end
