(* ===== verification/ArchDocumentsContract.thy ===== *)
theory ArchDocumentsContract
  imports ArchDocumentsProps
begin

text \<open>
  What a loaded document set promises. The search for cycles keeps the set of complete documents settled:
  it is built by adding documents whose imports are all complete, so the imports among them are acyclic.
\<close>

subsection \<open>Settled sets\<close>

abbreviation keys :: "documents \<Rightarrow> string set" where
  "keys documents \<equiv> fst ` set documents"

inductive settled :: "documents \<Rightarrow> string set \<Rightarrow> bool" for documents where
  none: "settled documents {}"
| add: "settled documents C \<Longrightarrow> i \<in> keys documents \<Longrightarrow> i \<notin> C
    \<Longrightarrow> closure_edges documents `` {i} \<inter> keys documents \<subseteq> C \<Longrightarrow> settled documents (insert i C)"

lemma settled_within: "settled documents C \<Longrightarrow> C \<subseteq> keys documents"
  by (induction rule: settled.induct) auto

lemma settled_closed: "settled documents C \<Longrightarrow> closure_edges documents `` C \<inter> keys documents \<subseteq> C"
  by (induction rule: settled.induct) blast+

lemma settled_acyclic: "settled documents C \<Longrightarrow> acyclic (closure_edges documents \<inter> C \<times> C)"
proof (induction rule: settled.induct)
  case (add C i)
  let ?E = "closure_edges documents \<inter> insert i C \<times> insert i C" and ?F = "closure_edges documents \<inter> C \<times> C"
  have step: "y \<in> C \<and> (x = i \<or> (x, y) \<in> ?F)" if "(x, y) \<in> ?E" for x y
    using that add.hyps(2-4) settled_closed [OF add.hyps(1)] by blast
  have "y \<in> C \<and> (x = i \<or> (x, y) \<in> ?F\<^sup>+)" if "(x, y) \<in> ?E\<^sup>+" for x y
    using that
  proof (induction rule: trancl_induct)
    case (step y z)
    then show ?case using \<open>\<And>x y. (x, y) \<in> ?E \<Longrightarrow> _ x y\<close> add.hyps(3)
      by (metis trancl.trancl_into_trancl)
  qed (use step in blast)
  then show ?case using add.IH add.hyps(3) by (auto simp: acyclic_def)
qed (simp add: acyclic_def)

subsection \<open>The search settles what it completes\<close>

definition proper :: "documents \<Rightarrow> visit_state \<Rightarrow> bool" where
  "proper documents st \<longleftrightarrow> settled documents (set (snd st)) \<and> set (fst st) \<inter> set (snd st) = {}"

definition settles :: "documents \<Rightarrow> string set \<Rightarrow> visit_state \<Rightarrow> visit_state \<Rightarrow> bool" where
  "settles documents I st st' \<longleftrightarrow>
     proper documents st' \<and> set (fst st') = set (fst st) \<and> set (snd st) \<union> I \<subseteq> set (snd st')"

lemma visit_imports_settles:
  assumes "\<And>i st st'. i \<in> keys documents \<Longrightarrow> proper documents st \<Longrightarrow> f i st = Inr (Some (Inr st'))
      \<Longrightarrow> settles documents {i} st st'"
    and "visit_imports f documents imps st = Inr (Some (Inr st'))" and "proper documents st"
  shows "\<exists>ids. map_result import_id imps = Inr ids \<and> settles documents (set ids \<inter> keys documents) st st'"
  using assms(2,3)
proof (induction imps arbitrary: st)
  case Nil
  then show ?case by (auto simp: settles_def)
next
  case (Cons imp imps)
  from Cons.prems(1) obtain i where i: "import_id imp = Inr i"
    and run: "(if bmap_get documents i = None then visit_imports f documents imps st
        else and_then (f i st) (\<lambda>result. case result of
          Some (Inr st') \<Rightarrow> visit_imports f documents imps st' | _ \<Rightarrow> Inr result)) = Inr (Some (Inr st'))"
    unfolding visit_imports.simps and_then_Inr by blast
  show ?case
  proof (cases "i \<in> keys documents")
    case False
    with run Cons.IH [of st] Cons.prems(2) i show ?thesis
      by (auto simp: bmap_get_None settles_def)
  next
    case True
    with run obtain x where x: "f i st = Inr x"
      and rest: "(case x of Some (Inr st') \<Rightarrow> visit_imports f documents imps st' | _ \<Rightarrow> Inr x) = Inr (Some (Inr st'))"
      by (auto simp: bmap_get_None and_then_Inr)
    then obtain t where t: "x = Some (Inr t)" by (auto split: option.splits sum.splits)
    with assms(1) [OF True Cons.prems(2)] x have "settles documents {i} st t" by simp
    moreover from this Cons.IH [of t] rest t obtain ids where
      "map_result import_id imps = Inr ids" "settles documents (set ids \<inter> keys documents) t st'"
      by (auto simp: settles_def)
    ultimately show ?thesis using i by (auto simp: settles_def)
  qed
qed

lemma visit_settles:
  assumes "visit fuel documents i st = Inr (Some (Inr st'))" and "i \<in> keys documents" and "proper documents st"
  shows "settles documents {i} st st'"
  using assms
proof (induction fuel arbitrary: i st st')
  case (Suc fuel)
  obtain active complete where st: "st = (active, complete)" by fastforce
  show ?case
  proof (cases "i \<in> set complete \<or> i \<in> set active")
    case True
    with Suc.prems show ?thesis by (auto simp: st settles_def split: if_splits)
  next
    case False
    from Suc.prems(1) False obtain d imps x where d: "bmap_get documents i = Some d"
      and imps: "document_imports d = Inr imps"
      and x: "visit_imports (visit fuel documents) documents imps (bset_insert i active, complete) = Inr x"
      and st': "(case x of Some (Inr (active', complete')) \<Rightarrow>
          Inr (Some (Inr (filter (\<lambda>j. j \<noteq> i) active', bset_insert i complete'))) | _ \<Rightarrow> Inr x)
            = (Inr (Some (Inr st')) :: visit_result)"
      by (auto simp: st and_then_Inr)
    then obtain t where t: "x = Some (Inr t)" by (auto split: option.splits sum.splits)
    with st' have st': "st' = (filter (\<lambda>j. j \<noteq> i) (fst t), bset_insert i (snd t))" by (auto split: prod.splits)
    have "proper documents (bset_insert i active, complete)"
      using Suc.prems(3) False by (auto simp: proper_def st)
    with x t obtain ids where ids: "map_result import_id imps = Inr ids"
      and settles: "settles documents (set ids \<inter> keys documents) (bset_insert i active, complete) t"
      using visit_imports_settles [of documents "visit fuel documents" imps, OF Suc.IH] by blast
    have "closure_edges documents `` {i} = set ids"
      using d imps ids by (auto simp: closure_edges_def import_ids_def)
    then have "settled documents (insert i (set (snd t)))"
      using settles Suc.prems(2) by (intro settled.add) (auto simp: settles_def proper_def)
    then show ?thesis using settles False by (auto simp: st st' settles_def proper_def)
  qed
qed simp

lemma visit_all_settles:
  assumes "visit_all documents ids st = Inr (Some [])" and "set ids \<subseteq> keys documents" and "proper documents st"
  shows "\<exists>st'. settles documents (set ids) st st'"
  using assms
proof (induction ids arbitrary: st)
  case Nil
  then have "settles documents {} st st" by (simp add: settles_def)
  then show ?case by (intro exI [of _ st]) simp
next
  case (Cons i ids)
  from Cons.prems(1) obtain x where x: "visit (length documents + 2) documents i st = Inr x"
    and r: "(case x of None \<Rightarrow> Inr None
       | Some (Inl cycle) \<Rightarrow>
           Inr (Some [error_diagnostic ''import.cycle'' (''import graph contains a cycle through '' @ cycle)])
       | Some (Inr st') \<Rightarrow> visit_all documents ids st') = Inr (Some [])"
    unfolding visit_all.simps and_then_Inr by blast
  then obtain t where t: "x = Some (Inr t)" by (cases x) (auto split: sum.splits)
  have "settles documents {i} st t"
    using x t Cons.prems(2,3) by (intro visit_settles) auto
  moreover from this r t Cons.IH [of t] Cons.prems(2) obtain st' where "settles documents (set ids) t st'"
    by (auto simp: settles_def)
  ultimately show ?case by (intro exI [of _ st']) (auto simp: settles_def)
qed

lemma validated_cycles_acyclic:
  assumes "validate_document_cycles documents = Inr []"
  shows "acyclic (closure_edges documents \<inter> keys documents \<times> keys documents)"
proof -
  have "proper documents ([], [])" by (simp add: proper_def settled.none)
  moreover have "visit_all documents (map fst documents) ([], []) = Inr (Some [])"
    using assms by (auto simp: validate_document_cycles_def and_then_Inr)
  ultimately obtain st where "settles documents (keys documents) ([], []) st"
    using visit_all_settles [of documents "map fst documents" "([], [])"] unfolding set_map by blast
  then have "settled documents (set (snd st))" "keys documents \<subseteq> set (snd st)"
    by (auto simp: settles_def proper_def)
  with settled_within settled_acyclic show ?thesis by (metis subset_antisym)
qed

subsection \<open>Loading keeps what it reports nothing about\<close>

definition document_ok ::
    "arch_env \<Rightarrow> vocabulary \<Rightarrow> string \<Rightarrow> string \<Rightarrow> loaded_document \<Rightarrow> bool" where
  "document_ok env v allowed_root expected_kind d \<longleftrightarrow>
     path_starts_with (dc_canonical_path d) allowed_root
     \<and> validate_document env v (dc_value d) = Inr []
     \<and> str_at (dc_value d) ''kind'' = Some expected_kind
     \<and> arch_digest_value env CanonicalModule (dc_value d) = Inr (dc_canonical_digest d)"

definition load_ok ::
    "arch_env \<Rightarrow> vocabulary \<Rightarrow> string \<Rightarrow> string \<Rightarrow> load_state \<Rightarrow> bool" where
  "load_ok env v allowed_root expected_kind st \<longleftrightarrow>
     length (ls_loaded st) \<le> max_documents
     \<and> (ls_diagnostics st = [] \<longrightarrow>
          (\<forall>(k, d) \<in> set (ls_loaded st). document_ok env v allowed_root expected_kind d))"

lemma confined_path_within: "confined_path se allowed_root source parent = Inr p \<Longrightarrow> path_starts_with p allowed_root"
  by (auto simp: confined_path_def Let_def split: if_splits sum.splits)

lemma document_diagnostics_none:
  "document_diagnostics env v expected_kind path value = Inr [] \<Longrightarrow>
     validate_document env v value = Inr [] \<and> str_at value ''kind'' = Some expected_kind"
  by (auto simp: document_diagnostics_def and_then_Inr split: if_splits)

definition load_step_ok ::
    "arch_env \<Rightarrow> vocabulary \<Rightarrow> string \<Rightarrow> string \<Rightarrow> load_step \<Rightarrow> bool" where
  "load_step_ok env v allowed_root expected_kind step \<longleftrightarrow>
     (case step of
        Break st \<Rightarrow> load_ok env v allowed_root expected_kind st
      | Continue st new \<Rightarrow> load_ok env v allowed_root expected_kind st
          \<and> (\<forall>(p, _) \<in> set new. path_starts_with p allowed_root))"

lemma load_ok_report: "load_ok env v allowed_root expected_kind st \<Longrightarrow> load_ok env v allowed_root expected_kind (report d st)"
  by (simp add: load_ok_def report_def)

lemma import_targets_within:
  "Inr p \<in> set (import_targets se allowed_root path value) \<Longrightarrow> path_starts_with p allowed_root"
  by (auto simp: import_targets_def Let_def dest: sym [THEN confined_path_within])

text \<open>The state after a document is loaded, and the paths it adds to the queue.\<close>

abbreviation loaded_state ::
    "string \<Rightarrow> string \<Rightarrow> bytes \<Rightarrow> json \<times> string \<Rightarrow> arch_diagnostic list \<Rightarrow> string
     \<Rightarrow> (arch_diagnostic + string) list \<Rightarrow> load_state \<Rightarrow> load_state" where
  "loaded_state allowed_root path source parsed ds digest targets st \<equiv>
     st\<lparr>ls_total := ls_total st + length source,
        ls_diagnostics := ls_diagnostics st @ ds
          @ List.map_filter (case_sum (\<lambda>d. Some (diagnostic_at_path path d)) (\<lambda>_. None)) targets,
        ls_loaded := bmap_insert (path_key path)
          \<lparr>dc_portable_path = portable_path path allowed_root, dc_canonical_path = path,
           dc_value = fst parsed, dc_source_digest = snd parsed, dc_canonical_digest = digest\<rparr> (ls_loaded st)\<rparr>"

abbreviation added_paths :: "nat \<Rightarrow> (arch_diagnostic + string) list \<Rightarrow> (string \<times> nat) list" where
  "added_paths depth targets \<equiv>
     List.map_filter (case_sum (\<lambda>_. None) (\<lambda>p. Some (p, Suc depth))) targets"

lemma load_document_loaded:
  assumes "bmap_get (ls_loaded st) (path_key path) = None" "depth \<le> max_import_depth" "length (ls_loaded st) < max_documents"
    and "se_read se path = Inr source" "ls_total st + length source \<le> max_total_bytes"
    and "se_parse se source = Inr parsed" "document_diagnostics env v expected_kind path (fst parsed) = Inr ds"
    and "arch_digest_value env CanonicalModule (fst parsed) = Inr digest"
  shows "load_document se env v allowed_root expected_kind (path, depth) st =
     Inr (Continue
       (loaded_state allowed_root path source parsed ds digest (import_targets se allowed_root path (fst parsed)) st)
       (added_paths depth (import_targets se allowed_root path (fst parsed))))"
  using assms by (cases parsed) (simp add: load_document_def not_le Let_def)

lemma load_document_ok:
  assumes run: "load_document se env v allowed_root expected_kind (path, depth) st = Inr step"
    and ok: "load_ok env v allowed_root expected_kind st" and path: "path_starts_with path allowed_root"
  shows "load_step_ok env v allowed_root expected_kind step"
proof -
  let ?ok = "load_ok env v allowed_root expected_kind"
  have reported: "load_step_ok env v allowed_root expected_kind (Continue (report d st') [])"
      "load_step_ok env v allowed_root expected_kind (Break (report d st'))" if "?ok st'" for d st'
    using load_ok_report [OF that] by (simp_all add: load_step_ok_def)
  show ?thesis
  proof (cases "bmap_get (ls_loaded st) (path_key path) = None \<and> depth \<le> max_import_depth \<and> length (ls_loaded st) < max_documents")
    case False
    then consider (loaded) "bmap_get (ls_loaded st) (path_key path) \<noteq> None"
      | (deep) "(bmap_get (ls_loaded st) (path_key path) \<noteq> None) = False" "max_import_depth < depth"
      | (full) "(bmap_get (ls_loaded st) (path_key path) \<noteq> None) = False" "(max_import_depth < depth) = False"
          "\<not> length (ls_loaded st) < max_documents"
      by (auto simp: not_le)
    then show ?thesis
    proof cases
      case loaded
      with run have "step = Continue st []" by (simp only: load_document_def prod.case if_True sum.inject simp_thms)
      with ok show ?thesis by (simp add: load_step_ok_def)
    next
      case deep
      with run reported(1) [OF ok] show ?thesis
        unfolding load_document_def prod.case by (simp only: if_True if_False sum.inject) blast
    next
      case full
      with run reported(2) [OF ok] show ?thesis
        unfolding load_document_def prod.case not_less by (simp only: if_True if_False sum.inject) blast
    qed
  next
    case True
    then have room: "(bmap_get (ls_loaded st) (path_key path) \<noteq> None) = False"
        "(max_import_depth < depth) = False" "(max_documents \<le> length (ls_loaded st)) = False"
      by auto
    note start = run
    note run = run [unfolded load_document_def prod.case room if_False]
    show ?thesis
    proof (cases "se_read se path")
      case (Inl error)
      with run ok reported show ?thesis by (simp only: sum.case sum.inject) blast
    next
      case read: (Inr source)
      show ?thesis
      proof (cases "max_total_bytes < ls_total st + length source")
        case True
        with run read ok reported show ?thesis by (simp only: sum.case sum.inject if_True) blast
      next
        case False
        let ?st = "st\<lparr>ls_total := ls_total st + length source\<rparr>"
        have ok': "?ok ?st" using ok by (simp add: load_ok_def)
        note run = run [unfolded read sum.case, unfolded False [THEN eq_False [THEN iffD2]] if_False Let_def]
        show ?thesis
        proof (cases "se_parse se source")
          case (Inl d)
          with run ok' reported show ?thesis by (simp only: sum.case sum.inject) blast
        next
          case (Inr parsed)
          obtain json digest where parsed: "parsed = (json, digest)" by fastforce
          note run = run [unfolded Inr parsed sum.case prod.case]
          then obtain ds where ds: "document_diagnostics env v expected_kind path json = Inr ds"
            unfolding and_then_Inr by blast
          note run = run [unfolded ds and_then_simps]
          show ?thesis
          proof (cases "arch_digest_value env CanonicalModule json")
            case (Inl d)
            have "?ok (?st\<lparr>ls_diagnostics := ls_diagnostics ?st @ ds\<rparr>)"
              using ok by (simp add: load_ok_def)
            from reported(1) [OF this] run show ?thesis unfolding Inl sum.case sum.inject by blast
          next
            case (Inr canonical)
            let ?targets = "import_targets se allowed_root path json"
            let ?st' = "loaded_state allowed_root path source parsed ds canonical ?targets st"
            have step: "step = Continue ?st' (added_paths depth ?targets)"
              using load_document_loaded [OF _ _ _ read _ \<open>se_parse se source = Inr parsed\<close>, of st depth env v expected_kind ds canonical allowed_root]
                True False ds Inr start by (simp only: parsed fst_conv sum.inject not_less simp_thms)
            have "document_ok env v allowed_root expected_kind
                \<lparr>dc_portable_path = portable_path path allowed_root, dc_canonical_path = path,
                 dc_value = json, dc_source_digest = digest, dc_canonical_digest = canonical\<rparr>" if "ds = []"
              using document_diagnostics_none [of env v expected_kind path json] ds Inr path that
              by (simp add: document_ok_def)
            then have "?ok ?st'"
              using ok True
              by (auto simp: load_ok_def length_bmap_insert parsed dest!: subsetD [OF set_bmap_insert_subset])
            moreover have "\<forall>(p, _) \<in> set (added_paths depth ?targets). path_starts_with p allowed_root"
              using import_targets_within [of _ se allowed_root path json]
              by (auto simp: List.map_filter_def split: sum.splits)
            ultimately show ?thesis by (simp add: step load_step_ok_def)
          qed
        qed
      qed
    qed
  qed
qed

lemma load_loop_ok:
  assumes "load_loop se env v allowed_root expected_kind pending st = Inr st'"
    and "load_ok env v allowed_root expected_kind st"
    and "\<forall>(p, _) \<in> set pending. path_starts_with p allowed_root"
  shows "load_ok env v allowed_root expected_kind st'"
  using assms
proof (induction se env v allowed_root expected_kind pending st rule: load_loop.induct)
  case (2 se env v allowed_root expected_kind x pending st)
  obtain path depth where x: "x = (path, depth)" by fastforce
  from 2(2) obtain step where step: "load_document se env v allowed_root expected_kind x st = Inr step"
    by (cases "load_document se env v allowed_root expected_kind x st") simp_all
  with load_document_ok [of se env v allowed_root expected_kind path depth st step] 2(3,4) x
  have ok: "load_step_ok env v allowed_root expected_kind step" by simp
  show ?case
  proof (cases step)
    case (Continue t new)
    with 2 step ok show ?thesis by (simp add: load_step_ok_def) blast
  next
    case (Break t)
    with 2(2) step ok show ?thesis by (simp add: load_step_ok_def)
  qed
qed simp

subsection \<open>Loaded sets\<close>

abbreviation metadata_id :: "loaded_document \<Rightarrow> string option" where
  "metadata_id d \<equiv> str_at (json_at (dc_value d) ''metadata'') ''id''"

lemma length_bmap_insert_le: "length (bmap_insert k v m) \<le> Suc (length m)"
  by (induction m) (auto split: if_splits)

lemma collect_document_step:
  assumes "collect_document x st = Inr st'"
  shows "\<exists>i. metadata_id (snd x) = Some i \<and> snd st' = bmap_insert i (snd x) (snd st)"
  using assms by (cases st) (auto simp: collect_document_def and_then_Inr)

lemma collect_documents_from:
  assumes "fold_result collect_document xs st = Inr st'"
  shows "length (snd st') \<le> length (snd st) + length xs
    \<and> (\<forall>(i, d) \<in> set (snd st'). (i, d) \<in> set (snd st) \<or> metadata_id d = Some i \<and> d \<in> snd ` set xs)"
  using assms
proof (induction xs arbitrary: st)
  case (Cons x xs)
  from Cons.prems obtain t where t: "collect_document x st = Inr t"
    and rest: "fold_result collect_document xs t = Inr st'"
    by (cases "collect_document x st") simp_all
  from collect_document_step [OF t] obtain i where i: "metadata_id (snd x) = Some i"
    and t: "snd t = bmap_insert i (snd x) (snd st)" by blast
  from Cons.IH [OF rest] length_bmap_insert_le [of i "snd x" "snd st"] i
  show ?case by (auto simp: t dest!: subsetD [OF set_bmap_insert_subset] bspec)
qed auto

lemma collected_documents_wf:
  assumes "fold_result collect_document xs ([], []) = Inr (ds', documents')"
  shows "bmap_wf documents'"
proof -
  have "bmap_wf (snd (ds', documents'))"
    by (rule fold_result_inv [OF _ _ assms, where P = "\<lambda>st. bmap_wf (snd st)"])
      (auto dest!: collect_document_step simp: bmap_wf_insert)
  then show ?thesis by simp
qed

text \<open>
  An import is pinned when it names a document of the set, its source is the path of that document, and
  its version and digest are those of the document.
\<close>

definition document_import_pinned ::
    "source_env \<Rightarrow> string \<Rightarrow> documents \<Rightarrow> loaded_document \<Rightarrow> json \<Rightarrow> bool" where
  "document_import_pinned se allowed_root documents d imp \<longleftrightarrow>
     (\<exists>j e source. str_at imp ''module'' = Some j \<and> bmap_get documents j = Some e
        \<and> str_at imp ''source'' = Some source
        \<and> confined_path se allowed_root source
            (case path_parent (dc_canonical_path d) of None \<Rightarrow> allowed_root | Some p \<Rightarrow> p) = Inr (dc_canonical_path e)
        \<and> json_u64 (json_at imp ''architectureVersion'')
            = json_u64 (json_at (json_at (dc_value e) ''metadata'') ''architectureVersion'')
        \<and> str_at imp ''digest'' = Some (dc_canonical_digest e))"

lemma validate_document_import_none:
  assumes "validate_document_import se allowed_root documents i
      (case path_parent (dc_canonical_path d) of None \<Rightarrow> allowed_root | Some p \<Rightarrow> p) imp = Inr []"
  shows "document_import_pinned se allowed_root documents d imp"
proof -
  let ?parent = "case path_parent (dc_canonical_path d) of None \<Rightarrow> allowed_root | Some p \<Rightarrow> p"
  from assms obtain j where j: "str_at imp ''module'' = Some j"
    by (auto simp: validate_document_import_def and_then_Inr import_id_def)
  then have id: "import_id imp = Inr j" by (simp add: import_id_def)
  note run = assms [unfolded validate_document_import_def id and_then_simps]
  from run obtain e where e: "bmap_get documents j = Some e"
    by (cases "bmap_get documents j") simp_all
  note run = run [unfolded e option.case sum.inject append_is_Nil_conv]
  have path: "Option.bind (str_at imp ''source'') (\<lambda>source.
      case confined_path se allowed_root source ?parent of Inl _ \<Rightarrow> None | Inr p \<Rightarrow> Some p) = Some (dc_canonical_path e)"
    using run by (simp split: if_splits)
  then obtain source where "str_at imp ''source'' = Some source"
    "confined_path se allowed_root source ?parent = Inr (dc_canonical_path e)"
    by (cases "str_at imp ''source''"; cases "confined_path se allowed_root (the (str_at imp ''source'')) ?parent") auto
  moreover have "json_u64 (json_at imp ''architectureVersion'')
      = json_u64 (json_at (json_at (dc_value e) ''metadata'') ''architectureVersion'')"
    and "str_at imp ''digest'' = Some (dc_canonical_digest e)"
    using run by (simp_all split: if_splits)
  ultimately show ?thesis using j e by (auto simp: document_import_pinned_def)
qed

lemma validated_imports_pinned:
  assumes "validate_document_imports se allowed_root documents = Inr []" and "(i, d) \<in> set documents"
  shows "\<exists>imps. document_imports d = Inr imps
    \<and> (\<forall>imp \<in> set imps. document_import_pinned se allowed_root documents d imp)"
proof -
  let ?parent = "case path_parent (dc_canonical_path d) of None \<Rightarrow> allowed_root | Some p \<Rightarrow> p"
  obtain imps where imps: "document_imports d = Inr imps"
    and none: "diagnose (validate_document_import se allowed_root documents i ?parent) imps = Inr []"
    using bspec [OF assms(1) [unfolded validate_document_imports_def diagnose_empty] assms(2)]
    by (simp add: and_then_Inr Let_def) blast
  from none have "validate_document_import se allowed_root documents i ?parent imp = Inr []" if "imp \<in> set imps" for imp
    using that unfolding diagnose_empty by blast
  with imps show ?thesis by (blast intro: validate_document_import_none)
qed

text \<open>The parts of a successful load.\<close>

lemma load_set_parts:
  assumes "load_set se env v roots allowed expected_kind = Inr s"
  obtains allowed_root st0 st ids ds where "se_canonicalize se allowed = Inr allowed_root"
    and "ls_loaded st0 = []"
    and "load_loop se env v allowed_root expected_kind
        (map (\<lambda>p. (p, 0)) (rights (map (\<lambda>root. confined_path se allowed_root root allowed_root) roots))) st0 = Inr st"
    and "ls_diagnostics st = []"
    and "fold_result collect_document (ls_loaded st) ([], []) = Inr (ds, ds_documents s)"
    and "validate_document_imports se allowed_root (ds_documents s) = Inr []"
    and "validate_document_cycles (ds_documents s) = Inr []"
    and "map_result (root_id se allowed_root (ds_documents s)) roots = Inr ids" and "lefts ids = []"
    and "ds_roots s = remdups_adj (sort (rights ids))"
proof -
  from assms have "roots \<noteq> []" by (auto simp: load_set_def)
  note run = assms [unfolded load_set_def if_not_P [OF this]]
  from run obtain allowed_root where root: "se_canonicalize se allowed = Inr allowed_root"
    by (cases "se_canonicalize se allowed") simp_all
  let ?st0 = "\<lparr>ls_diagnostics = lefts (map (\<lambda>root. confined_path se allowed_root root allowed_root) roots),
      ls_loaded = [], ls_total = 0\<rparr>"
  note run = run [unfolded root sum.case Let_def]
  from run obtain st where st: "load_loop se env v allowed_root expected_kind
        (map (\<lambda>p. (p, 0)) (rights (map (\<lambda>root. confined_path se allowed_root root allowed_root) roots))) ?st0 = Inr st"
    unfolding and_then_Inr by blast
  note run = run [unfolded st and_then_simps]
  from run have none: "ls_diagnostics st = []" unfolding and_then_Inr refuse_Inr by blast
  note run = run [unfolded none]
  from run obtain ds1 documents where documents: "fold_result collect_document (ls_loaded st) ([], []) = Inr (ds1, documents)"
    unfolding and_then_Inr by fastforce
  note run = run [unfolded documents and_then_simps prod.case]
  from run obtain ds2 where ds2: "validate_document_imports se allowed_root documents = Inr ds2" unfolding and_then_Inr by blast
  note run = run [unfolded ds2 and_then_simps]
  from run obtain ds3 where ds3: "validate_document_cycles documents = Inr ds3" unfolding and_then_Inr by blast
  note run = run [unfolded ds3 and_then_simps]
  from run obtain ids where ids: "map_result (root_id se allowed_root documents) roots = Inr ids" unfolding and_then_Inr by blast
  note run = run [unfolded ids and_then_simps]
  from run have empty: "ds1 @ ds2 @ ds3 @ lefts ids = []" unfolding and_then_Inr refuse_Inr by blast
  note run = run [unfolded empty]
  from run have "s = \<lparr>ds_roots = remdups_adj (sort (rights ids)), ds_documents = documents\<rparr>"
    by (simp add: refuse_def)
  then have s: "ds_documents s = documents" "ds_roots s = remdups_adj (sort (rights ids))" by simp_all
  show thesis
    by (rule that [OF root _ st none, of ds1 ids]) (use documents ds2 ds3 ids empty s in simp_all)
qed

lemma in_rights: "x \<in> set (rights xs) \<longleftrightarrow> Inr x \<in> set xs"
  by (force simp: rights_def List.map_filter_def split: sum.splits)

lemma no_lefts: "lefts xs = [] \<Longrightarrow> y \<in> set xs \<Longrightarrow> \<exists>x. y = Inr x"
  by (cases y) (force simp: lefts_def List.map_filter_def filter_empty_conv)+

lemma root_id_found:
  assumes "root_id se allowed_root documents root = Inr (Inr i)"
  obtains k d where "(k, d) \<in> set documents" and "confined_path se allowed_root root allowed_root = Inr (dc_canonical_path d)"
    and "metadata_id d = Some i"
proof -
  from assms obtain path where path: "confined_path se allowed_root root allowed_root = Inr path"
    by (cases "confined_path se allowed_root root allowed_root") (simp_all add: root_id_def)
  let ?find = "find (\<lambda>(_, document). dc_canonical_path document = path) documents"
  from assms path obtain k d where found: "?find = Some (k, d)"
    by (cases ?find) (auto simp: root_id_def)
  then have "(k, d) \<in> set documents" "dc_canonical_path d = path"
    by (auto simp: find_Some_iff in_set_conv_nth)
  moreover have "metadata_id d = Some i" using assms by (simp add: root_id_def path found and_then_Inr)
  ultimately show thesis using path by (intro that) simp_all
qed

text \<open>C16: A loaded set of architecture documents is confined, pinned and closed. Every document lies under
  the canonical allowed root, is of the expected kind, passes the validation of its vocabulary, is filed
  under its own ID and has the digest of its content. Every import of every document names a document
  of the set, by the path, the version and the digest of exactly that document, and no document imports
  itself, directly or not. Every root is one of the documents, and there are at most 4096.\<close>

theorem loaded_sets_are_confined_and_pinned:
  assumes "load_set se env v roots allowed expected_kind = Inr s"
  shows "\<exists>allowed_root. se_canonicalize se allowed = Inr allowed_root
    \<and> length (ds_documents s) \<le> max_documents
    \<and> (\<forall>(i, d) \<in> set (ds_documents s). document_ok env v allowed_root expected_kind d \<and> metadata_id d = Some i
        \<and> (\<exists>imps. document_imports d = Inr imps
             \<and> (\<forall>imp \<in> set imps. document_import_pinned se allowed_root (ds_documents s) d imp)))
    \<and> acyclic (closure_edges (ds_documents s))
    \<and> (\<forall>root \<in> set roots. \<exists>i \<in> set (ds_roots s). \<exists>d. bmap_get (ds_documents s) i = Some d
        \<and> confined_path se allowed_root root allowed_root = Inr (dc_canonical_path d))"
  using assms
proof (rule load_set_parts)
  fix allowed_root st0 st ids ds
  let ?docs = "ds_documents s"
  let ?pending = "map (\<lambda>p. (p, 0 :: nat)) (rights (map (\<lambda>root. confined_path se allowed_root root allowed_root) roots))"
  assume root: "se_canonicalize se allowed = Inr allowed_root" and empty: "ls_loaded st0 = []"
    and loop: "load_loop se env v allowed_root expected_kind ?pending st0 = Inr st"
    and none: "ls_diagnostics st = []"
    and collected: "fold_result collect_document (ls_loaded st) ([], []) = Inr (ds, ?docs)"
    and imported: "validate_document_imports se allowed_root ?docs = Inr []"
    and cycles: "validate_document_cycles ?docs = Inr []"
    and ids: "map_result (root_id se allowed_root ?docs) roots = Inr ids" "lefts ids = []"
    and roots: "ds_roots s = remdups_adj (sort (rights ids))"
  have "load_ok env v allowed_root expected_kind st0" by (simp add: load_ok_def empty max_documents_def)
  moreover have "\<forall>(p, _) \<in> set ?pending. path_starts_with p allowed_root"
    by (auto simp: in_rights dest: sym [THEN confined_path_within])
  ultimately have "load_ok env v allowed_root expected_kind st" by (rule load_loop_ok [OF loop])
  then have ok: "\<forall>(k, d) \<in> set (ls_loaded st). document_ok env v allowed_root expected_kind d"
    and few: "length (ls_loaded st) \<le> max_documents"
    using none by (simp_all add: load_ok_def)
  note origin = collect_documents_from [OF collected, simplified]
  have wf: "bmap_wf ?docs" by (rule collected_documents_wf [OF collected])
  have documents: "document_ok env v allowed_root expected_kind d \<and> metadata_id d = Some i
      \<and> (\<exists>imps. document_imports d = Inr imps
           \<and> (\<forall>imp \<in> set imps. document_import_pinned se allowed_root ?docs d imp))" if "(i, d) \<in> set ?docs" for i d
    using origin that ok validated_imports_pinned [OF imported that] by fastforce
  have "closure_edges ?docs \<subseteq> keys ?docs \<times> keys ?docs"
  proof
    fix e assume "e \<in> closure_edges ?docs"
    then obtain i j d js where e: "e = (i, j)" and d: "bmap_get ?docs i = Some d" and js: "import_ids d = Inr js" "j \<in> set js"
      by (auto simp: closure_edges_def)
    have "(i, d) \<in> set ?docs" by (rule bmap_get_SomeD [OF d])
    with documents obtain imps where imps: "document_imports d = Inr imps"
      "\<forall>imp \<in> set imps. document_import_pinned se allowed_root ?docs d imp" by blast
    with js obtain imp where "imp \<in> set imps" "import_id imp = Inr j"
      using map_result_Inr [of import_id imps js] by (auto simp: import_ids_def)
    with imps(2) obtain target where "bmap_get ?docs j = Some target"
      by (fastforce simp: document_import_pinned_def import_id_def)
    then show "e \<in> keys ?docs \<times> keys ?docs"
      using \<open>(i, d) \<in> set ?docs\<close> bmap_get_SomeD [of ?docs j target] by (force simp: e)
  qed
  then have "acyclic (closure_edges ?docs)"
    using validated_cycles_acyclic [OF cycles] by (simp add: Int_absorb2)
  moreover have "\<exists>i \<in> set (ds_roots s). \<exists>d. bmap_get ?docs i = Some d
      \<and> confined_path se allowed_root x allowed_root = Inr (dc_canonical_path d)" if "x \<in> set roots" for x
  proof -
    from map_result_all [OF ids(1) that] no_lefts [OF ids(2)] obtain i where i: "Inr i \<in> set ids"
      and "root_id se allowed_root ?docs x = Inr (Inr i)" by blast
    then obtain k d where d: "(k, d) \<in> set ?docs" "confined_path se allowed_root x allowed_root = Inr (dc_canonical_path d)"
      "metadata_id d = Some i" by (blast elim: root_id_found)
    with documents have "k = i" by fastforce
    with d wf have "bmap_get ?docs i = Some d" by (simp add: bmap_get_iff)
    with d(2) i show ?thesis by (auto simp: roots in_rights)
  qed
  ultimately show ?thesis using root documents few origin by (intro exI [of _ allowed_root] conjI) auto
qed

text \<open>Two documents of a small file system, the first importing the second.\<close>

definition loadable_base :: json where
  "loadable_base = example_module ''base'' [] [] [] [] [] []"

definition loadable_app :: json where
  "loadable_app =
     example_module ''app''
       [JObject [(''module'', JString ''base''), (''source'', JString ''base.yaml''),
          (''architectureVersion'', JNumber (PosInt 1)), (''digest'', JString ''sha256:digest'')]]
       [] [] [] [] []"

definition loadable_files :: source_env where
  "loadable_files =
     \<lparr>se_canonicalize = Inr,
      se_read = (\<lambda>p. if p = ''/r/app.yaml'' then Inr ''a'' else if p = ''/r/base.yaml'' then Inr ''b'' else Inl ''missing''),
      se_parse = (\<lambda>b. Inr (if b = ''a'' then loadable_app else loadable_base, ''sha256:source''))\<rparr>"

definition loadable_document :: "string \<Rightarrow> json \<Rightarrow> loaded_document" where
  "loadable_document file value =
     \<lparr>dc_portable_path = file, dc_canonical_path = ''/r/'' @ file, dc_value = value,
      dc_source_digest = ''sha256:source'', dc_canonical_digest = ''sha256:digest''\<rparr>"

definition loadable_set :: document_set where
  "loadable_set =
     \<lparr>ds_roots = [''app''],
      ds_documents = [(''app'', loadable_document ''app.yaml'' loadable_app),
        (''base'', loadable_document ''base.yaml'' loadable_base)]\<rparr>"

lemma loadable_loop:
  "load_loop loadable_files example_env example_vocabulary ''/r'' ''ArchitectureModule'' [(''/r/app.yaml'', 0)]
     \<lparr>ls_diagnostics = [], ls_loaded = [], ls_total = 0\<rparr>
   = Inr \<lparr>ls_diagnostics = [],
       ls_loaded = [([''/'', ''r'', ''app.yaml''], loadable_document ''app.yaml'' loadable_app),
         ([''/'', ''r'', ''base.yaml''], loadable_document ''base.yaml'' loadable_base)],
       ls_total = 2\<rparr>"
proof -
  let ?load = "load_document loadable_files example_env example_vocabulary ''/r'' ''ArchitectureModule''"
  let ?app = "([''/'', ''r'', ''app.yaml''], loadable_document ''app.yaml'' loadable_app)"
  let ?base = "([''/'', ''r'', ''base.yaml''], loadable_document ''base.yaml'' loadable_base)"
  have valid: "document_diagnostics example_env example_vocabulary ''ArchitectureModule'' ''/r/app.yaml'' loadable_app = Inr []"
      "document_diagnostics example_env example_vocabulary ''ArchitectureModule'' ''/r/base.yaml'' loadable_base = Inr []"
    by code_simp+
  have digest: "arch_digest_value example_env CanonicalModule loadable_app = Inr ''sha256:digest''"
      "arch_digest_value example_env CanonicalModule loadable_base = Inr ''sha256:digest''"
    by code_simp+
  note limits = max_import_depth_def max_documents_def max_total_bytes_def
  have targets: "import_targets loadable_files ''/r'' ''/r/app.yaml'' loadable_app = [Inr ''/r/base.yaml'']"
      "import_targets loadable_files ''/r'' ''/r/base.yaml'' loadable_base = []"
    by code_simp+
  have key: "path_key ''/r/app.yaml'' = [''/'', ''r'', ''app.yaml'']" "path_key ''/r/base.yaml'' = [''/'', ''r'', ''base.yaml'']"
      "portable_path ''/r/app.yaml'' ''/r'' = ''app.yaml''" "portable_path ''/r/base.yaml'' ''/r'' = ''base.yaml''"
    by code_simp+
  have insert: "bmap_insert [''/'', ''r'', ''base.yaml''] d [([''/'', ''r'', ''app.yaml''], e)]
      = [([''/'', ''r'', ''app.yaml''], e), ([''/'', ''r'', ''base.yaml''], d)]" for d e :: loaded_document
    by code_simp
  have files: "se_read loadable_files ''/r/app.yaml'' = Inr ''a''" "se_read loadable_files ''/r/base.yaml'' = Inr ''b''"
      "se_parse loadable_files ''a'' = Inr (loadable_app, ''sha256:source'')"
      "se_parse loadable_files ''b'' = Inr (loadable_base, ''sha256:source'')"
    by (simp_all add: loadable_files_def)
  have "?load (''/r/app.yaml'', 0) \<lparr>ls_diagnostics = [], ls_loaded = [], ls_total = 0\<rparr>
      = Inr (Continue \<lparr>ls_diagnostics = [], ls_loaded = [?app], ls_total = 1\<rparr> [(''/r/base.yaml'', 1)])"
    by (subst load_document_loaded [where source = "''a''" and parsed = "(loadable_app, ''sha256:source'')"
          and ds = "[]" and digest = "''sha256:digest''"])
      (simp_all only: files fst_conv valid digest targets,
        simp_all add: limits key loadable_document_def List.map_filter_def)
  moreover have "?load (''/r/base.yaml'', 1) \<lparr>ls_diagnostics = [], ls_loaded = [?app], ls_total = 1\<rparr>
      = Inr (Continue \<lparr>ls_diagnostics = [], ls_loaded = [?app, ?base], ls_total = 2\<rparr> [])"
    by (subst load_document_loaded [where source = "''b''" and parsed = "(loadable_base, ''sha256:source'')"
          and ds = "[]" and digest = "''sha256:digest''"])
      (simp_all only: files fst_conv valid digest targets,
        simp_all add: limits key loadable_document_def List.map_filter_def bmap_get_def insert)
  ultimately show ?thesis by simp
qed

lemma loadable_set_loads:
  "load_set loadable_files example_env example_vocabulary [''app.yaml''] ''/r'' ''ArchitectureModule'' = Inr loadable_set"
proof -
  let ?docs = "ds_documents loadable_set"
  have root: "se_canonicalize loadable_files ''/r'' = Inr ''/r''" by (simp add: loadable_files_def)
  have confined: "confined_path loadable_files ''/r'' ''app.yaml'' ''/r'' = Inr ''/r/app.yaml''" by code_simp
  have collected: "fold_result collect_document
      [([''/'', ''r'', ''app.yaml''], loadable_document ''app.yaml'' loadable_app),
       ([''/'', ''r'', ''base.yaml''], loadable_document ''base.yaml'' loadable_base)] ([], []) = Inr ([], ?docs)"
    by code_simp
  have checks: "validate_document_imports loadable_files ''/r'' ?docs = Inr []" "validate_document_cycles ?docs = Inr []"
      "map_result (root_id loadable_files ''/r'' ?docs) [''app.yaml''] = Inr [Inr ''app'']"
    by code_simp+
  show ?thesis
    unfolding load_set_def
    by (simp add: root confined rights_def lefts_def List.map_filter_def loadable_loop refuse_def collected checks
        del: load_loop.simps map_result.simps fold_result.simps) (simp add: loadable_set_def)
qed

theorem loaded_sets_are_confined_and_pinned_witness:
  "acyclic (closure_edges (ds_documents loadable_set))
   \<and> document_import_pinned loadable_files ''/r'' (ds_documents loadable_set)
       (loadable_document ''app.yaml'' loadable_app) (hd (elements (array_at loadable_app ''imports'')))"
proof -
  have found: "document_imports (loadable_document ''app.yaml'' loadable_app) = Inr (elements (array_at loadable_app ''imports''))"
    and "elements (array_at loadable_app ''imports'') \<noteq> []" by code_simp+
  then have "hd (elements (array_at loadable_app ''imports'')) \<in> set (elements (array_at loadable_app ''imports''))"
    by (intro hd_in_set)
  moreover have "(''app'', loadable_document ''app.yaml'' loadable_app) \<in> set (ds_documents loadable_set)"
    by (simp add: loadable_set_def)
  moreover have "se_canonicalize loadable_files ''/r'' = Inr ''/r''" by (simp add: loadable_files_def)
  ultimately show ?thesis
    using loaded_sets_are_confined_and_pinned [OF loadable_set_loads] found by fastforce
qed

end
