(* ===== verification/ArchCompiler.thy ===== *)
theory ArchCompiler
  imports ArchDocuments
begin

text \<open>
  The compile command (\<open>src/architecture/compiler.rs\<close>) and the check of a saved compilation
  (\<open>baseline.rs\<close>), which makes the conformance evaluation of a saved graph safe from panics.
\<close>

definition cargo_pkg_version :: string where
  "cargo_pkg_version = ''0.10.0''"

definition compiler_version :: string where
  "compiler_version = ''codeatlas-architecture-compiler/0.1''"

subsection \<open>Digests of graphs and closures\<close>

fun compile_mode_name :: "compile_mode \<Rightarrow> string" where
  "compile_mode_name Governing = ''governing''"
| "compile_mode_name Review = ''review''"

definition declarations_json :: "declarations \<Rightarrow> json" where
  "declarations_json ds =
     JObject (map (\<lambda>(i, d). (i, json_map [(''module'', JString (gd_module d)), (''declaration'', gd_declaration d)])) ds)"

definition graph_json :: "compiled_graph \<Rightarrow> json" where
  "graph_json g =
     json_map [(''mode'', JString (compile_mode_name (cg_mode g))),
       (''objects'', declarations_json (cg_objects g)), (''relations'', declarations_json (cg_relations g)),
       (''bindings'', declarations_json (cg_bindings g)), (''constraints'', declarations_json (cg_constraints g))]"

definition graph_digest :: "arch_env \<Rightarrow> compiled_graph \<Rightarrow> arch_diagnostic + string" where
  "graph_digest env g =
     arch_digest_value env (case cg_mode g of Governing \<Rightarrow> GoverningGraph | Review \<Rightarrow> ReviewGraph) (graph_json g)"

definition closure_root :: "string \<Rightarrow> string \<Rightarrow> json" where
  "closure_root i digest = json_map [(''moduleId'', JString i), (''importClosureDigest'', JString digest)]"

definition architecture_closure :: "(string \<times> string) list \<Rightarrow> vocabulary_identity \<Rightarrow> string \<Rightarrow> json" where
  "architecture_closure roots v version =
     json_map [(''roots'', JArray (map (\<lambda>(i, digest). closure_root i digest) roots)),
       (''vocabulary'', json_map [(''id'', JString (vi_id v)), (''version'', json_nat (vi_version v)),
          (''digest'', JString (vi_digest v))]),
       (''compilerVersion'', JString version)]"

subsection \<open>The compile command\<close>

definition lock_document_of :: "string \<Rightarrow> loaded_document \<Rightarrow> string \<Rightarrow> lock_document arch" where
  "lock_document_of module_id d digest =
     and_then (expects (json_u64 (json_at (json_at (dc_value d) ''metadata'') ''architectureVersion''))
         ''validated architecture version'') (\<lambda>version.
       Inr \<lparr>ld_module_id = module_id, ld_architecture_version = version, ld_source = dc_portable_path d,
         ld_source_document_digest = dc_source_digest d, ld_canonical_module_digest = dc_canonical_digest d,
         ld_import_closure_digest = digest\<rparr>)"

definition lock_documents :: "arch_env \<Rightarrow> document_set \<Rightarrow> lock_document list arch" where
  "lock_documents env s =
     and_then (map_result (\<lambda>(i, d).
         and_then (import_closure_digest env s i) (lock_document_of i d)) (ds_documents s))
       (\<lambda>locks. Inr (sort_key ld_module_id locks))"

text \<open>\<open>closure_digests[id]\<close> panics where the identifier is not a document of the set.\<close>

definition closure_roots :: "lock_document list \<Rightarrow> string list \<Rightarrow> (string \<times> string) list arch" where
  "closure_roots locks roots =
     map_result (\<lambda>i.
       and_then (expects (find (\<lambda>l. ld_module_id l = i) locks) ''no entry found for key'')
         (\<lambda>l. Inr (i, ld_import_closure_digest l))) roots"

definition compile_architecture ::
    "source_env \<Rightarrow> arch_env \<Rightarrow> vocabulary \<Rightarrow> string list \<Rightarrow> string \<Rightarrow> compile_mode \<Rightarrow> compile_result arch" where
  "compile_architecture se env v roots allowed_root mode =
     and_then (load_set se env v roots allowed_root ''ArchitectureModule'') (\<lambda>loaded.
     and_then (compile_graph env (document_values loaded) v mode) (\<lambda>g.
     and_then (lock_documents env loaded) (\<lambda>locks.
     and_then (closure_roots locks (ds_roots loaded)) (\<lambda>pinned.
     and_then (digested env ArchitectureClosure (architecture_closure pinned (vocabulary_identity_of v) compiler_version))
       (\<lambda>closure.
     and_then (case graph_digest env g of Inl d \<Rightarrow> Inl (ArchRefused [d]) | Inr digest \<Rightarrow> Inr digest) (\<lambda>digest.
       Inr \<lparr>co_report = \<lparr>rp_schema_version = architecture_schema_version, rp_api_version = architecture_api_version,
              rp_tool_version = cargo_pkg_version, rp_compiler_version = compiler_version, rp_mode = mode,
              rp_architecture_closure_digest = closure, rp_graph_digest = digest,
              rp_vocabulary = vocabulary_identity_of v, rp_roots = ds_roots loaded, rp_graph = g\<rparr>,
            co_lockfile = \<lparr>lf_schema_version = architecture_schema_version, lf_api_version = architecture_api_version,
              lf_generated = True, lf_manual_editing = ''prohibited'',
              lf_generator = \<lparr>gi_id = ''codeatlas.tool.architecture-compiler'', gi_version = cargo_pkg_version\<rparr>,
              lf_roots = ds_roots loaded, lf_vocabulary = vocabulary_identity_of v, lf_documents = locks\<rparr>\<rparr>))))))"

subsection \<open>A saved compilation\<close>

definition fail_unless :: "bool \<Rightarrow> string \<Rightarrow> string \<Rightarrow> arch_diagnostic list" where
  "fail_unless condition code message = (if condition then [] else [error_diagnostic code message])"

definition baseline_header :: "vocabulary \<Rightarrow> compile_result \<Rightarrow> arch_diagnostic list" where
  "baseline_header v compilation =
     (let rp = co_report compilation; lf = co_lockfile compilation
      in fail_unless (rp_schema_version rp = architecture_schema_version \<and> lf_schema_version lf = architecture_schema_version)
           ''baseline.schema-version-unsupported''
           (''architecture baseline requires schema version '' @ decimal architecture_schema_version)
       @ fail_unless (rp_api_version rp = architecture_api_version \<and> lf_api_version lf = architecture_api_version)
           ''baseline.api-version-unsupported''
           (''architecture baseline requires API version '' @ architecture_api_version)
       @ fail_unless (rp_mode rp = cg_mode (rp_graph rp)) ''baseline.mode-mismatch''
           ''compilation mode and graph mode differ''
       @ fail_unless (rp_roots rp = lf_roots lf) ''baseline.roots-mismatch''
           ''compilation roots and lockfile roots differ''
       @ fail_unless (rp_roots rp \<noteq> [] \<and> distinct (rp_roots rp)) ''baseline.roots-invalid''
           ''architecture baseline roots must be non-empty and unique''
       @ fail_unless (rp_vocabulary rp = lf_vocabulary lf) ''baseline.vocabulary-mismatch''
           ''compilation and lockfile use different vocabularies''
       @ fail_unless (rp_vocabulary rp = vocabulary_identity_of v) ''baseline.vocabulary-unsupported''
           ''architecture baseline does not use the current bundled vocabulary''
       @ fail_unless (lf_generated lf \<and> lf_manual_editing lf = ''prohibited'') ''baseline.lockfile-provenance-invalid''
           ''architecture lockfile must be generated and prohibit manual editing''
       @ fail_unless (rp_tool_version rp \<noteq> [] \<and> rp_compiler_version rp \<noteq> [] \<and> gi_id (lf_generator lf) \<noteq> []
           \<and> gi_version (lf_generator lf) \<noteq> []) ''baseline.generator-invalid''
           ''architecture baseline generator identities must be non-empty'')"

definition baseline_graph_digest :: "arch_env \<Rightarrow> compilation_report \<Rightarrow> arch_diagnostic list" where
  "baseline_graph_digest env rp =
     (case graph_digest env (rp_graph rp) of
        Inr digest \<Rightarrow> fail_unless (digest = rp_graph_digest rp) ''baseline.graph-digest-mismatch''
          ''compiled graph does not match its recorded digest''
      | Inl d \<Rightarrow> [d])"

definition baseline_lock ::
    "lock_document \<Rightarrow> arch_diagnostic list \<times> (string, string) bmap \<Rightarrow> arch_diagnostic list \<times> (string, string) bmap" where
  "baseline_lock d st =
     (case st of (ds, locks) \<Rightarrow>
        (ds @ fail_unless (bmap_get locks (ld_module_id d) = None) ''baseline.lockfile-module-duplicate''
                (''lockfile repeats module '' @ ld_module_id d)
            @ fail_unless (is_qualified_identifier (ld_module_id d) \<and> ld_architecture_version d \<noteq> 0)
                ''baseline.lockfile-module-invalid'' (''lockfile module '' @ ld_module_id d @ '' has invalid identity'')
            @ concat (map (\<lambda>digest. fail_unless (\<exists>x. digest_from_str digest = Inr x) ''baseline.digest-invalid''
                  (''lockfile module '' @ ld_module_id d @ '' has an invalid digest''))
                [ld_source_document_digest d, ld_canonical_module_digest d, ld_import_closure_digest d]),
         bmap_insert (ld_module_id d) (ld_import_closure_digest d) locks))"

text \<open>\<open>all\<close> stops at the first root that is not locked, so at most one root is reported.\<close>

definition baseline_roots :: "compilation_report \<Rightarrow> (string, string) bmap \<Rightarrow> arch_diagnostic list" where
  "baseline_roots rp locks =
     (case find (\<lambda>root. bmap_get locks root = None) (rp_roots rp) of
        None \<Rightarrow> []
      | Some root \<Rightarrow> [error_diagnostic ''baseline.root-unresolved''
          (''baseline root '' @ root @ '' is absent from the lockfile'')])"

definition baseline_closure :: "arch_env \<Rightarrow> compilation_report \<Rightarrow> (string, string) bmap \<Rightarrow> arch_diagnostic list" where
  "baseline_closure env rp locks =
     (if list_ex (\<lambda>root. bmap_get locks root = None) (rp_roots rp) then []
      else case arch_digest_value env ArchitectureClosure
          (architecture_closure (map (\<lambda>i. (i, case bmap_get locks i of None \<Rightarrow> [] | Some digest \<Rightarrow> digest)) (rp_roots rp))
             (rp_vocabulary rp) (rp_compiler_version rp)) of
        Inr digest \<Rightarrow> fail_unless (digest = rp_architecture_closure_digest rp)
          ''baseline.architecture-closure-digest-mismatch''
          ''architecture closure does not match its recorded digest''
      | Inl d \<Rightarrow> [d])"

definition baseline_declaration ::
    "(string, string) bmap \<Rightarrow> string \<Rightarrow> string \<times> graph_declaration \<Rightarrow> arch_diagnostic list \<times> string bset
     \<Rightarrow> arch_diagnostic list \<times> string bset" where
  "baseline_declaration locks category x st =
     (case x of (i, d) \<Rightarrow> case st of (ds, ids) \<Rightarrow>
        (ds @ fail_unless (is_qualified_identifier i \<and> i \<notin> set ids) ''baseline.declaration-id-invalid''
                (category @ '' '' @ i @ '' has an invalid or duplicate identity'')
            @ fail_unless (bmap_get locks (gd_module d) \<noteq> None) ''baseline.declaration-owner-unresolved''
                (category @ '' '' @ i @ '' names unlocked module '' @ gd_module d)
            @ fail_unless (json_object (gd_declaration d) \<noteq> None) ''baseline.declaration-invalid''
                (category @ '' '' @ i @ '' is not an object declaration''),
         if is_qualified_identifier i then bset_insert i ids else ids))"

definition baseline_declarations :: "compiled_graph \<Rightarrow> (string, string) bmap \<Rightarrow> arch_diagnostic list" where
  "baseline_declarations g locks =
     fst (fold (\<lambda>(category, decls). fold (baseline_declaration locks category) decls)
       [(''object'', cg_objects g), (''relation'', cg_relations g), (''binding'', cg_bindings g),
        (''constraint'', cg_constraints g)] ([], []))"

definition cardinalities :: "string list" where
  "cardinalities = [''exactly_one'', ''at_most_one'', ''one_or_more'', ''any'']"

definition baseline_binding :: "compiled_graph \<Rightarrow> string \<times> graph_declaration \<Rightarrow> arch_diagnostic list" where
  "baseline_binding g x =
     (case x of (i, binding) \<Rightarrow>
        let d = gd_declaration binding
        in fail_unless ((case str_at d ''target'' of None \<Rightarrow> False | Some target \<Rightarrow> bmap_get (cg_objects g) target \<noteq> None)
             \<and> str_at (json_at d ''adapter'') ''kind'' \<noteq> None \<and> str_at (json_at d ''selector'') ''name'' \<noteq> None
             \<and> (case str_at d ''cardinality'' of None \<Rightarrow> False | Some c \<Rightarrow> c \<in> set cardinalities))
             ''baseline.binding-invalid''
             (''binding '' @ i @ '' lacks a valid target, adapter, selector, or cardinality''))"

definition baseline_object :: "string \<times> graph_declaration \<Rightarrow> arch_diagnostic list" where
  "baseline_object x =
     (case x of (i, object) \<Rightarrow>
        fail_unless (str_at (gd_declaration object) ''kind'' \<noteq> None) ''baseline.object-invalid''
          (''object '' @ i @ '' lacks a valid kind''))"

definition validate_loaded :: "arch_env \<Rightarrow> vocabulary \<Rightarrow> compile_result \<Rightarrow> arch_diagnostic list" where
  "validate_loaded env v compilation =
     (let rp = co_report compilation; g = rp_graph rp
      in case fold baseline_lock (lf_documents (co_lockfile compilation)) ([], []) of (lock_diagnostics, locks) \<Rightarrow>
           baseline_header v compilation @ baseline_graph_digest env rp @ lock_diagnostics
           @ baseline_roots rp locks @ baseline_closure env rp locks @ baseline_declarations g locks
           @ concat (map (baseline_binding g) (cg_bindings g)) @ concat (map baseline_object (cg_objects g)))"

subsection \<open>A checked compilation can be evaluated\<close>

lemma fail_unless_Nil [simp]: "fail_unless condition code message = [] \<longleftrightarrow> condition"
  by (simp add: fail_unless_def)

lemma validate_loaded_parts:
  assumes "validate_loaded env v compilation = []"
  shows "x \<in> set (cg_bindings (rp_graph (co_report compilation))) \<Longrightarrow>
      baseline_binding (rp_graph (co_report compilation)) x = []"
    and "y \<in> set (cg_objects (rp_graph (co_report compilation))) \<Longrightarrow> baseline_object y = []"
  using assms by (auto simp: validate_loaded_def Let_def split: prod.splits)

lemma known_cardinality_matches: "c \<in> set cardinalities \<Longrightarrow> \<exists>b. cardinality_matches c n = Inr b"
  by (auto simp: cardinalities_def cardinality_matches_def)

lemma case_some_iff: "(case x of None \<Rightarrow> False | Some y \<Rightarrow> P y) \<longleftrightarrow> (\<exists>y. x = Some y \<and> P y)"
  by (cases x) simp_all

lemma evaluate_one_binding_returns:
  assumes binding: "baseline_binding g x = []"
    and objects: "\<And>y. y \<in> set (cg_objects g) \<Longrightarrow> baseline_object y = []"
  shows "\<exists>st'. evaluate_one_binding g ob x st = Inr st'"
proof -
  obtain i b where x: "x = (i, b)" by fastforce
  obtain targets results where st: "st = (targets, results)" by fastforce
  let ?d = "gd_declaration b"
  note checks = binding [unfolded baseline_binding_def x prod.case Let_def fail_unless_Nil case_some_iff not_None_eq]
  from conjunct1 [OF checks] obtain target object where target: "str_at ?d ''target'' = Some target"
    and object: "bmap_get (cg_objects g) target = Some object" by (elim exE conjE)
  from conjunct1 [OF conjunct2 [OF checks]] obtain adapter
    where adapter: "str_at (json_at ?d ''adapter'') ''kind'' = Some adapter" by (elim exE)
  from conjunct2 [OF conjunct2 [OF conjunct2 [OF checks]]] obtain c where c: "str_at ?d ''cardinality'' = Some c"
    "c \<in> set cardinalities" by (elim exE conjE)
  have "baseline_object (target, object) = []" by (rule objects [OF bmap_get_SomeD [OF object]])
  then obtain kind where kind: "str_at (gd_declaration object) ''kind'' = Some kind"
    by (auto simp: baseline_object_def)
  obtain ok where "cardinality_matches c (length (binding_facts ob i target)) = Inr ok"
    using known_cardinality_matches [OF c(2)] by blast
  then show ?thesis
    by (simp add: evaluate_one_binding_def evaluate_binding_def x st expects_def target object adapter c(1) kind Let_def)
qed

text \<open>
  Every index and \<open>expect\<close> of the evaluation is covered by the check of a saved compilation: on a
  compilation that passes it, the evaluation of any observation returns.
\<close>

theorem checked_compilation_evaluates:
  assumes "validate_loaded env v compilation = []"
  shows "\<exists>results. evaluate (rp_graph (co_report compilation)) ob = Inr results"
proof -
  let ?g = "rp_graph (co_report compilation)"
  note parts = validate_loaded_parts [OF assms]
  have "\<exists>st'. fold_result (evaluate_one_binding ?g ob) xs st = Inr st'" if "set xs \<subseteq> set (cg_bindings ?g)" for xs st
    using that
  proof (induction xs arbitrary: st)
    case (Cons x xs)
    then have "x \<in> set (cg_bindings ?g)" by simp
    from evaluate_one_binding_returns [OF parts(1) [OF this] parts(2)]
    obtain st1 where "evaluate_one_binding ?g ob x st = Inr st1" by blast
    with Cons show ?case by simp
  qed simp
  then obtain st where "fold_result (evaluate_one_binding ?g ob) (cg_bindings ?g) ([], []) = Inr st" by blast
  then show ?thesis by (cases st) (simp add: evaluate_def)
qed

end
