(* ===== verification/Spec2Isabelle.thy ===== *)
theory Spec2Isabelle
  imports Redaction Lease Limits BudgetLedger PermitBroker ArtifactContract SqlContract SqlLexProps
    DeadCodeContract ContextSliceProps TestWitnessProps ArchObservationProps
    ArchDocumentsContract ArchCompiler
begin

text \<open>
  A verification library for CodeAtlas (the Rust crate under src/src).  CodeAtlas scans a repository
  into a source graph, answers questions about it (what is reachable, what is dead code, which tests a
  change affects), checks a repository against its declared architecture, and runs controlled
  experiments (fuzzing, HTTP and SQL probes) under plans that bound what a run may do.
  The library models the code that decides: the analyses of the source graph, the architecture
  compiler and its conformance check, the static analysis of SQL, and the kernel of execution that
  admits, bounds, accounts for and cleans up the calls of a run.

  \<^bold>\<open>Foundations.\<close>  Prelude has list, fold, word and bind lemmas and the library's collections of
  rewrite rules.  BTree models Rust's BTreeMap and BTreeSet as lists sorted by key, with insertion,
  lookup, entry and union; its locale of ordered keys is interpreted where it is used.  Utf8 models
  strings as byte lists with their character boundaries, Decimal the formatting of integers, Json
  the values of serde_json.  Search is the breadth-first loop the analyses share: a queue, a visited
  map and an adjacency map; its locale of labelled searches is interpreted on the three loops of the
  code (distances, hops with their root, plain membership), each of which visits exactly the nodes
  reachable from the queue, with the least label.

  \<^bold>\<open>Execution (src/src/execution).\<close>
  \<^item> ExecModel: call categories, limits, usage (model.rs).
  \<^item> Budget: CallBudget of budget.rs, one function per operation that runs under the lock.
    Instants and durations are nanoseconds, the semaphore is its number of free permits.
    BudgetMachine: the interleavings of concurrent callers as a step relation, with a step for every
    await of reserve_call, for finishing and dropping a permit, cancellation, and the passing of time.
    BudgetProps and BudgetContract: the invariants of the machine and the theorems on allowances,
    concurrency, rates, the cleanup reserve (its slots, in every interleaving) and the usage snapshot.  BudgetLedger: an abstract ledger
    of calls that the machine refines.  BudgetOwners: every unsettled call has at most one owner.
  \<^item> PermitBroker: call_permit.rs, the frames of its protocol and the connections as steps together
    with those of the budget; the budget under a broker is a run of the budget.
  \<^item> Lease: lease.rs, the registry of cleanup actions.  Machine: its operations as a step relation.
  \<^item> Redaction: redaction.rs, with its scanning loops.
  \<^item> Limits: config/execution.rs, policy.rs and target.rs, the ceilings of a run and which targets may be used.
  \<^item> ArtifactModel, ArtifactIdentity, ArtifactValidate, ArtifactContract: plans and receipts
    (model.rs), their validators and content-addressed identities (artifact/identity.rs).  A plan
    that passes validation is what the budget is built from, and the usage a budget reports is what
    a receipt accepts: ArtifactContract proves both.

  \<^bold>\<open>SQL (src/src/postgres).\<close>  SqlModel holds the data of model.rs, SqlLexer lexer.rs, SqlClassify
  classification.rs, SqlShape shape.rs, SqlQuery query.rs.  SqlLexProps and SqlContract prove on which
  texts the lexer panics, that quoting cannot be escaped, that a complete text is balanced, and what an
  eligible query can contain.

  \<^bold>\<open>The source graph and its analyses.\<close>  DomainModel (domain/model.rs, evidence.rs), SourceGraph
  (domain/source_graph.rs), Reachability (analysis/reachability.rs and reachability/targets.rs),
  SourcePolicy (source_policy.rs, paths.rs), DeadCodeModel (dead_code/model.rs, classification.rs),
  DeadCode (dead_code/analyze.rs).  ReachProps states reachability over relations and proves the
  loops exact; ReachContract has the theorems, DeadCodeProps and DeadCodeContract those of the report.
  Inspection and InspectionProps are inspection/projection.rs: requests, cursors, pages, and expansion
  in order of distance.  ContextSlice and ContextSliceProps are context_slice/slice.rs and targets.rs:
  the slice of a set of targets, and its pages put together again.

  \<^bold>\<open>Testing (src/src/testing).\<close>  TestingModel holds the data of model.rs and of the configuration,
  TestInventory inventory.rs, TestImpact impact.rs, TestWitnesses witnesses.rs.  TestImpactProps states
  the evidence of an impact report over the graph and proves the four selections exact; TestWitnessProps
  does so for the statuses of witnesses.

  \<^bold>\<open>Architecture (src/src/architecture).\<close>
  \<^item> ArchModel (model.rs, diagnostic.rs, digest.rs) and ArchVocabulary (vocabulary.rs): diagnostics,
    digests, and the validation of one document.
  \<^item> ArchDocuments: documents.rs, from the paths of roots to a set of documents.  ArchDocumentsProps
    and ArchDocumentsContract: the loop over paths, the search for cycles, what a loaded set promises, and
    that the digest of an import closure is that of exactly the documents in it.
  \<^item> ArchGraph: graph.rs, the compiler of a set into a graph.  ArchGraphProps, ArchContents and
    ArchContract: imports, active declarations, references and constraints of a compiled graph.
  \<^item> ArchCompiler: compiler.rs and baseline.rs, the compile command with its lock file, and the check of a
    saved compilation, after which the evaluation of conformance returns.
  \<^item> ArchObservation: observation/mod.rs.  ArchConformance: conformance.rs and the exceptions of
    policy.rs.  ArchConformanceProps and ArchObservationProps: the verdict of a binding, the evidence that
    errors and matches rest on, and how manifests decide bindings from observation to result.

  \<^bold>\<open>Correspondence.\<close>  A struct is a record, an enum a datatype, BTreeMap and BTreeSet are the sorted
  lists of BTree, u64 is a natural number (bounded, or saturated as the code does, where it could
  exceed 64 bits), errors are values of a sum type, a panic is the value None of an
  option where the code can panic.  Iteration orders follow the sorted maps and the order of vectors.

  \<^bold>\<open>Bounds and fuel.\<close>  The loops of the lexer and of the redactor recurse on the remaining text, those
  of the searches on the nodes not yet visited, that of document loading on the room for documents and
  then on the queue.  Four functions have fuel.  file_language (DeadCode) follows a symbol to its file with
  one unit per node and one more, so it runs out only on a cycle of symbols, on which the code does not return;
  the graph's validation excludes it.  cycle_loop and path_loop (ArchGraph) are searches whose fuel
  bounds the pushes on their stack, and visit (ArchDocuments) recurses at most once per active document;
  for these three the fuel is proved to be enough.

  \<^bold>\<open>Parameters.\<close>  SHA-256 is a function argument, and the theorems that need it to tell two texts
  apart name that as a hypothesis on these two texts.  The serialization of bodies and the RFC 8785
  canonicalizer, the debug rendering of strings, pathdiff and the package version of a plan are arguments too; so
  are base64 and the JSON codec of cursors, globset, the scripts of package manifests, the JSON schema
  validator, the file system and YAML parser of the document loader, the index of manifests of an
  observation, and the derived serializers.

  \<^bold>\<open>Not modelled.\<close>  What drives processes, containers, sockets, files and databases; the language
  scanners, whose work is on syntax trees of third-party parsers; the renderers of reports; the
  configuration's file loading; the lexicon, whose scores are heuristic; the OpenAPI and catalog
  readers; and of the architecture code the YAML reader, the walk over manifests, the loading of policies
  and the query of providers.
\<close>

end
